(* ===== verification/Stbi_Prelude.thy ===== *)
theory Stbi_Prelude
  imports Main "HOL-Library.Word" "HOL-Library.Signed_Division"
begin

text \<open>
  Shared ground of the development: the C types the sources use, the result type that every
  fallible routine returns, checked array access, counted loops, and the partial-correctness
  judgement \<open>ensures\<close> in which the absence of undefined behaviour is stated.

  Conventions. A C \<open>int\<close> is an \<open>int\<close> (the code treats signed overflow as an error, so the size
  lemmas show that it does not happen); \<open>stbi_uc\<close>, \<open>stbi__uint16\<close> and \<open>stbi__uint32\<close> are words
  of their width, because the code relies on their wrap-around.
\<close>

section \<open>C types\<close>

type_synonym stbi_uc = "8 word"
type_synonym stbi_us = "16 word"
type_synonym uint32 = "32 word"

definition INT_MAX :: int where "INT_MAX = 2 ^ 31 - 1"
definition INT_MIN :: int where "INT_MIN = - (2 ^ 31)"
definition SHRT_MAX :: int where "SHRT_MAX = 2 ^ 15 - 1"
definition SHRT_MIN :: int where "SHRT_MIN = - (2 ^ 15)"
definition UINT_MAX :: nat where "UINT_MAX = 2 ^ 32 - 1"

lemmas c_limits = INT_MAX_def INT_MIN_def SHRT_MAX_def SHRT_MIN_def UINT_MAX_def

text \<open>Reading a \<open>stbi__uint32\<close> as \<open>int\<close> (a C conversion that keeps the bit pattern), the
  truncation of an \<open>int\<close> to a byte that \<open>STBI__BYTECAST\<close> and the casts to \<open>stbi_uc\<close> do, and the
  conversions to the 16-bit types.\<close>

definition int_of_u32 :: "uint32 \<Rightarrow> int" where
  "int_of_u32 w = sint w"

definition STBI__BYTECAST :: "int \<Rightarrow> stbi_uc" where
  "STBI__BYTECAST x = word_of_int x"

definition u16cast :: "int \<Rightarrow> stbi_us" where
  "u16cast x = word_of_int x"

definition u32cast :: "int \<Rightarrow> uint32" where
  "u32cast x = word_of_int x"

definition shortcast :: "int \<Rightarrow> int" where
  "shortcast x = sint (word_of_int x :: stbi_us)"

section \<open>Results\<close>

text \<open>
  A routine of the library fails in one of three ways: \<open>Failure reason\<close> is
  \<open>return stbi__err(reason, \<dots>)\<close>, which leaves \<open>reason\<close> in \<open>stbi__g_failure_reason\<close>; \<open>Silent\<close> is
  a bare \<open>return 0\<close>; \<open>Undefined\<close> marks a point where the C program would have no defined
  behaviour any more (an array access out of bounds, a shift by the width or more, a failed
  \<open>STBI_ASSERT\<close>); \<open>NoReturn\<close> marks a loop that used up the fuel the model gives it. That neither
  of the last two is produced is a theorem about each component.
\<close>

datatype failure = Failure string | Silent | Undefined | NoReturn

definition regular :: "failure \<Rightarrow> bool" where
  "regular e \<longleftrightarrow> e \<noteq> Undefined \<and> e \<noteq> NoReturn"

lemma regular_simps [simp]:
  "regular (Failure r)" "regular Silent" "\<not> regular Undefined" "\<not> regular NoReturn"
  by (simp_all add: regular_def)

type_synonym 'a res = "failure + 'a"

definition ebind :: "'a res \<Rightarrow> ('a \<Rightarrow> 'b res) \<Rightarrow> 'b res" where
  "ebind m f = (case m of Inl e \<Rightarrow> Inl e | Inr x \<Rightarrow> f x)"

lemma ebind_simps [simp]:
  "ebind (Inl e) f = Inl e"
  "ebind (Inr x) f = f x"
  by (simp_all add: ebind_def)

lemma ebind_cong [fundef_cong]:
  assumes "m = m'" and "\<And>x. m' = Inr x \<Longrightarrow> f x = g x"
  shows "ebind m f = ebind m' g"
  using assms by (auto simp: ebind_def split: sum.splits)

lemma ebind_assoc: "ebind (ebind m f) g = ebind m (\<lambda>x. ebind (f x) g)"
  by (cases m) simp_all

lemma ebind_eq_Inr: "ebind m f = Inr y \<longleftrightarrow> (\<exists>x. m = Inr x \<and> f x = Inr y)"
  by (cases m) simp_all

lemma ebind_InrE:
  assumes "ebind m f = Inr y"
  obtains x where "m = Inr x" and "f x = Inr y"
  using assms by (auto simp: ebind_eq_Inr)

lemma ebind_split: "P (ebind m f) \<longleftrightarrow> (\<forall>e. m = Inl e \<longrightarrow> P (Inl e)) \<and> (\<forall>x. m = Inr x \<longrightarrow> P (f x))"
  by (cases m) simp_all

section \<open>The judgement \<open>ensures\<close>\<close>

text \<open>\<open>ensures m Q\<close>: the run \<open>m\<close> returns without undefined behaviour, and when it succeeds its
  value satisfies \<open>Q\<close>. The rules for the combinators are collected in \<open>ens\<close>.\<close>

definition ensures :: "'a res \<Rightarrow> ('a \<Rightarrow> bool) \<Rightarrow> bool" where
  "ensures m Q = (case m of Inl e \<Rightarrow> regular e | Inr x \<Rightarrow> Q x)"

named_theorems ens \<open>rules for the judgement ensures\<close>

lemma ensures_simps [simp]:
  "ensures (Inl e) Q \<longleftrightarrow> regular e"
  "ensures (Inr x) Q \<longleftrightarrow> Q x"
  by (simp_all add: ensures_def)

lemma ensures_Inr: "ensures m Q \<Longrightarrow> m = Inr x \<Longrightarrow> Q x"
  by simp

lemma ensures_not_Undefined: "ensures m Q \<Longrightarrow> m \<noteq> Inl Undefined"
  by auto

lemma ensures_bind [ens]:
  assumes "ensures m P" and "\<And>x. P x \<Longrightarrow> ensures (f x) Q"
  shows "ensures (ebind m f) Q"
  using assms by (cases m) simp_all

lemma ensures_mono:
  assumes "ensures m P" and "\<And>x. P x \<Longrightarrow> Q x"
  shows "ensures m Q"
  using assms by (cases m) simp_all

lemma ensures_conj: "ensures m P \<Longrightarrow> ensures m Q \<Longrightarrow> ensures m (\<lambda>x. P x \<and> Q x)"
  by (cases m) simp_all

lemma ensures_if [ens]:
  assumes "b \<Longrightarrow> ensures m Q" and "\<not> b \<Longrightarrow> ensures n Q"
  shows "ensures (if b then m else n) Q"
  using assms by simp

lemma ensures_iff:
  "ensures m Q \<longleftrightarrow> m \<noteq> Inl Undefined \<and> m \<noteq> Inl NoReturn \<and> (\<forall>x. m = Inr x \<longrightarrow> Q x)"
  by (cases m) (auto simp: regular_def)

section \<open>Checked array access\<close>

definition arr_get :: "'a list \<Rightarrow> int \<Rightarrow> 'a res" where
  "arr_get xs i = (if 0 \<le> i \<and> i < int (length xs) then Inr (xs ! nat i) else Inl Undefined)"

definition arr_set :: "'a list \<Rightarrow> int \<Rightarrow> 'a \<Rightarrow> 'a list res" where
  "arr_set xs i v =
     (if 0 \<le> i \<and> i < int (length xs) then Inr (xs[nat i := v]) else Inl Undefined)"

lemma arr_get_in [simp]: "0 \<le> i \<Longrightarrow> i < int (length xs) \<Longrightarrow> arr_get xs i = Inr (xs ! nat i)"
  by (simp add: arr_get_def)

lemma arr_get_nat [simp]: "i < length xs \<Longrightarrow> arr_get xs (int i) = Inr (xs ! i)"
  by (simp add: arr_get_def)

lemma arr_set_in [simp]: "0 \<le> i \<Longrightarrow> i < int (length xs) \<Longrightarrow> arr_set xs i v = Inr (xs[nat i := v])"
  by (simp add: arr_set_def)

lemma arr_set_nat [simp]: "i < length xs \<Longrightarrow> arr_set xs (int i) v = Inr (xs[i := v])"
  by (simp add: arr_set_def)

lemma arr_set_length: "arr_set xs i v = Inr ys \<Longrightarrow> length ys = length xs"
  by (auto simp: arr_set_def split: if_splits)

lemma ensures_arr_get [ens]:
  assumes "0 \<le> i" and "i < int (length xs)" and "Q (xs ! nat i)"
  shows "ensures (arr_get xs i) Q"
  using assms by simp

lemma ensures_arr_set [ens]:
  assumes "0 \<le> i" and "i < int (length xs)" and "Q (xs[nat i := v])"
  shows "ensures (arr_set xs i v) Q"
  using assms by simp

section \<open>Counted loops\<close>

text \<open>\<open>efold f is s\<close> runs the body \<open>f i\<close> on the state for each \<open>i\<close> of the list in turn and stops
  at the first failure: \<open>for (i = 0; i < n; ++i) body\<close> is \<open>efold body [0..<n]\<close>.\<close>

fun efold :: "('i \<Rightarrow> 's \<Rightarrow> 's res) \<Rightarrow> 'i list \<Rightarrow> 's \<Rightarrow> 's res" where
  "efold f [] s = Inr s"
| "efold f (i # is) s = ebind (f i s) (efold f is)"

lemma efold_append: "efold f (is @ js) s = ebind (efold f is s) (efold f js)"
proof (induction "is" arbitrary: s)
  case (Cons i "is")
  then have "efold f (is @ js) = (\<lambda>s. ebind (efold f is s) (efold f js))" by blast
  then show ?case by (simp add: ebind_assoc)
qed simp

lemma efold_cong [fundef_cong]:
  assumes "is = js" and "s = t" and "\<And>i s. i \<in> set js \<Longrightarrow> f i s = g i s"
  shows "efold f is s = efold g js t"
  using assms(3) unfolding assms(1,2)
  by (induction js arbitrary: t) (auto simp: ebind_def split: sum.splits)

lemma ensures_efold:
  assumes "P s" and "\<And>i s. i \<in> set is \<Longrightarrow> P s \<Longrightarrow> ensures (f i s) P"
  shows "ensures (efold f is s) P"
  using assms
proof (induction "is" arbitrary: s)
  case (Cons i "is")
  show ?case
    using Cons.prems by (auto intro!: ensures_bind [where P = P] Cons.IH)
qed simp

text \<open>The loop rule with an invariant that depends on the loop counter.\<close>

lemma ensures_efold_upt:
  assumes "P m s" and "m \<le> n"
    and "\<And>i s. m \<le> i \<Longrightarrow> i < n \<Longrightarrow> P i s \<Longrightarrow> ensures (f i s) (P (Suc i))"
  shows "ensures (efold f [m..<n] s) (P n)"
  using assms
proof (induction "n - m" arbitrary: m s)
  case 0
  then show ?case by simp
next
  case (Suc d)
  then have lt: "m < n" by simp
  have "ensures (f m s) (P (Suc m))"
    using Suc.prems lt by simp
  then have "ensures (ebind (f m s) (efold f [Suc m..<n])) (P n)"
    by (rule ensures_bind) (use Suc lt in auto)
  then show ?case using lt by (simp add: upt_conv_Cons)
qed

lemma efold_Inr_upt:
  assumes "\<And>i. m \<le> i \<Longrightarrow> i < n \<Longrightarrow> f i (st i) = Inr (st (Suc i))" and "m \<le> n"
  shows "efold f [m..<n] (st m) = Inr (st n)"
  using assms
proof (induction "n - m" arbitrary: m)
  case 0
  then show ?case by simp
next
  case (Suc d)
  then show ?case by (simp add: upt_conv_Cons)
qed

lemma efold_Inr_down:
  assumes "\<And>i. i < n \<Longrightarrow> f i (st (Suc i)) = Inr (st i)"
  shows "efold f (rev [0..<n]) (st n) = Inr (st 0)"
  using assms by (induction n) simp_all

text \<open>What a successful loop keeps, when a failure needs no attention.\<close>

lemma efold_Inr_inv:
  assumes "efold f is s = Inr t" and "P s"
    and "\<And>i s s'. i \<in> set is \<Longrightarrow> f i s = Inr s' \<Longrightarrow> P s \<Longrightarrow> P s'"
  shows "P t"
  using assms
proof (induction "is" arbitrary: s)
  case (Cons i "is")
  then obtain s' where "f i s = Inr s'" "efold f is s' = Inr t"
    by (auto simp: ebind_eq_Inr)
  with Cons show ?case by (metis list.set_intros)
qed simp

section \<open>Runs of stores and swaps\<close>

text \<open>\<open>a[off] = v\<^sub>0; a[off + 1] = v\<^sub>1; \<dots>\<close>, and the exchange of the \<open>n\<close> elements from \<open>i\<close> on with
  those from \<open>j\<close> on, one by one.\<close>

definition store_from :: "'a list \<Rightarrow> int \<Rightarrow> 'a list \<Rightarrow> 'a list res" where
  "store_from xs off vals = efold (\<lambda>k xs. arr_set xs (off + int k) (vals ! k)) [0..<length vals] xs"

lemma ensures_store_from:
  assumes "0 \<le> off" and "off + int (length vals) \<le> int (length xs)"
  shows "ensures (store_from xs off vals) (\<lambda>ys. length ys = length xs)"
  unfolding store_from_def
  by (rule ensures_efold) (use assms in \<open>auto intro!: ensures_arr_set\<close>)

definition swap_elems :: "nat \<Rightarrow> nat \<Rightarrow> nat \<Rightarrow> 'a list \<Rightarrow> 'a list res" where
  "swap_elems i j n xs =
     efold (\<lambda>k xs.
       ebind (arr_get xs (int (i + k))) (\<lambda>a. ebind (arr_get xs (int (j + k))) (\<lambda>b.
       ebind (arr_set xs (int (i + k)) b) (\<lambda>xs. arr_set xs (int (j + k)) a)))) [0..<n] xs"

section \<open>Words and bits\<close>

unbundle bit_operations_syntax

lemma uint_bounds8: "0 \<le> uint (w :: 8 word)" "uint (w :: 8 word) < 256" "uint (w :: 8 word) \<le> 255"
  using uint_lt2p [of w] by auto

lemma unat_bounds8: "unat (w :: 8 word) < 256" "unat (w :: 8 word) \<le> 255"
proof -
  have "unat w < 2 ^ LENGTH(8)" by (rule unsigned_less)
  then show "unat w < 256" and "unat w \<le> 255" by simp_all
qed

lemma uint_bounds16: "0 \<le> uint (w :: 16 word)" "uint (w :: 16 word) < 65536"
  using uint_lt2p [of w] by auto

lemma uint_bounds32: "0 \<le> uint (w :: 32 word)" "uint (w :: 32 word) < 4294967296"
  using uint_lt2p [of w] by auto

lemma sint_small32: "unat w < 2 ^ 31 \<Longrightarrow> sint w = int (unat w)" for w :: uint32
proof -
  assume "unat w < 2 ^ 31"
  then have "int (unat w) < int (2 ^ 31)" by (rule iffD2 [OF of_nat_less_iff])
  then have "uint w < 2 ^ (LENGTH(32) - 1)" by simp
  then have "signed_take_bit (LENGTH(32) - 1) (uint w) = uint w"
    by (intro signed_take_bit_int_eq_self) (simp_all add: order_trans [OF _ uint_bounds32(1)])
  then show ?thesis by (simp add: sint_uint)
qed

lemma sint_nonneg32: "0 \<le> sint w \<Longrightarrow> unat w < 2 ^ 31" for w :: uint32
proof -
  assume "0 \<le> sint w"
  then have "\<not> bit (uint w) 31"
    by (simp add: sint_uint signed_take_bit_nonnegative_iff)
  then have "take_bit (Suc 31) (uint w) = take_bit 31 (uint w)"
    by (simp only: take_bit_Suc_from_most) simp
  moreover have "uint w = take_bit (Suc 31) (uint w)"
    using uint_bounds32 [of w] by (simp add: take_bit_eq_mod)
  ultimately have "uint w = take_bit 31 (uint w)" by (rule back_subst [where P = "\<lambda>x. uint w = x", rotated])
  also have "take_bit 31 (uint w) < 2 ^ 31" by (rule take_bit_int_less_exp)
  finally have "int (unat w) < int (2 ^ 31)" by simp
  then show ?thesis by (rule iffD1 [OF of_nat_less_iff])
qed

lemma BYTECAST_uint [simp]: "STBI__BYTECAST (uint w) = w"
  by (simp add: STBI__BYTECAST_def)

lemma uint_BYTECAST: "uint (STBI__BYTECAST x) = x mod 256"
  by (simp add: STBI__BYTECAST_def uint_word_of_int)

lemma uint_BYTECAST_id: "0 \<le> x \<Longrightarrow> x < 256 \<Longrightarrow> uint (STBI__BYTECAST x) = x"
  by (simp add: uint_BYTECAST)

lemma BYTECAST_mod: "STBI__BYTECAST (x mod 256) = STBI__BYTECAST x"
  by (rule word_uint_eqI) (simp add: uint_BYTECAST)

lemma BYTECAST_add: "STBI__BYTECAST (x + y) = STBI__BYTECAST x + STBI__BYTECAST y"
  by (simp add: STBI__BYTECAST_def)

end
