(* ===== verification/Stbi_Alloc.thy ===== *)
theory Stbi_Alloc
  imports Stbi_Prelude
begin

text \<open>
  The size arithmetic of \<open>src/stb_image.h\<close>, lines 991-1086: the overflow checks every decoder
  runs before it allocates, and the allocation helpers. An allocation is modelled by the size of
  the block it returns (\<open>None\<close> is the \<open>NULL\<close> of a failed check); a request whose size passes the
  check is taken to succeed. The lemmas show that the checks decide exactly whether the
  mathematical size fits, so that no product or sum the code forms afterwards overflows.
\<close>

section \<open>Definitions\<close>

definition stbi__addsizes_valid :: "int \<Rightarrow> int \<Rightarrow> bool" where
  "stbi__addsizes_valid a b = (if b < 0 then False else a \<le> INT_MAX - b)"

definition stbi__mul2sizes_valid :: "int \<Rightarrow> int \<Rightarrow> bool" where
  "stbi__mul2sizes_valid a b =
     (if a < 0 \<or> b < 0 then False
      else if b = 0 then True
      else a \<le> INT_MAX sdiv b)"

definition stbi__mad2sizes_valid :: "int \<Rightarrow> int \<Rightarrow> int \<Rightarrow> bool" where
  "stbi__mad2sizes_valid a b add =
     (stbi__mul2sizes_valid a b \<and> stbi__addsizes_valid (a * b) add)"

definition stbi__mad3sizes_valid :: "int \<Rightarrow> int \<Rightarrow> int \<Rightarrow> int \<Rightarrow> bool" where
  "stbi__mad3sizes_valid a b c add =
     (stbi__mul2sizes_valid a b \<and> stbi__mul2sizes_valid (a * b) c \<and>
      stbi__addsizes_valid (a * b * c) add)"

definition stbi__mad4sizes_valid :: "int \<Rightarrow> int \<Rightarrow> int \<Rightarrow> int \<Rightarrow> int \<Rightarrow> bool" where
  "stbi__mad4sizes_valid a b c d add =
     (stbi__mul2sizes_valid a b \<and> stbi__mul2sizes_valid (a * b) c \<and>
      stbi__mul2sizes_valid (a * b * c) d \<and> stbi__addsizes_valid (a * b * c * d) add)"

definition stbi__malloc_mad2 :: "int \<Rightarrow> int \<Rightarrow> int \<Rightarrow> nat option" where
  "stbi__malloc_mad2 a b add =
     (if \<not> stbi__mad2sizes_valid a b add then None else Some (nat (a * b + add)))"

definition stbi__malloc_mad3 :: "int \<Rightarrow> int \<Rightarrow> int \<Rightarrow> int \<Rightarrow> nat option" where
  "stbi__malloc_mad3 a b c add =
     (if \<not> stbi__mad3sizes_valid a b c add then None else Some (nat (a * b * c + add)))"

definition stbi__malloc_mad4 :: "int \<Rightarrow> int \<Rightarrow> int \<Rightarrow> int \<Rightarrow> int \<Rightarrow> nat option" where
  "stbi__malloc_mad4 a b c d add =
     (if \<not> stbi__mad4sizes_valid a b c d add then None else Some (nat (a * b * c * d + add)))"

definition stbi__addints_valid :: "int \<Rightarrow> int \<Rightarrow> bool" where
  "stbi__addints_valid a b =
     (if (a \<ge> 0) \<noteq> (b \<ge> 0) then True
      else if a < 0 \<and> b < 0 then a \<ge> INT_MIN - b
      else a \<le> INT_MAX - b)"

definition stbi__mul2shorts_valid :: "int \<Rightarrow> int \<Rightarrow> bool" where
  "stbi__mul2shorts_valid a b =
     (if b = 0 \<or> b = -1 then True
      else if (a \<ge> 0) = (b \<ge> 0) then a \<le> SHRT_MAX sdiv b
      else if b < 0 then a \<le> SHRT_MIN sdiv b
      else a \<ge> SHRT_MIN sdiv b)"

section \<open>The checks decide whether the size fits\<close>

lemma sdiv_pos_nonneg: "0 \<le> a \<Longrightarrow> 0 < b \<Longrightarrow> a sdiv b = a div (b :: int)"
  by (simp add: signed_divide_int_def sgn_if)

lemma sdiv_neg_pos: "a < 0 \<Longrightarrow> 0 < b \<Longrightarrow> a sdiv b = - ((- a) div (b :: int))"
  by (simp add: signed_divide_int_def sgn_if)

lemma le_div_iff_mult:
  assumes "0 < (b :: int)"
  shows "a \<le> c div b \<longleftrightarrow> a * b \<le> c"
proof
  assume "a \<le> c div b"
  then have "a * b \<le> c div b * b" using assms by (simp add: mult_right_mono)
  also have "\<dots> \<le> c" using assms by (simp add: minus_mod_eq_div_mult [symmetric])
  finally show "a * b \<le> c" .
next
  assume "a * b \<le> c"
  then have "a * b div b \<le> c div b" using assms by (rule zdiv_mono1)
  then show "a \<le> c div b" using assms by simp
qed

lemma addsizes_valid_iff: "stbi__addsizes_valid a b \<longleftrightarrow> 0 \<le> b \<and> a + b \<le> INT_MAX"
  by (auto simp: stbi__addsizes_valid_def)

lemma mul2sizes_valid_iff:
  "stbi__mul2sizes_valid a b \<longleftrightarrow> 0 \<le> a \<and> 0 \<le> b \<and> a * b \<le> INT_MAX"
proof -
  have "a \<le> INT_MAX div b \<longleftrightarrow> a * b \<le> INT_MAX" if "0 < b"
    using that by (rule le_div_iff_mult)
  moreover have "INT_MAX sdiv b = INT_MAX div b" if "0 < b"
    using that by (simp add: sdiv_pos_nonneg INT_MAX_def)
  ultimately show ?thesis
    by (cases "b = 0") (auto simp: stbi__mul2sizes_valid_def INT_MAX_def)
qed

lemma mad2sizes_valid_iff:
  "stbi__mad2sizes_valid a b add \<longleftrightarrow> 0 \<le> a \<and> 0 \<le> b \<and> 0 \<le> add \<and> a * b + add \<le> INT_MAX"
  by (auto simp: stbi__mad2sizes_valid_def mul2sizes_valid_iff addsizes_valid_iff)

lemma mad3sizes_valid_iff:
  "stbi__mad3sizes_valid a b c add \<longleftrightarrow>
     0 \<le> a \<and> 0 \<le> b \<and> 0 \<le> c \<and> 0 \<le> add \<and> a * b \<le> INT_MAX \<and> a * b * c + add \<le> INT_MAX"
  by (auto simp: stbi__mad3sizes_valid_def mul2sizes_valid_iff addsizes_valid_iff)

lemma mad4sizes_valid_iff:
  "stbi__mad4sizes_valid a b c d add \<longleftrightarrow>
     0 \<le> a \<and> 0 \<le> b \<and> 0 \<le> c \<and> 0 \<le> d \<and> 0 \<le> add \<and> a * b \<le> INT_MAX \<and> a * b * c \<le> INT_MAX \<and>
     a * b * c * d + add \<le> INT_MAX"
  by (auto simp: stbi__mad4sizes_valid_def mul2sizes_valid_iff addsizes_valid_iff)

lemmas size_checks = addsizes_valid_iff mul2sizes_valid_iff mad2sizes_valid_iff
  mad3sizes_valid_iff mad4sizes_valid_iff

lemma mul2shorts_valid_nonneg:
  assumes "0 \<le> b"
  shows "stbi__mul2shorts_valid a b \<longleftrightarrow> SHRT_MIN \<le> a * b \<and> a * b \<le> SHRT_MAX"
proof (cases "b = 0")
  case True
  then show ?thesis by (simp add: stbi__mul2shorts_valid_def c_limits)
next
  case False
  with assms have b: "0 < b" by simp
  show ?thesis
  proof (cases "0 \<le> a")
    case True
    with b have "a \<le> SHRT_MAX sdiv b \<longleftrightarrow> a * b \<le> SHRT_MAX"
      by (simp add: sdiv_pos_nonneg SHRT_MAX_def le_div_iff_mult)
    moreover have "0 \<le> a * b" using True b by simp
    then have "SHRT_MIN \<le> a * b" by (rule order_trans [rotated]) (simp add: SHRT_MIN_def)
    ultimately show ?thesis
      using True b by (simp add: stbi__mul2shorts_valid_def)
  next
    case neg: False
    have "SHRT_MIN sdiv b \<le> a \<longleftrightarrow> - a \<le> (- SHRT_MIN) div b"
      by (subst sdiv_neg_pos) (use b in \<open>auto simp: SHRT_MIN_def\<close>)
    also have "\<dots> \<longleftrightarrow> SHRT_MIN \<le> a * b"
      using b by (simp add: le_div_iff_mult)
    moreover have "a * b \<le> 0" using neg b by (simp add: mult_nonpos_nonneg)
    then have "a * b \<le> SHRT_MAX" by (rule order_trans) (simp add: SHRT_MAX_def)
    ultimately show ?thesis
      using neg b by (simp add: stbi__mul2shorts_valid_def)
  qed
qed


lemma addints_valid_iff:
  assumes "INT_MIN \<le> a" "a \<le> INT_MAX" "INT_MIN \<le> b" "b \<le> INT_MAX"
  shows "stbi__addints_valid a b \<longleftrightarrow> INT_MIN \<le> a + b \<and> a + b \<le> INT_MAX"
  using assms by (auto simp: stbi__addints_valid_def c_limits)

section \<open>Properties\<close>

text \<open>C24. The allocation helpers of the decoders refuse exactly the requests whose size, computed
  step by step without wrap-around, does not fit an \<open>int\<close>: when \<open>stbi__malloc_mad3\<close> or
  \<open>stbi__malloc_mad4\<close> returns a block, none of the factors is negative, no intermediate product
  overflows, and the block has exactly the number of bytes asked for.\<close>

theorem malloc_mad_exact:
  "(stbi__malloc_mad3 a b c add = Some n \<longleftrightarrow>
      0 \<le> a \<and> 0 \<le> b \<and> 0 \<le> c \<and> 0 \<le> add \<and> a * b \<le> INT_MAX \<and> a * b * c + add \<le> INT_MAX \<and>
      int n = a * b * c + add) \<and>
   (stbi__malloc_mad4 a b c d add = Some n \<longleftrightarrow>
      0 \<le> a \<and> 0 \<le> b \<and> 0 \<le> c \<and> 0 \<le> d \<and> 0 \<le> add \<and> a * b \<le> INT_MAX \<and> a * b * c \<le> INT_MAX \<and>
      a * b * c * d + add \<le> INT_MAX \<and> int n = a * b * c * d + add)"
  by (auto simp: stbi__malloc_mad3_def stbi__malloc_mad4_def size_checks)

text \<open>C25. The two checks the JPEG decoder guards its arithmetic with are exact: on \<open>int\<close> operands
  \<open>stbi__addints_valid\<close> says whether the sum is an \<open>int\<close>, and for a non-negative second factor (the
  dequantisation coefficients are unsigned) \<open>stbi__mul2shorts_valid\<close> says whether the product is a
  \<open>short\<close>.\<close>

theorem jpeg_checks_exact:
  assumes "INT_MIN \<le> a" "a \<le> INT_MAX" "INT_MIN \<le> b" "b \<le> INT_MAX" "0 \<le> q"
  shows "(stbi__addints_valid a b \<longleftrightarrow> a + b \<in> {INT_MIN..INT_MAX}) \<and>
    (stbi__mul2shorts_valid a q \<longleftrightarrow> a * q \<in> {SHRT_MIN..SHRT_MAX})"
  using assms by (simp add: addints_valid_iff mul2shorts_valid_nonneg)

theorem jpeg_checks_exact_witness:
  "stbi__addints_valid 2147483647 (-1) \<and> stbi__mul2shorts_valid 2147483647 0"
  using jpeg_checks_exact [of 2147483647 "-1" 0] by (simp add: c_limits)

text \<open>For two negative factors the second check is wrong both ways, although its comment says it
  tests whether the product fits a \<open>short\<close>: 80000 is accepted and 2 is refused.\<close>

lemma mul2shorts_valid_negative:
  "stbi__mul2shorts_valid (-40000) (-2) \<and> \<not> stbi__mul2shorts_valid (-1) (-2)"
  by (simp add: stbi__mul2shorts_valid_def c_limits signed_divide_int_def sgn_if)

end
