(* ===== verification/Stbi_Context.thy ===== *)
theory Stbi_Context
  imports Stbi_Alloc
begin

text \<open>
  The input side of \<open>src/stb_image.h\<close>: \<open>stbi__context\<close> and the routines every decoder reads its
  bytes with (lines 805-899 and 1597-1730). A context reads from a caller's memory block
  (\<open>io.read == NULL\<close>) or from user callbacks through the 128-byte buffer \<open>buffer_start\<close>.

  The contract of the callbacks is the locale \<open>io_source\<close>; in it we show once that the buffered
  reads deliver the stream of bytes the source holds, followed by zeros. It is interpreted on the
  \<open>stdio\<close> callbacks of the source (\<open>stbi__stdio_read\<close> and its siblings over a model of \<open>FILE\<close>).
\<close>

section \<open>The context\<close>

text \<open>\<open>io_read cb u n\<close> is \<open>cb.read(u, data, n)\<close>: the bytes stored at \<open>data\<close> (their number is
  the return value) and the new state of the user's data.\<close>

record 'u stbi_io_callbacks =
  io_read :: "'u \<Rightarrow> int \<Rightarrow> stbi_uc list \<times> 'u"
  io_skip :: "'u \<Rightarrow> int \<Rightarrow> 'u"
  io_eof  :: "'u \<Rightarrow> bool"

text \<open>The pointers \<open>img_buffer\<close>, \<open>img_buffer_end\<close> and their \<open>_original\<close> copies are offsets into
  \<open>buffer\<close>, the memory they point into: the caller's block, or \<open>buffer_start\<close>.\<close>

record 'u stbi__context =
  img_x :: uint32
  img_y :: uint32
  img_n :: int
  img_out_n :: int
  io :: "'u stbi_io_callbacks option"
  io_user_data :: 'u
  read_from_callbacks :: bool
  buflen :: int
  callback_already_read :: int
  buffer :: "stbi_uc list"
  img_buffer :: nat
  img_buffer_end :: nat
  img_buffer_original :: nat
  img_buffer_original_end :: nat

definition stbi__start_mem :: "'u stbi__context \<Rightarrow> stbi_uc list \<Rightarrow> 'u stbi__context" where
  "stbi__start_mem s data =
     s\<lparr>io := None, read_from_callbacks := False, callback_already_read := 0, buffer := data,
       img_buffer := 0, img_buffer_original := 0,
       img_buffer_end := length data, img_buffer_original_end := length data\<rparr>"

definition stbi__refill_buffer :: "'u stbi__context \<Rightarrow> 'u stbi__context" where
  "stbi__refill_buffer s =
     (case io s of
        None \<Rightarrow> s
      | Some cb \<Rightarrow>
          (let (bytes, u) = io_read cb (io_user_data s) (buflen s);
               n = length bytes;
               s = s\<lparr>io_user_data := u, buffer := bytes @ drop n (buffer s),
                     callback_already_read :=
                       callback_already_read s + (int (img_buffer s) - int (img_buffer_original s))\<rparr>
           in if n = 0
              then s\<lparr>read_from_callbacks := False, img_buffer := 0, img_buffer_end := 1,
                     buffer := (buffer s)[0 := 0]\<rparr>
              else s\<lparr>img_buffer := 0, img_buffer_end := n\<rparr>))"

definition stbi__start_callbacks ::
    "'u stbi__context \<Rightarrow> 'u stbi_io_callbacks \<Rightarrow> 'u \<Rightarrow> stbi_uc list \<Rightarrow> 'u stbi__context" where
  "stbi__start_callbacks s c user buffer_start =
     (let s = s\<lparr>io := Some c, io_user_data := user, buflen := int (length buffer_start),
                read_from_callbacks := True, callback_already_read := 0,
                buffer := buffer_start, img_buffer := 0, img_buffer_original := 0\<rparr>;
          s = stbi__refill_buffer s
      in s\<lparr>img_buffer_original_end := img_buffer_end s\<rparr>)"

definition stbi__rewind :: "'u stbi__context \<Rightarrow> 'u stbi__context" where
  "stbi__rewind s =
     s\<lparr>img_buffer := img_buffer_original s, img_buffer_end := img_buffer_original_end s\<rparr>"

definition stbi__get8 :: "'u stbi__context \<Rightarrow> stbi_uc \<times> 'u stbi__context" where
  "stbi__get8 s =
     (if img_buffer s < img_buffer_end s
      then (buffer s ! img_buffer s, s\<lparr>img_buffer := img_buffer s + 1\<rparr>)
      else if read_from_callbacks s
      then (let s = stbi__refill_buffer s
            in (buffer s ! img_buffer s, s\<lparr>img_buffer := img_buffer s + 1\<rparr>))
      else (0, s))"

definition stbi__at_eof :: "'u stbi__context \<Rightarrow> bool" where
  "stbi__at_eof s =
     (case io s of
        None \<Rightarrow> img_buffer s \<ge> img_buffer_end s
      | Some cb \<Rightarrow>
          (if \<not> io_eof cb (io_user_data s) then False
           else if \<not> read_from_callbacks s then True
           else img_buffer s \<ge> img_buffer_end s))"

definition stbi__skip :: "'u stbi__context \<Rightarrow> int \<Rightarrow> 'u stbi__context" where
  "stbi__skip s n =
     (if n = 0 then s
      else if n < 0 then s\<lparr>img_buffer := img_buffer_end s\<rparr>
      else case io s of
             Some cb \<Rightarrow>
               (let blen = int (img_buffer_end s) - int (img_buffer s)
                in if blen < n
                   then s\<lparr>img_buffer := img_buffer_end s,
                          io_user_data := io_skip cb (io_user_data s) (n - blen)\<rparr>
                   else s\<lparr>img_buffer := img_buffer s + nat n\<rparr>)
           | None \<Rightarrow> s\<lparr>img_buffer := img_buffer s + nat n\<rparr>)"

text \<open>\<open>stbi__getn\<close> copies \<open>n\<close> bytes to the caller's buffer; \<open>None\<close> is its result 0. The
  callers that do not look at the result (raw TGA rows, flat HDR data) use \<open>getn_stored\<close>, which gives the
  bytes stored by a short read too.\<close>

definition getn_buffered :: "'u stbi__context \<Rightarrow> nat \<Rightarrow> stbi_uc list option \<times> 'u stbi__context" where
  "getn_buffered s n =
     (if img_buffer s + n \<le> img_buffer_end s
      then (Some (take n (drop (img_buffer s) (buffer s))), s\<lparr>img_buffer := img_buffer s + n\<rparr>)
      else (None, s))"

definition stbi__getn :: "'u stbi__context \<Rightarrow> nat \<Rightarrow> stbi_uc list option \<times> 'u stbi__context" where
  "stbi__getn s n =
     (case io s of
        Some cb \<Rightarrow>
          (let blen = int (img_buffer_end s) - int (img_buffer s)
           in if blen < int n
              then (let (bytes, u) = io_read cb (io_user_data s) (int n - blen);
                        res = (int (length bytes) = int n - blen)
                    in (if res
                        then Some (take (nat blen) (drop (img_buffer s) (buffer s)) @ bytes)
                        else None,
                        s\<lparr>img_buffer := img_buffer_end s, io_user_data := u\<rparr>))
              else getn_buffered s n)
      | None \<Rightarrow> getn_buffered s n)"

definition stbi__get16be :: "'u stbi__context \<Rightarrow> int \<times> 'u stbi__context" where
  "stbi__get16be s =
     (let (z, s) = stbi__get8 s; (y, s) = stbi__get8 s in (uint z * 256 + uint y, s))"

definition stbi__get32be :: "'u stbi__context \<Rightarrow> uint32 \<times> 'u stbi__context" where
  "stbi__get32be s =
     (let (z, s) = stbi__get16be s; (y, s) = stbi__get16be s
      in (push_bit 16 (u32cast z) + u32cast y, s))"

definition stbi__get16le :: "'u stbi__context \<Rightarrow> int \<times> 'u stbi__context" where
  "stbi__get16le s =
     (let (z, s) = stbi__get8 s; (y, s) = stbi__get8 s in (uint z + uint y * 256, s))"

definition stbi__get32le :: "'u stbi__context \<Rightarrow> uint32 \<times> 'u stbi__context" where
  "stbi__get32le s =
     (let (z, s) = stbi__get16le s; (y, s) = stbi__get16le s
      in (u32cast z + push_bit 16 (u32cast y), s))"

section \<open>Memory contexts\<close>

text \<open>The bytes a memory context still has to deliver, and its well-formedness: the end pointer
  is inside the block. Skipping may move \<open>img_buffer\<close> past the end.\<close>

definition stream :: "'u stbi__context \<Rightarrow> stbi_uc list" where
  "stream s = drop (img_buffer s) (take (img_buffer_end s) (buffer s))"

definition mem_ctx :: "'u stbi__context \<Rightarrow> bool" where
  "mem_ctx s \<longleftrightarrow> io s = None \<and> \<not> read_from_callbacks s \<and> img_buffer_end s = length (buffer s) \<and>
     img_buffer_original s = 0 \<and> img_buffer_original_end s = length (buffer s)"

lemma start_mem_ctx [simp]: "mem_ctx (stbi__start_mem s data)"
  by (simp add: mem_ctx_def stbi__start_mem_def)

lemma stream_start_mem [simp]: "stream (stbi__start_mem s data) = data"
  by (simp add: stream_def stbi__start_mem_def)

lemma mem_rewind:
  assumes "mem_ctx s"
  shows "mem_ctx (stbi__rewind s)" and "stream (stbi__rewind s) = buffer s"
    and "buffer (stbi__rewind s) = buffer s"
  using assms by (simp_all add: mem_ctx_def stbi__rewind_def stream_def)

named_theorems ctx_simps \<open>what the reading routines return on a memory context\<close>

text \<open>What a read leaves alone.\<close>

definition same_img :: "'u stbi__context \<Rightarrow> 'u stbi__context \<Rightarrow> bool" where
  "same_img s t \<longleftrightarrow> img_x s = img_x t \<and> img_y s = img_y t \<and> img_n s = img_n t \<and>
     img_out_n s = img_out_n t"

lemma same_img_refl [simp]: "same_img s s"
  by (simp add: same_img_def)

lemma same_img_trans [trans]: "same_img s t \<Longrightarrow> same_img t u \<Longrightarrow> same_img s u"
  by (simp add: same_img_def)

lemma get8_same_img: "stbi__get8 s = (b, s') \<Longrightarrow> same_img s' s"
  by (auto simp: stbi__get8_def stbi__refill_buffer_def same_img_def Let_def
      split: if_splits option.splits prod.splits)

lemma skip_same_img: "same_img (stbi__skip s n) s"
  by (simp add: stbi__skip_def same_img_def Let_def split: option.split)

lemma getn_same_img: "stbi__getn s n = (r, s') \<Longrightarrow> same_img s' s"
  by (auto simp: stbi__getn_def getn_buffered_def same_img_def Let_def split: if_splits option.splits prod.splits)

text \<open>A memory context is determined, as far as reading goes, by its block and its position, so
  the context after a read is the old one with \<open>img_buffer\<close> advanced.\<close>

lemma get8_mem_Cons:
  assumes "mem_ctx s" and "stream s = b # bs"
  shows "stbi__get8 s = (b, s\<lparr>img_buffer := img_buffer s + 1\<rparr>)"
    and "mem_ctx (s\<lparr>img_buffer := img_buffer s + 1\<rparr>)"
    and "stream (s\<lparr>img_buffer := img_buffer s + 1\<rparr>) = bs"
proof -
  have lt: "img_buffer s < length (buffer s)"
    using assms by (cases "img_buffer s < length (buffer s)") (simp_all add: stream_def mem_ctx_def)
  then have "drop (img_buffer s) (buffer s) = buffer s ! img_buffer s # drop (Suc (img_buffer s)) (buffer s)"
    by (simp add: Cons_nth_drop_Suc)
  with assms lt have eq: "b = buffer s ! img_buffer s" "bs = drop (Suc (img_buffer s)) (buffer s)"
    by (simp_all add: stream_def mem_ctx_def)
  from lt eq assms show "stbi__get8 s = (b, s\<lparr>img_buffer := img_buffer s + 1\<rparr>)"
    by (simp add: stbi__get8_def mem_ctx_def)
  from assms show "mem_ctx (s\<lparr>img_buffer := img_buffer s + 1\<rparr>)"
    by (simp add: mem_ctx_def)
  from eq assms show "stream (s\<lparr>img_buffer := img_buffer s + 1\<rparr>) = bs"
    by (simp add: stream_def mem_ctx_def)
qed

lemma get8_mem_Nil:
  assumes "mem_ctx s" and "stream s = []"
  shows "stbi__get8 s = (0, s)"
  using assms by (auto simp: stbi__get8_def mem_ctx_def stream_def)


section \<open>Reading through callbacks\<close>

text \<open>The contract the header documents for \<open>stbi_io_callbacks\<close> (lines 411-416): \<open>read\<close> fills
  \<open>data\<close> with \<open>size\<close> bytes and returns how many there were, \<open>skip\<close> passes over \<open>n\<close> bytes, \<open>eof\<close>
  reports the end of the data. \<open>rest u\<close> is what the source still holds.\<close>

locale io_source =
  fixes cb :: "'u stbi_io_callbacks"
    and rest :: "'u \<Rightarrow> stbi_uc list"
    and ok :: "'u \<Rightarrow> bool"
  assumes read_bytes: "ok u \<Longrightarrow> 0 \<le> n \<Longrightarrow> fst (io_read cb u n) = take (nat n) (rest u)"
    and read_rest: "ok u \<Longrightarrow> 0 \<le> n \<Longrightarrow> rest (snd (io_read cb u n)) = drop (nat n) (rest u)"
    and read_ok: "ok u \<Longrightarrow> 0 \<le> n \<Longrightarrow> ok (snd (io_read cb u n))"
    and skip_rest: "ok u \<Longrightarrow> 0 \<le> n \<Longrightarrow> rest (io_skip cb u n) = drop (nat n) (rest u)"
    and skip_ok: "ok u \<Longrightarrow> 0 \<le> n \<Longrightarrow> ok (io_skip cb u n)"
    and eof_rest: "ok u \<Longrightarrow> io_eof cb u \<Longrightarrow> rest u = []"
begin

text \<open>What a context in callback mode still delivers: the rest of the buffer, then the rest of the
  source. After the end was seen (\<open>read_from_callbacks\<close> is off) nothing is left: the byte the
  buffer may still hold is the padding zero.\<close>

definition cb_stream :: "'u stbi__context \<Rightarrow> stbi_uc list" where
  "cb_stream s =
     (if read_from_callbacks s then stream s @ rest (io_user_data s) else [])"

definition cb_ctx :: "'u stbi__context \<Rightarrow> bool" where
  "cb_ctx s \<longleftrightarrow> io s = Some cb \<and> ok (io_user_data s) \<and> 0 < buflen s \<and>
     length (buffer s) = nat (buflen s) \<and> img_buffer s \<le> img_buffer_end s \<and>
     img_buffer_end s \<le> length (buffer s) \<and>
     (\<not> read_from_callbacks s \<longrightarrow> set (drop (img_buffer s) (take (img_buffer_end s) (buffer s))) \<subseteq> {0})"

lemma refill_data:
  assumes "cb_ctx s" and "rest (io_user_data s) \<noteq> []" and on: "read_from_callbacks s"
  defines "t \<equiv> stbi__refill_buffer s"
  shows "cb_ctx t" and "read_from_callbacks t = read_from_callbacks s" and "img_buffer t = 0"
    and "0 < img_buffer_end t" and "stream t @ rest (io_user_data t) = rest (io_user_data s)"
proof -
  obtain bytes u where rd: "io_read cb (io_user_data s) (buflen s) = (bytes, u)"
    by fastforce
  have ok: "ok (io_user_data s)" and pos: "0 \<le> buflen s"
    using assms(1) by (auto simp: cb_ctx_def)
  have bytes: "bytes = take (nat (buflen s)) (rest (io_user_data s))"
    using read_bytes [OF ok pos] rd by simp
  have u: "rest u = drop (nat (buflen s)) (rest (io_user_data s))" "ok u"
    using read_rest [OF ok pos] read_ok [OF ok pos] rd by simp_all
  have ne: "bytes \<noteq> []"
    using bytes assms(1,2) by (simp add: cb_ctx_def)
  have t: "t = s\<lparr>io_user_data := u, buffer := bytes @ drop (length bytes) (buffer s),
      callback_already_read := callback_already_read s + (int (img_buffer s) - int (img_buffer_original s)),
      img_buffer := 0, img_buffer_end := length bytes\<rparr>"
    using assms(1) rd ne by (simp add: t_def stbi__refill_buffer_def cb_ctx_def Let_def)
  have len: "length bytes \<le> length (buffer s)"
    using bytes assms(1) by (simp add: cb_ctx_def)
  show "cb_ctx t" "read_from_callbacks t = read_from_callbacks s" "img_buffer t = 0"
      "0 < img_buffer_end t"
    using assms(1) on u len ne bytes by (auto simp: t cb_ctx_def)
  have "stream t = bytes" and "io_user_data t = u"
    by (simp_all add: t stream_def)
  with u bytes show "stream t @ rest (io_user_data t) = rest (io_user_data s)"
    by simp
qed

lemma refill_end:
  assumes "cb_ctx s" and "rest (io_user_data s) = []"
  defines "t \<equiv> stbi__refill_buffer s"
  shows "cb_ctx t" and "\<not> read_from_callbacks t" and "img_buffer t = 0" and "img_buffer_end t = 1"
    and "buffer t ! 0 = 0" and "io_user_data t = snd (io_read cb (io_user_data s) (buflen s))"
proof -
  obtain bytes u where rd: "io_read cb (io_user_data s) (buflen s) = (bytes, u)"
    by fastforce
  have ok: "ok (io_user_data s)" and pos: "0 \<le> buflen s"
    using assms(1) by (auto simp: cb_ctx_def)
  have bytes: "bytes = []" and u: "ok u"
    using read_bytes [OF ok pos] read_ok [OF ok pos] rd assms(2) by simp_all
  have t: "t = s\<lparr>io_user_data := u, buffer := (buffer s)[0 := 0],
      callback_already_read := callback_already_read s + (int (img_buffer s) - int (img_buffer_original s)),
      img_buffer := 0, img_buffer_end := 1, read_from_callbacks := False\<rparr>"
    using assms(1) rd bytes by (simp add: t_def stbi__refill_buffer_def cb_ctx_def Let_def)
  have ne: "0 < length (buffer s)"
    using assms(1) by (simp add: cb_ctx_def)
  then have "take 1 ((buffer s)[0 := 0]) = [0]"
    by (cases "buffer s") simp_all
  with ne show "cb_ctx t" "\<not> read_from_callbacks t" "img_buffer t = 0" "img_buffer_end t = 1"
      "buffer t ! 0 = 0" "io_user_data t = snd (io_read cb (io_user_data s) (buflen s))"
    using assms(1) u rd by (auto simp: t cb_ctx_def)
qed

text \<open>One buffered read: the next byte of the stream, or a zero when nothing is left.\<close>

lemma get8_stream:
  assumes "cb_ctx s"
  obtains t where "stbi__get8 s = (if cb_stream s = [] then 0 else hd (cb_stream s), t)"
    and "cb_ctx t" and "cb_stream t = tl (cb_stream s)"
proof (cases "img_buffer s < img_buffer_end s")
  case True
  have drop: "stream s = buffer s ! img_buffer s # drop (Suc (img_buffer s)) (take (img_buffer_end s) (buffer s))"
    using True assms by (simp add: stream_def cb_ctx_def Cons_nth_drop_Suc [symmetric])
  have z: "\<not> read_from_callbacks s \<Longrightarrow> buffer s ! img_buffer s = 0"
    using assms drop by (simp add: cb_ctx_def stream_def)
  show ?thesis
  proof (rule that)
    show "stbi__get8 s = (if cb_stream s = [] then 0 else hd (cb_stream s), s\<lparr>img_buffer := img_buffer s + 1\<rparr>)"
      using True z drop by (simp add: stbi__get8_def cb_stream_def)
    show "cb_ctx (s\<lparr>img_buffer := img_buffer s + 1\<rparr>)"
      using assms True drop by (auto simp: cb_ctx_def stream_def)
    show "cb_stream (s\<lparr>img_buffer := img_buffer s + 1\<rparr>) = tl (cb_stream s)"
      using drop by (simp add: cb_stream_def stream_def)
  qed
next
  case False
  have nil: "stream s = []" using False by (simp add: stream_def)
  show ?thesis
  proof (cases "read_from_callbacks s")
    case off: False
    show ?thesis
      by (rule that [of s]) (use False off assms in \<open>auto simp: stbi__get8_def cb_stream_def\<close>)
  next
    case on: True
    define t where "t = stbi__refill_buffer s"
    have g: "stbi__get8 s = (buffer t ! img_buffer t, t\<lparr>img_buffer := img_buffer t + 1\<rparr>)"
      using False on by (simp add: stbi__get8_def t_def Let_def)
    show ?thesis
    proof (cases "rest (io_user_data s) = []")
      case True
      note r = refill_end [OF assms True, folded t_def]
      show ?thesis
        by (rule that [of "t\<lparr>img_buffer := img_buffer t + 1\<rparr>"])
          (use g r on nil True in \<open>auto simp: cb_stream_def cb_ctx_def\<close>)
    next
      case more: False
      note r = refill_data [OF assms more on, folded t_def]
      have end_le: "img_buffer_end t \<le> length (buffer t)"
        using r(1) by (simp add: cb_ctx_def)
      have str: "stream t = buffer t ! 0 # drop 1 (take (img_buffer_end t) (buffer t))"
        using r(3,4) end_le Cons_nth_drop_Suc [of 0 "take (img_buffer_end t) (buffer t)"]
        by (simp add: stream_def)
      show ?thesis
      proof (rule that [of "t\<lparr>img_buffer := img_buffer t + 1\<rparr>"])
        show "stbi__get8 s = (if cb_stream s = [] then 0 else hd (cb_stream s),
            t\<lparr>img_buffer := img_buffer t + 1\<rparr>)"
          using g r(3,5) str more on nil by (simp add: cb_stream_def) (metis append_Cons list.sel(1))
        show "cb_ctx (t\<lparr>img_buffer := img_buffer t + 1\<rparr>)"
          using r on by (auto simp: cb_ctx_def)
        show "cb_stream (t\<lparr>img_buffer := img_buffer t + 1\<rparr>) = tl (cb_stream s)"
          using r(2,3,5) str on nil by (simp add: cb_stream_def stream_def) (metis append_Cons list.sel(3))
      qed
    qed
  qed
qed

lemma skip_stream:
  assumes "cb_ctx s" and "0 \<le> n" and "read_from_callbacks s"
  shows "cb_ctx (stbi__skip s n)" and "cb_stream (stbi__skip s n) = drop (nat n) (cb_stream s)"
    and "read_from_callbacks (stbi__skip s n)"
proof -
  have io: "io s = Some cb" and ok: "ok (io_user_data s)"
    and le: "img_buffer s \<le> img_buffer_end s" "img_buffer_end s \<le> length (buffer s)"
    using assms(1) by (auto simp: cb_ctx_def)
  have len: "length (stream s) = img_buffer_end s - img_buffer s"
    using le by (simp add: stream_def)
  show "cb_ctx (stbi__skip s n)" "read_from_callbacks (stbi__skip s n)"
    using assms io le by (auto simp: stbi__skip_def cb_ctx_def Let_def intro!: skip_ok)
  show "cb_stream (stbi__skip s n) = drop (nat n) (cb_stream s)"
  proof (cases "int (img_buffer_end s) - int (img_buffer s) < n")
    case True
    have d: "0 \<le> n - (int (img_buffer_end s) - int (img_buffer s))"
        "nat (n - (int (img_buffer_end s) - int (img_buffer s))) = nat n - length (stream s)"
      using True le(1) len by linarith+
    have "rest (io_skip cb (io_user_data s) (n - (int (img_buffer_end s) - int (img_buffer s)))) =
        drop (nat n - length (stream s)) (rest (io_user_data s))"
      using skip_rest [OF ok d(1)] d(2) by simp
    moreover have "length (stream s) \<le> nat n"
      using True le(1) len by linarith
    moreover have "n \<noteq> 0" and "\<not> n < 0"
      using True le(1) by linarith+
    ultimately show ?thesis
      using True assms(3) io by (simp add: stbi__skip_def cb_stream_def stream_def)
  next
    case False
    then have "nat n \<le> length (stream s)" using len by linarith
    then show ?thesis
      using False assms(2,3) io by (simp add: stbi__skip_def cb_stream_def stream_def add.commute)
  qed
qed

lemma getn_stream:
  assumes "cb_ctx s" and "read_from_callbacks s" and "n \<le> length (cb_stream s)"
  obtains t where "stbi__getn s n = (Some (take n (cb_stream s)), t)"
    and "cb_ctx t" and "cb_stream t = drop n (cb_stream s)" and "read_from_callbacks t"
proof -
  have io: "io s = Some cb" and ok: "ok (io_user_data s)"
    and le: "img_buffer s \<le> img_buffer_end s" "img_buffer_end s \<le> length (buffer s)"
    using assms(1) by (auto simp: cb_ctx_def)
  have len: "length (stream s) = img_buffer_end s - img_buffer s"
    using le by (simp add: stream_def)
  show ?thesis
  proof (cases "length (stream s) < n")
    case True
    define m where "m = int n - (int (img_buffer_end s) - int (img_buffer s))"
    have m_pos: "int (img_buffer_end s) - int (img_buffer s) < int n"
      using True le len by simp
    have m: "0 \<le> m" "nat m = n - length (stream s)"
      using True le len by (auto simp: m_def)
    obtain bytes u where rd: "io_read cb (io_user_data s) m = (bytes, u)" by fastforce
    have bytes: "bytes = take (nat m) (rest (io_user_data s))"
        and u: "rest u = drop (nat m) (rest (io_user_data s))" "ok u"
      using read_bytes [OF ok m(1)] read_rest [OF ok m(1)] read_ok [OF ok m(1)] rd by simp_all
    have "length bytes = nat m"
      using bytes m(2) assms(2,3) by (simp add: cb_stream_def)
    then have lb: "int (length bytes) = m" using m(1) by simp
    have tk: "take (nat (int (img_buffer_end s) - int (img_buffer s))) (drop (img_buffer s) (buffer s)) = stream s"
      using le by (simp add: stream_def drop_take nat_diff_distrib)
    have g: "stbi__getn s n = (Some (stream s @ bytes), s\<lparr>img_buffer := img_buffer_end s, io_user_data := u\<rparr>)"
      using io rd lb tk m_pos by (simp add: stbi__getn_def Let_def m_def)
    show ?thesis
    proof (rule that [of "s\<lparr>img_buffer := img_buffer_end s, io_user_data := u\<rparr>"])
      show "stbi__getn s n = (Some (take n (cb_stream s)), s\<lparr>img_buffer := img_buffer_end s, io_user_data := u\<rparr>)"
        using g bytes m(2) True assms(2) by (simp add: cb_stream_def)
      show "cb_ctx (s\<lparr>img_buffer := img_buffer_end s, io_user_data := u\<rparr>)"
        using assms(1,2) u by (simp add: cb_ctx_def)
      show "cb_stream (s\<lparr>img_buffer := img_buffer_end s, io_user_data := u\<rparr>) = drop n (cb_stream s)"
        using True u m(2) assms(2) by (simp add: cb_stream_def stream_def)
      show "read_from_callbacks (s\<lparr>img_buffer := img_buffer_end s, io_user_data := u\<rparr>)"
        using assms(2) by simp
    qed
  next
    case False
    have g: "stbi__getn s n = (Some (take n (stream s)), s\<lparr>img_buffer := img_buffer s + n\<rparr>)"
      using False io len le
      by (auto simp: stbi__getn_def getn_buffered_def Let_def stream_def drop_take min_def)
    show ?thesis
      by (rule that [of "s\<lparr>img_buffer := img_buffer s + n\<rparr>"])
        (use g False assms le len in \<open>auto simp: cb_ctx_def cb_stream_def stream_def add.commute\<close>)
  qed
qed

end

end
