(* ===== verification/Stbi_Stdio.thy ===== *)
theory Stbi_Stdio
  imports Stbi_Context
begin

text \<open>
  The two ways of feeding a context. A client of a context is a sequence of read requests; run on a
  memory block and run through any callbacks that meet \<open>io_source\<close>, it receives the same answers up
  to and including the first read that comes up short. After that the two differ: a short
  \<open>stbi__getn\<close> leaves a memory context where it is and takes a callback source to its end. The
  locale is interpreted on the \<open>stdio\<close> callbacks of \<open>src/stb_image.h\<close> (lines 850-882) over a
  model of the C library's \<open>FILE\<close>.
\<close>

section \<open>Read requests\<close>

datatype read_op = Get8 | Skip nat | Getn nat

datatype read_result = Byte stbi_uc | Skipped | Bytes "stbi_uc list" | Short

text \<open>A client may go on after a short read, as the loops over the raw rows of a TGA file and the flat
  data of an HDR file do.\<close>

fun run_ops :: "read_op list \<Rightarrow> 'u stbi__context \<Rightarrow> read_result list" where
  "run_ops [] s = []"
| "run_ops (Get8 # ops) s = (case stbi__get8 s of (b, t) \<Rightarrow> Byte b # run_ops ops t)"
| "run_ops (Skip n # ops) s = Skipped # run_ops ops (stbi__skip s (int n))"
| "run_ops (Getn n # ops) s =
     (case stbi__getn s n of
        (None, t) \<Rightarrow> Short # run_ops ops t
      | (Some bs, t) \<Rightarrow> Bytes bs # run_ops ops t)"

text \<open>The same requests on a plain stream of bytes, which is followed by zeros; \<open>drain\<close> says whether a
  short \<open>stbi__getn\<close> uses up what is left.\<close>

fun stream_ops :: "bool \<Rightarrow> read_op list \<Rightarrow> stbi_uc list \<Rightarrow> read_result list" where
  "stream_ops drain [] bs = []"
| "stream_ops drain (Get8 # ops) bs =
     Byte (if bs = [] then 0 else hd bs) # stream_ops drain ops (tl bs)"
| "stream_ops drain (Skip n # ops) bs = Skipped # stream_ops drain ops (drop n bs)"
| "stream_ops drain (Getn n # ops) bs =
     (if n \<le> length bs then Bytes (take n bs) # stream_ops drain ops (drop n bs)
      else Short # stream_ops drain ops (if drain then [] else bs))"

text \<open>The answers up to and including the first short one.\<close>

fun upto_short :: "read_result list \<Rightarrow> read_result list" where
  "upto_short [] = []"
| "upto_short (r # rs) = (if r = Short then [Short] else r # upto_short rs)"

lemma stream_ops_upto_short:
  "upto_short (stream_ops True ops bs) = upto_short (stream_ops False ops bs)"
proof (induction ops arbitrary: bs)
  case (Cons op ops)
  then show ?case by (cases op) simp_all
qed simp

section \<open>Memory contexts answer from their stream\<close>

lemma get8_mem:
  assumes "mem_ctx t"
  obtains t' where "stbi__get8 t = (if stream t = [] then 0 else hd (stream t), t')"
    and "mem_ctx t'" and "stream t' = tl (stream t)"
proof (cases "stream t")
  case Nil
  show ?thesis
    by (rule that [of t]) (use get8_mem_Nil [OF assms Nil] Nil assms in simp_all)
next
  case (Cons b bs)
  note g = get8_mem_Cons [OF assms Cons]
  show ?thesis
    by (rule that [of "t\<lparr>img_buffer := img_buffer t + 1\<rparr>"]) (use g Cons in simp_all)
qed

lemma skip_mem:
  assumes "mem_ctx t"
  shows "mem_ctx (stbi__skip t (int n))" and "stream (stbi__skip t (int n)) = drop n (stream t)"
  using assms by (auto simp: mem_ctx_def stbi__skip_def stream_def add.commute)

lemma getn_mem_Some:
  assumes "mem_ctx t" and "n \<le> length (stream t)" and "0 < n"
  shows "stbi__getn t n = (Some (take n (stream t)), t\<lparr>img_buffer := img_buffer t + n\<rparr>)"
    and "mem_ctx (t\<lparr>img_buffer := img_buffer t + n\<rparr>)"
    and "stream (t\<lparr>img_buffer := img_buffer t + n\<rparr>) = drop n (stream t)"
  using assms by (auto simp: mem_ctx_def stbi__getn_def getn_buffered_def stream_def add.commute)

lemma getn_mem_None:
  assumes "mem_ctx t" and "length (stream t) < n"
  shows "stbi__getn t n = (None, t)"
  using assms by (auto simp: mem_ctx_def stbi__getn_def getn_buffered_def stream_def)

lemma run_ops_mem:
  assumes "mem_ctx t" and "Getn 0 \<notin> set ops"
  shows "run_ops ops t = stream_ops False ops (stream t)"
  using assms
proof (induction ops arbitrary: t)
  case (Cons op ops)
  have rest: "Getn 0 \<notin> set ops" using Cons.prems by simp
  show ?case
  proof (cases op)
    case Get8
    obtain t' where "stbi__get8 t = (if stream t = [] then 0 else hd (stream t), t')"
        "mem_ctx t'" "stream t' = tl (stream t)"
      using get8_mem [OF Cons.prems(1)] by metis
    with Get8 Cons.IH [OF _ rest] show ?thesis by simp
  next
    case (Skip n)
    with skip_mem [OF Cons.prems(1)] Cons.IH [OF _ rest] show ?thesis by simp
  next
    case (Getn n)
    then have pos: "0 < n" using Cons.prems(2) by auto
    show ?thesis
    proof (cases "n \<le> length (stream t)")
      case True
      with Getn getn_mem_Some [OF Cons.prems(1) True pos] Cons.IH [OF _ rest] show ?thesis by simp
    next
      case False
      with Getn getn_mem_None [OF Cons.prems(1)] Cons.IH [OF Cons.prems(1) rest] show ?thesis by simp
    qed
  qed
qed simp

section \<open>Callbacks answer like memory\<close>

context io_source begin

text \<open>The simulation relation: equal streams; once the end was seen, no padding zero is left in
  the buffer and nothing in the source.\<close>

definition sim :: "'u stbi__context \<Rightarrow> 'v stbi__context \<Rightarrow> bool" where
  "sim s t \<longleftrightarrow> cb_ctx s \<and> mem_ctx t \<and> cb_stream s = stream t \<and>
     (\<not> read_from_callbacks s \<longrightarrow> img_buffer s = img_buffer_end s \<and> rest (io_user_data s) = [])"

lemma get8_off:
  assumes "cb_ctx s" and "stbi__get8 s = (b, s')"
    and "\<not> read_from_callbacks s \<longrightarrow> img_buffer s = img_buffer_end s \<and> rest (io_user_data s) = []"
  shows "\<not> read_from_callbacks s' \<longrightarrow> img_buffer s' = img_buffer_end s' \<and> rest (io_user_data s') = []"
proof (cases "img_buffer s < img_buffer_end s \<or> \<not> read_from_callbacks s")
  case True
  with assms show ?thesis by (auto simp: stbi__get8_def)
next
  case False
  then have s': "s' = (stbi__refill_buffer s)\<lparr>img_buffer := img_buffer (stbi__refill_buffer s) + 1\<rparr>"
    using assms(2) by (simp add: stbi__get8_def Let_def)
  show ?thesis
  proof (cases "rest (io_user_data s) = []")
    case True
    have "ok (io_user_data s)" "0 \<le> buflen s"
      using assms(1) by (auto simp: cb_ctx_def)
    with True refill_end [OF assms(1)] show ?thesis by (simp add: s' read_rest)
  next
    case more: False
    with refill_data [OF assms(1)] False show ?thesis by (simp add: s')
  qed
qed

lemma sim_get8:
  assumes "sim s t"
  shows "fst (stbi__get8 s) = fst (stbi__get8 t)" and "sim (snd (stbi__get8 s)) (snd (stbi__get8 t))"
proof -
  obtain s' where s: "stbi__get8 s = (if cb_stream s = [] then 0 else hd (cb_stream s), s')"
      "cb_ctx s'" "cb_stream s' = tl (cb_stream s)"
    using get8_stream assms unfolding sim_def by metis
  obtain t' where t: "stbi__get8 t = (if stream t = [] then 0 else hd (stream t), t')"
      "mem_ctx t'" "stream t' = tl (stream t)"
    using get8_mem assms unfolding sim_def by metis
  show "fst (stbi__get8 s) = fst (stbi__get8 t)"
    using s t assms by (simp add: sim_def)
  show "sim (snd (stbi__get8 s)) (snd (stbi__get8 t))"
    using s t assms get8_off [OF _ s(1)] by (simp add: sim_def)
qed

lemma sim_skip:
  assumes "sim s t"
  shows "sim (stbi__skip s (int n)) (stbi__skip t (int n))"
proof (cases "read_from_callbacks s")
  case True
  with assms skip_stream [of s "int n"] skip_mem [of t n] show ?thesis
    by (simp add: sim_def)
next
  case False
  then have off: "img_buffer s = img_buffer_end s" and io: "io s = Some cb" and ok: "ok (io_user_data s)"
    using assms by (auto simp: sim_def cb_ctx_def)
  have "stbi__skip s (int n) =
      (if n = 0 then s else s\<lparr>io_user_data := io_skip cb (io_user_data s) (int n)\<rparr>)"
    using off io by (simp add: stbi__skip_def)
  moreover have "stream t = []"
    using assms False by (simp add: sim_def cb_stream_def)
  moreover have "ok (io_skip cb (io_user_data s) (int n))" "rest (io_skip cb (io_user_data s) (int n)) = []"
    using ok assms False by (simp_all add: skip_ok skip_rest sim_def)
  ultimately show ?thesis
    using assms False skip_mem [of t n] by (auto simp: sim_def cb_ctx_def cb_stream_def)
qed

lemma getn_short:
  assumes "sim s t" and "length (stream t) < n"
  obtains s' where "stbi__getn s n = (None, s')" and "sim s' (t\<lparr>img_buffer := img_buffer_end t\<rparr>)"
proof -
  have io: "io s = Some cb" and ok: "ok (io_user_data s)" and ctx: "cb_ctx s"
      and le: "img_buffer s \<le> img_buffer_end s" "img_buffer_end s \<le> length (buffer s)"
      and str: "cb_stream s = stream t"
    using assms(1) by (auto simp: sim_def cb_ctx_def)
  define m where "m = int n - (int (img_buffer_end s) - int (img_buffer s))"
  define u where "u = snd (io_read cb (io_user_data s) m)"
  define s' where "s' = s\<lparr>img_buffer := img_buffer_end s, io_user_data := u\<rparr>"
  have len: "length (stream s) = img_buffer_end s - img_buffer s"
    using le by (simp add: stream_def)
  have "length (stream s) + length (rest (io_user_data s)) < n"
  proof (cases "read_from_callbacks s")
    case True
    then have "stream t = stream s @ rest (io_user_data s)"
      using str by (simp add: cb_stream_def)
    with assms(2) show ?thesis by simp
  next
    case False
    with assms show ?thesis by (auto simp: sim_def stream_def)
  qed
  then have m: "0 < m" "length (rest (io_user_data s)) < nat m"
    using len le(1) by (auto simp: m_def)
  then have short: "length (fst (io_read cb (io_user_data s) m)) < nat m"
    using read_bytes [OF ok, of m] by simp
  have "int (img_buffer_end s) - int (img_buffer s) < int n"
    using m by (simp add: m_def)
  then have get: "stbi__getn s n = (None, s')"
    using io m(1) short by (auto simp: stbi__getn_def Let_def m_def s'_def u_def split: prod.splits)
  have "ok u" "rest u = []"
    using read_ok [OF ok, of m] read_rest [OF ok, of m] m by (simp_all add: u_def)
  then have "cb_ctx s'" "cb_stream s' = []"
    using ctx le by (auto simp: s'_def cb_ctx_def cb_stream_def stream_def)
  moreover have "mem_ctx (t\<lparr>img_buffer := img_buffer_end t\<rparr>)" "stream (t\<lparr>img_buffer := img_buffer_end t\<rparr>) = []"
    using assms(1) by (auto simp: sim_def mem_ctx_def stream_def)
  ultimately have "sim s' (t\<lparr>img_buffer := img_buffer_end t\<rparr>)"
    using \<open>rest u = []\<close> by (simp add: sim_def) (simp add: s'_def)
  with get show thesis by (rule that)
qed

lemma sim_getn:
  assumes "sim s t" and "0 < n" and "n \<le> length (stream t)"
  obtains s' where "stbi__getn s n = (Some (take n (stream t)), s')"
    and "sim s' (t\<lparr>img_buffer := img_buffer t + n\<rparr>)"
proof -
  have "stream t \<noteq> []" using assms by auto
  then have on: "read_from_callbacks s"
    using assms(1) by (auto simp: sim_def cb_stream_def split: if_splits)
  have "cb_ctx s" "n \<le> length (cb_stream s)" "cb_stream s = stream t" "mem_ctx t"
    using assms by (simp_all add: sim_def)
  then obtain s' where s': "stbi__getn s n = (Some (take n (cb_stream s)), s')" "cb_ctx s'"
      "cb_stream s' = drop n (cb_stream s)" "read_from_callbacks s'"
    using getn_stream [OF _ on] by metis
  show ?thesis
    by (rule that [of s'])
      (use s' assms \<open>cb_stream s = stream t\<close> getn_mem_Some [OF \<open>mem_ctx t\<close> assms(3,2)]
        in \<open>simp_all add: sim_def\<close>)
qed

lemma run_ops_cb:
  assumes "sim s t" and "Getn 0 \<notin> set ops"
  shows "run_ops ops s = stream_ops True ops (stream t)"
  using assms
proof (induction ops arbitrary: s t)
  case (Cons op ops)
  have rest: "Getn 0 \<notin> set ops" and mem: "mem_ctx t" using Cons.prems by (simp_all add: sim_def)
  show ?case
  proof (cases op)
    case Get8
    obtain t' where t': "stbi__get8 t = (if stream t = [] then 0 else hd (stream t), t')"
        "stream t' = tl (stream t)"
      using get8_mem [OF mem] by metis
    with sim_get8 [OF Cons.prems(1)] have "fst (stbi__get8 s) = (if stream t = [] then 0 else hd (stream t))"
        "sim (snd (stbi__get8 s)) t'"
      by simp_all
    with Get8 t'(2) Cons.IH [OF _ rest] show ?thesis by (simp add: case_prod_unfold)
  next
    case (Skip n)
    with Cons.IH [OF sim_skip [OF Cons.prems(1)] rest, of n] skip_mem(2) [OF mem, of n] show ?thesis by simp
  next
    case (Getn n)
    then have pos: "0 < n" using Cons.prems(2) by auto
    show ?thesis
    proof (cases "n \<le> length (stream t)")
      case True
      obtain s' where "stbi__getn s n = (Some (take n (stream t)), s')"
          "sim s' (t\<lparr>img_buffer := img_buffer t + n\<rparr>)"
        using sim_getn [OF Cons.prems(1) pos True] by metis
      with True Getn getn_mem_Some [OF mem True pos] Cons.IH [OF _ rest] show ?thesis by simp
    next
      case False
      then obtain s' where "stbi__getn s n = (None, s')" "sim s' (t\<lparr>img_buffer := img_buffer_end t\<rparr>)"
        using getn_short [OF Cons.prems(1)] by (metis not_le)
      moreover have "stream (t\<lparr>img_buffer := img_buffer_end t\<rparr>) = []"
        by (simp add: stream_def)
      ultimately show ?thesis using False Getn Cons.IH [OF _ rest] by simp
    qed
  qed
qed simp

text \<open>A context that was just started has the whole source before it.\<close>

lemma start_source:
  assumes "ok u" and "buffer_start \<noteq> []"
  shows "cb_ctx (stbi__start_callbacks s0 cb u buffer_start)"
    and "cb_stream (stbi__start_callbacks s0 cb u buffer_start) = rest u"
    and "rest u \<noteq> [] \<Longrightarrow> read_from_callbacks (stbi__start_callbacks s0 cb u buffer_start)"
proof -
  define s where "s = s0\<lparr>io := Some cb, io_user_data := u, buflen := int (length buffer_start),
      read_from_callbacks := True, callback_already_read := 0, buffer := buffer_start,
      img_buffer := 0, img_buffer_original := 0\<rparr>"
  define s1 where "s1 = s\<lparr>img_buffer_end := 0\<rparr>"
  have s1: "cb_ctx s1" "read_from_callbacks s1" "io_user_data s1 = u"
    using assms by (simp_all add: s1_def s_def cb_ctx_def)
  have "stbi__refill_buffer s = stbi__refill_buffer s1"
    by (simp add: stbi__refill_buffer_def s1_def s_def Let_def split: prod.split)
  then have st: "stbi__start_callbacks s0 cb u buffer_start =
      (stbi__refill_buffer s1)\<lparr>img_buffer_original_end := img_buffer_end (stbi__refill_buffer s1)\<rparr>"
    by (simp add: stbi__start_callbacks_def Let_def s_def)
  show "cb_ctx (stbi__start_callbacks s0 cb u buffer_start)"
      and "cb_stream (stbi__start_callbacks s0 cb u buffer_start) = rest u"
      and "rest u \<noteq> [] \<Longrightarrow> read_from_callbacks (stbi__start_callbacks s0 cb u buffer_start)"
    using refill_end [OF s1(1)] refill_data [OF s1(1) _ s1(2)] s1(2,3)
    by (cases "rest u = []"; simp add: st cb_ctx_def cb_stream_def stream_def)+
qed

lemma sim_start:
  assumes "ok u" and "rest u \<noteq> []" and "buffer_start \<noteq> []"
  shows "sim (stbi__start_callbacks s0 cb u buffer_start) (stbi__start_mem t0 (rest u))"
  using start_source [OF assms(1,3), of s0] assms(2) by (simp add: sim_def)

theorem callbacks_stream:
  assumes "ok u" and "rest u \<noteq> []" and "buffer_start \<noteq> []" and "Getn 0 \<notin> set ops"
  shows "run_ops ops (stbi__start_callbacks s0 cb u buffer_start) = stream_ops True ops (rest u)"
  using run_ops_cb [OF sim_start [OF assms(1-3)] assms(4)] by simp

end

section \<open>The \<open>stdio\<close> callbacks\<close>

text \<open>A readable \<open>FILE\<close> of the C library: its bytes, its position, its end-of-file flag and its error
  flag (which no operation modelled here sets).
  \<open>fseek\<close> clears the flag, a read that comes up short sets it, \<open>ungetc\<close> takes the character back.\<close>

record FILE =
  fbytes :: "stbi_uc list"
  fpos :: nat
  feof :: bool
  ferror :: bool

definition fread :: "FILE \<Rightarrow> nat \<Rightarrow> stbi_uc list \<times> FILE" where
  "fread f n =
     (let bs = take n (drop (fpos f) (fbytes f))
      in (bs, f\<lparr>fpos := fpos f + length bs, feof := feof f \<or> length bs < n\<rparr>))"

definition fseek_cur :: "FILE \<Rightarrow> nat \<Rightarrow> FILE" where
  "fseek_cur f n = f\<lparr>fpos := fpos f + n, feof := False\<rparr>"

definition fgetc :: "FILE \<Rightarrow> stbi_uc option \<times> FILE" where
  "fgetc f =
     (case drop (fpos f) (fbytes f) of
        [] \<Rightarrow> (None, f\<lparr>feof := True\<rparr>)
      | b # _ \<Rightarrow> (Some b, f\<lparr>fpos := fpos f + 1\<rparr>))"

definition ungetc :: "FILE \<Rightarrow> FILE" where
  "ungetc f = f\<lparr>fpos := fpos f - 1, feof := False\<rparr>"

definition stbi__stdio_read :: "FILE \<Rightarrow> int \<Rightarrow> stbi_uc list \<times> FILE" where
  "stbi__stdio_read user sz = fread user (nat sz)"

definition stbi__stdio_skip :: "FILE \<Rightarrow> int \<Rightarrow> FILE" where
  "stbi__stdio_skip user n =
     (let (ch, f) = fgetc (fseek_cur user (nat n))
      in if ch \<noteq> None then ungetc f else f)"

definition stbi__stdio_eof :: "FILE \<Rightarrow> bool" where
  "stbi__stdio_eof user = (feof user \<or> ferror user)"

definition stbi__stdio_callbacks :: "FILE stbi_io_callbacks" where
  "stbi__stdio_callbacks =
     \<lparr>io_read = stbi__stdio_read, io_skip = stbi__stdio_skip, io_eof = stbi__stdio_eof\<rparr>"

definition stbi__start_file :: "FILE stbi__context \<Rightarrow> FILE \<Rightarrow> stbi_uc list \<Rightarrow> FILE stbi__context" where
  "stbi__start_file s f buffer_start = stbi__start_callbacks s stbi__stdio_callbacks f buffer_start"

definition file_rest :: "FILE \<Rightarrow> stbi_uc list" where
  "file_rest f = drop (fpos f) (fbytes f)"

definition file_ok :: "FILE \<Rightarrow> bool" where
  "file_ok f \<longleftrightarrow> \<not> ferror f \<and> (feof f \<longrightarrow> file_rest f = [])"

lemma stdio_read_spec:
  "fst (stbi__stdio_read f n) = take (nat n) (file_rest f)"
  "file_rest (snd (stbi__stdio_read f n)) = drop (nat n) (file_rest f)"
  "file_ok f \<Longrightarrow> file_ok (snd (stbi__stdio_read f n))"
  by (auto simp: stbi__stdio_read_def fread_def file_rest_def file_ok_def Let_def min_def add.commute)

lemma stdio_skip_spec:
  "file_rest (stbi__stdio_skip f n) = drop (nat n) (file_rest f)"
  "file_ok f \<Longrightarrow> file_ok (stbi__stdio_skip f n)"
  by (auto simp: stbi__stdio_skip_def fgetc_def ungetc_def fseek_cur_def file_rest_def file_ok_def
      add.commute split: list.splits)

interpretation stdio: io_source stbi__stdio_callbacks file_rest file_ok
  by unfold_locales
    (simp_all add: stbi__stdio_callbacks_def stdio_read_spec stdio_skip_spec stbi__stdio_eof_def,
      simp add: file_ok_def)

section \<open>Properties\<close>

text \<open>C30. What a client reads from a file and from memory, for every sequence of \<open>stbi__get8\<close>,
  \<open>stbi__skip\<close> and \<open>stbi__getn\<close> calls with skips that are not negative and reads of at least one
  byte, on a file with at least one byte left. A context started by \<open>stbi__start_file\<close>, which goes
  through the refilled buffer and \<open>fread\<close>/\<open>fseek\<close>, answers like the stream of the rest of the file
  followed by zeros, where a \<open>stbi__getn\<close> that comes up short uses up what is left. A context started
  by \<open>stbi__start_mem\<close> on the same bytes answers like the same stream, but a short \<open>stbi__getn\<close>
  leaves it where it is. So the two agree up to and including the first short \<open>stbi__getn\<close>.\<close>

theorem file_like_memory:
  assumes "file_ok f" and "file_rest f \<noteq> []" and "buffer_start \<noteq> []" and "Getn 0 \<notin> set ops"
  shows "run_ops ops (stbi__start_file s0 f buffer_start) = stream_ops True ops (file_rest f) \<and>
    run_ops ops (stbi__start_mem t0 (file_rest f)) = stream_ops False ops (file_rest f) \<and>
    upto_short (run_ops ops (stbi__start_file s0 f buffer_start)) =
    upto_short (run_ops ops (stbi__start_mem t0 (file_rest f)))"
  using stdio.callbacks_stream [OF assms] run_ops_mem [of "stbi__start_mem t0 (file_rest f)" ops] assms(4)
  by (simp add: stbi__start_file_def stream_ops_upto_short)

theorem file_like_memory_witness:
  "run_ops [Get8, Getn 3, Get8, Getn 2, Get8]
     (stbi__start_file undefined \<lparr>fbytes = [0, 1, 2, 3, 4, 5, 6], fpos = 1, feof = False, ferror = False\<rparr> [0, 0]) =
     [Byte 1, Bytes [2, 3, 4], Byte 5, Short, Byte 0] \<and>
   run_ops [Get8, Getn 3, Get8, Getn 2, Get8]
     (stbi__start_mem (undefined :: unit stbi__context) [1, 2, 3, 4, 5, 6]) =
     [Byte 1, Bytes [2, 3, 4], Byte 5, Short, Byte 6]"
  using file_like_memory [of "\<lparr>fbytes = [0, 1, 2, 3, 4, 5, 6], fpos = 1, feof = False, ferror = False\<rparr>" "[0, 0]"
      "[Get8, Getn 3, Get8, Getn 2, Get8]" undefined "undefined :: unit stbi__context"]
  by (simp add: file_ok_def file_rest_def)

end
