(* ===== verification/Stbi_Convert.thy ===== *)
theory Stbi_Convert
  imports Stbi_Alloc
begin

text \<open>
  What happens to decoded pixels (\<open>src/stb_image.h\<close>, lines 1190-1257 and 1746-1855): the change of
  the number of components, the 8/16-bit conversions and the vertical flip. The lemmas show
  that every conversion acts pixel by pixel and that the flip, which the code does in place through
  a 2048-byte buffer, reverses the order of the rows.
\<close>

section \<open>Definitions\<close>

definition stbi__compute_y :: "int \<Rightarrow> int \<Rightarrow> int \<Rightarrow> stbi_uc" where
  "stbi__compute_y r g b = word_of_int (drop_bit 8 (r * 77 + g * 150 + 29 * b))"

definition stbi__compute_y_16 :: "int \<Rightarrow> int \<Rightarrow> int \<Rightarrow> stbi_us" where
  "stbi__compute_y_16 r g b = word_of_int (drop_bit 8 (r * 77 + g * 150 + 29 * b))"

definition STBI__COMBO :: "int \<Rightarrow> int \<Rightarrow> int" where
  "STBI__COMBO a b = a * 8 + b"

text \<open>The body of the \<open>switch\<close> for one pixel. The source has it twice, for bytes and for 16-bit
  samples, with the luma function \<open>cy\<close> and the opaque alpha \<open>full\<close> of that width; its \<open>default\<close>
  case is a failed assertion, and so is a source pixel outside the buffer.\<close>

definition convert_pixel ::
    "('a::len word \<Rightarrow> 'a word \<Rightarrow> 'a word \<Rightarrow> 'a word) \<Rightarrow> 'a word \<Rightarrow> int \<Rightarrow> int \<Rightarrow> 'a word list \<Rightarrow>
     'a word list res" where
  "convert_pixel cy full img_n req_comp src =
     (if int (length src) \<noteq> img_n then Inl Undefined
      else let c = STBI__COMBO img_n req_comp in
        if c = STBI__COMBO 1 2 then Inr [src ! 0, full]
        else if c = STBI__COMBO 1 3 then Inr [src ! 0, src ! 0, src ! 0]
        else if c = STBI__COMBO 1 4 then Inr [src ! 0, src ! 0, src ! 0, full]
        else if c = STBI__COMBO 2 1 then Inr [src ! 0]
        else if c = STBI__COMBO 2 3 then Inr [src ! 0, src ! 0, src ! 0]
        else if c = STBI__COMBO 2 4 then Inr [src ! 0, src ! 0, src ! 0, src ! 1]
        else if c = STBI__COMBO 3 4 then Inr [src ! 0, src ! 1, src ! 2, full]
        else if c = STBI__COMBO 3 1 then Inr [cy (src ! 0) (src ! 1) (src ! 2)]
        else if c = STBI__COMBO 3 2 then Inr [cy (src ! 0) (src ! 1) (src ! 2), full]
        else if c = STBI__COMBO 4 1 then Inr [cy (src ! 0) (src ! 1) (src ! 2)]
        else if c = STBI__COMBO 4 2 then Inr [cy (src ! 0) (src ! 1) (src ! 2), src ! 3]
        else if c = STBI__COMBO 4 3 then Inr [src ! 0, src ! 1, src ! 2]
        else Inl Undefined)"

text \<open>The loop over the pixels of a scanline (\<open>src += a, dest += b\<close>) and over the scanlines. The number
  of pixels is what \<open>for (i = x - 1; i >= 0; --i)\<close> does with an \<open>int\<close> counter. The offsets
  \<open>j * x * img_n\<close> and \<open>j * x * req_comp\<close> are unsigned 32-bit products, so they wrap; the converted
  scanline is stored into the new block \<open>good\<close>, and leaving that block is undefined.\<close>

fun convert_row ::
    "('a::len word list \<Rightarrow> 'a word list res) \<Rightarrow> nat \<Rightarrow> nat \<Rightarrow> 'a word list \<Rightarrow> 'a word list res" where
  "convert_row px n 0 src = Inr []"
| "convert_row px n (Suc i) src =
     ebind (px (take n src)) (\<lambda>d.
     ebind (convert_row px n i (drop n src)) (\<lambda>r. Inr (d @ r)))"

definition row_pixels :: "uint32 \<Rightarrow> nat" where
  "row_pixels x = nat (sint (x - 1) + 1)"

definition row_offset :: "nat \<Rightarrow> uint32 \<Rightarrow> int \<Rightarrow> nat" where
  "row_offset j x n = unat (word_of_nat j * x * u32cast n)"

definition memcpy_at :: "'a list \<Rightarrow> nat \<Rightarrow> 'a list \<Rightarrow> 'a list" where
  "memcpy_at mem off bs = take off mem @ bs @ drop (off + length bs) mem"

definition convert_rows ::
    "('a::len word list \<Rightarrow> 'a word list res) \<Rightarrow> int \<Rightarrow> int \<Rightarrow> uint32 \<Rightarrow> uint32 \<Rightarrow> 'a word list \<Rightarrow>
     'a word list \<Rightarrow> 'a word list res" where
  "convert_rows px img_n req_comp x y data good =
     efold (\<lambda>j good.
         ebind (convert_row px (nat img_n) (row_pixels x) (drop (row_offset j x img_n) data)) (\<lambda>r.
           let dest = row_offset j x req_comp in
           if dest + length r \<le> length good then Inr (memcpy_at good dest r) else Inl Undefined))
       [0..<nat (sint y)] good"

definition compute_y8 :: "stbi_uc \<Rightarrow> stbi_uc \<Rightarrow> stbi_uc \<Rightarrow> stbi_uc" where
  "compute_y8 r g b = stbi__compute_y (uint r) (uint g) (uint b)"

definition compute_y16 :: "stbi_us \<Rightarrow> stbi_us \<Rightarrow> stbi_us \<Rightarrow> stbi_us" where
  "compute_y16 r g b = stbi__compute_y_16 (uint r) (uint g) (uint b)"

definition stbi__convert_format ::
    "stbi_uc list \<Rightarrow> int \<Rightarrow> int \<Rightarrow> uint32 \<Rightarrow> uint32 \<Rightarrow> stbi_uc list res" where
  "stbi__convert_format data img_n req_comp x y =
     (if req_comp = img_n then Inr data
      else if \<not> (1 \<le> req_comp \<and> req_comp \<le> 4) then Inl Undefined
      else case stbi__malloc_mad3 req_comp (sint x) (sint y) 0 of
             None \<Rightarrow> Inl (Failure ''outofmem'')
           | Some bytes \<Rightarrow>
               convert_rows (convert_pixel compute_y8 255 img_n req_comp) img_n req_comp x y data
                 (replicate bytes 0))"

text \<open>The 16-bit version allocates \<open>req_comp * x * y * 2\<close> bytes, computed in unsigned 32-bit
  arithmetic and not checked: when that wraps, the block is smaller than the image.\<close>

definition stbi__convert_format16 ::
    "stbi_us list \<Rightarrow> int \<Rightarrow> int \<Rightarrow> uint32 \<Rightarrow> uint32 \<Rightarrow> stbi_us list res" where
  "stbi__convert_format16 data img_n req_comp x y =
     (if req_comp = img_n then Inr data
      else if \<not> (1 \<le> req_comp \<and> req_comp \<le> 4) then Inl Undefined
      else convert_rows (convert_pixel compute_y16 0xffff img_n req_comp) img_n req_comp x y data
             (replicate (unat (u32cast req_comp * x * y * 2) div 2) 0))"

text \<open>The two loops over \<open>w * h * channels\<close> samples into a block of \<open>sz\<close> bytes each; the products are
  \<open>int\<close>, and the size of a negative one is beyond what the allocator has.\<close>

definition convert_samples :: "('a \<Rightarrow> 'b) \<Rightarrow> int \<Rightarrow> 'a list \<Rightarrow> int \<Rightarrow> int \<Rightarrow> int \<Rightarrow> 'b list res" where
  "convert_samples f sz orig w h channels =
     (let img_len = w * h * channels in
      if \<not> (INT_MIN \<le> w * h \<and> w * h \<le> INT_MAX \<and> INT_MIN \<le> img_len * sz \<and> img_len * sz \<le> INT_MAX) then Inl Undefined
      else if img_len < 0 then Inl (Failure ''outofmem'')
      else if int (length orig) < img_len then Inl Undefined
      else Inr (map f (take (nat img_len) orig)))"

definition stbi__convert_16_to_8 :: "stbi_us list \<Rightarrow> int \<Rightarrow> int \<Rightarrow> int \<Rightarrow> stbi_uc list res" where
  "stbi__convert_16_to_8 orig w h channels = convert_samples (\<lambda>v. ucast (drop_bit 8 v AND 0xFF)) 1 orig w h channels"

definition stbi__convert_8_to_16 :: "stbi_uc list \<Rightarrow> int \<Rightarrow> int \<Rightarrow> int \<Rightarrow> stbi_us list res" where
  "stbi__convert_8_to_16 orig w h channels =
     convert_samples (\<lambda>v. word_of_int (push_bit 8 (uint v) + uint v)) 2 orig w h channels"

text \<open>The flip moves bytes without looking at them; \<open>'b\<close> is their type.\<close>

definition swap_block :: "'b list \<Rightarrow> nat \<Rightarrow> nat \<Rightarrow> nat \<Rightarrow> 'b list" where
  "swap_block bytes row0 row1 bytes_copy =
     (let temp = take bytes_copy (drop row0 bytes);
          bytes = memcpy_at bytes row0 (take bytes_copy (drop row1 bytes))
      in memcpy_at bytes row1 temp)"

function swap_rows :: "'b list \<Rightarrow> nat \<Rightarrow> nat \<Rightarrow> nat \<Rightarrow> 'b list" where
  "swap_rows bytes row0 row1 bytes_left =
     (if bytes_left = 0 then bytes
      else let bytes_copy = (if bytes_left < 2048 then bytes_left else 2048)
           in swap_rows (swap_block bytes row0 row1 bytes_copy) (row0 + bytes_copy)
                (row1 + bytes_copy) (bytes_left - bytes_copy))"
  by pat_completeness auto
termination
  by (relation "measure (\<lambda>(b, r0, r1, left). left)") (auto split: if_splits)

declare swap_rows.simps [simp del]

definition stbi__vertical_flip :: "'b list \<Rightarrow> nat \<Rightarrow> nat \<Rightarrow> nat \<Rightarrow> 'b list" where
  "stbi__vertical_flip img w h bytes_per_pixel =
     (let bytes_per_row = w * bytes_per_pixel
      in fold (\<lambda>row bytes. swap_rows bytes (row * bytes_per_row) ((h - row - 1) * bytes_per_row) bytes_per_row)
           [0..<h div 2] img)"

fun flip_slices :: "nat \<Rightarrow> nat \<Rightarrow> nat \<Rightarrow> nat \<Rightarrow> 'b list \<Rightarrow> 'b list" where
  "flip_slices 0 w h bpp bytes = bytes"
| "flip_slices (Suc z) w h bpp bytes =
     (let n = w * h * bpp
      in stbi__vertical_flip (take n bytes) w h bpp @ flip_slices z w h bpp (drop n bytes))"

definition stbi__vertical_flip_slices :: "'b list \<Rightarrow> nat \<Rightarrow> nat \<Rightarrow> nat \<Rightarrow> nat \<Rightarrow> 'b list" where
  "stbi__vertical_flip_slices img w h z bytes_per_pixel = flip_slices z w h bytes_per_pixel img"

section \<open>Component conversion\<close>

lemma COMBO_eq: "STBI__COMBO a b = STBI__COMBO c d \<longleftrightarrow> a * 8 + b = c * 8 + d"
  by (simp add: STBI__COMBO_def)

text \<open>What the conversion promises for one pixel: grey becomes equal colours, colours become their
  luma, a missing alpha is opaque, a present one is kept or dropped.\<close>

fun pixel_spec ::
    "('a::len word \<Rightarrow> 'a word \<Rightarrow> 'a word \<Rightarrow> 'a word) \<Rightarrow> 'a word \<Rightarrow> nat \<Rightarrow> 'a word list \<Rightarrow> 'a word list" where
  "pixel_spec cy full m px =
     (let (rgb, y, alpha) =
        (case px of
           [g] \<Rightarrow> ([g, g, g], g, full)
         | [g, a] \<Rightarrow> ([g, g, g], g, a)
         | [r, g, b] \<Rightarrow> ([r, g, b], cy r g b, full)
         | [r, g, b, a] \<Rightarrow> ([r, g, b], cy r g b, a)
         | _ \<Rightarrow> ([], 0, 0))
      in (if m \<ge> 3 then rgb else [y]) @ (if m = 2 \<or> m = 4 then [alpha] else []))"

lemma pixel_cases:
  assumes "1 \<le> length px" and "length px \<le> 4"
  obtains a where "px = [a]" | a b where "px = [a, b]" | a b c where "px = [a, b, c]"
    | a b c d where "px = [a, b, c, d]"
proof -
  have "length px = 1 \<or> length px = 2 \<or> length px = 3 \<or> length px = 4"
    using assms by linarith
  then show ?thesis
    using that by (auto simp: numeral_eq_Suc length_Suc_conv)
qed

lemma component_cases:
  assumes "1 \<le> m" and "m \<le> (4 :: nat)"
  obtains "m = 1" | "m = 2" | "m = 3" | "m = 4"
  using assms by linarith

lemma length_pixel_spec:
  assumes "1 \<le> length px" and "length px \<le> 4" and "1 \<le> m" and "m \<le> 4"
  shows "length (pixel_spec cy full m px) = m"
  using assms(3,4)
  by (cases rule: component_cases) (rule pixel_cases [OF assms(1,2)]; simp)+

lemma convert_pixel_eq:
  assumes "1 \<le> n" "n \<le> 4" "1 \<le> m" "m \<le> 4" "n \<noteq> m" "length px = n"
  shows "convert_pixel cy full (int n) (int m) px = Inr (pixel_spec cy full m px)"
proof -
  have px: "1 \<le> length px" "length px \<le> 4" "length px \<noteq> m"
    using assms by simp_all
  show ?thesis
    using assms(3,4)
  proof (cases rule: component_cases)
    case 1
    with px(3) assms(6) show ?thesis
      by (cases rule: pixel_cases [OF px(1,2)]) (simp_all add: convert_pixel_def STBI__COMBO_def)
  next
    case 2
    with px(3) assms(6) show ?thesis
      by (cases rule: pixel_cases [OF px(1,2)]) (simp_all add: convert_pixel_def STBI__COMBO_def)
  next
    case 3
    with px(3) assms(6) show ?thesis
      by (cases rule: pixel_cases [OF px(1,2)]) (simp_all add: convert_pixel_def STBI__COMBO_def)
  next
    case 4
    with px(3) assms(6) show ?thesis
      by (cases rule: pixel_cases [OF px(1,2)]) (simp_all add: convert_pixel_def STBI__COMBO_def)
  qed
qed

text \<open>\<open>pixels n k xs\<close>: the first \<open>k\<close> groups of \<open>n\<close> samples.\<close>

fun pixels :: "nat \<Rightarrow> nat \<Rightarrow> 'a list \<Rightarrow> 'a list list" where
  "pixels n 0 xs = []"
| "pixels n (Suc k) xs = take n xs # pixels n k (drop n xs)"

lemma pixels_numeral [simp]:
  "pixels n (numeral k) xs = take n xs # pixels n (pred_numeral k) (drop n xs)"
  by (simp add: numeral_eq_Suc)

lemma pixels_prefix: "k * n \<le> length xs \<Longrightarrow> pixels n k (xs @ ys) = pixels n k xs"
  by (induction k arbitrary: xs) simp_all

lemma length_pixels [simp]: "length (pixels n k xs) = k"
  by (induction k arbitrary: xs) simp_all

lemma nth_pixels: "i < k \<Longrightarrow> pixels n k xs ! i = take n (drop (i * n) xs)"
  by (induction k arbitrary: xs i) (auto simp: nth_Cons add.commute split: nat.splits)

lemma pixels_append: "pixels n (j + k) xs = pixels n j xs @ pixels n k (drop (j * n) xs)"
  by (induction j arbitrary: xs) (simp_all add: add.commute)

lemma concat_pixels: "length xs = k * n \<Longrightarrow> concat (pixels n k xs) = xs"
proof (induction k arbitrary: xs)
  case (Suc k)
  then have "concat (pixels n k (drop n xs)) = drop n xs" by simp
  then show ?case by simp
qed simp

lemma in_pixels_length:
  assumes "px \<in> set (pixels n k xs)" and "k * n \<le> length xs"
  shows "length px = n"
  using assms
proof (induction k arbitrary: xs)
  case (Suc k)
  show ?case
  proof (cases "px = take n xs")
    case True
    with Suc.prems show ?thesis by simp
  next
    case False
    with Suc.prems show ?thesis by (intro Suc.IH [of "drop n xs"]) auto
  qed
qed simp

lemma convert_row_eq:
  assumes "\<And>p. p \<in> set (pixels n k src) \<Longrightarrow> px p = Inr (g p)"
  shows "convert_row px n k src = Inr (concat (map g (pixels n k src)))"
  using assms by (induction k arbitrary: src) simp_all

lemma length_concat_pixel_spec:
  assumes "1 \<le> n" "n \<le> 4" "1 \<le> m" "m \<le> 4" "k * n \<le> length data"
  shows "length (concat (map (pixel_spec cy full m) (pixels n k data))) = k * m"
proof -
  have "length (pixel_spec cy full m px) = m" if "px \<in> set (pixels n k data)" for px
    using in_pixels_length [OF that assms(5)] assms(1-4) by (intro length_pixel_spec) simp_all
  then have "map length (map (pixel_spec cy full m) (pixels n k data)) = replicate k m"
    by (intro replicate_eqI) auto
  then show ?thesis by (simp add: length_concat sum_list_replicate)
qed

text \<open>One scanline.\<close>

lemma convert_row_pixels:
  assumes "1 \<le> n" "n \<le> 4" "1 \<le> m" "m \<le> 4" "n \<noteq> m" "k * n \<le> length src"
  shows "convert_row (convert_pixel cy full (int n) (int m)) n k src =
    Inr (concat (map (pixel_spec cy full m) (pixels n k src)))"
proof (rule convert_row_eq)
  fix p assume "p \<in> set (pixels n k src)"
  then have "length p = n" by (rule in_pixels_length) (simp add: assms(6))
  with assms show "convert_pixel cy full (int n) (int m) p = Inr (pixel_spec cy full m p)"
    by (intro convert_pixel_eq) auto
qed

text \<open>The offsets of the scanlines: their value modulo \<open>2\<^sup>3\<^sup>2\<close> is never beyond the true one, so a
  wrapped offset still points into the image.\<close>

lemma row_offset_mod: "row_offset j x (int n) = (j * unat x * n) mod 2 ^ 32"
proof -
  have "word_of_nat j * x * u32cast (int n) = word_of_nat (j * unat x * n)"
    by (simp add: u32cast_def)
  then show ?thesis
    unfolding row_offset_def by (simp only: unat_of_nat take_bit_eq_mod) simp
qed

lemma row_offset_le: "row_offset j x (int n) \<le> j * unat x * n"
  unfolding row_offset_mod by simp

lemma row_offset_small: "j * unat x * n < 2 ^ 32 \<Longrightarrow> row_offset j x (int n) = j * unat x * n"
  unfolding row_offset_mod by simp

lemma row_pixels_small:
  assumes "unat x < 2 ^ 31"
  shows "row_pixels x = unat x"
proof (cases "x = 0")
  case True
  then show ?thesis by (simp add: row_pixels_def)
next
  case False
  then have "0 < unat x" by (simp add: unat_gt_0)
  moreover have "unat (x - 1) = unat x - 1"
    using False by (simp add: unat_minus_one)
  ultimately show ?thesis
    using assms by (simp add: row_pixels_def sint_small32)
qed

lemma row_room: "j < y \<Longrightarrow> j * x * n + x * n \<le> y * x * n" for j y x n :: nat
proof -
  assume "j < y"
  then have "Suc j * (x * n) \<le> y * (x * n)" by (intro mult_le_mono1) simp
  then show ?thesis by (simp add: algebra_simps)
qed

lemma length_memcpy_at [simp]: "off + length bs \<le> length mem \<Longrightarrow> length (memcpy_at mem off bs) = length mem"
  by (simp add: memcpy_at_def)

text \<open>The loop over the scanlines is safe on an image and a block of the sizes it is told, even where
  an offset wraps.\<close>

lemma ensures_convert_rows:
  assumes "1 \<le> n" "n \<le> 4" "1 \<le> m" "m \<le> 4" "n \<noteq> m"
    and "length data = unat y * unat x * n" "length good = unat y * unat x * m"
    and "unat x < 2 ^ 31" "unat y < 2 ^ 31"
  shows "ensures (convert_rows (convert_pixel cy full (int n) (int m)) (int n) (int m) x y data good)
    (\<lambda>d. length d = unat y * unat x * m)"
  unfolding convert_rows_def
proof (rule ensures_efold)
  fix j and g :: "'a word list" assume "j \<in> set [0..<nat (sint y)]" and g: "length g = unat y * unat x * m"
  then have j: "j < unat y" using assms(9) by (simp add: sint_small32)
  let ?src = "drop (row_offset j x (int n)) data"
  have src: "unat x * n \<le> length ?src"
    using row_room [OF j, of "unat x" n] row_offset_le [of j x n] assms(6) by simp
  have row: "convert_row (convert_pixel cy full (int n) (int m)) n (unat x) ?src =
      Inr (concat (map (pixel_spec cy full m) (pixels n (unat x) ?src)))"
    by (rule convert_row_pixels [OF assms(1-5) src])
  have len: "length (concat (map (pixel_spec cy full m) (pixels n (unat x) ?src))) = unat x * m"
    by (rule length_concat_pixel_spec [OF assms(1-4) src])
  have room: "row_offset j x (int m) + unat x * m \<le> length g"
    using row_room [OF j, of "unat x" m] row_offset_le [of j x m] g by simp
  show "ensures (ebind (convert_row (convert_pixel cy full (int n) (int m)) (nat (int n)) (row_pixels x) ?src)
      (\<lambda>r. let dest = row_offset j x (int m)
            in if dest + length r \<le> length g then Inr (memcpy_at g dest r) else Inl Undefined))
    (\<lambda>d. length d = unat y * unat x * m)"
    using room g len by (simp add: row_pixels_small [OF assms(8)] row Let_def del: length_concat)
qed (use assms in simp)

text \<open>Where no offset wraps the result is the concatenation of the converted pixels.\<close>

lemma memcpy_at_append:
  "length bs \<le> length b \<Longrightarrow> memcpy_at (a @ b) (length a) bs = a @ bs @ drop (length bs) b"
  by (simp add: memcpy_at_def)

lemma convert_rows_pixels:
  assumes "1 \<le> n" "n \<le> 4" "1 \<le> m" "m \<le> 4" "n \<noteq> m" and "length data = unat y * unat x * n"
    and "unat x < 2 ^ 31" "unat y < 2 ^ 31"
    and "unat y * unat x * n < 2 ^ 32" "unat y * unat x * m < 2 ^ 32"
  shows "convert_rows (convert_pixel cy full (int n) (int m)) (int n) (int m) x y data
      (replicate (unat y * unat x * m) 0) =
    Inr (concat (map (pixel_spec cy full m) (pixels n (unat y * unat x) data)))"
proof -
  let ?x = "unat x" and ?y = "unat y"
  define conv where "conv j = concat (map (pixel_spec cy full m) (pixels n (j * ?x) data))" for j
  define st where "st j = conv j @ replicate (?y * ?x * m - j * ?x * m) 0" for j
  have len: "length (conv j) = j * ?x * m" if "j \<le> ?y" for j
    unfolding conv_def
    by (rule length_concat_pixel_spec [OF assms(1-4)]) (use that assms(6) in \<open>simp add: mult_le_mono1\<close>)
  have "efold (\<lambda>j good.
         ebind (convert_row (convert_pixel cy full (int n) (int m)) (nat (int n)) (row_pixels x) (drop (row_offset j x (int n)) data)) (\<lambda>r.
           let dest = row_offset j x (int m) in
           if dest + length r \<le> length good then Inr (memcpy_at good dest r) else Inl Undefined))
       [0..<?y] (st 0) = Inr (st ?y)"
  proof (rule efold_Inr_upt)
    fix j assume j: "j < ?y"
    note room = row_room [OF j, of ?x]
    have off: "row_offset j x (int n) = j * ?x * n" "row_offset j x (int m) = j * ?x * m"
      using room [of n] room [of m] assms(9,10) by (simp_all add: row_offset_small)
    define r where "r = concat (map (pixel_spec cy full m) (pixels n ?x (drop (j * ?x * n) data)))"
    have src: "?x * n \<le> length (drop (j * ?x * n) data)"
      using room [of n] assms(6) by simp
    have row: "convert_row (convert_pixel cy full (int n) (int m)) n ?x (drop (j * ?x * n) data) = Inr r"
      unfolding r_def by (rule convert_row_pixels [OF assms(1-5) src])
    have rl: "length r = ?x * m"
      unfolding r_def by (rule length_concat_pixel_spec [OF assms(1-4) src])
    have next_conv: "conv (Suc j) = conv j @ r"
      using pixels_append [of n "j * ?x" ?x data] by (simp add: conv_def r_def add.commute)
    have "memcpy_at (st j) (j * ?x * m) r = st (Suc j)"
      using memcpy_at_append [of r "replicate (?y * ?x * m - j * ?x * m) 0" "conv j"] room [of m] len [of j] j
      by (simp add: st_def next_conv rl drop_replicate algebra_simps)
    moreover have "j * ?x * m + length r \<le> length (st j)"
      using room [of m] len [of j] j by (simp add: st_def rl)
    ultimately show "ebind (convert_row (convert_pixel cy full (int n) (int m)) (nat (int n)) (row_pixels x) (drop (row_offset j x (int n)) data)) (\<lambda>r.
           let dest = row_offset j x (int m) in
           if dest + length r \<le> length (st j) then Inr (memcpy_at (st j) dest r) else Inl Undefined) = Inr (st (Suc j))"
      by (simp add: off row_pixels_small [OF assms(7)] row)
  qed simp
  then show ?thesis
    using assms(8) by (simp add: convert_rows_def st_def conv_def sint_small32)
qed

text \<open>Both conversions are safe on an image of the size they are told and return one of the size asked
  for.\<close>

lemma mad3_block:
  fixes x y :: uint32
  assumes "stbi__malloc_mad3 (int m) (sint x) (sint y) 0 = Some bytes" and "1 \<le> m"
  shows "unat x < 2 ^ 31" "unat y < 2 ^ 31" "bytes = unat y * unat x * m" "unat y * unat x * m < 2 ^ 31"
proof -
  have "0 \<le> sint x" "0 \<le> sint y" and bytes: "bytes = nat (int m * sint x * sint y)"
      and max: "int m * sint x * sint y \<le> INT_MAX"
    using assms by (auto simp: stbi__malloc_mad3_def size_checks split: if_splits)
  show x: "unat x < 2 ^ 31" by (rule sint_nonneg32) fact
  show y: "unat y < 2 ^ 31" by (rule sint_nonneg32) fact
  have "int m * sint x * sint y = int (unat y * unat x * m)"
    using x y by (simp add: sint_small32)
  with bytes max have "bytes = unat y * unat x * m" and "int (unat y * unat x * m) < int (2 ^ 31)"
    by (simp_all only: nat_int) (simp add: INT_MAX_def)
  then show "bytes = unat y * unat x * m" and "unat y * unat x * m < 2 ^ 31"
    by (simp_all only: of_nat_less_iff)
qed

lemma ensures_convert_format:
  assumes "1 \<le> n" "n \<le> 4" "1 \<le> m" "m \<le> 4" and "length data = unat y * unat x * n" "unat y < 2 ^ 31"
  shows "ensures (stbi__convert_format data (int n) (int m) x y) (\<lambda>d. length d = unat y * unat x * m)"
proof (cases "n = m")
  case False
  then have ne: "int m \<noteq> int n" by simp
  show ?thesis
  proof (cases "stbi__malloc_mad3 (int m) (sint x) (sint y) 0")
    case None
    with ne assms show ?thesis by (simp add: stbi__convert_format_def)
  next
    case (Some bytes)
    note b = mad3_block [OF Some assms(3)]
    have "ensures (convert_rows (convert_pixel compute_y8 255 (int n) (int m)) (int n) (int m) x y data (replicate bytes 0))
        (\<lambda>d. length d = unat y * unat x * m)"
      by (rule ensures_convert_rows [OF assms(1-4) False assms(5) _ b(1,2)]) (simp add: b(3))
    with ne assms(1-4) Some show ?thesis by (simp add: stbi__convert_format_def)
  qed
qed (use assms in \<open>simp add: stbi__convert_format_def\<close>)

text \<open>The size of the 16-bit result does not wrap.\<close>

definition fits16 :: "nat \<Rightarrow> uint32 \<Rightarrow> uint32 \<Rightarrow> bool" where
  "fits16 m x y \<longleftrightarrow> m * unat x * unat y * 2 < 2 ^ 32"

lemma size16_mod:
  assumes "m \<le> 4"
  shows "unat (u32cast (int m) * x * y * 2) = (m * unat x * unat y * 2) mod 2 ^ 32"
proof -
  have "u32cast (int m) * x * y * 2 = word_of_nat (m * unat x * unat y * 2)"
    by (simp add: u32cast_def)
  then show ?thesis by (simp only: unat_of_nat take_bit_eq_mod) simp
qed

lemma ensures_convert_format16:
  assumes "1 \<le> n" "n \<le> 4" "1 \<le> m" "m \<le> 4" and "length data = unat y * unat x * n" "unat y < 2 ^ 31"
    and "n \<noteq> m \<Longrightarrow> fits16 m x y"
  shows "ensures (stbi__convert_format16 data (int n) (int m) x y) (\<lambda>d. length d = unat y * unat x * m)"
proof (cases "n = m")
  case False
  then have fits: "m * unat x * unat y * 2 < 2 ^ 32" using assms(7) by (simp add: fits16_def)
  then have size: "unat (u32cast (int m) * x * y * 2) div 2 = unat y * unat x * m"
    unfolding size16_mod [OF assms(4)] by (simp add: mult.commute mult.left_commute)
  have "ensures (convert_rows (convert_pixel compute_y16 0xffff (int n) (int m)) (int n) (int m) x y data
      (replicate (unat y * unat x * m) 0)) (\<lambda>d. length d = unat y * unat x * m)"
  proof (cases "unat y = 0")
    case True
    then show ?thesis by (simp add: convert_rows_def sint_small32)
  next
    case False
    with assms(3) have "1 * unat x * 1 * 2 \<le> m * unat x * unat y * 2"
      by (intro mult_le_mono) simp_all
    then have "unat x * 2 < 2 ^ 32" using fits by linarith
    then have "unat x < 2 ^ 31" by simp
    then show ?thesis
      by (intro ensures_convert_rows [OF assms(1-4) \<open>n \<noteq> m\<close> assms(5) _ _ assms(6)]) simp_all
  qed
  with False assms(1-4) size show ?thesis by (simp add: stbi__convert_format16_def)
qed (use assms in \<open>simp add: stbi__convert_format16_def\<close>)

text \<open>The conversion as the decoders use it, when a number of components is asked for and it is not
  that of the image.\<close>

lemma ensures_to_components:
  assumes "1 \<le> n" "n \<le> 4" "req \<in> {0..4}" "length data = unat y * unat x * n" "unat y < 2 ^ 31"
  shows "ensures (if req \<noteq> 0 \<and> req \<noteq> int n then stbi__convert_format data (int n) req x y else Inr data)
    (\<lambda>d. length d = unat y * unat x * nat (if req = 0 then int n else req))"
  using assms ensures_convert_format [of n "nat req" data y x] by auto

lemma ensures_to_components16:
  assumes "1 \<le> n" "n \<le> 4" "req \<in> {0..4}" "length data = unat y * unat x * n" "unat y < 2 ^ 31"
    and "req \<noteq> 0 \<Longrightarrow> req \<noteq> int n \<Longrightarrow> fits16 (nat req) x y"
  shows "ensures (if req \<noteq> 0 \<and> req \<noteq> int n then stbi__convert_format16 data (int n) req x y else Inr data)
    (\<lambda>d. length d = unat y * unat x * nat (if req = 0 then int n else req))"
  using assms ensures_convert_format16 [of n "nat req" data y x] by auto

text \<open>Without the condition the stores leave the block: the first scanline that ends behind it is stored
  at an offset that has not wrapped yet.\<close>

lemma convert_row_errors:
  assumes "convert_row (convert_pixel cy full n m) k i src = Inl e"
  shows "e = Undefined"
  using assms
  by (induction i arbitrary: src)
    (auto simp: ebind_def convert_pixel_def Let_def split: sum.splits if_splits)

lemma efold_Inl_inv:
  assumes "\<And>i s e. f i s = Inl e \<Longrightarrow> e = Undefined"
  shows "efold f is s = Inl e \<Longrightarrow> e = Undefined"
proof (induction "is" arbitrary: s)
  case (Cons i "is")
  then show ?case using assms by (auto simp: ebind_def split: sum.splits)
qed simp

lemma combo_component:
  assumes "n * 8 + m = c" and "1 \<le> m" and "m \<le> (4 :: int)"
  shows "m = c mod 8"
  using assms by auto

lemma convert_pixel_length:
  assumes "convert_pixel cy full n m px = Inr d" and "1 \<le> m" "m \<le> 4"
  shows "int (length d) = m"
  using assms(1)
  by (auto simp: convert_pixel_def Let_def STBI__COMBO_def split: if_splits
      dest!: combo_component [OF _ assms(2,3)])

lemma convert_row_length:
  assumes "convert_row (convert_pixel cy full n m) k i src = Inr r" and "1 \<le> m" "m \<le> 4"
  shows "int (length r) = int i * m"
  using assms(1)
proof (induction i arbitrary: src r)
  case (Suc i)
  then obtain d q where d: "convert_pixel cy full n m (take k src) = Inr d"
      and q: "convert_row (convert_pixel cy full n m) k i (drop k src) = Inr q" and r: "r = d @ q"
    by (auto simp: ebind_def split: sum.splits)
  have "int (length d) = m"
    by (rule convert_pixel_length [OF d assms(2,3)])
  with Suc.IH [OF q] r show ?case by (simp add: algebra_simps)
qed simp

lemma first_beyond:
  assumes "S < y * (R :: nat)"
  obtains j where "j < y" "j * R \<le> S" "S < j * R + R"
proof -
  have "0 < R" using assms by (cases R) simp_all
  then have "S div R * R \<le> S" "S < S div R * R + R"
    using div_mult_mod_eq [of S R] mod_less_divisor [of R S] by linarith+
  moreover have "S div R < y" using assms by (simp add: less_mult_imp_div_less)
  ultimately show thesis using that by blast
qed

lemma convert_rows_overrun:
  assumes "1 \<le> m" "m \<le> 4" "unat x < 2 ^ 31" "unat y < 2 ^ 31"
    and "length good < 2 ^ 31" "length good < unat y * (unat x * m)"
  shows "convert_rows (convert_pixel cy full n (int m)) n (int m) x y data good = Inl Undefined"
proof -
  define step where "step j g =
      ebind (convert_row (convert_pixel cy full n (int m)) (nat n) (row_pixels x) (drop (row_offset j x n) data)) (\<lambda>r.
        let dest = row_offset j x (int m) in
        if dest + length r \<le> length g then Inr (memcpy_at g dest r) else Inl Undefined)" for j and g :: "'a word list"
  have rows: "convert_rows (convert_pixel cy full n (int m)) n (int m) x y data good = efold step [0..<unat y] good"
    using assms(4) by (simp add: convert_rows_def step_def [abs_def] sint_small32)
  have err: "e = Undefined" if "step j g = Inl e" for j g e
    using that convert_row_errors by (auto simp: step_def ebind_def Let_def split: sum.splits if_splits)
  have len: "length g' = length g" if "step j g = Inr g'" for j g g'
    using that by (auto simp: step_def ebind_def Let_def memcpy_at_def split: sum.splits if_splits)
  obtain j where j: "j < unat y" "j * (unat x * m) \<le> length good" "length good < j * (unat x * m) + unat x * m"
    using first_beyond [OF assms(6)] by blast
  have stop: "step j g \<noteq> Inr g'" if same: "length g = length good" for g g'
  proof
    assume "step j g = Inr g'"
    then obtain r where r: "convert_row (convert_pixel cy full n (int m)) (nat n) (unat x) (drop (row_offset j x n) data) = Inr r"
        and room: "row_offset j x (int m) + length r \<le> length good"
      unfolding step_def row_pixels_small [OF assms(3)] same ebind_def Let_def
      by (auto split: sum.splits if_splits)
    have "int (length r) = int (unat x * m)"
      using convert_row_length [OF r] assms(1,2) by simp
    then have "length r = unat x * m" by (simp only: of_nat_eq_iff)
    moreover have "row_offset j x (int m) = j * unat x * m"
      by (rule row_offset_small) (use j(2) assms(5) in \<open>simp add: mult.assoc\<close>)
    ultimately show False using room j(3) by (simp add: mult.assoc)
  qed
  have "efold step [0..<unat y] good = Inl Undefined"
  proof (cases "efold step [0..<unat y] good")
    case (Inl e)
    then show ?thesis using efold_Inl_inv [of step "[0..<unat y]" good e] err by blast
  next
    case (Inr d)
    have "[0..<unat y] = [0..<j] @ j # [Suc j..<unat y]"
      using j(1) upt_add_eq_append [of 0 j "unat y - j"] by (simp add: upt_conv_Cons)
    with Inr obtain g g' where g: "efold step [0..<j] good = Inr g" and "step j g = Inr g'"
      by (auto simp: efold_append ebind_eq_Inr)
    moreover have "length g = length good"
      by (rule efold_Inr_inv [OF g]) (simp_all add: len)
    ultimately show ?thesis using stop by blast
  qed
  then show ?thesis by (simp only: rows)
qed

lemma convert_format16_wraps:
  assumes "n \<noteq> m" "1 \<le> m" "m \<le> 4" "unat x < 2 ^ 31" "unat y < 2 ^ 31" "\<not> fits16 m x y"
  shows "stbi__convert_format16 data (int n) (int m) x y = Inl Undefined"
proof -
  let ?S = "unat (u32cast (int m) * x * y * 2) div 2"
  have S: "?S < 2 ^ 31"
    unfolding size16_mod [OF assms(3)] by (simp add: less_mult_imp_div_less)
  moreover have "2 ^ 31 \<le> unat y * (unat x * m)"
    using assms(6) by (simp add: fits16_def mult.commute mult.left_commute)
  ultimately have "convert_rows (convert_pixel compute_y16 0xffff (int n) (int m)) (int n) (int m) x y data (replicate ?S 0) =
      Inl Undefined"
    by (intro convert_rows_overrun [OF assms(2-5)]) simp_all
  then show ?thesis using assms(1-3) by (simp add: stbi__convert_format16_def)
qed

lemma compute_y_range: "drop_bit 8 (uint r * 77 + uint g * 150 + 29 * uint b) \<in> {0..255}"
  for r g b :: stbi_uc
proof -
  define e where "e = uint r * 77 + uint g * 150 + 29 * uint b"
  have "0 \<le> e" "e \<le> 65280"
    using uint_bounds8 [of r] uint_bounds8 [of g] uint_bounds8 [of b] by (simp_all add: e_def)
  then have "0 \<le> e div 256" "e div 256 \<le> 65280 div 256"
    by (simp, intro zdiv_mono1) simp_all
  then show ?thesis by (simp add: drop_bit_eq_div e_def)
qed

section \<open>The flip\<close>

lemma nth_memcpy_at:
  assumes "off + length bs \<le> length mem"
  shows "memcpy_at mem off bs ! k =
    (if off \<le> k \<and> k < off + length bs then bs ! (k - off) else mem ! k)"
  using assms by (auto simp: memcpy_at_def nth_append)

lemma swap_block:
  assumes "r0 + n \<le> r1" and "r1 + n \<le> length b"
  shows "length (swap_block b r0 r1 n) = length b"
    and "swap_block b r0 r1 n ! k =
      (if r0 \<le> k \<and> k < r0 + n then b ! (r1 + (k - r0))
       else if r1 \<le> k \<and> k < r1 + n then b ! (r0 + (k - r1)) else b ! k)"
proof -
  have l0: "length (take n (drop r0 b)) = n" "length (take n (drop r1 b)) = n"
    using assms by simp_all
  have l1: "length (memcpy_at b r0 (take n (drop r1 b))) = length b"
    using assms l0 by simp
  show "length (swap_block b r0 r1 n) = length b"
    using assms l0 l1 by (simp add: swap_block_def)
  show "swap_block b r0 r1 n ! k =
      (if r0 \<le> k \<and> k < r0 + n then b ! (r1 + (k - r0))
       else if r1 \<le> k \<and> k < r1 + n then b ! (r0 + (k - r1)) else b ! k)"
    unfolding swap_block_def Let_def
    using assms l0 l1 by (auto simp: nth_memcpy_at)
qed

lemma swap_rows:
  assumes "r0 + n \<le> r1" and "r1 + n \<le> length b"
  shows "length (swap_rows b r0 r1 n) = length b \<and> (\<forall>k. swap_rows b r0 r1 n ! k =
      (if r0 \<le> k \<and> k < r0 + n then b ! (r1 + (k - r0))
       else if r1 \<le> k \<and> k < r1 + n then b ! (r0 + (k - r1)) else b ! k))"
  using assms
proof (induction b r0 r1 n rule: swap_rows.induct)
  case (1 b r0 r1 n)
  show ?case
  proof (cases "n = 0")
    case True
    then show ?thesis by (subst (1 2) swap_rows.simps) auto
  next
    case False
    define c where "c = (if n < 2048 then n else 2048)"
    have c: "0 < c" "c \<le> n" using False by (auto simp: c_def)
    have eq: "swap_rows b r0 r1 n = swap_rows (swap_block b r0 r1 c) (r0 + c) (r1 + c) (n - c)"
      using False by (subst swap_rows.simps) (simp add: c_def)
    have sb: "r0 + c \<le> r1" "r1 + c \<le> length b" using "1.prems" c by auto
    note blk = swap_block [OF sb]
    have "length (swap_rows (swap_block b r0 r1 c) (r0 + c) (r1 + c) (n - c)) = length (swap_block b r0 r1 c) \<and>
      (\<forall>k. swap_rows (swap_block b r0 r1 c) (r0 + c) (r1 + c) (n - c) ! k =
        (if r0 + c \<le> k \<and> k < r0 + c + (n - c) then swap_block b r0 r1 c ! (r1 + c + (k - (r0 + c)))
         else if r1 + c \<le> k \<and> k < r1 + c + (n - c) then swap_block b r0 r1 c ! (r0 + c + (k - (r1 + c)))
         else swap_block b r0 r1 c ! k))"
      by (rule "1.IH" [OF False c_def]) (use "1.prems" c blk(1) in auto)
    then have rec: "length (swap_rows b r0 r1 n) = length b"
      "\<And>k. swap_rows b r0 r1 n ! k =
        (if r0 + c \<le> k \<and> k < r0 + n then swap_block b r0 r1 c ! (r1 + (k - r0))
         else if r1 + c \<le> k \<and> k < r1 + n then swap_block b r0 r1 c ! (r0 + (k - r1))
         else swap_block b r0 r1 c ! k)"
      using c by (simp_all add: eq blk(1))
    have "swap_rows b r0 r1 n ! k =
      (if r0 \<le> k \<and> k < r0 + n then b ! (r1 + (k - r0))
       else if r1 \<le> k \<and> k < r1 + n then b ! (r0 + (k - r1)) else b ! k)" for k
    proof -
      consider "k < r0" | d where "k = r0 + d" "d < n" | "r0 + n \<le> k" "k < r1"
        | d where "k = r1 + d" "d < n" | "r1 + n \<le> k"
        by (metis le_add_diff_inverse linorder_not_le nat_add_left_cancel_less)
      then show ?thesis
        by cases (use c "1.prems" in \<open>auto simp: rec(2) blk(2)\<close>)
    qed
    with rec(1) show ?thesis by blast
  qed
qed

text \<open>The invariant of the row loop: the first \<open>m\<close> and the last \<open>m\<close> rows are exchanged.\<close>

definition flipped :: "nat \<Rightarrow> nat \<Rightarrow> nat \<Rightarrow> 'a list \<Rightarrow> 'a list \<Rightarrow> bool" where
  "flipped m h r old new \<longleftrightarrow> length new = length old \<and>
     (\<forall>j < h. \<forall>c < r. new ! (j * r + c) =
        (if j < m \<or> h - m \<le> j then old ! ((h - 1 - j) * r + c) else old ! (j * r + c)))"

lemma row_index: "c < r \<Longrightarrow> d < r \<Longrightarrow> j * r \<le> k * r + d \<and> k * r + d < j * r + r \<longleftrightarrow> j = k" for j k r :: nat
proof
  assume r: "c < r" "d < r" and a: "j * r \<le> k * r + d \<and> k * r + d < j * r + r"
  from a r have "(k * r + d) div r = j"
    by (intro div_nat_eqI) (simp_all add: mult.commute)
  with r show "j = k" by simp
qed simp

lemma flip_step:
  assumes "flipped m h r old new" and "m < h div 2" and "length old = h * r"
  shows "flipped (Suc m) h r old (swap_rows new (m * r) ((h - m - 1) * r) r)"
proof -
  have len: "length new = h * r" using assms by (simp add: flipped_def)
  have "Suc m \<le> h - m - 1" and h1: "h - m - 1 + 1 \<le> h" using assms(2) by auto
  then have a1: "m * r + r \<le> (h - m - 1) * r"
    by (metis add.commute mult_Suc mult_le_mono1)
  have a2: "(h - m - 1) * r + r \<le> length new"
    using mult_le_mono1 [OF h1, of r] by (simp add: len add.commute)
  note sw = swap_rows [OF a1 a2]
  have "swap_rows new (m * r) ((h - m - 1) * r) r ! (j * r + c) =
      (if j < Suc m \<or> h - Suc m \<le> j then old ! ((h - 1 - j) * r + c) else old ! (j * r + c))"
    if j: "j < h" and c: "c < r" for j c
  proof -
    have e1: "m * r \<le> j * r + c \<and> j * r + c < m * r + r \<longleftrightarrow> m = j"
      and e2: "(h - m - 1) * r \<le> j * r + c \<and> j * r + c < (h - m - 1) * r + r \<longleftrightarrow> h - m - 1 = j"
      using row_index c by blast+
    have old: "\<And>j. j < h \<Longrightarrow> new ! (j * r + c) =
        (if j < m \<or> h - m \<le> j then old ! ((h - 1 - j) * r + c) else old ! (j * r + c))"
      using assms(1) c by (simp add: flipped_def)
    have mid: "\<not> h - m - 1 < m" "\<not> h - m \<le> h - m - 1" "h - m - 1 < h" "m < h" "\<not> h - m \<le> m"
        "h - 1 - (h - m - 1) = m"
      using assms(2) by auto
    consider "j = m" | "j = h - m - 1" "j \<noteq> m" | "j \<noteq> m" "j \<noteq> h - m - 1" by blast
    then show ?thesis
    proof cases
      case 1
      then have "swap_rows new (m * r) ((h - m - 1) * r) r ! (j * r + c) = new ! ((h - m - 1) * r + c)"
        using sw c by auto
      also have "\<dots> = old ! ((h - 1 - j) * r + c)"
        using old [of "h - m - 1"] mid 1 by simp
      finally show ?thesis using 1 by simp
    next
      case 2
      then have "swap_rows new (m * r) ((h - m - 1) * r) r ! (j * r + c) = new ! (m * r + c)"
        using sw c e1 by auto
      also have "\<dots> = old ! (m * r + c)"
        using old [of m] mid by simp
      finally show ?thesis using 2 mid by simp
    next
      case 3
      then have "swap_rows new (m * r) ((h - m - 1) * r) r ! (j * r + c) = new ! (j * r + c)"
        using sw e1 e2 by auto
      then show ?thesis using old [OF j] 3 by auto
    qed
  qed
  then show ?thesis using sw assms(1) by (simp add: flipped_def)
qed

lemma vertical_flip_flipped:
  assumes "length img = h * (w * bpp)"
  shows "flipped (h div 2) h (w * bpp) img (stbi__vertical_flip img w h bpp)"
proof -
  have "flipped n h (w * bpp) img
      (fold (\<lambda>row bytes. swap_rows bytes (row * (w * bpp)) ((h - row - 1) * (w * bpp)) (w * bpp)) [0..<n] img)"
    if "n \<le> h div 2" for n
    using that
  proof (induction n)
    case 0
    show ?case by (simp add: flipped_def)
  next
    case (Suc n)
    then show ?case using flip_step [OF Suc.IH] assms by simp
  qed
  then show ?thesis by (simp add: stbi__vertical_flip_def Let_def)
qed

text \<open>The abstract flip: the rows in reverse order.\<close>

lemma vertical_flip_nth:
  assumes "length img = h * (w * bpp)" and "j < h" and "c < w * bpp"
  shows "stbi__vertical_flip img w h bpp ! (j * (w * bpp) + c) = img ! ((h - 1 - j) * (w * bpp) + c)"
proof -
  have "j < h div 2 \<or> h - h div 2 \<le> j \<or> h - 1 - j = j" using assms(2) by linarith
  with vertical_flip_flipped [OF assms(1)] assms(2,3) show ?thesis
    unfolding flipped_def by (metis (no_types, lifting))
qed

lemma length_vertical_flip:
  "length img = h * (w * bpp) \<Longrightarrow> length (stbi__vertical_flip img w h bpp) = length img"
  using vertical_flip_flipped [of img h w bpp] by (simp add: flipped_def)

lemma row_nth_eqI:
  assumes "length xs = h * r" and "length ys = h * r"
    and "\<And>j c. j < h \<Longrightarrow> c < r \<Longrightarrow> xs ! (j * r + c) = ys ! (j * r + c)"
  shows "xs = ys"
proof (rule nth_equalityI)
  fix k assume "k < length xs"
  then have k: "k < h * r" using assms(1) by simp
  then have "0 < r" by (cases r) auto
  moreover have "k div r < h" using k by (simp add: less_mult_imp_div_less)
  ultimately show "xs ! k = ys ! k"
    using assms(3) [of "k div r" "k mod r"] by simp
qed (simp add: assms)

lemma nth_concat_rows:
  assumes "\<And>xs. xs \<in> set xss \<Longrightarrow> length xs = r" and "j < length xss" and "c < r"
  shows "concat xss ! (j * r + c) = xss ! j ! c"
  using assms(1,2)
proof (induction xss arbitrary: j)
  case (Cons xs xss)
  show ?case
  proof (cases j)
    case 0
    with Cons.prems assms(3) show ?thesis by (simp add: nth_append)
  next
    case (Suc i)
    with Cons.prems Cons.IH [of i] show ?thesis by (simp add: nth_append add.assoc)
  qed
qed simp

lemma vertical_flip_rev_rows:
  assumes "length img = h * (w * bpp)"
  shows "stbi__vertical_flip img w h bpp = concat (rev (pixels (w * bpp) h img))"
proof (rule row_nth_eqI)
  let ?r = "w * bpp"
  let ?rows = "pixels ?r h img"
  have row_len: "\<And>px. px \<in> set ?rows \<Longrightarrow> length px = ?r"
    using in_pixels_length [of _ ?r h img] assms by simp
  have len: "length (concat (rev ?rows)) = h * ?r"
    using concat_pixels [OF assms] assms
    by (metis length_concat rev_map sum_list_rev)
  show "length (stbi__vertical_flip img w h bpp) = h * ?r"
    using length_vertical_flip [OF assms] assms by simp
  show "length (concat (rev ?rows)) = h * ?r" by (rule len)
  fix j c assume j: "j < h" and c: "c < ?r"
  have "concat (rev ?rows) ! (j * ?r + c) = rev ?rows ! j ! c"
    by (rule nth_concat_rows) (use row_len j c in auto)
  also have "\<dots> = take ?r (drop ((h - 1 - j) * ?r) img) ! c"
    using j by (simp add: rev_nth nth_pixels)
  also have "\<dots> = img ! ((h - 1 - j) * ?r + c)"
  proof -
    have "Suc (h - 1 - j) * ?r \<le> h * ?r" using j by (intro mult_le_mono1) simp
    then show ?thesis using c assms by simp
  qed
  finally show "stbi__vertical_flip img w h bpp ! (j * ?r + c) = concat (rev ?rows) ! (j * ?r + c)"
    using vertical_flip_nth [OF assms j c] by simp
qed

section \<open>Properties\<close>

text \<open>C31. \<open>stbi__convert_format\<close> works pixel by pixel and never reads or writes outside its blocks: on
  an image of \<open>x * y\<close> pixels with 1 to 4 components whose size in bytes is less than \<open>2\<^sup>3\<^sup>2\<close> (the
  offsets of its scanlines are 32-bit products, and every decoder checks more than that before it
  allocates the image), converted to another number of components, it either refuses because the
  result would not fit an \<open>int\<close>, or returns the concatenation of the converted pixels, where grey is
  spread over the colours, colours are reduced to their luma, an absent alpha becomes 255 and a
  present one is kept.\<close>

theorem convert_format_pixelwise:
  assumes "1 \<le> n" "n \<le> 4" "1 \<le> m" "m \<le> 4" "n \<noteq> m"
    and "int x \<le> INT_MAX" "int y \<le> INT_MAX" and "length data = y * x * n" and "y * x * n < 2 ^ 32"
  shows "stbi__convert_format data (int n) (int m) (word_of_nat x) (word_of_nat y) =
    (if int m * int x \<le> INT_MAX \<and> int m * int x * int y \<le> INT_MAX
     then Inr (concat (map (pixel_spec compute_y8 255 m) (pixels n (y * x) data)))
     else Inl (Failure ''outofmem''))"
proof -
  have w: "sint (word_of_nat k :: uint32) = int k" "unat (word_of_nat k :: uint32) = k" "k < 2 ^ 31"
    if "int k \<le> INT_MAX" for k
    using that by (simp_all add: INT_MAX_def signed_of_nat unat_of_nat signed_take_bit_int_eq_self
        take_bit_nat_eq_self)
  note wx = w [OF assms(6)] and wy = w [OF assms(7)]
  show ?thesis
  proof (cases "stbi__malloc_mad3 (int m) (sint (word_of_nat x :: uint32)) (sint (word_of_nat y :: uint32)) 0")
    case None
    then have "\<not> (int m * int x \<le> INT_MAX \<and> int m * int x * int y \<le> INT_MAX)"
      using wx wy by (auto simp: stbi__malloc_mad3_def size_checks split: if_splits)
    with None assms(1-5) show ?thesis by (simp add: stbi__convert_format_def)
  next
    case (Some bytes)
    note b = mad3_block [OF Some assms(3)]
    have "int m * int x \<le> INT_MAX \<and> int m * int x * int y \<le> INT_MAX"
      using Some wx wy by (auto simp: stbi__malloc_mad3_def size_checks split: if_splits)
    moreover have "convert_rows (convert_pixel compute_y8 255 (int n) (int m)) (int n) (int m)
        (word_of_nat x) (word_of_nat y) data (replicate bytes 0) =
        Inr (concat (map (pixel_spec compute_y8 255 m) (pixels n (y * x) data)))"
      using convert_rows_pixels [OF assms(1-5), of data "word_of_nat y" "word_of_nat x" compute_y8 255]
        assms(8,9) b wx wy by simp
    ultimately show ?thesis using Some assms(1-5) by (simp add: stbi__convert_format_def)
  qed
qed

theorem convert_format_pixelwise_witness:
  "stbi__convert_format [10, 20, 30, 255, 255, 255] 3 2 1 2 = Inr [18, 255, 255, 255]"
  using convert_format_pixelwise [of 3 2 1 2 "[10, 20, 30, 255, 255, 255]"]
  by (simp add: INT_MAX_def compute_y8_def stbi__compute_y_def)

text \<open>C32. The vertical flip, conv in place through a 2048-byte buffer, reverses the rows of the image,
  whatever the width, the height and the size of a pixel.\<close>

theorem vertical_flip_reverses:
  assumes "length img = h * (w * bpp)"
  shows "stbi__vertical_flip img w h bpp = concat (rev (pixels (w * bpp) h img))"
  using assms by (rule vertical_flip_rev_rows)

theorem vertical_flip_reverses_witness:
  "stbi__vertical_flip [1, 2, 3, 4, 5, 6 :: stbi_uc] 2 3 1 = [5, 6, 3, 4, 1, 2]"
  using vertical_flip_reverses [of "[1, 2, 3, 4, 5, 6 :: stbi_uc]" 3 2 1] by simp

end
