(* ===== verification/Stbi_State.thy ===== *)
theory Stbi_State
  imports Stbi_Context
begin

text \<open>
  State-passing for the format decoders. A step of type \<open>('s, 'a) step\<close> takes the decoder's state
  and returns a result and the new state, which it returns on failure too (a decoder that gives up
  leaves the context where it stopped, and its caller rewinds it). The safety of the decoders is
  shown with the weakest preconditions \<open>wp\<close> of their steps.
\<close>

section \<open>Steps\<close>

type_synonym ('s, 'a) step = "'s \<Rightarrow> 'a res \<times> 's"

definition sret :: "'a \<Rightarrow> ('s, 'a) step" where
  "sret x s = (Inr x, s)"

definition sfail :: "failure \<Rightarrow> ('s, 'a) step" where
  "sfail e s = (Inl e, s)"

definition slift :: "'a res \<Rightarrow> ('s, 'a) step" where
  "slift r s = (r, s)"

definition sbind :: "('s, 'a) step \<Rightarrow> ('a \<Rightarrow> ('s, 'b) step) \<Rightarrow> ('s, 'b) step" where
  "sbind m f s = (case m s of (Inl e, s) \<Rightarrow> (Inl e, s) | (Inr x, s) \<Rightarrow> f x s)"

definition sget :: "('s \<Rightarrow> 'a) \<Rightarrow> ('s, 'a) step" where
  "sget f s = (Inr (f s), s)"

definition smodify :: "('s \<Rightarrow> 's) \<Rightarrow> ('s, unit) step" where
  "smodify f s = (Inr (), f s)"

text \<open>A total routine that returns a value and a state, such as \<open>stbi__get8\<close>.\<close>

definition stot :: "('s \<Rightarrow> 'a \<times> 's) \<Rightarrow> ('s, 'a) step" where
  "stot f s = (case f s of (x, s) \<Rightarrow> (Inr x, s))"

definition sguard :: "bool \<Rightarrow> failure \<Rightarrow> ('s, unit) step" where
  "sguard b e s = (if b then Inr () else Inl e, s)"

fun sfold :: "('i \<Rightarrow> 'a \<Rightarrow> ('s, 'a) step) \<Rightarrow> 'i list \<Rightarrow> 'a \<Rightarrow> ('s, 'a) step" where
  "sfold f [] x = sret x"
| "sfold f (i # is) x = sbind (f i x) (sfold f is)"

text \<open>A step on a part of the state: \<open>get\<close> and \<open>put\<close> give and replace the part.\<close>

definition son :: "('s \<Rightarrow> 't) \<Rightarrow> ('t \<Rightarrow> 's \<Rightarrow> 's) \<Rightarrow> ('t, 'a) step \<Rightarrow> ('s, 'a) step" where
  "son get put m s = (case m (get s) of (r, t) \<Rightarrow> (r, put t s))"

lemma sbind_cong [fundef_cong]:
  assumes "m s = m' s'" and "\<And>x t. m' s' = (Inr x, t) \<Longrightarrow> f x t = g x t"
  shows "sbind m f s = sbind m' g s'"
  using assms by (auto simp: sbind_def split: prod.splits sum.splits)

section \<open>Conditional steps, loops that may stop, and caught failures\<close>

definition swhen :: "bool \<Rightarrow> ('s, unit) step \<Rightarrow> ('s, unit) step" where
  "swhen b m = (if b then m else sret ())"

text \<open>A loop over a list whose body says whether to leave the loop; the result says whether it
  was left early.\<close>

fun suntil :: "('i \<Rightarrow> ('s, bool) step) \<Rightarrow> 'i list \<Rightarrow> ('s, bool) step" where
  "suntil f [] = sret False"
| "suntil f (i # is) = sbind (f i) (\<lambda>stop. if stop then sret True else suntil f is)"

text \<open>\<open>if (m) \<dots>\<close> on a call whose failure is an ordinary outcome: the result says whether it
  succeeded. Undefined behaviour and lack of fuel are no outcomes and pass through.\<close>

definition stry :: "('s, unit) step \<Rightarrow> ('s, bool) step" where
  "stry m s = (case m s of (Inr _, s) \<Rightarrow> (Inr True, s)
     | (Inl e, s) \<Rightarrow> (if regular e then Inr False else Inl e, s))"

text \<open>\<open>if (!m) return e\<close>: a failure of \<open>m\<close> becomes the failure \<open>e\<close>.\<close>

definition sfail_as :: "failure \<Rightarrow> ('s, 'a) step \<Rightarrow> ('s, 'a) step" where
  "sfail_as e m s = (case m s of (Inr x, s) \<Rightarrow> (Inr x, s)
     | (Inl f, s) \<Rightarrow> (Inl (if regular f then e else f), s))"

text \<open>A call whose failure the caller looks at itself.\<close>

definition sattempt :: "('s, 'a) step \<Rightarrow> ('s, 'a res) step" where
  "sattempt m s = (case m s of (Inr x, s) \<Rightarrow> (Inr (Inr x), s)
     | (Inl e, s) \<Rightarrow> (if regular e then Inr (Inl e) else Inl e, s))"

section \<open>Weakest preconditions\<close>

text \<open>\<open>wp m Q E s\<close>: run on \<open>s\<close>, the step returns without undefined behaviour, in a state with \<open>Q\<close>
  when it succeeds and with \<open>E\<close> when it fails. The equations \<open>wp_simps\<close> unfold it along the
  structure of a step; loops and calls have rules.\<close>

definition wp :: "('s, 'a) step \<Rightarrow> ('a \<Rightarrow> 's \<Rightarrow> bool) \<Rightarrow> ('s \<Rightarrow> bool) \<Rightarrow> 's \<Rightarrow> bool" where
  "wp m Q E s = (case m s of (Inl e, t) \<Rightarrow> regular e \<and> E t | (Inr x, t) \<Rightarrow> Q x t)"

named_theorems wp_simps \<open>weakest preconditions of the step combinators\<close>

lemma wp_basic [wp_simps]:
  "wp (sret x) Q E s \<longleftrightarrow> Q x s"
  "wp (sfail e) Q E s \<longleftrightarrow> regular e \<and> E s"
  "wp (sget f) Q E s \<longleftrightarrow> Q (f s) s"
  "wp (smodify g) Q' E s \<longleftrightarrow> Q' () (g s)"
  "wp (sguard b e) Q' E s \<longleftrightarrow> (if b then Q' () s else regular e \<and> E s)"
  by (simp_all add: wp_def sret_def sfail_def sget_def smodify_def sguard_def)

lemma wp_stot: "wp (stot f) Q E s \<longleftrightarrow> (case f s of (x, t) \<Rightarrow> Q x t)"
  by (simp add: wp_def stot_def split: prod.split)

lemma wp_sbind [wp_simps]: "wp (sbind m f) Q E s \<longleftrightarrow> wp m (\<lambda>x. wp (f x) Q E) E s"
  by (simp add: wp_def sbind_def split: prod.split sum.split)

lemma wp_if [wp_simps]: "wp (if b then m else n) Q E s \<longleftrightarrow> (if b then wp m Q E s else wp n Q E s)"
  by simp

lemma wp_son [wp_simps]:
  "wp (son get put m) Q E s \<longleftrightarrow> wp m (\<lambda>x t. Q x (put t s)) (\<lambda>t. E (put t s)) (get s)"
  by (simp add: wp_def son_def split: prod.split sum.split)

lemma wp_swhen [wp_simps]: "wp (swhen b m) Q E s \<longleftrightarrow> (if b then wp m Q E s else Q () s)"
  by (simp add: swhen_def wp_basic)

lemma wp_stry [wp_simps]: "wp (stry m) Q E s \<longleftrightarrow> wp m (\<lambda>_. Q True) (Q False) s"
  by (auto simp: wp_def stry_def split: prod.split sum.split)

lemma wp_sfail_as [wp_simps]: "regular e \<Longrightarrow> wp (sfail_as e m) Q E s \<longleftrightarrow> wp m Q E s"
  by (auto simp: wp_def sfail_as_def split: prod.split sum.split)

lemma wp_slift: "ensures r (\<lambda>x. Q x s) \<Longrightarrow> E s \<Longrightarrow> wp (slift r) Q E s"
  by (cases r) (simp_all add: wp_def slift_def)

lemma wp_slift_Inr [wp_simps]: "wp (slift (Inr x)) Q E s \<longleftrightarrow> Q x s"
  by (simp add: wp_def slift_def)

lemma wp_mono:
  assumes "wp m P F s" and "\<And>x t. P x t \<Longrightarrow> Q x t" and "\<And>t. F t \<Longrightarrow> E t"
  shows "wp m Q E s"
  using assms by (auto simp: wp_def split: prod.splits sum.splits)

lemma wp_sfold:
  assumes "P x s" and "\<And>i x s. i \<in> set is \<Longrightarrow> P x s \<Longrightarrow> wp (f i x) P E s"
  shows "wp (sfold f is x) P E s"
  using assms
proof (induction "is" arbitrary: x s)
  case (Cons i "is")
  show ?case
    unfolding sfold.simps wp_sbind
    by (rule wp_mono [where P = P and F = E]) (use Cons in auto)
qed (simp add: wp_basic)

text \<open>The loop rule with an invariant that depends on the loop counter.\<close>

lemma wp_sfold_upt:
  assumes "P m x s" and "m \<le> n"
    and "\<And>i x s. m \<le> i \<Longrightarrow> i < n \<Longrightarrow> P i x s \<Longrightarrow> wp (f i x) (P (Suc i)) E s"
  shows "wp (sfold f [m..<n] x) (P n) E s"
  using assms
proof (induction "n - m" arbitrary: m x s)
  case 0
  then show ?case by (simp add: wp_basic)
next
  case (Suc d)
  then have lt: "m < n" by simp
  then have "wp (f m x) (P (Suc m)) E s"
    using Suc.prems by simp
  then have "wp (sbind (f m x) (sfold f [Suc m..<n])) (P n) E s"
    unfolding wp_sbind by (rule wp_mono) (use Suc lt in auto)
  with lt show ?case by (simp add: upt_conv_Cons)
qed

lemma wp_suntil:
  assumes "P s" and "\<And>i s. i \<in> set is \<Longrightarrow> P s \<Longrightarrow> wp (f i) (\<lambda>_. P) E s"
  shows "wp (suntil f is) (\<lambda>_. P) E s"
  using assms
proof (induction "is" arbitrary: s)
  case (Cons i "is")
  show ?case
    unfolding suntil.simps wp_sbind
    by (rule wp_mono [where P = "\<lambda>_. P" and F = E]) (use Cons in \<open>auto simp: wp_basic\<close>)
qed (simp add: wp_basic)

text \<open>The equations as introduction rules, for goals that are to be taken apart step by step.\<close>

named_theorems wp_intros \<open>introduction rules for weakest preconditions\<close>

lemma wp_basicI [wp_intros]:
  "Q x s \<Longrightarrow> wp (sret x) Q E s"
  "regular e \<Longrightarrow> E s \<Longrightarrow> wp (sfail e) Q E s"
  "Q (f s) s \<Longrightarrow> wp (sget f) Q E s"
  "Q' () (g s) \<Longrightarrow> wp (smodify g) Q' E s"
  by (simp_all add: wp_basic)

lemma wp_sguardI [wp_intros]:
  "(b \<Longrightarrow> Q () s) \<Longrightarrow> (\<not> b \<Longrightarrow> regular e) \<Longrightarrow> (\<not> b \<Longrightarrow> E s) \<Longrightarrow> wp (sguard b e) Q E s"
  by (simp add: wp_basic)

lemma wp_sbindI [wp_intros]: "wp m (\<lambda>x. wp (f x) Q E) E s \<Longrightarrow> wp (sbind m f) Q E s"
  by (simp add: wp_sbind)

lemma wp_sbind_smodify: "wp (f ()) Q E (g s) \<Longrightarrow> wp (sbind (smodify g) f) Q E s"
  by (simp add: wp_simps)

lemma wp_ifI [wp_intros]:
  "(b \<Longrightarrow> wp m Q E s) \<Longrightarrow> (\<not> b \<Longrightarrow> wp n Q E s) \<Longrightarrow> wp (if b then m else n) Q E s"
  by simp

lemma wp_sonI [wp_intros]:
  "wp m (\<lambda>x t. Q x (put t s)) (\<lambda>t. E (put t s)) (get s) \<Longrightarrow> wp (son get put m) Q E s"
  by (simp add: wp_son)

lemma wp_swhenI [wp_intros]: "(b \<Longrightarrow> wp m Q E s) \<Longrightarrow> (\<not> b \<Longrightarrow> Q () s) \<Longrightarrow> wp (swhen b m) Q E s"
  by (simp add: wp_swhen)

lemma wp_stryI [wp_intros]: "wp m (\<lambda>_. Q True) (Q False) s \<Longrightarrow> wp (stry m) Q E s"
  by (simp add: wp_stry)

lemma wp_sattemptI [wp_intros]:
  "wp m (\<lambda>x. Q (Inr x)) (\<lambda>t. \<forall>e. regular e \<longrightarrow> Q (Inl e) t) s \<Longrightarrow> wp (sattempt m) Q E s"
  by (auto simp: wp_def sattempt_def split: prod.splits sum.splits)

lemma wp_sfail_asI [wp_intros]: "wp m Q E s \<Longrightarrow> regular e \<Longrightarrow> wp (sfail_as e m) Q E s"
  by (simp add: wp_sfail_as)

lemma wp_optionI:
  "(t = None \<Longrightarrow> wp m Q E s) \<Longrightarrow> (\<And>x. t = Some x \<Longrightarrow> wp (f x) Q E s) \<Longrightarrow> wp (case t of None \<Rightarrow> m | Some x \<Rightarrow> f x) Q E s"
  by (cases t) simp_all

text \<open>What \<open>wp\<close> says of a run.\<close>

lemma wp_Inr: "wp m Q E s \<Longrightarrow> m s = (Inr x, t) \<Longrightarrow> Q x t"
  by (simp add: wp_def)

lemma wp_Inl: "wp m Q E s \<Longrightarrow> m s = (Inl e, t) \<Longrightarrow> regular e \<and> E t"
  by (simp add: wp_def)

lemma wp_ensures: "wp m (\<lambda>x _. Q x) E s \<Longrightarrow> ensures (fst (m s)) Q"
  by (auto simp: wp_def ensures_def split: prod.splits sum.splits)

lemma wp_self: "wp m Q E s \<Longrightarrow> wp m (\<lambda>x t. Q x t \<and> m s = (Inr x, t)) E s"
  by (simp add: wp_def split: prod.splits sum.splits)

section \<open>Reading steps\<close>

text \<open>The reading routines as steps on a context.\<close>

definition rd8 :: "('u stbi__context, stbi_uc) step" where "rd8 = stot stbi__get8"
definition rd8i :: "('u stbi__context, int) step" where
  "rd8i = sbind rd8 (\<lambda>b. sret (uint b))"
definition rd16le :: "('u stbi__context, int) step" where "rd16le = stot stbi__get16le"
definition rd16be :: "('u stbi__context, int) step" where "rd16be = stot stbi__get16be"
definition rd32le :: "('u stbi__context, uint32) step" where "rd32le = stot stbi__get32le"
definition rd32be :: "('u stbi__context, uint32) step" where "rd32be = stot stbi__get32be"

definition skip_bytes :: "int \<Rightarrow> ('u stbi__context, unit) step" where
  "skip_bytes n = smodify (\<lambda>s. stbi__skip s n)"

text \<open>The bytes that \<open>stbi__getn\<close> stores, also when it fails: nothing from memory, what the callback
  delivered otherwise.\<close>

definition getn_stored :: "'u stbi__context \<Rightarrow> nat \<Rightarrow> stbi_uc list \<times> 'u stbi__context" where
  "getn_stored s n =
     (case stbi__getn s n of
        (Some bs, t) \<Rightarrow> (bs, t)
      | (None, t) \<Rightarrow>
          (case io s of
             None \<Rightarrow> ([], t)
           | Some cb \<Rightarrow>
               (let blen = int (img_buffer_end s) - int (img_buffer s)
                in (take (nat blen) (drop (img_buffer s) (buffer s)) @ fst (io_read cb (io_user_data s) (int n - blen)), t))))"

fun discard :: "nat \<Rightarrow> ('s, 'a) step \<Rightarrow> ('s, unit) step" where
  "discard 0 m = sret ()"
| "discard (Suc n) m = sbind m (\<lambda>_. discard n m)"

end
