(* ===== verification/Stbi_Zlib.thy ===== *)
theory Stbi_Zlib
  imports Stbi_Alloc
begin

text \<open>
  The zlib decoder of \<open>src/stb_image.h\<close>, lines 4090-4595, which PNG data goes through: Huffman
  tables with a 9-bit fast path, the bit buffer, the three kinds of deflate blocks and the
  growing output buffer.

  A \<open>stbi__zbuf\<close> holds the input from \<open>zbuffer\<close> to \<open>zbuffer_end\<close> and the output from
  \<open>zout_start\<close> to \<open>zout\<close> as lists; \<open>zlimit\<close> is \<open>zout_end - zout_start\<close>, which the code keeps in
  an \<open>unsigned\<close>. Memory that C leaves uninitialised starts as zeros here.
\<close>

section \<open>Huffman tables\<close>

definition STBI__ZNSYMS :: nat where "STBI__ZNSYMS = 288"
definition STBI__ZFAST_MASK :: uint32 where "STBI__ZFAST_MASK = 511"

record stbi__zhuffman =
  zfast :: "stbi_us list"
  zfirstcode :: "stbi_us list"
  zmaxcode :: "int list"
  zfirstsymbol :: "stbi_us list"
  zsize :: "stbi_uc list"
  zvalue :: "stbi_us list"

definition zhuffman_uninit :: stbi__zhuffman where
  "zhuffman_uninit =
     \<lparr>zfast = replicate 512 0, zfirstcode = replicate 16 0, zmaxcode = replicate 17 0,
      zfirstsymbol = replicate 16 0, zsize = replicate STBI__ZNSYMS 0,
      zvalue = replicate STBI__ZNSYMS 0\<rparr>"

definition stbi__bitreverse16 :: "int \<Rightarrow> int" where
  "stbi__bitreverse16 n =
     (let n = drop_bit 1 (n AND 0xAAAA) OR push_bit 1 (n AND 0x5555);
          n = drop_bit 2 (n AND 0xCCCC) OR push_bit 2 (n AND 0x3333);
          n = drop_bit 4 (n AND 0xF0F0) OR push_bit 4 (n AND 0x0F0F);
          n = drop_bit 8 (n AND 0xFF00) OR push_bit 8 (n AND 0x00FF)
      in n)"

text \<open>Both callers pass at most 16 bits (a code length of the fast table, at most 9, and 16), so the
  assertion \<open>bits <= 16\<close> holds at every call.\<close>

definition stbi__bit_reverse :: "int \<Rightarrow> nat \<Rightarrow> int" where
  "stbi__bit_reverse v bits = drop_bit (16 - bits) (stbi__bitreverse16 v)"

text \<open>The counting pass \<open>++sizes[sizelist[i]]\<close> and the check of each count.\<close>

definition count_sizes :: "stbi_uc list \<Rightarrow> nat \<Rightarrow> int list res" where
  "count_sizes sizelist num =
     ebind (efold (\<lambda>i sizes.
         ebind (arr_get sizelist (int i)) (\<lambda>s.
         ebind (arr_get sizes (uint s)) (\<lambda>c. arr_set sizes (uint s) (c + 1))))
       [0..<num] (replicate 17 0)) (\<lambda>sizes.
     arr_set sizes 0 0)"

definition check_sizes :: "int list \<Rightarrow> unit res" where
  "check_sizes sizes =
     efold (\<lambda>i u. ebind (arr_get sizes (int i)) (\<lambda>c.
         if c > 2 ^ i then Inl (Failure ''bad sizes'') else Inr u))
       [1..<16] ()"

text \<open>The pass that assigns the first code of each length; its state is
  \<open>(code, k, next_code, z)\<close>.\<close>

definition assign_step ::
    "int list \<Rightarrow> nat \<Rightarrow> int \<times> int \<times> int list \<times> stbi__zhuffman \<Rightarrow>
     (int \<times> int \<times> int list \<times> stbi__zhuffman) res" where
  "assign_step sizes i st =
     (case st of (code, k, next_code, z) \<Rightarrow>
      ebind (arr_set next_code (int i) code) (\<lambda>next_code.
      ebind (arr_set (zfirstcode z) (int i) (u16cast code)) (\<lambda>fc.
      ebind (arr_set (zfirstsymbol z) (int i) (u16cast k)) (\<lambda>fs.
      ebind (arr_get sizes (int i)) (\<lambda>n.
      let code = code + n in
      if n \<noteq> 0 \<and> code - 1 \<ge> 2 ^ i then Inl (Failure ''bad codelengths'')
      else ebind (arr_set (zmaxcode z) (int i) (code * 2 ^ (16 - i))) (\<lambda>mc.
           Inr (code * 2, k + n, next_code,
                z\<lparr>zfirstcode := fc, zfirstsymbol := fs, zmaxcode := mc\<rparr>)))))))"

text \<open>The inner loop \<open>while (j < 512) { z->fast[j] = fastv; j += (1 << s); }\<close>.\<close>

function fill_fast :: "stbi_us list \<Rightarrow> stbi_us \<Rightarrow> int \<Rightarrow> nat \<Rightarrow> stbi_us list res" where
  "fill_fast fast fastv j s =
     (if j < 512
      then ebind (arr_set fast j fastv) (\<lambda>fast. fill_fast fast fastv (j + 2 ^ s) s)
      else Inr fast)"
  by pat_completeness auto
termination
proof (relation "measure (\<lambda>(f, v, j, s). nat (512 - j))")
  fix fast :: "stbi_us list" and fastv :: stbi_us and j :: int and s x
  assume "j < 512"
  moreover have "(0 :: int) < 2 ^ s" by simp
  ultimately show "((x, fastv, j + 2 ^ s, s), fast, fastv, j, s) \<in> measure (\<lambda>(f, v, j, s). nat (512 - j))"
    by (simp add: nat_less_iff)
qed simp

declare fill_fast.simps [simp del]

definition symbol_step ::
    "stbi_uc list \<Rightarrow> nat \<Rightarrow> int list \<times> stbi__zhuffman \<Rightarrow> (int list \<times> stbi__zhuffman) res" where
  "symbol_step sizelist i st =
     (case st of (next_code, z) \<Rightarrow>
      ebind (arr_get sizelist (int i)) (\<lambda>sb. let s = uint sb in
      if s = 0 then Inr (next_code, z)
      else
        ebind (arr_get next_code s) (\<lambda>nc.
        ebind (arr_get (zfirstcode z) s) (\<lambda>fc.
        ebind (arr_get (zfirstsymbol z) s) (\<lambda>fs.
        let c = nc - uint fc + uint fs;
            fastv = u16cast (push_bit 9 s OR int i)
        in
        ebind (arr_set (zsize z) c (STBI__BYTECAST s)) (\<lambda>sz.
        ebind (arr_set (zvalue z) c (u16cast (int i))) (\<lambda>vl.
        ebind (if s \<le> 9 then fill_fast (zfast z) fastv (stbi__bit_reverse nc (nat s)) (nat s)
               else Inr (zfast z)) (\<lambda>fast.
        ebind (arr_set next_code s (nc + 1)) (\<lambda>next_code.
        Inr (next_code, z\<lparr>zsize := sz, zvalue := vl, zfast := fast\<rparr>))))))))))"

definition stbi__zbuild_huffman :: "stbi__zhuffman \<Rightarrow> stbi_uc list \<Rightarrow> nat \<Rightarrow> stbi__zhuffman res" where
  "stbi__zbuild_huffman z sizelist num =
     (let z = z\<lparr>zfast := replicate 512 0\<rparr> in
      ebind (count_sizes sizelist num) (\<lambda>sizes.
      ebind (check_sizes sizes) (\<lambda>_.
      ebind (efold (assign_step sizes) [1..<16] (0, 0, replicate 16 0, z)) (\<lambda>(code, k, next_code, z).
      ebind (arr_set (zmaxcode z) 16 0x10000) (\<lambda>mc.
      ebind (efold (symbol_step sizelist) [0..<num] (next_code, z\<lparr>zmaxcode := mc\<rparr>)) (\<lambda>(_, z).
      Inr z))))))"

section \<open>The bit buffer\<close>

record stbi__zbuf =
  zbuffer :: "stbi_uc list"
  num_bits :: int
  hit_zeof_once :: bool
  code_buffer :: uint32
  zout :: "stbi_uc list"
  zlimit :: uint32
  z_expandable :: bool
  z_length :: stbi__zhuffman
  z_distance :: stbi__zhuffman

definition stbi__zeof :: "stbi__zbuf \<Rightarrow> bool" where
  "stbi__zeof z \<longleftrightarrow> zbuffer z = []"

definition stbi__zget8 :: "stbi__zbuf \<Rightarrow> stbi_uc \<times> stbi__zbuf" where
  "stbi__zget8 z = (case zbuffer z of [] \<Rightarrow> (0, z) | b # bs \<Rightarrow> (b, z\<lparr>zbuffer := bs\<rparr>))"

function stbi__fill_bits :: "stbi__zbuf \<Rightarrow> stbi__zbuf res" where
  "stbi__fill_bits z =
     (if num_bits z < 0 \<or> num_bits z \<ge> 32 then Inl Undefined
      else if code_buffer z \<ge> push_bit (nat (num_bits z)) 1 then Inr (z\<lparr>zbuffer := []\<rparr>)
      else let (b, z') = stbi__zget8 z;
               z' = z'\<lparr>code_buffer := code_buffer z' OR push_bit (nat (num_bits z')) (ucast b),
                       num_bits := num_bits z' + 8\<rparr>
           in if num_bits z' \<le> 24 then stbi__fill_bits z' else Inr z')"
  by pat_completeness auto
termination
  by (relation "measure (\<lambda>z. nat (32 - num_bits z))") (auto simp: stbi__zget8_def split: list.splits)

declare stbi__fill_bits.simps [simp del]

definition stbi__zreceive :: "stbi__zbuf \<Rightarrow> nat \<Rightarrow> (uint32 \<times> stbi__zbuf) res" where
  "stbi__zreceive z n =
     ebind (if num_bits z < int n then stbi__fill_bits z else Inr z) (\<lambda>z.
     Inr (code_buffer z AND (push_bit n 1 - 1),
          z\<lparr>code_buffer := drop_bit n (code_buffer z), num_bits := num_bits z - int n\<rparr>))"

text \<open>The loop \<open>for (s = 10; ; ++s) if (k < z->maxcode[s]) break;\<close>.\<close>

function find_size :: "int list \<Rightarrow> int \<Rightarrow> int \<Rightarrow> int res" where
  "find_size maxcode k s =
     ebind (arr_get maxcode s) (\<lambda>m. if k < m then Inr s else find_size maxcode k (s + 1))"
  by pat_completeness auto
termination
  by (relation "measure (\<lambda>(mc, k, s). nat (int (length mc) - s))")
    (auto simp: arr_get_def split: if_splits)

declare find_size.simps [simp del]

definition stbi__zhuffman_decode_slowpath ::
    "stbi__zbuf \<Rightarrow> stbi__zhuffman \<Rightarrow> (int \<times> stbi__zbuf) res" where
  "stbi__zhuffman_decode_slowpath a z =
     (let k = stbi__bit_reverse (uint (code_buffer a)) 16 in
      ebind (find_size (zmaxcode z) k 10) (\<lambda>s.
      if s \<ge> 16 then Inr (-1, a)
      else
        ebind (arr_get (zfirstcode z) s) (\<lambda>fc.
        ebind (arr_get (zfirstsymbol z) s) (\<lambda>fs.
        let b = drop_bit (nat (16 - s)) k - uint fc + uint fs in
        if b \<ge> int STBI__ZNSYMS then Inr (-1, a)
        else
          ebind (arr_get (zsize z) b) (\<lambda>sz.
          if uint sz \<noteq> s then Inr (-1, a)
          else
            ebind (arr_get (zvalue z) b) (\<lambda>v.
            Inr (uint v,
                 a\<lparr>code_buffer := drop_bit (nat s) (code_buffer a), num_bits := num_bits a - s\<rparr>)))))))"

text \<open>The two parts of \<open>stbi__zhuffman_decode\<close>: making sure that 16 bits are there (\<open>None\<close> is its
  early \<open>return -1\<close>), and the table lookup.\<close>

definition decode_refill :: "stbi__zbuf \<Rightarrow> stbi__zbuf option res" where
  "decode_refill a =
     (if num_bits a < 16
      then if stbi__zeof a
           then if \<not> hit_zeof_once a
                then Inr (Some (a\<lparr>hit_zeof_once := True, num_bits := num_bits a + 16\<rparr>))
                else Inr None
           else ebind (stbi__fill_bits a) (\<lambda>a. Inr (Some a))
      else Inr (Some a))"

text \<open>The length \<open>s\<close> in an entry of the fast table is at most 9 (\<open>stbi__zbuild_huffman\<close> enters no
  longer code), so the shift of the 32-bit buffer is defined.\<close>

definition decode_lookup :: "stbi__zbuf \<Rightarrow> stbi__zhuffman \<Rightarrow> (int \<times> stbi__zbuf) res" where
  "decode_lookup a z =
     ebind (arr_get (zfast z) (uint (code_buffer a AND STBI__ZFAST_MASK))) (\<lambda>b.
     if b \<noteq> 0
     then (let s = drop_bit 9 (uint b)
           in Inr (uint b AND 511,
                   a\<lparr>code_buffer := drop_bit (nat s) (code_buffer a), num_bits := num_bits a - s\<rparr>))
     else stbi__zhuffman_decode_slowpath a z)"

definition stbi__zhuffman_decode ::
    "stbi__zbuf \<Rightarrow> stbi__zhuffman \<Rightarrow> (int \<times> stbi__zbuf) res" where
  "stbi__zhuffman_decode a z =
     ebind (decode_refill a) (\<lambda>r. case r of None \<Rightarrow> Inr (-1, a) | Some a \<Rightarrow> decode_lookup a z)"

section \<open>The output buffer\<close>

text \<open>The loop that doubles \<open>limit\<close>. From a positive \<open>limit\<close> it ends after at most 32 rounds;
  from 0 it would not end, and uses up any fuel.\<close>

fun grow_limit :: "nat \<Rightarrow> nat \<Rightarrow> nat \<Rightarrow> nat \<Rightarrow> nat res" where
  "grow_limit 0 cur n limit = Inl NoReturn"
| "grow_limit (Suc fuel) cur n limit =
     (if cur + n > limit
      then if limit > UINT_MAX div 2 then Inl (Failure ''outofmem'')
           else grow_limit fuel cur n (limit * 2)
      else Inr limit)"

definition stbi__zexpand :: "stbi__zbuf \<Rightarrow> nat \<Rightarrow> stbi__zbuf res" where
  "stbi__zexpand z n =
     (if \<not> z_expandable z then Inl (Failure ''output buffer limit'')
      else let cur = length (zout z); limit = unat (zlimit z) in
      if UINT_MAX - cur < n then Inl (Failure ''outofmem'')
      else ebind (grow_limit 33 cur n limit) (\<lambda>limit. Inr (z\<lparr>zlimit := word_of_nat limit\<rparr>)))"

text \<open>\<open>*zout++ = v\<close>: writing at or past \<open>zout_end\<close> is out of bounds.\<close>

definition zput :: "stbi__zbuf \<Rightarrow> stbi_uc \<Rightarrow> stbi__zbuf res" where
  "zput a v =
     (if length (zout a) < unat (zlimit a) then Inr (a\<lparr>zout := zout a @ [v]\<rparr>) else Inl Undefined)"

text \<open>The two copying loops of a match: \<open>do *zout++ = v; while (--len)\<close> and
  \<open>do *zout++ = *p++; while (--len)\<close>, where \<open>p\<close> stays \<open>dist\<close> behind \<open>zout\<close>.\<close>

fun copy_run :: "stbi_uc \<Rightarrow> nat \<Rightarrow> stbi__zbuf \<Rightarrow> stbi__zbuf res" where
  "copy_run v 0 a = Inr a"
| "copy_run v (Suc len) a = ebind (zput a v) (copy_run v len)"

fun copy_match :: "int \<Rightarrow> nat \<Rightarrow> stbi__zbuf \<Rightarrow> stbi__zbuf res" where
  "copy_match dist 0 a = Inr a"
| "copy_match dist (Suc len) a =
     ebind (arr_get (zout a) (int (length (zout a)) - dist)) (\<lambda>v.
     ebind (zput a v) (copy_match dist len))"

section \<open>Compressed blocks\<close>

definition stbi__zlength_base :: "int list" where
  "stbi__zlength_base =
     [3,4,5,6,7,8,9,10,11,13, 15,17,19,23,27,31,35,43,51,59, 67,83,99,115,131,163,195,227,258,0,0]"

definition stbi__zlength_extra :: "nat list" where
  "stbi__zlength_extra =
     [0,0,0,0,0,0,0,0,1,1,1,1,2,2,2,2,3,3,3,3,4,4,4,4,5,5,5,5,0,0,0]"

definition stbi__zdist_base :: "int list" where
  "stbi__zdist_base =
     [1,2,3,4,5,7,9,13,17,25,33,49,65,97,129,193,
      257,385,513,769,1025,1537,2049,3073,4097,6145,8193,12289,16385,24577,0,0]"

definition stbi__zdist_extra :: "nat list" where
  "stbi__zdist_extra =
     [0,0,0,0,1,1,2,2,3,3,4,4,5,5,6,6,7,7,8,8,9,9,10,10,11,11,12,12,13,13,0,0]"

text \<open>A base value plus the extra bits it is followed by, as for lengths and distances.\<close>

definition base_extra ::
    "int list \<Rightarrow> nat list \<Rightarrow> stbi__zbuf \<Rightarrow> int \<Rightarrow> (int \<times> stbi__zbuf) res" where
  "base_extra base extra a z =
     ebind (arr_get base z) (\<lambda>v.
     ebind (arr_get extra z) (\<lambda>e.
     if e \<noteq> 0
     then ebind (stbi__zreceive a e) (\<lambda>(k, a). Inr (v + uint k, a))
     else Inr (v, a)))"

text \<open>The three things a round of the \<open>for (;;)\<close> of \<open>stbi__parse_huffman_block\<close> does: write a literal,
  copy a match, and read the distance of a match of length \<open>len\<close>. The flag of the result says that
  the round met the end-of-block symbol.\<close>

definition put_literal :: "stbi__zbuf \<Rightarrow> int \<Rightarrow> (bool \<times> stbi__zbuf) res" where
  "put_literal a z =
     ebind (if length (zout a) \<ge> unat (zlimit a) then stbi__zexpand a 1 else Inr a) (\<lambda>a.
     ebind (zput a (STBI__BYTECAST z)) (\<lambda>a. Inr (False, a)))"

definition put_match :: "int \<Rightarrow> int \<Rightarrow> stbi__zbuf \<Rightarrow> (bool \<times> stbi__zbuf) res" where
  "put_match len dist a =
     (if int (length (zout a)) < dist then Inl (Failure ''bad dist'')
      else
        ebind (if len > int (unat (zlimit a)) - int (length (zout a))
               then stbi__zexpand a (nat len) else Inr a) (\<lambda>a.
        ebind (if dist = 1
               then ebind (arr_get (zout a) (int (length (zout a)) - dist)) (\<lambda>v. copy_run v (nat len) a)
               else copy_match dist (nat len) a) (\<lambda>a.
        Inr (False, a))))"

definition read_dist :: "int \<Rightarrow> stbi__zbuf \<Rightarrow> (bool \<times> stbi__zbuf) res" where
  "read_dist len a =
     ebind (stbi__zhuffman_decode a (z_distance a)) (\<lambda>(z, a).
     if z < 0 \<or> z \<ge> 30 then Inl (Failure ''bad huffman code'')
     else ebind (base_extra stbi__zdist_base stbi__zdist_extra a z) (\<lambda>(dist, a).
          put_match len dist a))"

definition huffman_block_step :: "stbi__zbuf \<Rightarrow> (bool \<times> stbi__zbuf) res" where
  "huffman_block_step a =
     ebind (stbi__zhuffman_decode a (z_length a)) (\<lambda>(z, a).
     if z < 256
     then if z < 0 then Inl (Failure ''bad huffman code'') else put_literal a z
     else if z = 256
     then if hit_zeof_once a \<and> num_bits a < 16 then Inl (Failure ''unexpected end'')
          else Inr (True, a)
     else if z \<ge> 286 then Inl (Failure ''bad huffman code'')
     else ebind (base_extra stbi__zlength_base stbi__zlength_extra a (z - 257)) (\<lambda>(len, a).
          read_dist len a))"


text \<open>Frame facts: decoding symbols and receiving bits leave the output side and the tables alone,
  and never give input back. \<open>zdown\<close> orders states by the unread bytes, then by the bit buffer.\<close>

definition same_out :: "stbi__zbuf \<Rightarrow> stbi__zbuf \<Rightarrow> bool" where
  "same_out b a \<longleftrightarrow> zout b = zout a \<and> zlimit b = zlimit a \<and> z_expandable b = z_expandable a \<and>
     z_length b = z_length a \<and> z_distance b = z_distance a"

definition zdown :: "stbi__zbuf \<Rightarrow> stbi__zbuf \<Rightarrow> bool" where
  "zdown b a \<longleftrightarrow> length (zbuffer b) < length (zbuffer a) \<or>
     length (zbuffer b) = length (zbuffer a) \<and> code_buffer b \<le> code_buffer a"

lemma same_out_refl [simp]: "same_out a a"
  by (simp add: same_out_def)

lemma same_out_trans [trans]: "same_out c b \<Longrightarrow> same_out b a \<Longrightarrow> same_out c a"
  by (simp add: same_out_def)

lemma zdown_refl [simp]: "zdown a a"
  by (simp add: zdown_def)

lemma zdown_trans [trans]: "zdown c b \<Longrightarrow> zdown b a \<Longrightarrow> zdown c a"
  by (auto simp: zdown_def)

lemma drop_bit_le_word: "drop_bit n w \<le> (w :: 'a::len word)"
  unfolding word_le_nat_alt unat_drop_bit_eq by (simp add: drop_bit_eq_div)

lemma zget8_frame:
  assumes "stbi__zget8 z = (b, z')"
  shows "same_out z' z" and "num_bits z' = num_bits z" and "code_buffer z' = code_buffer z"
    and "hit_zeof_once z' = hit_zeof_once z"
    and "(zbuffer z = [] \<and> b = 0 \<and> z' = z) \<or> zbuffer z = b # zbuffer z'"
  using assms by (auto simp: stbi__zget8_def same_out_def split: list.splits)

lemma fill_bits_frame:
  assumes "stbi__fill_bits z = Inr z'"
  shows "same_out z' z \<and> zdown z' z \<and> hit_zeof_once z' = hit_zeof_once z"
  using assms
proof (induction z rule: stbi__fill_bits.induct)
  case (1 z)
  obtain b y where g: "stbi__zget8 z = (b, y)" by fastforce
  define y' where "y' = y\<lparr>code_buffer := code_buffer y OR push_bit (nat (num_bits y)) (ucast b),
      num_bits := num_bits y + 8\<rparr>"
  have y': "same_out y' z" "zdown y' z" "hit_zeof_once y' = hit_zeof_once z"
    using zget8_frame [OF g] by (auto simp: y'_def same_out_def zdown_def)
  show ?case
  proof (cases "code_buffer z \<ge> push_bit (nat (num_bits z)) 1")
    case True
    with "1.prems" have "z' = z\<lparr>zbuffer := []\<rparr>"
      by (subst (asm) stbi__fill_bits.simps) (auto split: if_splits)
    then show ?thesis by (auto simp: same_out_def zdown_def)
  next
    case False
    from "1.prems" have ok: "\<not> (num_bits z < 0 \<or> num_bits z \<ge> 32)"
      by (subst (asm) stbi__fill_bits.simps) (auto split: if_splits)
    have eq: "(if num_bits y' \<le> 24 then stbi__fill_bits y' else Inr y') = Inr z'"
      using "1.prems" ok False g
      by (subst (asm) stbi__fill_bits.simps) (simp add: y'_def Let_def split: if_splits)
    show ?thesis
    proof (cases "num_bits y' \<le> 24")
      case True
      then have "same_out z' y' \<and> zdown z' y' \<and> hit_zeof_once z' = hit_zeof_once y'"
        using "1.IH" [OF ok False g [symmetric] refl refl] eq by (simp add: y'_def)
      with y' show ?thesis using same_out_trans zdown_trans by fastforce
    next
      case False
      with eq y' show ?thesis by simp
    qed
  qed
qed

lemma zreceive_frame:
  assumes "stbi__zreceive z n = Inr (k, z')"
  shows "same_out z' z" and "zdown z' z" and "hit_zeof_once z' = hit_zeof_once z"
proof -
  obtain y where rf: "(if num_bits z < int n then stbi__fill_bits z else Inr z) = Inr y"
      and z': "z' = y\<lparr>code_buffer := drop_bit n (code_buffer y), num_bits := num_bits y - int n\<rparr>"
    using assms by (auto simp: stbi__zreceive_def ebind_eq_Inr)
  have y: "same_out y z" "zdown y z" "hit_zeof_once y = hit_zeof_once z"
    using rf fill_bits_frame [of z y] by (auto split: if_splits)
  have "same_out z' y" "zdown z' y"
    by (auto simp: z' same_out_def zdown_def drop_bit_le_word)
  with y show "same_out z' z" "zdown z' z" "hit_zeof_once z' = hit_zeof_once z"
    by (auto intro: same_out_trans zdown_trans simp: z')
qed

lemma slowpath_frame:
  assumes "stbi__zhuffman_decode_slowpath a z = Inr (v, a')"
  shows "same_out a' a" and "zdown a' a"
  using assms
  by (auto simp: stbi__zhuffman_decode_slowpath_def same_out_def zdown_def drop_bit_le_word
      ebind_eq_Inr Let_def split: if_splits)

lemma decode_refill_frame:
  assumes "decode_refill a = Inr (Some b)"
  shows "same_out b a" and "zdown b a"
proof -
  have "same_out (a\<lparr>hit_zeof_once := True, num_bits := num_bits a + 16\<rparr>) a"
      "zdown (a\<lparr>hit_zeof_once := True, num_bits := num_bits a + 16\<rparr>) a"
    by (simp_all add: same_out_def zdown_def)
  with assms fill_bits_frame [of a b] show "same_out b a" and "zdown b a"
    by (auto simp: decode_refill_def ebind_eq_Inr split: if_splits)
qed

lemma decode_lookup_frame:
  assumes "decode_lookup a z = Inr (v, b)"
  shows "same_out b a" and "zdown b a"
  using assms slowpath_frame [of a z v b]
  by (auto simp: decode_lookup_def ebind_eq_Inr Let_def same_out_def zdown_def drop_bit_le_word split: if_splits)

lemma zhuffman_decode_frame:
  assumes "stbi__zhuffman_decode a z = Inr (v, b)"
  shows "same_out b a" and "zdown b a"
proof -
  obtain r where "decode_refill a = Inr r" "(case r of None \<Rightarrow> Inr (-1, a) | Some a \<Rightarrow> decode_lookup a z) = Inr (v, b)"
    using assms by (auto simp: stbi__zhuffman_decode_def elim: ebind_InrE)
  then show "same_out b a" and "zdown b a"
    by (cases r; auto dest: decode_refill_frame decode_lookup_frame intro: same_out_trans zdown_trans)+
qed

lemma base_extra_frame:
  assumes "base_extra base extra a z = Inr (v, a')"
  shows "same_out a' a" and "zdown a' a" and "base ! nat z \<le> v" and "0 \<le> z" and "z < int (length base)"
  using assms zreceive_frame
  by (auto simp: base_extra_def arr_get_def ebind_eq_Inr uint_bounds32 split: if_splits)

lemma zexpand_frame:
  assumes "stbi__zexpand a n = Inr b"
  shows "zout b = zout a" and "zdown b a" and "z_expandable b = z_expandable a"
    and "z_length b = z_length a" and "z_distance b = z_distance a"
    and "num_bits b = num_bits a" and "code_buffer b = code_buffer a" and "zbuffer b = zbuffer a"
    and "hit_zeof_once b = hit_zeof_once a"
  using assms by (auto simp: stbi__zexpand_def ebind_eq_Inr Let_def zdown_def split: if_splits)

lemma zput_frame:
  assumes "zput a v = Inr b"
  shows "zout b = zout a @ [v]" and "length (zout b) \<le> unat (zlimit a)" and "zdown b a"
    and "zlimit b = zlimit a"
  using assms by (auto simp: zput_def zdown_def split: if_splits)

lemma copy_run_frame:
  assumes "copy_run v n a = Inr b"
  shows "length (zout b) = length (zout a) + n" and "zdown b a" and "zlimit b = zlimit a"
    and "0 < n \<Longrightarrow> length (zout b) \<le> unat (zlimit a)"
proof -
  have "length (zout b) = length (zout a) + n \<and> zdown b a \<and> zlimit b = zlimit a \<and>
      (0 < n \<longrightarrow> length (zout b) \<le> unat (zlimit a))"
    using assms
  proof (induction n arbitrary: a)
    case (Suc n)
    then obtain c where c: "zput a v = Inr c" "copy_run v n c = Inr b"
      by (auto simp: ebind_eq_Inr)
    from Suc.IH [OF c(2)] zput_frame [OF c(1)] show ?case
      by (cases n) (use c in \<open>auto intro: zdown_trans\<close>)
  qed simp
  then show "length (zout b) = length (zout a) + n" "zdown b a" "zlimit b = zlimit a"
      "0 < n \<Longrightarrow> length (zout b) \<le> unat (zlimit a)" by auto
qed

lemma copy_match_frame:
  assumes "copy_match d n a = Inr b"
  shows "length (zout b) = length (zout a) + n" and "zdown b a" and "zlimit b = zlimit a"
    and "0 < n \<Longrightarrow> length (zout b) \<le> unat (zlimit a)"
proof -
  have "length (zout b) = length (zout a) + n \<and> zdown b a \<and> zlimit b = zlimit a \<and>
      (0 < n \<longrightarrow> length (zout b) \<le> unat (zlimit a))"
    using assms
  proof (induction n arbitrary: a)
    case (Suc n)
    then obtain v c where c: "zput a v = Inr c" "copy_match d n c = Inr b"
      by (auto simp: ebind_eq_Inr)
    from Suc.IH [OF c(2)] zput_frame [OF c(1)] show ?case
      by (cases n) (use c in \<open>auto intro: zdown_trans\<close>)
  qed simp
  then show "length (zout b) = length (zout a) + n" "zdown b a" "zlimit b = zlimit a"
      "0 < n \<Longrightarrow> length (zout b) \<le> unat (zlimit a)" by auto
qed

lemma zlength_base_ge3: "0 \<le> z \<Longrightarrow> z < 29 \<Longrightarrow> 3 \<le> stbi__zlength_base ! nat z"
proof -
  assume "0 \<le> z" "z < 29"
  then have i: "nat z < 29" by simp
  have len: "length (take 29 stbi__zlength_base) = 29"
    by (simp add: stbi__zlength_base_def)
  have "list_all ((\<le>) 3) (take 29 stbi__zlength_base)"
    by (simp add: stbi__zlength_base_def)
  with i len have "3 \<le> take 29 stbi__zlength_base ! nat z"
    unfolding list_all_length by metis
  with i show ?thesis by simp
qed

text \<open>A round that does not end the block writes at least one byte, inside the buffer, so the
  loop over the rounds ends.\<close>

lemma zlimit_less: "unat (l :: uint32) < 2 ^ 32"
  using unsigned_less [of l] by simp

lemma put_literal_grows:
  assumes "put_literal a z = Inr (fin, b)"
  shows "\<not> fin" and "zdown b a" and "length (zout a) < length (zout b)" and "length (zout b) < 2 ^ 32"
proof -
  obtain c where c: "(if length (zout a) \<ge> unat (zlimit a) then stbi__zexpand a 1 else Inr a) = Inr c"
      "zput c (STBI__BYTECAST z) = Inr b" "\<not> fin"
    using assms by (auto simp: put_literal_def ebind_eq_Inr)
  have "zout c = zout a" "zdown c a"
    using c(1) by (auto dest: zexpand_frame split: if_splits)
  with zput_frame [OF c(2)] zlimit_less [of "zlimit c"]
  show "zdown b a" "length (zout a) < length (zout b)" "length (zout b) < 2 ^ 32"
    by (auto intro: zdown_trans)
qed (use assms in \<open>auto simp: put_literal_def ebind_eq_Inr\<close>)

lemma put_match_grows:
  assumes "put_match len dist a = Inr (fin, b)" and "0 < len"
  shows "\<not> fin" and "zdown b a" and "length (zout a) < length (zout b)" and "length (zout b) < 2 ^ 32"
proof -
  obtain c where c: "(if len > int (unat (zlimit a)) - int (length (zout a))
          then stbi__zexpand a (nat len) else Inr a) = Inr c"
        "(if dist = 1
          then ebind (arr_get (zout c) (int (length (zout c)) - dist)) (\<lambda>v. copy_run v (nat len) c)
          else copy_match dist (nat len) c) = Inr b" "\<not> fin"
    using assms(1) by (auto simp: put_match_def elim!: ebind_InrE split: if_splits)
  have "zout c = zout a" "zdown c a"
    using c(1) by (auto dest: zexpand_frame split: if_splits)
  moreover have "length (zout b) = length (zout c) + nat len" "zdown b c" "length (zout b) \<le> unat (zlimit c)"
    using c(2) assms(2) by (auto simp: ebind_eq_Inr dest: copy_run_frame copy_match_frame split: if_splits)
  ultimately show "zdown b a" "length (zout a) < length (zout b)" "length (zout b) < 2 ^ 32"
    using assms(2) zlimit_less [of "zlimit c"] by (auto intro: zdown_trans)
qed (use assms in \<open>auto simp: put_match_def ebind_eq_Inr split: if_splits\<close>)

lemma read_dist_grows:
  assumes "read_dist len a = Inr (fin, b)" and "0 < len"
  shows "\<not> fin" and "zdown b a" and "length (zout a) < length (zout b)" and "length (zout b) < 2 ^ 32"
proof -
  obtain z c dist d where c: "stbi__zhuffman_decode a (z_distance a) = Inr (z, c)"
      "base_extra stbi__zdist_base stbi__zdist_extra c z = Inr (dist, d)" "put_match len dist d = Inr (fin, b)"
    using assms(1) by (auto simp: read_dist_def elim!: ebind_InrE split: if_splits)
  note f = zhuffman_decode_frame [OF c(1)] base_extra_frame [OF c(2)] put_match_grows [OF c(3) assms(2)]
  show "\<not> fin" "zdown b a" "length (zout a) < length (zout b)" "length (zout b) < 2 ^ 32"
    using f by (auto simp: same_out_def intro: zdown_trans)
qed

lemma huffman_block_step_grows:
  assumes "huffman_block_step a = Inr (fin, b)"
  shows "zdown b a" and "fin \<Longrightarrow> zout b = zout a"
    and "\<not> fin \<Longrightarrow> length (zout a) < length (zout b)" and "\<not> fin \<Longrightarrow> length (zout b) < 2 ^ 32"
proof -
  obtain z a1 where d: "stbi__zhuffman_decode a (z_length a) = Inr (z, a1)"
    using assms by (auto simp: huffman_block_step_def ebind_eq_Inr)
  note f = zhuffman_decode_frame [OF d]
  consider "z < 256" | "z = 256 \<or> 286 \<le> z" | "256 < z" "z < 286" by linarith
  then have "zdown b a \<and> (fin \<longrightarrow> zout b = zout a) \<and>
      (\<not> fin \<longrightarrow> length (zout a) < length (zout b) \<and> length (zout b) < 2 ^ 32)"
  proof cases
    case 1
    then have "put_literal a1 z = Inr (fin, b)"
      using assms d by (simp add: huffman_block_step_def split: if_splits)
    from put_literal_grows [OF this] f show ?thesis by (auto simp: same_out_def intro: zdown_trans)
  next
    case 2
    then have "fin \<and> b = a1"
      using assms d by (elim disjE) (simp_all add: huffman_block_step_def split: if_splits)
    with f show ?thesis by (simp add: same_out_def)
  next
    case 3
    then obtain len c where c: "base_extra stbi__zlength_base stbi__zlength_extra a1 (z - 257) = Inr (len, c)"
        "read_dist len c = Inr (fin, b)"
      using assms d by (auto simp: huffman_block_step_def ebind_eq_Inr)
    note g = base_extra_frame [OF c(1)]
    have "0 < len" using zlength_base_ge3 [of "z - 257"] g(3) 3 by simp
    from read_dist_grows [OF c(2) this] f g show ?thesis by (auto simp: same_out_def intro: zdown_trans)
  qed
  then show "zdown b a" and "fin \<Longrightarrow> zout b = zout a"
    and "\<not> fin \<Longrightarrow> length (zout a) < length (zout b)" and "\<not> fin \<Longrightarrow> length (zout b) < 2 ^ 32"
    by auto
qed

function stbi__parse_huffman_block :: "stbi__zbuf \<Rightarrow> stbi__zbuf res" where
  "stbi__parse_huffman_block a =
     ebind (huffman_block_step a) (\<lambda>(fin, a). if fin then Inr a else stbi__parse_huffman_block a)"
  by pat_completeness auto
termination
proof (relation "measure (\<lambda>a. 2 ^ 32 - length (zout a))")
  fix a x fin b
  assume "huffman_block_step a = Inr x" and "(fin, b) = x" and "\<not> fin"
  then have "length (zout a) < length (zout b)" "length (zout b) < 2 ^ 32"
    using huffman_block_step_grows [of a fin b] by auto
  then show "(b, a) \<in> measure (\<lambda>a. 2 ^ 32 - length (zout a))" by simp
qed simp

declare stbi__parse_huffman_block.simps [simp del]

lemma parse_huffman_block_zdown: "stbi__parse_huffman_block a = Inr b \<Longrightarrow> zdown b a"
proof (induction a rule: stbi__parse_huffman_block.induct)
  case (1 a)
  obtain fin c where st: "huffman_block_step a = Inr (fin, c)"
      and r: "(if fin then Inr c else stbi__parse_huffman_block c) = Inr b"
    using "1.prems" by (subst (asm) stbi__parse_huffman_block.simps) (auto simp: ebind_eq_Inr)
  from huffman_block_step_grows(1) [OF st] r "1.IH" [OF st refl] show ?case
    by (cases fin) (auto intro: zdown_trans)
qed

section \<open>Dynamic tables, stored blocks, the stream\<close>

definition length_dezigzag :: "nat list" where
  "length_dezigzag = [16,17,18,0,8,7,9,6,10,5,11,4,12,3,13,2,14,1,15]"

text \<open>The array \<open>lencodes[286+32+137]\<close> is kept as the list of the entries written so far.\<close>

definition lencodes_add :: "stbi_uc list \<Rightarrow> stbi_uc list \<Rightarrow> stbi_uc list res" where
  "lencodes_add lencodes xs =
     (if length lencodes + length xs \<le> 455 then Inr (lencodes @ xs) else Inl Undefined)"

text \<open>One round of \<open>while (n < ntot)\<close>: the code lengths it adds. \<open>codelength_run\<close> reads the repeat count
  and the value of the symbols 16, 17 and 18.\<close>

definition codelength_run :: "int \<Rightarrow> stbi_uc list \<Rightarrow> stbi__zbuf \<Rightarrow> (nat \<times> stbi_uc \<times> stbi__zbuf) res" where
  "codelength_run c lencodes a =
     (if c = 16 then
        ebind (stbi__zreceive a 2) (\<lambda>(k, a).
        if lencodes = [] then Inl (Failure ''bad codelengths'')
        else Inr (unat k + 3, last lencodes, a))
      else if c = 17 then ebind (stbi__zreceive a 3) (\<lambda>(k, a). Inr (unat k + 3, 0, a))
      else if c = 18 then ebind (stbi__zreceive a 7) (\<lambda>(k, a). Inr (unat k + 11, 0, a))
      else Inl (Failure ''bad codelengths''))"

definition codelength_step ::
    "stbi__zhuffman \<Rightarrow> nat \<Rightarrow> stbi_uc list \<Rightarrow> stbi__zbuf \<Rightarrow> (stbi_uc list \<times> stbi__zbuf) res" where
  "codelength_step z_codelength ntot lencodes a =
     ebind (stbi__zhuffman_decode a z_codelength) (\<lambda>(c, a).
     if c < 0 \<or> c \<ge> 19 then Inl (Failure ''bad codelengths'')
     else if c < 16 then
       ebind (lencodes_add lencodes [STBI__BYTECAST c]) (\<lambda>l. Inr (l, a))
     else
       ebind (codelength_run c lencodes a) (\<lambda>(c, fill, a).
       if ntot - length lencodes < c then Inl (Failure ''bad codelengths'')
       else ebind (lencodes_add lencodes (replicate c fill)) (\<lambda>l. Inr (l, a))))"

lemma codelength_run_frame:
  assumes "codelength_run c l a = Inr (n, fill, b)"
  shows "0 < n" and "zdown b a" and "same_out b a"
  using assms by (auto simp: codelength_run_def ebind_eq_Inr split: if_splits dest: zreceive_frame)

lemma codelength_step_grows:
  assumes "codelength_step zc ntot l a = Inr (l', a')"
  shows "length l < length l'" and "zdown a' a" and "same_out a' a"
proof -
  obtain c a1 where d: "stbi__zhuffman_decode a zc = Inr (c, a1)"
    using assms by (auto simp: codelength_step_def ebind_eq_Inr)
  note f = zhuffman_decode_frame [OF d]
  have "length l < length l' \<and> zdown a' a1 \<and> same_out a' a1"
    using assms d
    by (auto simp: codelength_step_def lencodes_add_def ebind_eq_Inr split: if_splits dest: codelength_run_frame)
  with f show "length l < length l'" "zdown a' a" "same_out a' a"
    by (auto intro: zdown_trans same_out_trans)
qed

function codelengths_loop ::
    "stbi__zhuffman \<Rightarrow> nat \<Rightarrow> stbi_uc list \<Rightarrow> stbi__zbuf \<Rightarrow> (stbi_uc list \<times> stbi__zbuf) res" where
  "codelengths_loop zc ntot lencodes a =
     (if length lencodes < ntot
      then ebind (codelength_step zc ntot lencodes a) (\<lambda>(l, a). codelengths_loop zc ntot l a)
      else Inr (lencodes, a))"
  by pat_completeness auto
termination
  by (relation "measure (\<lambda>(zc, n, l, a). n - length l)") (auto dest: codelength_step_grows(1))

declare codelengths_loop.simps [simp del]

definition codelength_size_step ::
    "nat \<Rightarrow> stbi_uc list \<times> stbi__zbuf \<Rightarrow> (stbi_uc list \<times> stbi__zbuf) res" where
  "codelength_size_step i st =
     (case st of (sizes, a) \<Rightarrow>
      ebind (stbi__zreceive a 3) (\<lambda>(s, a).
      ebind (arr_get length_dezigzag (int i)) (\<lambda>p.
      ebind (arr_set sizes (int p) (ucast s)) (\<lambda>sizes. Inr (sizes, a)))))"

definition stbi__compute_huffman_codes :: "stbi__zbuf \<Rightarrow> stbi__zbuf res" where
  "stbi__compute_huffman_codes a =
     ebind (stbi__zreceive a 5) (\<lambda>(k, a). let hlit = unat k + 257 in
     ebind (stbi__zreceive a 5) (\<lambda>(k, a). let hdist = unat k + 1 in
     ebind (stbi__zreceive a 4) (\<lambda>(k, a). let hclen = unat k + 4; ntot = hlit + hdist in
     ebind (efold codelength_size_step [0..<hclen] (replicate 19 0, a)) (\<lambda>(codelength_sizes, a).
     ebind (stbi__zbuild_huffman zhuffman_uninit codelength_sizes 19) (\<lambda>z_codelength.
     ebind (codelengths_loop z_codelength ntot [] a) (\<lambda>(lencodes, a).
     if length lencodes \<noteq> ntot then Inl (Failure ''bad codelengths'')
     else
       ebind (stbi__zbuild_huffman (z_length a) lencodes hlit) (\<lambda>zl.
       ebind (stbi__zbuild_huffman (z_distance a) (drop hlit lencodes) hdist) (\<lambda>zd.
       Inr (a\<lparr>z_length := zl, z_distance := zd\<rparr>)))))))))"

text \<open>The loops that drain the bit buffer into \<open>header[4]\<close> and fill it up from the input.\<close>

function drain_header :: "stbi_uc list \<Rightarrow> stbi__zbuf \<Rightarrow> (stbi_uc list \<times> stbi__zbuf) res" where
  "drain_header header a =
     (if num_bits a > 0
      then if length header < 4
           then drain_header (header @ [ucast (code_buffer a AND 255)])
                  (a\<lparr>code_buffer := drop_bit 8 (code_buffer a), num_bits := num_bits a - 8\<rparr>)
           else Inl Undefined
      else Inr (header, a))"
  by pat_completeness auto
termination
  by (relation "measure (\<lambda>(h, a). nat (num_bits a))") auto

declare drain_header.simps [simp del]

function fill_header :: "stbi_uc list \<Rightarrow> stbi__zbuf \<Rightarrow> stbi_uc list \<times> stbi__zbuf" where
  "fill_header header a =
     (if length header < 4
      then (let (b, a) = stbi__zget8 a in fill_header (header @ [b]) a)
      else (header, a))"
  by pat_completeness auto
termination
  by (relation "measure (\<lambda>(h, a). 4 - length h)") auto

declare fill_header.simps [simp del]

text \<open>Discarding the bits up to the next byte, and copying \<open>len\<close> bytes from the input to the output.\<close>

definition align_byte :: "stbi__zbuf \<Rightarrow> stbi__zbuf res" where
  "align_byte a =
     (if num_bits a AND 7 \<noteq> 0
      then ebind (stbi__zreceive a (nat (num_bits a AND 7))) (\<lambda>(k, a). Inr a)
      else Inr a)"

definition copy_stored :: "nat \<Rightarrow> stbi__zbuf \<Rightarrow> stbi__zbuf res" where
  "copy_stored len a =
     (if len > length (zbuffer a) then Inl (Failure ''read past buffer'')
      else
        ebind (if length (zout a) + len > unat (zlimit a) then stbi__zexpand a len else Inr a) (\<lambda>a.
        Inr (a\<lparr>zout := zout a @ take len (zbuffer a), zbuffer := drop len (zbuffer a)\<rparr>)))"

definition stbi__parse_uncompressed_block :: "stbi__zbuf \<Rightarrow> stbi__zbuf res" where
  "stbi__parse_uncompressed_block a =
     ebind (align_byte a) (\<lambda>a.
     ebind (drain_header [] a) (\<lambda>(header, a).
     if num_bits a < 0 then Inl (Failure ''zlib corrupt'')
     else
       let (header, a) = fill_header header a;
           len = uint (header ! 1) * 256 + uint (header ! 0);
           nlen = uint (header ! 3) * 256 + uint (header ! 2)
       in
       if nlen \<noteq> (len XOR 0xffff) then Inl (Failure ''zlib corrupt'')
       else copy_stored (nat len) a))"

definition stbi__parse_zlib_header :: "stbi__zbuf \<Rightarrow> stbi__zbuf res" where
  "stbi__parse_zlib_header a =
     (let (cmf, a) = stbi__zget8 a;
          cm = uint cmf AND 15;
          (flg, a) = stbi__zget8 a
      in
      if stbi__zeof a then Inl (Failure ''bad zlib header'')
      else if (uint cmf * 256 + uint flg) mod 31 \<noteq> 0 then Inl (Failure ''bad zlib header'')
      else if uint flg AND 32 \<noteq> 0 then Inl (Failure ''no preset dict'')
      else if cm \<noteq> 8 then Inl (Failure ''bad compression'')
      else Inr a)"

definition stbi__zdefault_length :: "stbi_uc list" where
  "stbi__zdefault_length =
     replicate 144 8 @ replicate 112 9 @ replicate 24 7 @ replicate 8 8"

definition stbi__zdefault_distance :: "stbi_uc list" where
  "stbi__zdefault_distance = replicate 32 5"

text \<open>One round of the \<open>do \<dots> while (!final)\<close>.\<close>

definition zlib_block :: "stbi__zbuf \<Rightarrow> (bool \<times> stbi__zbuf) res" where
  "zlib_block a =
     ebind (stbi__zreceive a 1) (\<lambda>(final, a).
     ebind (stbi__zreceive a 2) (\<lambda>(type, a).
     ebind (if type = 0 then stbi__parse_uncompressed_block a
            else if type = 3 then Inl Silent
            else
              ebind (if type = 1
                     then ebind (stbi__zbuild_huffman (z_length a) stbi__zdefault_length STBI__ZNSYMS) (\<lambda>zl.
                          ebind (stbi__zbuild_huffman (z_distance a) stbi__zdefault_distance 32) (\<lambda>zd.
                          Inr (a\<lparr>z_length := zl, z_distance := zd\<rparr>)))
                     else stbi__compute_huffman_codes a) stbi__parse_huffman_block) (\<lambda>a.
     Inr (final \<noteq> 0, a))))"


text \<open>Every block that is not the last uses up input: it reads a byte, or it shifts a nonzero
  bit buffer. (A stored block needs a header that is not all zeros.)\<close>

lemma fill_bits_no_byte:
  assumes "stbi__fill_bits z = Inr z'" and "length (zbuffer z') = length (zbuffer z)"
  shows "code_buffer z' = code_buffer z"
  using assms
proof (induction z rule: stbi__fill_bits.induct)
  case (1 z)
  obtain b y where g: "stbi__zget8 z = (b, y)" by fastforce
  define y' where "y' = y\<lparr>code_buffer := code_buffer y OR push_bit (nat (num_bits y)) (ucast b),
      num_bits := num_bits y + 8\<rparr>"
  from "1.prems"(1) have ok: "\<not> (num_bits z < 0 \<or> num_bits z \<ge> 32)"
    by (subst (asm) stbi__fill_bits.simps) (auto split: if_splits)
  show ?case
  proof (cases "code_buffer z \<ge> push_bit (nat (num_bits z)) 1")
    case True
    with "1.prems"(1) ok show ?thesis
      by (subst (asm) stbi__fill_bits.simps) (auto split: if_splits)
  next
    case False
    have eq: "(if num_bits y' \<le> 24 then stbi__fill_bits y' else Inr y') = Inr z'"
      using "1.prems"(1) ok False g
      by (subst (asm) stbi__fill_bits.simps) (simp add: y'_def Let_def split: if_splits)
    have "length (zbuffer z') \<le> length (zbuffer y')"
      using eq fill_bits_frame [of y' z'] by (auto simp: zdown_def split: if_splits)
    with "1.prems"(2) zget8_frame(5) [OF g] have z: "zbuffer z = []" "b = 0" "y = z"
      by (auto simp: y'_def)
    have y': "y' = z\<lparr>num_bits := num_bits z + 8\<rparr>"
      by (simp add: y'_def z)
    show ?thesis
    proof (cases "num_bits y' \<le> 24")
      case True
      with eq "1.prems"(2) have "stbi__fill_bits y' = Inr z'" "length (zbuffer z') = length (zbuffer y')"
        by (simp_all add: y')
      then have "code_buffer z' = code_buffer y'"
        using "1.IH" [OF ok False g [symmetric] refl refl] True by (simp add: y'_def)
      then show ?thesis by (simp add: y')
    next
      case no: False
      with eq show ?thesis by (auto simp: y')
    qed
  qed
qed

lemma zreceive_no_byte:
  assumes "stbi__zreceive z n = Inr (k, z')" and "length (zbuffer z') = length (zbuffer z)"
  shows "code_buffer z' = drop_bit n (code_buffer z)" and "k = code_buffer z AND (push_bit n 1 - 1)"
proof -
  obtain y where rf: "(if num_bits z < int n then stbi__fill_bits z else Inr z) = Inr y"
      and z': "z' = y\<lparr>code_buffer := drop_bit n (code_buffer y), num_bits := num_bits y - int n\<rparr>"
      and k: "k = code_buffer y AND (push_bit n 1 - 1)"
    using assms(1) by (auto simp: stbi__zreceive_def ebind_eq_Inr)
  have "code_buffer y = code_buffer z"
    using rf assms(2) z' fill_bits_no_byte [of z y] by (auto split: if_splits)
  then show "code_buffer z' = drop_bit n (code_buffer z)" "k = code_buffer z AND (push_bit n 1 - 1)"
    by (simp_all add: z' k)
qed

lemma drain_header_frame:
  assumes "drain_header h a = Inr (h', a')"
  shows "zdown a' a \<and> zbuffer a' = zbuffer a \<and> same_out a' a \<and> hit_zeof_once a' = hit_zeof_once a \<and>
    (code_buffer a = 0 \<longrightarrow> (\<exists>n. h' = h @ replicate n 0))"
  using assms
proof (induction h a rule: drain_header.induct)
  case (1 h a)
  show ?case
  proof (cases "num_bits a > 0")
    case True
    with "1.prems" have lt: "length h < 4"
      by (subst (asm) drain_header.simps) (auto split: if_splits)
    define b where "b = a\<lparr>code_buffer := drop_bit 8 (code_buffer a), num_bits := num_bits a - 8\<rparr>"
    have "drain_header (h @ [ucast (code_buffer a AND 255)]) b = Inr (h', a')"
      using "1.prems" True lt by (subst (asm) drain_header.simps) (simp add: b_def)
    from "1.IH" [OF True lt, folded b_def, OF this]
    have ih: "zdown a' b" "zbuffer a' = zbuffer b" "same_out a' b" "hit_zeof_once a' = hit_zeof_once b"
        "code_buffer b = 0 \<longrightarrow> (\<exists>n. h' = (h @ [ucast (code_buffer a AND 255)]) @ replicate n 0)"
      by auto
    have b: "zdown b a" "zbuffer b = zbuffer a" "same_out b a" "hit_zeof_once b = hit_zeof_once a"
      by (auto simp: b_def zdown_def same_out_def drop_bit_le_word)
    have "\<exists>n. h' = h @ replicate n 0" if z: "code_buffer a = 0"
    proof -
      have "code_buffer b = 0" using z by (simp add: b_def)
      with ih(5) obtain n where "h' = (h @ [ucast (code_buffer a AND 255)]) @ replicate n 0" by blast
      then have "h' = h @ replicate (Suc n) 0" using z by simp
      then show ?thesis by blast
    qed
    with ih b show ?thesis by (auto intro: zdown_trans same_out_trans)
  next
    case False
    with "1.prems" have "h' = h @ replicate 0 0" "a' = a"
      by (subst (asm) drain_header.simps, simp)+
    then show ?thesis by (metis same_out_refl zdown_refl)
  qed
qed

lemma fill_header_frame:
  assumes "fill_header h a = (h', a')"
  shows "zdown a' a \<and> same_out a' a \<and> num_bits a' = num_bits a \<and> hit_zeof_once a' = hit_zeof_once a \<and>
    4 \<le> length h' \<and>
    (length (zbuffer a') < length (zbuffer a) \<or> a' = a \<and> (\<exists>n. h' = h @ replicate n 0))"
  using assms
proof (induction h a rule: fill_header.induct)
  case (1 h a)
  show ?case
  proof (cases "length h < 4")
    case True
    obtain b y where g: "stbi__zget8 a = (b, y)" by fastforce
    have "fill_header (h @ [b]) y = (h', a')"
      using "1.prems" True g by (subst (asm) fill_header.simps) simp
    from "1.IH" [OF True g [symmetric] refl this]
    have ih: "zdown a' y" "same_out a' y" "num_bits a' = num_bits y" "hit_zeof_once a' = hit_zeof_once y"
        "4 \<le> length h'"
        "length (zbuffer a') < length (zbuffer y) \<or> a' = y \<and> (\<exists>n. h' = (h @ [b]) @ replicate n 0)"
      by auto
    note f = zget8_frame [OF g]
    have dn: "zdown y a" using f by (auto simp: zdown_def)
    have "length (zbuffer a') < length (zbuffer a) \<or> a' = a \<and> (\<exists>n. h' = h @ replicate n 0)"
      using f(5) ih(6)
    proof (elim disjE)
      assume "zbuffer a = [] \<and> b = 0 \<and> y = a" and "a' = y \<and> (\<exists>n. h' = (h @ [b]) @ replicate n 0)"
      then obtain n where "h' = h @ replicate (Suc n) 0" "a' = a" by auto
      then show ?thesis by blast
    qed auto
    with ih f dn show ?thesis by (auto intro: zdown_trans same_out_trans)
  next
    case False
    with "1.prems" have "h' = h @ replicate 0 0" "a' = a" "4 \<le> length h'"
      by (subst (asm) fill_header.simps, simp)+
    then show ?thesis by (metis same_out_refl zdown_refl)
  qed
qed

lemma align_byte_frame:
  assumes "align_byte a = Inr b"
  shows "zdown b a" and "code_buffer a = 0 \<Longrightarrow> length (zbuffer b) < length (zbuffer a) \<or> code_buffer b = 0"
proof -
  show "zdown b a"
    using assms by (auto simp: align_byte_def ebind_eq_Inr split: if_splits dest: zreceive_frame)
  then have "length (zbuffer b) < length (zbuffer a) \<or> length (zbuffer b) = length (zbuffer a)"
    by (auto simp: zdown_def)
  then show "length (zbuffer b) < length (zbuffer a) \<or> code_buffer b = 0" if "code_buffer a = 0"
    using assms that zreceive_no_byte(1) [of a _ _ b] by (auto simp: align_byte_def ebind_eq_Inr split: if_splits)
qed

lemma copy_stored_zdown:
  assumes "copy_stored n a = Inr b"
  shows "zdown b a"
proof -
  obtain c where c: "(if length (zout a) + n > unat (zlimit a) then stbi__zexpand a n else Inr a) = Inr c"
      "b = c\<lparr>zout := zout c @ take n (zbuffer c), zbuffer := drop n (zbuffer c)\<rparr>"
    using assms by (auto simp: copy_stored_def elim!: ebind_InrE split: if_splits)
  have "zbuffer c = zbuffer a" "code_buffer c = code_buffer a"
    using c(1) by (auto dest: zexpand_frame split: if_splits)
  with c(2) show ?thesis by (auto simp: zdown_def)
qed

lemma uncompressed_block_frame:
  assumes "stbi__parse_uncompressed_block a = Inr b"
  shows "zdown b a" and "code_buffer a = 0 \<Longrightarrow> length (zbuffer b) < length (zbuffer a)"
proof -
  obtain a1 where r: "align_byte a = Inr a1"
    using assms unfolding stbi__parse_uncompressed_block_def by (auto elim: ebind_InrE)
  obtain h a2 where d: "drain_header [] a1 = Inr (h, a2)"
    using assms r unfolding stbi__parse_uncompressed_block_def by (auto elim: ebind_InrE)
  obtain h' a3 where fh: "fill_header h a2 = (h', a3)" by fastforce
  define len where "len = uint (h' ! 1) * 256 + uint (h' ! 0)"
  define nlen where "nlen = uint (h' ! 3) * 256 + uint (h' ! 2)"
  have l: "nlen = (len XOR 0xffff)" "copy_stored (nat len) a3 = Inr b"
    using assms r d fh unfolding stbi__parse_uncompressed_block_def len_def nlen_def
    by (simp_all add: Let_def split: if_splits)
  note f1 = align_byte_frame [OF r] and f2 = drain_header_frame [OF d] and f3 = fill_header_frame [OF fh]
    and f5 = copy_stored_zdown [OF l(2)]
  from f1(1) f2 f3 f5 show "zdown b a"
    by (blast intro: zdown_trans)
  assume z: "code_buffer a = 0"
  show "length (zbuffer b) < length (zbuffer a)"
  proof (rule ccontr)
    assume no: "\<not> length (zbuffer b) < length (zbuffer a)"
    have le: "length (zbuffer b) \<le> length (zbuffer a3)" "length (zbuffer a3) \<le> length (zbuffer a2)"
        "length (zbuffer a2) = length (zbuffer a1)" "length (zbuffer a1) \<le> length (zbuffer a)"
      using f5 f3 f2 f1(1) by (auto simp: zdown_def)
    with no f1(2) [OF z] have "code_buffer a1 = 0" by linarith
    with f2 obtain n where n: "h = replicate n 0" by auto
    moreover from f3 no le obtain m where "h' = h @ replicate m 0" by auto
    ultimately have "h' = replicate (n + m) 0" by (simp add: replicate_add)
    moreover from this have "0 < n + m" "1 < n + m" "2 < n + m" "3 < n + m" using f3 by auto
    ultimately have "h' ! 0 = 0" "h' ! 1 = 0" "h' ! 2 = 0" "h' ! 3 = 0"
      by (metis nth_replicate)+
    with l(1) show False by (simp add: len_def nlen_def)
  qed
qed

lemma compute_huffman_codes_zdown:
  assumes "stbi__compute_huffman_codes a = Inr b"
  shows "zdown b a"
proof -
  have loop: "zdown b a" if "codelengths_loop zc n l a = Inr (l', b)" for zc n l l' a b
    using that
  proof (induction zc n l a rule: codelengths_loop.induct)
    case (1 zc n l a)
    show ?case
    proof (cases "length l < n")
      case True
      then obtain l1 a1 where st: "codelength_step zc n l a = Inr (l1, a1)" "codelengths_loop zc n l1 a1 = Inr (l', b)"
        using "1.prems" by (subst (asm) codelengths_loop.simps) (auto simp: ebind_eq_Inr)
      from "1.IH" [OF True st(1) refl st(2)] codelength_step_grows(2) [OF st(1)] show ?thesis
        by (rule zdown_trans)
    next
      case False
      with "1.prems" show ?thesis by (subst (asm) codelengths_loop.simps) simp
    qed
  qed
  obtain k1 a1 k2 a2 k3 a3 sizes a4 zc n l a5 where s:
      "stbi__zreceive a 5 = Inr (k1, a1)" "stbi__zreceive a1 5 = Inr (k2, a2)"
      "stbi__zreceive a2 4 = Inr (k3, a3)"
      "efold codelength_size_step [0..<unat k3 + 4] (replicate 19 0, a3) = Inr (sizes, a4)"
      "codelengths_loop zc n [] a4 = Inr (l, a5)"
      "zbuffer b = zbuffer a5" "code_buffer b = code_buffer a5"
    using assms unfolding stbi__compute_huffman_codes_def Let_def
    by (clarsimp elim!: ebind_InrE split: if_splits)
  have "(\<lambda>(_, x). zdown x a3) (sizes, a4)"
    by (rule efold_Inr_inv [OF s(4)])
      (auto simp: codelength_size_step_def elim!: ebind_InrE dest!: zreceive_frame(2) intro: zdown_trans)
  then have "zdown a4 a3" by simp
  moreover have "zdown a5 a4" using loop s(5) by blast
  moreover have "zdown b a5" using s(6,7) by (simp add: zdown_def)
  ultimately show ?thesis
    using zreceive_frame(2) [OF s(1)] zreceive_frame(2) [OF s(2)] zreceive_frame(2) [OF s(3)]
    by (blast intro: zdown_trans)
qed

definition zmeasure :: "stbi__zbuf \<Rightarrow> nat \<times> nat" where
  "zmeasure a = (length (zbuffer a), unat (code_buffer a))"

lemma zlib_block_decreases:
  assumes "zlib_block a = Inr (fin, b)" and "\<not> fin"
  shows "(zmeasure b, zmeasure a) \<in> less_than <*lex*> less_than"
proof -
  obtain k1 a1 k2 a2 where s: "stbi__zreceive a 1 = Inr (k1, a1)" "stbi__zreceive a1 2 = Inr (k2, a2)"
    using assms(1) by (auto simp: zlib_block_def elim!: ebind_InrE)
  have k1: "k1 = 0"
    using assms s by (auto simp: zlib_block_def elim!: ebind_InrE)
  have body: "(if k2 = 0 then stbi__parse_uncompressed_block a2
      else if k2 = 3 then Inl Silent
      else
        ebind (if k2 = 1
               then ebind (stbi__zbuild_huffman (z_length a2) stbi__zdefault_length STBI__ZNSYMS) (\<lambda>zl.
                    ebind (stbi__zbuild_huffman (z_distance a2) stbi__zdefault_distance 32) (\<lambda>zd.
                    Inr (a2\<lparr>z_length := zl, z_distance := zd\<rparr>)))
               else stbi__compute_huffman_codes a2) stbi__parse_huffman_block) = Inr b"
    using assms(1) s by (auto simp: zlib_block_def elim!: ebind_InrE split: if_splits)
  have down: "zdown b a2"
  proof (cases "k2 = 0")
    case True
    with body show ?thesis by (simp add: uncompressed_block_frame(1))
  next
    case False
    have same: "zdown (a2\<lparr>z_length := zl, z_distance := zd\<rparr>) a2" for zl zd
      by (simp add: zdown_def)
    from False body obtain a3 where "zdown a3 a2" "stbi__parse_huffman_block a3 = Inr b"
      by (cases "k2 = 1")
        (auto elim!: ebind_InrE split: if_splits dest: compute_huffman_codes_zdown intro: same)
    then show ?thesis by (blast intro: zdown_trans parse_huffman_block_zdown)
  qed
  note d1 = zreceive_frame(2) [OF s(1)] and d2 = zreceive_frame(2) [OF s(2)]
  show ?thesis
  proof (cases "length (zbuffer a2) < length (zbuffer a)")
    case True
    with down show ?thesis by (auto simp: zmeasure_def zdown_def)
  next
    case False
    with d1 d2 have eq: "length (zbuffer a1) = length (zbuffer a)" "length (zbuffer a2) = length (zbuffer a1)"
      by (auto simp: zdown_def)
    note n1 = zreceive_no_byte [OF s(1) eq(1)] and n2 = zreceive_no_byte [OF s(2) eq(2)]
    have a2: "code_buffer a2 = drop_bit 3 (code_buffer a)"
      by (simp add: n1 n2)
    show ?thesis
    proof (cases "code_buffer a = 0")
      case True
      then have "k2 = 0" using n1 n2 by simp
      with body have "stbi__parse_uncompressed_block a2 = Inr b" by simp
      moreover have "code_buffer a2 = 0" using True a2 by simp
      ultimately have "length (zbuffer b) < length (zbuffer a2)"
        by (rule uncompressed_block_frame(2))
      then show ?thesis using eq by (simp add: zmeasure_def)
    next
      case nz: False
      then have "0 < unat (code_buffer a)" by (simp add: unat_gt_0)
      then have "unat (code_buffer a2) < unat (code_buffer a)"
        unfolding a2 unat_drop_bit_eq by (simp add: drop_bit_eq_div)
      moreover have "unat (code_buffer b) \<le> unat (code_buffer a2) \<or> length (zbuffer b) < length (zbuffer a2)"
        using down by (auto simp: zdown_def word_le_nat_alt)
      ultimately show ?thesis using down eq by (auto simp: zmeasure_def zdown_def)
    qed
  qed
qed

function zlib_blocks :: "stbi__zbuf \<Rightarrow> stbi__zbuf res" where
  "zlib_blocks a = ebind (zlib_block a) (\<lambda>(final, a). if final then Inr a else zlib_blocks a)"
  by pat_completeness auto
termination
  by (relation "inv_image (less_than <*lex*> less_than) zmeasure")
    (auto intro!: wf_inv_image simp del: in_lex_prod intro: zlib_block_decreases)

declare zlib_blocks.simps [simp del]

definition stbi__parse_zlib :: "stbi__zbuf \<Rightarrow> bool \<Rightarrow> stbi__zbuf res" where
  "stbi__parse_zlib a parse_header =
     ebind (if parse_header then stbi__parse_zlib_header a else Inr a) (\<lambda>a.
     zlib_blocks (a\<lparr>num_bits := 0, code_buffer := 0, hit_zeof_once := False\<rparr>))"

section \<open>Entry points\<close>

text \<open>\<open>zbuf_start\<close> sets the fields the callers of \<open>stbi__do_zlib\<close> and \<open>stbi__do_zlib\<close> itself set.\<close>

definition stbi__do_zlib :: "stbi_uc list \<Rightarrow> nat \<Rightarrow> bool \<Rightarrow> bool \<Rightarrow> stbi__zbuf res" where
  "stbi__do_zlib ibuf olen exp parse_header =
     stbi__parse_zlib
       \<lparr>zbuffer = ibuf, num_bits = 0, hit_zeof_once = False, code_buffer = 0, zout = [],
        zlimit = word_of_nat olen, z_expandable = exp,
        z_length = zhuffman_uninit, z_distance = zhuffman_uninit\<rparr> parse_header"

text \<open>A negative \<open>initial_size\<close> becomes a huge \<open>size_t\<close>, which \<open>malloc\<close> refuses.\<close>

definition stbi_zlib_decode_malloc_guesssize_headerflag ::
    "stbi_uc list \<Rightarrow> int \<Rightarrow> bool \<Rightarrow> stbi_uc list res" where
  "stbi_zlib_decode_malloc_guesssize_headerflag buf initial_size parse_header =
     (if initial_size < 0 then Inl Silent
      else ebind (stbi__do_zlib buf (nat initial_size) True parse_header) (\<lambda>a. Inr (zout a)))"

definition stbi_zlib_decode_malloc_guesssize :: "stbi_uc list \<Rightarrow> int \<Rightarrow> stbi_uc list res" where
  "stbi_zlib_decode_malloc_guesssize buf initial_size =
     (if initial_size < 0 then Inl Silent
      else ebind (stbi__do_zlib buf (nat initial_size) True True) (\<lambda>a. Inr (zout a)))"

definition stbi_zlib_decode_malloc :: "stbi_uc list \<Rightarrow> stbi_uc list res" where
  "stbi_zlib_decode_malloc buf = stbi_zlib_decode_malloc_guesssize buf 16384"

definition stbi_zlib_decode_noheader_malloc :: "stbi_uc list \<Rightarrow> stbi_uc list res" where
  "stbi_zlib_decode_noheader_malloc buf =
     ebind (stbi__do_zlib buf 16384 True False) (\<lambda>a. Inr (zout a))"

text \<open>The fixed-buffer versions return the number of bytes written, or -1; the bytes are in
  \<open>obuffer\<close>.\<close>

definition stbi_zlib_decode_buffer :: "nat \<Rightarrow> stbi_uc list \<Rightarrow> int \<times> stbi_uc list" where
  "stbi_zlib_decode_buffer olen ibuffer =
     (case stbi__do_zlib ibuffer olen False True of
        Inl _ \<Rightarrow> (-1, []) | Inr a \<Rightarrow> (int (length (zout a)), zout a))"

definition stbi_zlib_decode_noheader_buffer :: "nat \<Rightarrow> stbi_uc list \<Rightarrow> int \<times> stbi_uc list" where
  "stbi_zlib_decode_noheader_buffer olen ibuffer =
     (case stbi__do_zlib ibuffer olen False False of
        Inl _ \<Rightarrow> (-1, []) | Inr a \<Rightarrow> (int (length (zout a)), zout a))"

end
