(* ===== verification/Stbi_Config.thy ===== *)
theory Stbi_Config
  imports Stbi_Prelude
begin

text \<open>
  The settings of the library (\<open>src/stb_image.h\<close>, lines 1108-1135 and 4993-5032): three flags,
  each with a process-wide value and a per-thread value that takes precedence once it was set.
\<close>

record stbi__flag =
  flag_global :: int
  flag_local :: int
  flag_set :: bool

record stbi__config =
  vertically_flip_on_load :: stbi__flag
  unpremultiply_on_load :: stbi__flag
  de_iphone_flag :: stbi__flag

text \<open>The macros \<open>stbi__vertically_flip_on_load\<close> and its siblings read a flag.\<close>

definition stbi__flag_value :: "stbi__flag \<Rightarrow> bool" where
  "stbi__flag_value f = ((if flag_set f then flag_local f else flag_global f) \<noteq> 0)"

definition stbi_set_flip_vertically_on_load :: "int \<Rightarrow> stbi__config \<Rightarrow> stbi__config" where
  "stbi_set_flip_vertically_on_load v c =
     c\<lparr>vertically_flip_on_load := (vertically_flip_on_load c)\<lparr>flag_global := v\<rparr>\<rparr>"

definition stbi_set_flip_vertically_on_load_thread :: "int \<Rightarrow> stbi__config \<Rightarrow> stbi__config" where
  "stbi_set_flip_vertically_on_load_thread v c =
     c\<lparr>vertically_flip_on_load :=
         (vertically_flip_on_load c)\<lparr>flag_local := v, flag_set := True\<rparr>\<rparr>"

definition stbi_set_unpremultiply_on_load :: "int \<Rightarrow> stbi__config \<Rightarrow> stbi__config" where
  "stbi_set_unpremultiply_on_load v c =
     c\<lparr>unpremultiply_on_load := (unpremultiply_on_load c)\<lparr>flag_global := v\<rparr>\<rparr>"

definition stbi_set_unpremultiply_on_load_thread :: "int \<Rightarrow> stbi__config \<Rightarrow> stbi__config" where
  "stbi_set_unpremultiply_on_load_thread v c =
     c\<lparr>unpremultiply_on_load := (unpremultiply_on_load c)\<lparr>flag_local := v, flag_set := True\<rparr>\<rparr>"

definition stbi_convert_iphone_png_to_rgb :: "int \<Rightarrow> stbi__config \<Rightarrow> stbi__config" where
  "stbi_convert_iphone_png_to_rgb v c =
     c\<lparr>de_iphone_flag := (de_iphone_flag c)\<lparr>flag_global := v\<rparr>\<rparr>"

definition stbi_convert_iphone_png_to_rgb_thread :: "int \<Rightarrow> stbi__config \<Rightarrow> stbi__config" where
  "stbi_convert_iphone_png_to_rgb_thread v c =
     c\<lparr>de_iphone_flag := (de_iphone_flag c)\<lparr>flag_local := v, flag_set := True\<rparr>\<rparr>"

definition stbi__config_start :: stbi__config where
  "stbi__config_start =
     \<lparr>vertically_flip_on_load = \<lparr>flag_global = 0, flag_local = 0, flag_set = False\<rparr>,
      unpremultiply_on_load = \<lparr>flag_global = 0, flag_local = 0, flag_set = False\<rparr>,
      de_iphone_flag = \<lparr>flag_global = 0, flag_local = 0, flag_set = False\<rparr>\<rparr>"

end
