(* ===== verification/Stbi_Png_Image.thy ===== *)
theory Stbi_Png_Image
  imports Stbi_Alloc Stbi_Config
begin

text \<open>
  The pixel side of the PNG decoder of \<open>src/stb_image.h\<close>, lines 4631-5076: undoing the scanline
  filters, expanding samples to bytes or native 16-bit words, de-interlacing, colour-key
  transparency, palette expansion and the iPhone colour order.

  The output \<open>a->out\<close> is a list of bytes; the decoder appends whole rows of \<open>stride\<close> bytes to it. A
  16-bit sample is stored as the platform stores it, low byte first. The two halves of the filter
  buffer swap roles after each row, so \<open>prior\<close> is the row that was decoded before.
\<close>

section \<open>Scanline filters\<close>

datatype png_filter =
  STBI__F_none | STBI__F_sub | STBI__F_up | STBI__F_avg | STBI__F_paeth | STBI__F_avg_first

definition png_filters :: "png_filter list" where
  "png_filters = [STBI__F_none, STBI__F_sub, STBI__F_up, STBI__F_avg, STBI__F_paeth]"

definition first_row_filter :: "png_filter list" where
  "first_row_filter = [STBI__F_none, STBI__F_sub, STBI__F_none, STBI__F_avg_first, STBI__F_sub]"

definition stbi__paeth :: "int \<Rightarrow> int \<Rightarrow> int \<Rightarrow> int" where
  "stbi__paeth a b c =
     (let thresh = c * 3 - (a + b);
          lo = (if a < b then a else b);
          hi = (if a < b then b else a);
          t0 = (if hi \<le> thresh then lo else c);
          t1 = (if thresh \<le> lo then hi else t0)
      in t1)"

definition stbi__depth_scale_table :: "stbi_uc list" where
  "stbi__depth_scale_table = [0, 0xff, 0x55, 0, 0x11, 0, 0, 0, 0x01]"

text \<open>What each filter adds to \<open>raw[k]\<close>; \<open>cur\<close> holds the bytes of the row written so far.\<close>

definition filter_term ::
    "png_filter \<Rightarrow> nat \<Rightarrow> stbi_uc list \<Rightarrow> nat \<Rightarrow> stbi_uc list \<Rightarrow> int res" where
  "filter_term flt filter_bytes prior k cur =
     (let a = arr_get cur (int k - int filter_bytes);
          b = arr_get prior (int k);
          c = arr_get prior (int k - int filter_bytes)
      in case flt of
           STBI__F_none \<Rightarrow> Inr 0
         | STBI__F_sub \<Rightarrow> if k < filter_bytes then Inr 0 else ebind a (\<lambda>a. Inr (uint a))
         | STBI__F_up \<Rightarrow> ebind b (\<lambda>b. Inr (uint b))
         | STBI__F_avg \<Rightarrow>
             if k < filter_bytes then ebind b (\<lambda>b. Inr (drop_bit 1 (uint b)))
             else ebind b (\<lambda>b. ebind a (\<lambda>a. Inr (drop_bit 1 (uint b + uint a))))
         | STBI__F_paeth \<Rightarrow>
             if k < filter_bytes then ebind b (\<lambda>b. Inr (uint b))
             else ebind a (\<lambda>a. ebind b (\<lambda>b. ebind c (\<lambda>c.
                  Inr (stbi__paeth (uint a) (uint b) (uint c)))))
         | STBI__F_avg_first \<Rightarrow>
             if k < filter_bytes then Inr 0 else ebind a (\<lambda>a. Inr (drop_bit 1 (uint a))))"

definition unfilter_row ::
    "png_filter \<Rightarrow> nat \<Rightarrow> nat \<Rightarrow> stbi_uc list \<Rightarrow> stbi_uc list \<Rightarrow> stbi_uc list res" where
  "unfilter_row flt filter_bytes nk raw prior =
     (if nk < filter_bytes then Inl Undefined
      else efold (\<lambda>k cur.
             ebind (arr_get raw (int k)) (\<lambda>r.
             ebind (filter_term flt filter_bytes prior k cur) (\<lambda>t.
             Inr (cur @ [STBI__BYTECAST (uint r + t)]))))
           [0..<nk] [])"

section \<open>From a filtered row to output samples\<close>

text \<open>The three loops that expand samples of 4, 2 and 1 bits, as one: a new byte is fetched every
  \<open>8 / depth\<close> samples, the top \<open>depth\<close> bits are scaled and written, and the byte is shifted. The
  state is \<open>(in, inb, out)\<close>.\<close>

definition expand_bits_step ::
    "nat \<Rightarrow> stbi_uc \<Rightarrow> nat \<Rightarrow> stbi_uc list \<times> stbi_uc \<times> stbi_uc list \<Rightarrow>
     (stbi_uc list \<times> stbi_uc \<times> stbi_uc list) res" where
  "expand_bits_step depth scale i st =
     (case st of (inp, inb, out) \<Rightarrow>
      ebind (if i mod (8 div depth) = 0
             then (case inp of [] \<Rightarrow> Inl Undefined | c # cs \<Rightarrow> Inr (cs, c))
             else Inr (inp, inb)) (\<lambda>(inp, inb).
      Inr (inp, push_bit depth inb, out @ [scale * drop_bit (8 - depth) inb])))"

definition expand_bits :: "nat \<Rightarrow> stbi_uc \<Rightarrow> nat \<Rightarrow> stbi_uc list \<Rightarrow> stbi_uc list res" where
  "expand_bits depth scale nsmp cur =
     (if depth \<noteq> 4 \<and> depth \<noteq> 2 \<and> depth \<noteq> 1 then Inl Undefined
      else ebind (efold (expand_bits_step depth scale) [0..<nsmp] (cur, 0, []))
             (\<lambda>(_, _, out). Inr out))"

text \<open>\<open>stbi__create_png_alpha_expand8\<close>. The source may be the destination itself, which the code
  allows by working backwards: \<open>src = None\<close> is that case.\<close>

definition alpha_src :: "stbi_uc list option \<Rightarrow> stbi_uc list \<Rightarrow> stbi_uc list" where
  "alpha_src src dest = (case src of None \<Rightarrow> dest | Some s \<Rightarrow> s)"

definition copy_to :: "stbi_uc list option \<Rightarrow> nat \<Rightarrow> nat \<Rightarrow> stbi_uc list \<Rightarrow> stbi_uc list res" where
  "copy_to src di si dest =
     ebind (arr_get (alpha_src src dest) (int si)) (\<lambda>v. arr_set dest (int di) v)"

definition alpha_pixel1 :: "stbi_uc list option \<Rightarrow> nat \<Rightarrow> stbi_uc list \<Rightarrow> stbi_uc list res" where
  "alpha_pixel1 src i dest =
     ebind (arr_set dest (int (i * 2 + 1)) 255) (copy_to src (i * 2 + 0) i)"

definition alpha_pixel3 :: "stbi_uc list option \<Rightarrow> nat \<Rightarrow> stbi_uc list \<Rightarrow> stbi_uc list res" where
  "alpha_pixel3 src i dest =
     ebind (arr_set dest (int (i * 4 + 3)) 255) (\<lambda>dest.
     ebind (copy_to src (i * 4 + 2) (i * 3 + 2) dest) (\<lambda>dest.
     ebind (copy_to src (i * 4 + 1) (i * 3 + 1) dest) (\<lambda>dest.
     copy_to src (i * 4 + 0) (i * 3 + 0) dest)))"

definition stbi__create_png_alpha_expand8 ::
    "stbi_uc list \<Rightarrow> stbi_uc list option \<Rightarrow> nat \<Rightarrow> nat \<Rightarrow> stbi_uc list res" where
  "stbi__create_png_alpha_expand8 dest src x img_n =
     (if img_n = 1 then efold (alpha_pixel1 src) (rev [0..<x]) dest
      else if img_n \<noteq> 3 then Inl Undefined
      else efold (alpha_pixel3 src) (rev [0..<x]) dest)"

text \<open>Storing a 16-bit sample, and the loops that turn big-endian samples into native ones.\<close>

definition store16 :: "stbi_us \<Rightarrow> stbi_uc list" where
  "store16 v = [ucast v, ucast (drop_bit 8 v)]"

definition be16 :: "stbi_uc \<Rightarrow> stbi_uc \<Rightarrow> stbi_us" where
  "be16 hi lo = u16cast (push_bit 8 (uint hi) OR uint lo)"

fun samples16 :: "nat \<Rightarrow> stbi_uc list \<Rightarrow> stbi_uc list res" where
  "samples16 0 cur = Inr []"
| "samples16 (Suc n) cur =
     (case cur of
        a # b # cur \<Rightarrow> ebind (samples16 n cur) (\<lambda>r. Inr (store16 (be16 a b) @ r))
      | _ \<Rightarrow> Inl Undefined)"

fun pixels16 :: "nat \<Rightarrow> nat \<Rightarrow> stbi_uc list \<Rightarrow> stbi_uc list res" where
  "pixels16 0 img_n cur = Inr []"
| "pixels16 (Suc n) img_n cur =
     ebind (samples16 img_n cur) (\<lambda>px.
     ebind (pixels16 n img_n (drop (2 * img_n) cur)) (\<lambda>r.
     Inr (px @ store16 0xffff @ r)))"

text \<open>The part of the row loop after the filter: the \<open>stride\<close> bytes it writes to \<open>dest\<close>.\<close>

definition expand_row ::
    "nat \<Rightarrow> nat \<Rightarrow> nat \<Rightarrow> nat \<Rightarrow> int \<Rightarrow> stbi_uc list \<Rightarrow> stbi_uc list res" where
  "expand_row img_n out_n x depth color cur =
     (if depth < 8
      then let scale = (if color = 0 then stbi__depth_scale_table ! depth else 1) in
           ebind (expand_bits depth scale (x * img_n) cur) (\<lambda>out.
           if img_n \<noteq> out_n
           then stbi__create_png_alpha_expand8 (out @ replicate (x * out_n - x * img_n) 0) None x img_n
           else Inr out)
      else if depth = 8
      then if img_n = out_n
           then if x * img_n \<le> length cur then Inr (take (x * img_n) cur) else Inl Undefined
           else stbi__create_png_alpha_expand8 (replicate (x * out_n) 0) (Some cur) x img_n
      else if depth = 16
      then if img_n = out_n then samples16 (x * img_n) cur
           else if img_n + 1 \<noteq> out_n then Inl Undefined
           else if img_n = 1 \<or> img_n = 3 then pixels16 x img_n cur
           else Inl Undefined
      else Inr [])"

section \<open>Whole images\<close>

text \<open>The image is a list of rows to be decoded from \<open>raw\<close>; \<open>row_step\<close> is the body of the loop over
  the scanlines, with the state \<open>(raw, prior, out)\<close>.\<close>

definition row_step ::
    "(stbi_uc list \<Rightarrow> stbi_uc list res) \<Rightarrow> nat \<Rightarrow> nat \<Rightarrow> nat \<Rightarrow>
     stbi_uc list \<times> stbi_uc list \<times> stbi_uc list \<Rightarrow> (stbi_uc list \<times> stbi_uc list \<times> stbi_uc list) res" where
  "row_step expand filter_bytes nk j st =
     (case st of (raw, prior, out) \<Rightarrow>
      case raw of
        [] \<Rightarrow> Inl Undefined
      | f # raw \<Rightarrow>
          if uint f > 4 then Inl (Failure ''invalid filter'')
          else let flt = (if j = 0 then first_row_filter else png_filters) ! unat f in
               ebind (unfilter_row flt filter_bytes nk raw prior) (\<lambda>cur.
               ebind (expand cur) (\<lambda>row.
               Inr (drop nk raw, cur, out @ row))))"

definition stbi__create_png_image_raw ::
    "nat \<Rightarrow> stbi_uc list \<Rightarrow> nat \<Rightarrow> nat \<Rightarrow> nat \<Rightarrow> nat \<Rightarrow> int \<Rightarrow> stbi_uc list res" where
  "stbi__create_png_image_raw img_n raw out_n x y depth color =
     (let bytes = (if depth = 16 then 2 else 1);
          output_bytes = out_n * bytes
      in
      if out_n \<noteq> img_n \<and> out_n \<noteq> img_n + 1 then Inl Undefined
      else if stbi__malloc_mad3 (int x) (int y) (int output_bytes) 0 = None
      then Inl (Failure ''outofmem'')
      else if \<not> stbi__mad3sizes_valid (int img_n) (int x) (int depth) 7
      then Inl (Failure ''too large'')
      else let img_width_bytes = (img_n * x * depth + 7) div 8 in
      if \<not> stbi__mad2sizes_valid (int img_width_bytes) (int y) (int img_width_bytes)
      then Inl (Failure ''too large'')
      else if length raw < (img_width_bytes + 1) * y then Inl (Failure ''not enough pixels'')
      else if stbi__malloc_mad2 (int img_width_bytes) 2 0 = None then Inl (Failure ''outofmem'')
      else let filter_bytes = (if depth < 8 then 1 else img_n * bytes);
               width = (if depth < 8 then img_width_bytes else x);
               nk = width * filter_bytes
           in
           if nk > img_width_bytes then Inl Undefined
           else ebind (efold (row_step (expand_row img_n out_n x depth color) filter_bytes nk)
                        [0..<y] (raw, [], []))
                  (\<lambda>(_, _, out). Inr out))"

text \<open>Copying a block between two buffers, both ranges checked.\<close>

definition memcpy_chk :: "'a list \<Rightarrow> nat \<Rightarrow> 'a list \<Rightarrow> nat \<Rightarrow> nat \<Rightarrow> 'a list res" where
  "memcpy_chk dst doff src soff n =
     (if doff + n \<le> length dst \<and> soff + n \<le> length src
      then Inr (take doff dst @ take n (drop soff src) @ drop (doff + n) dst)
      else Inl Undefined)"

definition adam7_xorig :: "nat list" where "adam7_xorig = [0,4,0,2,0,1,0]"
definition adam7_yorig :: "nat list" where "adam7_yorig = [0,0,4,0,2,0,1]"
definition adam7_xspc :: "nat list" where "adam7_xspc = [8,8,4,4,2,2,1]"
definition adam7_yspc :: "nat list" where "adam7_yspc = [8,8,8,4,4,2,2]"

text \<open>The number of columns or rows of a pass; the source computes it in \<open>stbi__uint32\<close>, where the
  intermediate difference may wrap.\<close>

definition pass_extent :: "nat \<Rightarrow> nat \<Rightarrow> nat \<Rightarrow> nat" where
  "pass_extent extent orig spc =
     unat ((word_of_nat extent - word_of_nat orig + word_of_nat spc - 1 :: uint32) div word_of_nat spc)"

definition place_pass ::
    "nat \<Rightarrow> nat \<Rightarrow> nat \<Rightarrow> nat \<Rightarrow> nat \<Rightarrow> stbi_uc list \<Rightarrow> stbi_uc list \<Rightarrow> stbi_uc list res" where
  "place_pass img_x out_bytes p x y out final =
     efold (\<lambda>j final. efold (\<lambda>i final.
         let out_y = j * adam7_yspc ! p + adam7_yorig ! p;
             out_x = i * adam7_xspc ! p + adam7_xorig ! p
         in memcpy_chk final (out_y * img_x * out_bytes + out_x * out_bytes)
              out ((j * x + i) * out_bytes) out_bytes)
       [0..<x] final) [0..<y] final"

definition pass_step ::
    "nat \<Rightarrow> nat \<Rightarrow> nat \<Rightarrow> nat \<Rightarrow> nat \<Rightarrow> int \<Rightarrow> nat \<Rightarrow> stbi_uc list \<times> stbi_uc list \<Rightarrow>
     (stbi_uc list \<times> stbi_uc list) res" where
  "pass_step img_n img_x img_y out_n depth color p st =
     (case st of (image_data, final) \<Rightarrow>
      let bytes = (if depth = 16 then 2 else 1);
          out_bytes = out_n * bytes;
          x = pass_extent img_x (adam7_xorig ! p) (adam7_xspc ! p);
          y = pass_extent img_y (adam7_yorig ! p) (adam7_yspc ! p)
      in if x \<noteq> 0 \<and> y \<noteq> 0
         then let img_len = ((img_n * x * depth + 7) div 8 + 1) * y in
              ebind (stbi__create_png_image_raw img_n image_data out_n x y depth color) (\<lambda>out.
              ebind (place_pass img_x out_bytes p x y out final) (\<lambda>final.
              Inr (drop img_len image_data, final)))
         else Inr (image_data, final))"

definition stbi__create_png_image ::
    "nat \<Rightarrow> nat \<Rightarrow> nat \<Rightarrow> stbi_uc list \<Rightarrow> nat \<Rightarrow> nat \<Rightarrow> int \<Rightarrow> bool \<Rightarrow> stbi_uc list res" where
  "stbi__create_png_image img_n img_x img_y image_data out_n depth color interlaced =
     (let bytes = (if depth = 16 then 2 else 1); out_bytes = out_n * bytes in
      if \<not> interlaced
      then stbi__create_png_image_raw img_n image_data out_n img_x img_y depth color
      else case stbi__malloc_mad3 (int img_x) (int img_y) (int out_bytes) 0 of
             None \<Rightarrow> Inl (Failure ''outofmem'')
           | Some n \<Rightarrow>
               ebind (efold (pass_step img_n img_x img_y out_n depth color) [0..<7]
                        (image_data, replicate n 0))
                 (\<lambda>(_, final). Inr final))"

section \<open>Transparency, palette, colour order\<close>

text \<open>The loops over the \<open>img_x * img_y\<close> pixels of the output; a pixel outside the buffer is
  undefined behaviour.\<close>

fun each_pixel :: "nat \<Rightarrow> (stbi_uc list \<Rightarrow> stbi_uc list) \<Rightarrow> nat \<Rightarrow> stbi_uc list \<Rightarrow> stbi_uc list res" where
  "each_pixel n f 0 p = Inr p"
| "each_pixel n f (Suc count) p =
     (if length p < n then Inl Undefined
      else ebind (each_pixel n f count (drop n p)) (\<lambda>r. Inr (f (take n p) @ r)))"

definition stbi__compute_transparency ::
    "nat \<Rightarrow> stbi_uc list \<Rightarrow> nat \<Rightarrow> stbi_uc list \<Rightarrow> stbi_uc list res" where
  "stbi__compute_transparency pixel_count tc out_n out =
     (if out_n = 2
      then each_pixel 2 (\<lambda>p. [p ! 0, if p ! 0 = tc ! 0 then 0 else 255]) pixel_count out
      else if out_n = 4
      then each_pixel 4 (\<lambda>p.
             if p ! 0 = tc ! 0 \<and> p ! 1 = tc ! 1 \<and> p ! 2 = tc ! 2 then p[3 := 0] else p)
             pixel_count out
      else Inl Undefined)"

text \<open>A native 16-bit sample of the output.\<close>

definition load16 :: "stbi_uc list \<Rightarrow> nat \<Rightarrow> stbi_us" where
  "load16 p i = ucast (p ! (2 * i)) OR push_bit 8 (ucast (p ! (2 * i + 1)))"

definition stbi__compute_transparency16 ::
    "nat \<Rightarrow> stbi_us list \<Rightarrow> nat \<Rightarrow> stbi_uc list \<Rightarrow> stbi_uc list res" where
  "stbi__compute_transparency16 pixel_count tc out_n out =
     (if out_n = 2
      then each_pixel 4 (\<lambda>p.
             store16 (load16 p 0) @ store16 (if load16 p 0 = tc ! 0 then 0 else 65535)) pixel_count out
      else if out_n = 4
      then each_pixel 8 (\<lambda>p.
             if load16 p 0 = tc ! 0 \<and> load16 p 1 = tc ! 1 \<and> load16 p 2 = tc ! 2
             then take 6 p @ store16 0 else p) pixel_count out
      else Inl Undefined)"

definition stbi__expand_png_palette ::
    "nat \<Rightarrow> stbi_uc list \<Rightarrow> nat \<Rightarrow> stbi_uc list \<Rightarrow> stbi_uc list res" where
  "stbi__expand_png_palette pixel_count palette pal_img_n out =
     (case stbi__malloc_mad2 (int pixel_count) (int pal_img_n) 0 of
        None \<Rightarrow> Inl (Failure ''outofmem'')
      | Some _ \<Rightarrow>
          efold (\<lambda>i p.
            ebind (arr_get out (int i)) (\<lambda>v. let n = uint v * 4 in
            ebind (arr_get palette n) (\<lambda>c0.
            ebind (arr_get palette (n + 1)) (\<lambda>c1.
            ebind (arr_get palette (n + 2)) (\<lambda>c2.
            if pal_img_n = 3 then Inr (p @ [c0, c1, c2])
            else ebind (arr_get palette (n + 3)) (\<lambda>c3. Inr (p @ [c0, c1, c2, c3])))))))
          [0..<pixel_count] [])"

text \<open>\<open>(v * 255 + half) / a\<close>, truncated to a byte.\<close>

definition unpremultiply :: "stbi_uc \<Rightarrow> stbi_uc \<Rightarrow> stbi_uc" where
  "unpremultiply a v = STBI__BYTECAST ((uint v * 255 + uint a div 2) div uint a)"

definition stbi__de_iphone :: "stbi__config \<Rightarrow> nat \<Rightarrow> nat \<Rightarrow> stbi_uc list \<Rightarrow> stbi_uc list res" where
  "stbi__de_iphone cfg pixel_count img_out_n out =
     (if img_out_n = 3
      then each_pixel 3 (\<lambda>p. [p ! 2, p ! 1, p ! 0]) pixel_count out
      else if img_out_n \<noteq> 4 then Inl Undefined
      else if stbi__flag_value (unpremultiply_on_load cfg)
      then each_pixel 4 (\<lambda>p. let a = p ! 3 in
             if a \<noteq> 0
             then [unpremultiply a (p ! 2), unpremultiply a (p ! 1), unpremultiply a (p ! 0), a]
             else [p ! 2, p ! 1, p ! 0, a]) pixel_count out
      else each_pixel 4 (\<lambda>p. [p ! 2, p ! 1, p ! 0, p ! 3]) pixel_count out)"

end
