(* ===== verification/Stbi_Png.thy ===== *)
theory Stbi_Png
  imports Stbi_State Stbi_Zlib Stbi_Png_Image Stbi_Convert
begin

text \<open>
  The PNG decoder of \<open>src/stb_image.h\<close>, lines 4606-5341: chunks, the state machine over them and the
  entry points. The record \<open>stbi__png\<close> holds the context and the local variables of
  \<open>stbi__parse_png_file\<close>; each chunk type has its handler, which returns whether parsing is
  finished. The loop over the chunks has fuel: a source of bytes that never ends could
  deliver chunks for ever.
\<close>

section \<open>Definitions\<close>

record stbi__pngchunk =
  chunk_length :: uint32
  chunk_type :: uint32

datatype stbi__scan = STBI__SCAN_load | STBI__SCAN_type | STBI__SCAN_header

record 'u stbi__png =
  png_s :: "'u stbi__context"
  idata :: "stbi_uc list option"
  expanded :: "stbi_uc list"
  out :: "stbi_uc list"
  depth :: int
  palette :: "stbi_uc list"
  pal_img_n :: int
  has_trans :: bool
  tc :: "stbi_uc list"
  tc16 :: "stbi_us list"
  idata_limit :: uint32
  pal_len :: uint32
  png_first :: bool
  interlace :: int
  color :: int
  is_iphone :: bool

definition png_start :: "'u stbi__context \<Rightarrow> 'u stbi__png" where
  "png_start s =
     \<lparr>png_s = s, idata = None, expanded = [], out = [], depth = 0, palette = replicate 1024 0,
      pal_img_n = 0, has_trans = False, tc = [0, 0, 0], tc16 = [0, 0, 0], idata_limit = 0,
      pal_len = 0, png_first = True, interlace = 0, color = 0, is_iphone = False\<rparr>"

definition STBI_MAX_DIMENSIONS :: nat where "STBI_MAX_DIMENSIONS = 2 ^ 24"

definition ioff :: "'u stbi__png \<Rightarrow> nat" where
  "ioff z = (case idata z of None \<Rightarrow> 0 | Some d \<Rightarrow> length d)"

text \<open>A read on the context inside the decoder's state, and a change of one of its image fields.\<close>

definition on_ctx :: "('u stbi__context \<Rightarrow> 'a \<times> 'u stbi__context) \<Rightarrow> ('u stbi__png, 'a) step" where
  "on_ctx f = son png_s (\<lambda>s z. z\<lparr>png_s := s\<rparr>) (stot f)"

definition upd_ctx :: "('u stbi__context \<Rightarrow> 'u stbi__context) \<Rightarrow> ('u stbi__png, unit) step" where
  "upd_ctx f = smodify (\<lambda>z. z\<lparr>png_s := f (png_s z)\<rparr>)"

definition stbi__get_chunk_header :: "'u stbi__context \<Rightarrow> stbi__pngchunk \<times> 'u stbi__context" where
  "stbi__get_chunk_header s =
     (let (len, s) = stbi__get32be s; (ty, s) = stbi__get32be s
      in (\<lparr>chunk_length = len, chunk_type = ty\<rparr>, s))"

definition png_sig :: "stbi_uc list" where
  "png_sig = [137, 80, 78, 71, 13, 10, 26, 10]"

definition stbi__check_png_header :: "('u stbi__context, unit) step" where
  "stbi__check_png_header =
     sfold (\<lambda>c u. sbind (stot stbi__get8) (\<lambda>b. sguard (b = c) (Failure ''bad png sig''))) png_sig ()"

definition STBI__PNG_TYPE :: "char \<Rightarrow> char \<Rightarrow> char \<Rightarrow> char \<Rightarrow> uint32" where
  "STBI__PNG_TYPE a b c d =
     push_bit 24 (of_char a) + push_bit 16 (of_char b) + push_bit 8 (of_char c) + of_char d"

definition png_CgBI :: "stbi__pngchunk \<Rightarrow> ('u stbi__png, bool) step" where
  "png_CgBI c =
     sbind (smodify (\<lambda>z. z\<lparr>is_iphone := True\<rparr>)) (\<lambda>_.
     sbind (upd_ctx (\<lambda>s. stbi__skip s (sint (chunk_length c)))) (\<lambda>_.
     sret False))"

text \<open>The tail of the \<open>IHDR\<close> handler: the number of components and the size limit.\<close>

definition png_IHDR_components :: "('u stbi__png, unit) step" where
  "png_IHDR_components =
     sbind (sget color) (\<lambda>color.
     sbind (sget pal_img_n) (\<lambda>pal_img_n.
     sbind (sget png_s) (\<lambda>s.
     if pal_img_n = 0
     then let n = (if color AND 2 \<noteq> 0 then 3 else 1) + (if color AND 4 \<noteq> 0 then 1 else 0) in
          sbind (upd_ctx (\<lambda>s. s\<lparr>img_n := n\<rparr>)) (\<lambda>_.
          sguard (\<not> 2 ^ 30 div unat (img_x s) div nat n < unat (img_y s)) (Failure ''too large''))
     else sbind (upd_ctx (\<lambda>s. s\<lparr>img_n := 1\<rparr>)) (\<lambda>_.
          sguard (\<not> 2 ^ 30 div unat (img_x s) div 4 < unat (img_y s)) (Failure ''too large'')))))"

definition png_IHDR :: "stbi__pngchunk \<Rightarrow> ('u stbi__png, bool) step" where
  "png_IHDR c =
     sbind (sget png_first) (\<lambda>fst.
     sbind (sguard fst (Failure ''multiple IHDR'')) (\<lambda>_.
     sbind (smodify (\<lambda>z. z\<lparr>png_first := False\<rparr>)) (\<lambda>_.
     sbind (sguard (chunk_length c = 13) (Failure ''bad IHDR len'')) (\<lambda>_.
     sbind (on_ctx stbi__get32be) (\<lambda>x.
     sbind (upd_ctx (\<lambda>s. s\<lparr>img_x := x\<rparr>)) (\<lambda>_.
     sbind (on_ctx stbi__get32be) (\<lambda>y.
     sbind (upd_ctx (\<lambda>s. s\<lparr>img_y := y\<rparr>)) (\<lambda>_.
     sbind (sguard (\<not> unat y > STBI_MAX_DIMENSIONS) (Failure ''too large'')) (\<lambda>_.
     sbind (sguard (\<not> unat x > STBI_MAX_DIMENSIONS) (Failure ''too large'')) (\<lambda>_.
     sbind (on_ctx stbi__get8) (\<lambda>d.
     sbind (smodify (\<lambda>z. z\<lparr>depth := uint d\<rparr>)) (\<lambda>_.
     sbind (sguard (uint d \<in> {1, 2, 4, 8, 16}) (Failure ''1/2/4/8/16-bit only'')) (\<lambda>_.
     sbind (on_ctx stbi__get8) (\<lambda>cb.
     sbind (smodify (\<lambda>z. z\<lparr>color := uint cb\<rparr>)) (\<lambda>_.
     sbind (sguard (\<not> uint cb > 6) (Failure ''bad ctype'')) (\<lambda>_.
     sbind (sguard (\<not> (cb = 3 \<and> d = 16)) (Failure ''bad ctype'')) (\<lambda>_.
     sbind (if cb = 3 then smodify (\<lambda>z. z\<lparr>pal_img_n := 3\<rparr>)
            else sguard (uint cb AND 1 = 0) (Failure ''bad ctype'')) (\<lambda>_.
     sbind (on_ctx stbi__get8) (\<lambda>comp.
     sbind (sguard (comp = 0) (Failure ''bad comp method'')) (\<lambda>_.
     sbind (on_ctx stbi__get8) (\<lambda>flt.
     sbind (sguard (flt = 0) (Failure ''bad filter method'')) (\<lambda>_.
     sbind (on_ctx stbi__get8) (\<lambda>il.
     sbind (smodify (\<lambda>z. z\<lparr>interlace := uint il\<rparr>)) (\<lambda>_.
     sbind (sguard (\<not> uint il > 1) (Failure ''bad interlace method'')) (\<lambda>_.
     sbind (sguard (x \<noteq> 0 \<and> y \<noteq> 0) (Failure ''0-pixel image'')) (\<lambda>_.
     sbind png_IHDR_components (\<lambda>_.
     sret False)))))))))))))))))))))))))))"

text \<open>Writing one byte of the palette.\<close>

definition set_palette :: "nat \<Rightarrow> stbi_uc \<Rightarrow> ('u stbi__png, unit) step" where
  "set_palette i v =
     sbind (sget palette) (\<lambda>pal.
     sbind (slift (arr_set pal (int i) v)) (\<lambda>pal.
     smodify (\<lambda>z. z\<lparr>palette := pal\<rparr>)))"

definition png_PLTE :: "stbi__pngchunk \<Rightarrow> ('u stbi__png, bool) step" where
  "png_PLTE c =
     sbind (sget png_first) (\<lambda>fst.
     sbind (sguard (\<not> fst) (Failure ''first not IHDR'')) (\<lambda>_.
     sbind (sguard (\<not> chunk_length c > 256 * 3) (Failure ''invalid PLTE'')) (\<lambda>_.
     let plen = chunk_length c div 3 in
     sbind (smodify (\<lambda>z. z\<lparr>pal_len := plen\<rparr>)) (\<lambda>_.
     sbind (sguard (plen * 3 = chunk_length c) (Failure ''invalid PLTE'')) (\<lambda>_.
     sbind (sfold (\<lambda>i u.
         sbind (on_ctx stbi__get8) (\<lambda>r. sbind (set_palette (i * 4 + 0) r) (\<lambda>_.
         sbind (on_ctx stbi__get8) (\<lambda>g. sbind (set_palette (i * 4 + 1) g) (\<lambda>_.
         sbind (on_ctx stbi__get8) (\<lambda>b. sbind (set_palette (i * 4 + 2) b) (\<lambda>_.
         set_palette (i * 4 + 3) 255))))))) [0..<unat plen] ()) (\<lambda>_.
     sret False))))))"

definition png_tRNS :: "stbi__scan \<Rightarrow> stbi__pngchunk \<Rightarrow> ('u stbi__png, bool) step" where
  "png_tRNS scan c =
     sbind (sget id) (\<lambda>z.
     sbind (sguard (\<not> png_first z) (Failure ''first not IHDR'')) (\<lambda>_.
     sbind (sguard (idata z = None) (Failure ''tRNS after IDAT'')) (\<lambda>_.
     if pal_img_n z \<noteq> 0
     then if scan = STBI__SCAN_header
          then sbind (upd_ctx (\<lambda>s. s\<lparr>img_n := 4\<rparr>)) (\<lambda>_. sret True)
          else
            sbind (sguard (pal_len z \<noteq> 0) (Failure ''tRNS before PLTE'')) (\<lambda>_.
            sbind (sguard (\<not> chunk_length c > pal_len z) (Failure ''bad tRNS len'')) (\<lambda>_.
            sbind (smodify (\<lambda>z. z\<lparr>pal_img_n := 4\<rparr>)) (\<lambda>_.
            sbind (sfold (\<lambda>i u. sbind (on_ctx stbi__get8) (set_palette (i * 4 + 3)))
                    [0..<unat (chunk_length c)] ()) (\<lambda>_.
            sret False))))
     else
       let n = img_n (png_s z) in
       sbind (sguard (n AND 1 \<noteq> 0) (Failure ''tRNS with alpha'')) (\<lambda>_.
       sbind (sguard (chunk_length c = u32cast n * 2) (Failure ''bad tRNS len'')) (\<lambda>_.
       sbind (smodify (\<lambda>z. z\<lparr>has_trans := True\<rparr>)) (\<lambda>_.
       if scan = STBI__SCAN_header
       then sbind (upd_ctx (\<lambda>s. s\<lparr>img_n := img_n s + 1\<rparr>)) (\<lambda>_. sret True)
       else
         sbind (sfold (\<lambda>k u.
             sbind (on_ctx stbi__get16be) (\<lambda>v.
             if depth z = 16
             then smodify (\<lambda>z. z\<lparr>tc16 := (tc16 z)[k := u16cast v]\<rparr>)
             else sbind (slift (arr_get stbi__depth_scale_table (depth z))) (\<lambda>sc.
                  smodify (\<lambda>z. z\<lparr>tc := (tc z)[k := STBI__BYTECAST (v AND 255) * sc]\<rparr>))))
           [0..<min (nat n) 3] ()) (\<lambda>_.
         sret False)))))))"

text \<open>\<open>while (ioff + c.length > idata_limit) idata_limit *= 2\<close>, in \<open>stbi__uint32\<close>.\<close>

fun grow_idata :: "nat \<Rightarrow> uint32 \<Rightarrow> uint32 \<Rightarrow> uint32 res" where
  "grow_idata 0 need limit = Inl NoReturn"
| "grow_idata (Suc fuel) need limit =
     (if need > limit then grow_idata fuel need (limit * 2) else Inr limit)"

text \<open>The buffer for the compressed data, enlarged when it is too small for \<open>need\<close> bytes.\<close>

definition png_IDAT_room :: "uint32 \<Rightarrow> uint32 \<Rightarrow> ('u stbi__png, unit) step" where
  "png_IDAT_room need len =
     sbind (sget idata_limit) (\<lambda>limit.
     if need > limit then
       let limit = (if limit = 0 then (if len > 4096 then len else 4096) else limit) in
       sbind (slift (grow_idata 33 need limit)) (\<lambda>limit.
       smodify (\<lambda>z. z\<lparr>idata_limit := limit, idata := Some (case idata z of None \<Rightarrow> [] | Some d \<Rightarrow> d)\<rparr>))
     else sret ())"

definition png_IDAT :: "stbi__scan \<Rightarrow> stbi__pngchunk \<Rightarrow> ('u stbi__png, bool) step" where
  "png_IDAT scan c =
     sbind (sget id) (\<lambda>z.
     sbind (sguard (\<not> png_first z) (Failure ''first not IHDR'')) (\<lambda>_.
     sbind (sguard (\<not> (pal_img_n z \<noteq> 0 \<and> pal_len z = 0)) (Failure ''no PLTE'')) (\<lambda>_.
     if scan = STBI__SCAN_header
     then sbind (if pal_img_n z \<noteq> 0 then upd_ctx (\<lambda>s. s\<lparr>img_n := pal_img_n z\<rparr>) else sret ()) (\<lambda>_.
          sret True)
     else
       let off = word_of_nat (ioff z) :: uint32; need = off + chunk_length c in
       sbind (sguard (\<not> chunk_length c > 2 ^ 30) (Failure ''IDAT size limit'')) (\<lambda>_.
       sbind (sguard (\<not> sint need < sint off) Silent) (\<lambda>_.
       sbind (png_IDAT_room need (chunk_length c)) (\<lambda>_.
       sbind (sget idata_limit) (\<lambda>limit.
       sbind (sguard (ioff z + unat (chunk_length c) \<le> unat limit) Undefined) (\<lambda>_.
       sbind (on_ctx (\<lambda>s. stbi__getn s (unat (chunk_length c)))) (\<lambda>r.
       case r of
         None \<Rightarrow> sfail (Failure ''outofdata'')
       | Some bytes \<Rightarrow>
           sbind (smodify (\<lambda>z. z\<lparr>idata := map_option (\<lambda>d. d @ bytes) (idata z)\<rparr>)) (\<lambda>_.
           sret False))))))))))"

text \<open>The part of the \<open>IEND\<close> handler after decompression, once \<open>img_out_n\<close> is chosen.\<close>

definition png_pixel_count :: "'u stbi__png \<Rightarrow> nat" where
  "png_pixel_count z = unat (img_x (png_s z) * img_y (png_s z))"

definition png_finish :: "stbi__config \<Rightarrow> int \<Rightarrow> ('u stbi__png, unit) step" where
  "png_finish cfg req_comp =
     sbind (sget id) (\<lambda>z.
     let s = png_s z; pixel_count = png_pixel_count z; out_n = nat (img_out_n s) in
     sbind (slift (stbi__create_png_image (nat (img_n s)) (unat (img_x s)) (unat (img_y s))
              (expanded z) out_n (nat (depth z)) (color z) (interlace z \<noteq> 0))) (\<lambda>img.
     sbind (slift (if has_trans z
                   then if depth z = 16
                        then stbi__compute_transparency16 pixel_count (tc16 z) out_n img
                        else stbi__compute_transparency pixel_count (tc z) out_n img
                   else Inr img)) (\<lambda>img.
     sbind (slift (if is_iphone z \<and> stbi__flag_value (de_iphone_flag cfg) \<and> img_out_n s > 2
                   then stbi__de_iphone cfg pixel_count out_n img
                   else Inr img)) (\<lambda>img.
     if pal_img_n z \<noteq> 0
     then let n = (if req_comp \<ge> 3 then req_comp else pal_img_n z) in
          sbind (upd_ctx (\<lambda>s. s\<lparr>img_n := pal_img_n z, img_out_n := n\<rparr>)) (\<lambda>_.
          sbind (slift (stbi__expand_png_palette pixel_count (palette z) (nat n) img)) (\<lambda>img.
          smodify (\<lambda>z. z\<lparr>out := img\<rparr>)))
     else sbind (if has_trans z then upd_ctx (\<lambda>s. s\<lparr>img_n := img_n s + 1\<rparr>) else sret ()) (\<lambda>_.
          smodify (\<lambda>z. z\<lparr>out := img\<rparr>))))))"

definition png_IEND :: "stbi__config \<Rightarrow> stbi__scan \<Rightarrow> int \<Rightarrow> ('u stbi__png, bool) step" where
  "png_IEND cfg scan req_comp =
     sbind (sget id) (\<lambda>z.
     sbind (sguard (\<not> png_first z) (Failure ''first not IHDR'')) (\<lambda>_.
     if scan \<noteq> STBI__SCAN_load then sret True
     else case idata z of
       None \<Rightarrow> sfail (Failure ''no IDAT'')
     | Some data \<Rightarrow>
         let s = png_s z;
             bpl = (img_x s * u32cast (depth z) + 7) div 8;
             raw_len = bpl * img_y s * u32cast (img_n s) + img_y s
         in
         sbind (slift (stbi_zlib_decode_malloc_guesssize_headerflag data (sint raw_len) (\<not> is_iphone z)))
           (\<lambda>raw.
         let out_n = (if (req_comp = img_n s + 1 \<and> req_comp \<noteq> 3 \<and> pal_img_n z = 0) \<or> has_trans z
                      then img_n s + 1 else img_n s) in
         sbind (smodify (\<lambda>z. z\<lparr>expanded := raw, idata := None\<rparr>)) (\<lambda>_.
         sbind (upd_ctx (\<lambda>s. s\<lparr>img_out_n := out_n\<rparr>)) (\<lambda>_.
         sbind (png_finish cfg req_comp) (\<lambda>_.
         sbind (on_ctx stbi__get32be) (\<lambda>_.
         sret True)))))))"

text \<open>An unknown chunk: critical ones fail with a message that quotes the type.\<close>

definition invalid_chunk :: "uint32 \<Rightarrow> string" where
  "invalid_chunk ty =
     map (\<lambda>sh. char_of (unat (drop_bit sh ty) mod 256)) [24, 16, 8, 0] @ '' PNG chunk not known''"

definition png_other :: "stbi__pngchunk \<Rightarrow> ('u stbi__png, bool) step" where
  "png_other c =
     sbind (sget png_first) (\<lambda>fst.
     sbind (sguard (\<not> fst) (Failure ''first not IHDR'')) (\<lambda>_.
     sbind (sguard (chunk_type c AND push_bit 29 1 \<noteq> 0) (Failure (invalid_chunk (chunk_type c)))) (\<lambda>_.
     sbind (upd_ctx (\<lambda>s. stbi__skip s (sint (chunk_length c)))) (\<lambda>_.
     sret False))))"

definition png_chunk ::
    "stbi__config \<Rightarrow> stbi__scan \<Rightarrow> int \<Rightarrow> stbi__pngchunk \<Rightarrow> ('u stbi__png, bool) step" where
  "png_chunk cfg scan req_comp c =
     (if chunk_type c = STBI__PNG_TYPE CHR ''C'' CHR ''g'' CHR ''B'' CHR ''I'' then png_CgBI c
      else if chunk_type c = STBI__PNG_TYPE CHR ''I'' CHR ''H'' CHR ''D'' CHR ''R'' then png_IHDR c
      else if chunk_type c = STBI__PNG_TYPE CHR ''P'' CHR ''L'' CHR ''T'' CHR ''E'' then png_PLTE c
      else if chunk_type c = STBI__PNG_TYPE CHR ''t'' CHR ''R'' CHR ''N'' CHR ''S'' then png_tRNS scan c
      else if chunk_type c = STBI__PNG_TYPE CHR ''I'' CHR ''D'' CHR ''A'' CHR ''T'' then png_IDAT scan c
      else if chunk_type c = STBI__PNG_TYPE CHR ''I'' CHR ''E'' CHR ''N'' CHR ''D''
      then png_IEND cfg scan req_comp
      else png_other c)"

fun png_chunks :: "nat \<Rightarrow> stbi__config \<Rightarrow> stbi__scan \<Rightarrow> int \<Rightarrow> ('u stbi__png, unit) step" where
  "png_chunks 0 cfg scan req_comp = sfail NoReturn"
| "png_chunks (Suc fuel) cfg scan req_comp =
     sbind (on_ctx stbi__get_chunk_header) (\<lambda>c.
     sbind (png_chunk cfg scan req_comp c) (\<lambda>fin.
     if fin then sret ()
     else sbind (on_ctx stbi__get32be) (\<lambda>_. png_chunks fuel cfg scan req_comp)))"

definition stbi__parse_png_file ::
    "nat \<Rightarrow> stbi__config \<Rightarrow> stbi__scan \<Rightarrow> int \<Rightarrow> ('u stbi__png, unit) step" where
  "stbi__parse_png_file fuel cfg scan req_comp =
     sbind (son png_s (\<lambda>s z. z\<lparr>png_s := s\<rparr>) stbi__check_png_header) (\<lambda>_.
     if scan = STBI__SCAN_type then sret ()
     else png_chunks fuel cfg scan req_comp)"

section \<open>Loading\<close>

text \<open>What a loader returns: the pixels (8-bit, or 16-bit samples), the size, the number of
  components in the file and \<open>ri.bits_per_channel\<close>.\<close>

datatype pixel_data = Pixels8 "stbi_uc list" | Pixels16 "stbi_us list"

record loaded =
  ld_data :: pixel_data
  ld_x :: nat
  ld_y :: nat
  ld_comp :: int

text \<open>The image \<open>r\<close> has the size it says, with \<open>req\<close> components, or those of the file; an \<open>int\<close> counts the
  samples of a 16-bit image.\<close>

definition loaded_ok :: "int \<Rightarrow> loaded \<Rightarrow> bool" where
  "loaded_ok req r \<longleftrightarrow>
     (case ld_data r of Pixels8 d \<Rightarrow> length d | Pixels16 d \<Rightarrow> length d) =
       ld_x r * ld_y r * nat (if req = 0 then ld_comp r else req) \<and>
     0 < ld_x r \<and> 0 < ld_y r \<and> (req = 0 \<longrightarrow> ld_comp r \<in> {1, 2, 3, 4}) \<and>
     (case ld_data r of Pixels8 d \<Rightarrow> True | Pixels16 d \<Rightarrow> length d < 2 ^ 31)"

definition samples_of :: "stbi_uc list \<Rightarrow> stbi_us list" where
  "samples_of bs = map (load16 bs) [0..<length bs div 2]"

definition stbi__do_png ::
    "nat \<Rightarrow> stbi__config \<Rightarrow> int \<Rightarrow> ('u stbi__png, loaded) step" where
  "stbi__do_png fuel cfg req_comp =
     (if req_comp < 0 \<or> req_comp > 4 then sfail (Failure ''bad req_comp'')
      else
        sbind (stbi__parse_png_file fuel cfg STBI__SCAN_load req_comp) (\<lambda>_.
        sbind (sget id) (\<lambda>p.
        let s = png_s p in
        sbind (if depth p \<le> 8 then sret (Pixels8 (out p))
               else if depth p = 16 then sret (Pixels16 (samples_of (out p)))
               else sfail (Failure ''bad bits_per_channel'')) (\<lambda>result.
        sbind (if req_comp \<noteq> 0 \<and> req_comp \<noteq> img_out_n s
               then sbind (slift (case result of
                        Pixels8 d \<Rightarrow> ebind (stbi__convert_format d (img_out_n s) req_comp (img_x s) (img_y s))
                                      (\<lambda>d. Inr (Pixels8 d))
                      | Pixels16 d \<Rightarrow> ebind (stbi__convert_format16 d (img_out_n s) req_comp (img_x s) (img_y s))
                                      (\<lambda>d. Inr (Pixels16 d)))) (\<lambda>result.
                    sbind (upd_ctx (\<lambda>s. s\<lparr>img_out_n := req_comp\<rparr>)) (\<lambda>_.
                    sret result))
               else sret result) (\<lambda>result.
        sret \<lparr>ld_data = result, ld_x = unat (img_x s), ld_y = unat (img_y s), ld_comp = img_n s\<rparr>)))))"

text \<open>The entry points run on a context: \<open>png_run\<close> makes the decoder state around it.\<close>

definition png_run :: "('u stbi__png, 'a) step \<Rightarrow> ('u stbi__context, 'a) step" where
  "png_run m s = (case m (png_start s) of (r, z) \<Rightarrow> (r, png_s z))"

definition stbi__png_load :: "nat \<Rightarrow> stbi__config \<Rightarrow> int \<Rightarrow> ('u stbi__context, loaded) step" where
  "stbi__png_load fuel cfg req_comp = png_run (stbi__do_png fuel cfg req_comp)"

definition stbi__png_test :: "'u stbi__context \<Rightarrow> bool \<times> 'u stbi__context" where
  "stbi__png_test s =
     (case stbi__check_png_header s of
        (Inl _, s) \<Rightarrow> (False, stbi__rewind s) | (Inr _, s) \<Rightarrow> (True, stbi__rewind s))"

definition stbi__png_info_raw ::
    "nat \<Rightarrow> stbi__config \<Rightarrow> ('u stbi__png, uint32 \<times> uint32 \<times> int) step" where
  "stbi__png_info_raw fuel cfg z =
     (case stbi__parse_png_file fuel cfg STBI__SCAN_header 0 z of
        (Inl e, z) \<Rightarrow> (Inl e, z\<lparr>png_s := stbi__rewind (png_s z)\<rparr>)
      | (Inr _, z) \<Rightarrow> (Inr (img_x (png_s z), img_y (png_s z), img_n (png_s z)), z))"

definition stbi__png_info ::
    "nat \<Rightarrow> stbi__config \<Rightarrow> ('u stbi__context, uint32 \<times> uint32 \<times> int) step" where
  "stbi__png_info fuel cfg = png_run (stbi__png_info_raw fuel cfg)"

definition stbi__png_is16 :: "nat \<Rightarrow> stbi__config \<Rightarrow> ('u stbi__context, bool) step" where
  "stbi__png_is16 fuel cfg s =
     (case stbi__png_info_raw fuel cfg (png_start s) of
        (Inl e, z) \<Rightarrow> (if regular e then Inr False else Inl e, png_s z)
      | (Inr _, z) \<Rightarrow> (if depth z \<noteq> 16 then (Inr False, stbi__rewind (png_s z)) else (Inr True, png_s z)))"

end
