(* ===== verification/Stbi_Png_Rows.thy ===== *)
theory Stbi_Png_Rows
  imports Stbi_Png_Image Stbi_Convert
begin

text \<open>
  Correctness of the scanline decoder of \<open>Stbi_Png_Image\<close>: the Paeth predictor is the one of the PNG
  specification, undoing a filter gives back the row that was filtered, the expansion of a
  row (in place, from the right, where an alpha channel is inserted) yields the samples the row
  stands for, and decoding an image never leaves its buffers.
\<close>

section \<open>The filters of the PNG specification\<close>

definition paeth_predictor :: "int \<Rightarrow> int \<Rightarrow> int \<Rightarrow> int" where
  "paeth_predictor a b c =
     (let p = a + b - c; pa = \<bar>p - a\<bar>; pb = \<bar>p - b\<bar>; pc = \<bar>p - c\<bar>
      in if pa \<le> pb \<and> pa \<le> pc then a else if pb \<le> pc then b else c)"

lemma paeth_eq: "stbi__paeth a b c = paeth_predictor a b c"
  by (auto simp: stbi__paeth_def paeth_predictor_def Let_def abs_if)

lemma paeth_0: "0 \<le> b \<Longrightarrow> stbi__paeth 0 b 0 = b" "0 \<le> a \<Longrightarrow> stbi__paeth a 0 0 = a"
  by (auto simp: stbi__paeth_def Let_def)

text \<open>The filters of the PNG specification: the prediction for byte \<open>k\<close> of a row from the byte to its
  left, the byte above and the byte above left, all 0 outside the image, and the filtered row.\<close>

definition byte_at :: "stbi_uc list \<Rightarrow> int \<Rightarrow> int" where
  "byte_at row k = (if 0 \<le> k \<and> k < int (length row) then uint (row ! nat k) else 0)"

definition predictor :: "nat \<Rightarrow> nat \<Rightarrow> stbi_uc list \<Rightarrow> stbi_uc list \<Rightarrow> nat \<Rightarrow> int" where
  "predictor f bpp row prior k =
     (let a = byte_at row (int k - int bpp); b = byte_at prior (int k);
          c = byte_at prior (int k - int bpp)
      in if f = 0 then 0 else if f = 1 then a else if f = 2 then b
         else if f = 3 then (a + b) div 2 else paeth_predictor a b c)"

definition filter_row :: "nat \<Rightarrow> nat \<Rightarrow> stbi_uc list \<Rightarrow> stbi_uc list \<Rightarrow> stbi_uc list" where
  "filter_row f bpp row prior =
     map (\<lambda>k. row ! k - STBI__BYTECAST (predictor f bpp row prior k)) [0..<length row]"

lemma byte_at_in: "k < length row \<Longrightarrow> byte_at row (int k) = uint (row ! k)"
  by (simp add: byte_at_def)

lemma byte_at_left: "k < fb \<Longrightarrow> byte_at row (int k - int fb) = 0"
  by (simp add: byte_at_def)

lemma byte_at_right:
  "fb \<le> k \<Longrightarrow> k < length row + fb \<Longrightarrow> byte_at row (int k - int fb) = uint (row ! nat (int k - int fb))"
  by (simp add: byte_at_def)

lemma filter_cases:
  assumes "f < (5 :: nat)"
  obtains "f = 0" | "f = 1" | "f = 2" | "f = 3" | "f = 4"
  using assms by linarith

lemma filter_term_row:
  assumes "f < 5" "k < length row" "length prior = length row" "0 < fb"
  shows "filter_term (png_filters ! f) fb prior k (take k row) = Inr (predictor f fb row prior k)"
  using assms(1)
  by (cases rule: filter_cases; cases "k < fb")
    (use assms in \<open>simp_all add: filter_term_def png_filters_def predictor_def byte_at_in byte_at_left
      byte_at_right drop_bit_eq_div add.commute paeth_eq [symmetric] paeth_0\<close>)

lemma filter_term_first_row:
  assumes "f < 5" "k < length row" "0 < fb"
  shows "filter_term (first_row_filter ! f) fb prior k (take k row) =
    Inr (predictor f fb row (replicate (length row) 0) k)"
  using assms(1)
  by (cases rule: filter_cases; cases "k < fb")
    (use assms in \<open>simp_all add: filter_term_def first_row_filter_def predictor_def byte_at_in byte_at_left
      byte_at_right drop_bit_eq_div add.commute paeth_eq [symmetric] paeth_0\<close>)

lemma unfilter_row_eq:
  assumes "\<And>k. k < length row \<Longrightarrow> filter_term flt fb prior k (take k row) = Inr (predictor f fb row prior' k)"
    and "fb \<le> length row"
  shows "unfilter_row flt fb (length row) (filter_row f fb row prior' @ raw) prior = Inr row"
proof -
  have "efold (\<lambda>k cur.
             ebind (arr_get (filter_row f fb row prior' @ raw) (int k)) (\<lambda>r.
             ebind (filter_term flt fb prior k cur) (\<lambda>t.
             Inr (cur @ [STBI__BYTECAST (uint r + t)]))))
           [0..<length row] (take 0 row) = Inr (take (length row) row)"
    by (rule efold_Inr_upt)
      (simp_all add: assms filter_row_def nth_append take_Suc_conv_app_nth BYTECAST_add)
  with assms(2) show ?thesis by (simp add: unfilter_row_def)
qed

lemma unfilter_filter_row:
  assumes "f < 5" "0 < fb" "fb \<le> length row" "length prior = length row"
  shows "unfilter_row (png_filters ! f) fb (length row) (filter_row f fb row prior @ raw) prior = Inr row"
  using assms by (intro unfilter_row_eq filter_term_row) simp_all

lemma unfilter_filter_first_row:
  assumes "f < 5" "0 < fb" "fb \<le> length row"
  shows "unfilter_row (first_row_filter ! f) fb (length row)
      (filter_row f fb row (replicate (length row) 0) @ raw) prior = Inr row"
  using assms by (intro unfilter_row_eq filter_term_first_row) simp_all

lemma ensures_filter_term:
  assumes "length cur = k" "k < length prior \<or> flt \<in> set first_row_filter" "0 < fb"
  shows "ensures (filter_term flt fb prior k cur) (\<lambda>t. True)"
  using assms
  by (cases flt; cases "k < fb") (auto simp: filter_term_def first_row_filter_def)

lemma ensures_unfilter_row:
  assumes "nk \<le> length raw" "nk \<le> length prior \<or> flt \<in> set first_row_filter" "0 < fb" "fb \<le> nk"
  shows "ensures (unfilter_row flt fb nk raw prior) (\<lambda>cur. length cur = nk)"
proof -
  have "ensures (ebind (arr_get raw (int k)) (\<lambda>r.
             ebind (filter_term flt fb prior k cur) (\<lambda>t.
             Inr (cur @ [STBI__BYTECAST (uint r + t)])))) (\<lambda>cur. length cur = Suc k)"
    if "k < nk" "length cur = k" for k cur
    using that assms
    by (intro ensures_bind [OF ensures_arr_get [where Q = "\<lambda>_. True"]]
        ensures_bind [OF ensures_filter_term]) auto
  then have "ensures (efold (\<lambda>k cur.
             ebind (arr_get raw (int k)) (\<lambda>r.
             ebind (filter_term flt fb prior k cur) (\<lambda>t.
             Inr (cur @ [STBI__BYTECAST (uint r + t)]))))
           [0..<nk] []) (\<lambda>cur. length cur = nk)"
    by (intro ensures_efold_upt [where P = "\<lambda>k cur. length cur = k"]) simp_all
  with assms(4) show ?thesis by (simp add: unfilter_row_def)
qed

section \<open>From packed samples to pixels\<close>

text \<open>The \<open>i\<close>-th group of \<open>d\<close> bits of a row, counted from the top bit of the first byte.\<close>

definition packed_sample :: "nat \<Rightarrow> stbi_uc list \<Rightarrow> nat \<Rightarrow> stbi_uc" where
  "packed_sample d cur i =
     drop_bit (8 - d) (push_bit (i mod (8 div d) * d) (cur ! (i div (8 div d))))"

text \<open>The state of the loop before round \<open>i\<close>, \<open>k\<close> samples to a byte.\<close>

definition bits_state ::
    "nat \<Rightarrow> nat \<Rightarrow> stbi_uc \<Rightarrow> stbi_uc list \<Rightarrow> nat \<Rightarrow> stbi_uc list \<times> stbi_uc \<times> stbi_uc list" where
  "bits_state d k scale cur i =
     (drop ((i + k - 1) div k) cur,
      if i = 0 then 0 else push_bit (((i - 1) mod k + 1) * d) (cur ! ((i - 1) div k)),
      map (\<lambda>i. scale * packed_sample d cur i) [0..<i])"

lemma expand_bits_step_eq:
  assumes k: "k = 8 div d" and "0 < k" and "i div k < length cur"
  shows "expand_bits_step d scale i (bits_state d k scale cur i) = Inr (bits_state d k scale cur (Suc i))"
proof -
  have next_in: "(Suc i + k - 1) div k = i div k + 1" using \<open>0 < k\<close> by (simp add: div_add_self2)
  show ?thesis
  proof (cases "i mod k = 0")
    case True
    then obtain q where q: "i = k * q" by blast
    have "(i + k - 1) div k = (k - 1 + k * q) div k"
      using q \<open>0 < k\<close> by (intro arg_cong [where f = "\<lambda>n. n div k"]) simp
    also have "\<dots> = i div k"
      unfolding q using \<open>0 < k\<close> by (subst div_mult_self2) simp_all
    finally have "(i + k - 1) div k = i div k" .
    then have "drop ((i + k - 1) div k) cur = cur ! (i div k) # drop (i div k + 1) cur"
      using assms(3) by (simp add: Cons_nth_drop_Suc)
    with True next_in show ?thesis
      by (simp add: expand_bits_step_def bits_state_def k packed_sample_def)
  next
    case False
    then obtain i' where i': "i = Suc i'" by (cases i) auto
    have m: "i mod k = i' mod k + 1" "i div k = i' div k"
      using False by (auto simp: i' mod_Suc div_Suc split: if_splits)
    have "(i + k - 1) div k = i div k + 1"
      using \<open>0 < k\<close> m(2) by (simp add: i' div_add_self2)
    with False next_in m show ?thesis
      by (simp add: expand_bits_step_def bits_state_def k [symmetric] packed_sample_def i' add_mult_distrib)
  qed
qed

lemma expand_bits_eq:
  assumes "d \<in> {1, 2, 4}" and "(n * d + 7) div 8 \<le> length cur"
  shows "expand_bits d scale n cur = Inr (map (\<lambda>i. scale * packed_sample d cur i) [0..<n])"
proof -
  define k where "k = 8 div d"
  have k: "0 < k" "k * d = 8" using assms(1) by (auto simp: k_def)
  have lt: "i div k < length cur" if "i < n" for i
  proof -
    have "i div k * 8 + d \<le> n * d"
    proof -
      have "i div k * k * d + d \<le> i * d + d" by simp
      also have "\<dots> \<le> n * d" using that by (metis Suc_leI add.commute mult_Suc mult_le_mono1)
      finally show ?thesis using k(2) by (simp add: mult.assoc)
    qed
    moreover have "0 < d" using assms(1) by auto
    ultimately have "i div k * 8 < n * d" by linarith
    then have "i div k < (n * d + 7) div 8" by linarith
    with assms(2) show ?thesis by simp
  qed
  have "efold (expand_bits_step d scale) [0..<n] (bits_state d k scale cur 0) =
      Inr (bits_state d k scale cur n)"
    by (rule efold_Inr_upt) (simp_all add: expand_bits_step_eq k_def [symmetric] k lt)
  moreover have "bits_state d k scale cur 0 = (cur, 0, [])" using k(1) by (simp add: bits_state_def)
  ultimately show ?thesis
    using assms(1) by (auto simp: expand_bits_def bits_state_def)
qed


text \<open>Alpha expansion: every pixel of \<open>n\<close> bytes is followed by 255. The loop works from the right:
  the bytes from \<open>t\<close> on are final and the others untouched.\<close>

definition alpha_byte :: "nat \<Rightarrow> stbi_uc list \<Rightarrow> nat \<Rightarrow> stbi_uc" where
  "alpha_byte n src k = (if k mod (n + 1) = n then 255 else src ! (k div (n + 1) * n + k mod (n + 1)))"

definition alpha_from :: "nat \<Rightarrow> stbi_uc list \<Rightarrow> stbi_uc list \<Rightarrow> nat \<Rightarrow> stbi_uc list" where
  "alpha_from n src dest t =
     map (\<lambda>k. if k < t then dest ! k else alpha_byte n src k) [0..<length dest]"

lemma alpha_byte_at:
  assumes "j \<le> n"
  shows "alpha_byte n src (i * (n + 1) + j) = (if j = n then 255 else src ! (i * n + j))"
proof -
  have "(i * (n + 1) + j) mod (n + 1) = j" "(i * (n + 1) + j) div (n + 1) = i"
    using assms by (simp_all only: mod_mult_self3 div_mult_self3, simp_all)
  then show ?thesis by (simp only: alpha_byte_def)
qed

lemma alpha_byte_1: "alpha_byte 1 src (i * 2 + 1) = 255" "alpha_byte 1 src (i * 2) = src ! i"
  using alpha_byte_at [of 1 1 src i] alpha_byte_at [of 0 1 src i] by (simp_all add: mult_2_right)

lemma alpha_byte_3:
  "alpha_byte 3 src (i * 4 + 3) = 255" "j < 3 \<Longrightarrow> alpha_byte 3 src (i * 4 + j) = src ! (i * 3 + j)"
  using alpha_byte_at [of 3 3 src i] alpha_byte_at [of j 3 src i] by simp_all

lemma alpha_from_set:
  assumes "t < length dest" "v = alpha_byte n src t"
  shows "arr_set (alpha_from n src dest (Suc t)) (int t) v = Inr (alpha_from n src dest t)"
proof -
  have "(alpha_from n src dest (Suc t))[t := v] = alpha_from n src dest t"
    by (rule nth_equalityI) (auto simp: alpha_from_def nth_list_update assms(2))
  with assms(1) show ?thesis by (simp add: alpha_from_def)
qed

lemma alpha_from_copy:
  assumes "t < length dest" "si \<le> t" "si < length (alpha_src src dest)"
    and "alpha_byte n (alpha_src src dest) t = alpha_src src dest ! si"
  shows "copy_to src t si (alpha_from n (alpha_src src dest) dest (Suc t)) =
    Inr (alpha_from n (alpha_src src dest) dest t)"
proof -
  have "arr_get (alpha_src src (alpha_from n (alpha_src src dest) dest (Suc t))) (int si) =
      Inr (alpha_src src dest ! si)"
    using assms(1-3) by (cases src) (simp_all add: alpha_src_def alpha_from_def)
  with assms show ?thesis by (simp add: copy_to_def alpha_from_set)
qed

lemma alpha_from_top: "t = length dest \<Longrightarrow> alpha_from n src dest t = dest"
  by (rule nth_equalityI) (auto simp: alpha_from_def)

lemma alpha_expand8_eq:
  assumes "n \<in> {1, 3}" "length dest = x * (n + 1)" "x * n \<le> length (alpha_src src dest)"
  shows "stbi__create_png_alpha_expand8 dest src x n =
    Inr (map (alpha_byte n (alpha_src src dest)) [0..<x * (n + 1)])"
proof -
  let ?s = "alpha_src src dest"
  have st: "alpha_from n ?s dest (x * (n + 1)) = dest"
    using assms(2) by (intro alpha_from_top) simp
  have fin: "alpha_from n ?s dest (0 * (n + 1)) = map (alpha_byte n ?s) [0..<x * (n + 1)]"
    using assms(2) by (simp add: alpha_from_def)
  consider "n = 1" | "n = 3" using assms(1) by auto
  then show ?thesis
  proof cases
    case 1
    have "alpha_pixel1 src i (alpha_from n ?s dest (Suc i * (n + 1))) = Inr (alpha_from n ?s dest (i * (n + 1)))"
      if "i < x" for i
    proof -
      have "Suc i * (n + 1) = Suc (i * 2 + 1)" "i * (n + 1) = i * 2" using 1 by simp_all
      moreover have "arr_set (alpha_from n ?s dest (Suc (i * 2 + 1))) (int (i * 2 + 1)) 255 =
          Inr (alpha_from n ?s dest (Suc (i * 2)))"
        using assms(2) that by (subst alpha_from_set) (simp_all add: 1 alpha_byte_1 [simplified])
      moreover have "copy_to src (i * 2) i (alpha_from n ?s dest (Suc (i * 2))) = Inr (alpha_from n ?s dest (i * 2))"
        using assms(2,3) that 1 by (intro alpha_from_copy) (simp_all add: alpha_byte_1 [simplified])
      ultimately show ?thesis by (simp only: alpha_pixel1_def ebind_simps add_0_right)
    qed
    then have "efold (alpha_pixel1 src) (rev [0..<x]) (alpha_from n ?s dest (x * (n + 1))) =
        Inr (alpha_from n ?s dest (0 * (n + 1)))"
      by (rule efold_Inr_down)
    then show ?thesis unfolding st fin by (simp add: stbi__create_png_alpha_expand8_def 1)
  next
    case 2
    have "alpha_pixel3 src i (alpha_from n ?s dest (Suc i * (n + 1))) = Inr (alpha_from n ?s dest (i * (n + 1)))"
      if "i < x" for i
    proof -
      have len: "i * 4 + 3 < length dest" "i * 3 + 2 < length ?s" using assms(2,3) that 2 by simp_all
      have eq: "Suc i * (n + 1) = Suc (i * 4 + 3)" "i * (n + 1) = i * 4" "i * 4 + 3 = Suc (i * 4 + 2)"
          "i * 4 + 2 = Suc (i * 4 + 1)" "i * 4 + 1 = Suc (i * 4)"
        using 2 by simp_all
      have a: "arr_set (alpha_from n ?s dest (Suc (i * 4 + 3))) (int (i * 4 + 3)) 255 =
          Inr (alpha_from n ?s dest (i * 4 + 3))"
        using len alpha_byte_3(1) [of ?s i] by (intro alpha_from_set) (simp_all add: 2)
      have c: "copy_to src (i * 4 + j) (i * 3 + j) (alpha_from n ?s dest (Suc (i * 4 + j))) =
          Inr (alpha_from n ?s dest (i * 4 + j))" if "j < 3" for j
        using len 2 that by (intro alpha_from_copy) (simp_all add: alpha_byte_3)
      show ?thesis
        unfolding alpha_pixel3_def eq(1,2) a ebind_simps
        unfolding eq(3) c [of 2, simplified]  ebind_simps
        using c [of 2] c [of 1] c [of 0] by (simp add: eq(4,5))
    qed
    then have "efold (alpha_pixel3 src) (rev [0..<x]) (alpha_from n ?s dest (x * (n + 1))) =
        Inr (alpha_from n ?s dest (0 * (n + 1)))"
      by (rule efold_Inr_down)
    then show ?thesis unfolding st fin by (simp add: stbi__create_png_alpha_expand8_def 2)
  qed
qed

lemma store16_be16: "store16 (be16 hi lo) = [lo, hi]"
proof -
  have high: "\<not> bit lo (8 + n)" for n
    using bit_imp_le_length [of lo "8 + n"] by auto
  then have "(ucast (be16 hi lo) :: stbi_uc) = lo" "(ucast (drop_bit 8 (be16 hi lo)) :: stbi_uc) = hi"
    unfolding be16_def u16cast_def
    by (auto intro!: bit_word_eqI simp: bit_simps)
  then show ?thesis by (simp add: store16_def)
qed

text \<open>The combinations of the number of components, in the file and in the output, that the decoder
  uses, and the bit depths it accepts.\<close>

definition png_format :: "nat \<Rightarrow> nat \<Rightarrow> nat \<Rightarrow> bool" where
  "png_format img_n out_n depth \<longleftrightarrow>
     img_n \<in> {1, 2, 3, 4} \<and> (out_n = img_n \<or> out_n = img_n + 1 \<and> img_n \<in> {1, 3}) \<and>
     depth \<in> {1, 2, 4, 8, 16}"

definition png_width_bytes :: "nat \<Rightarrow> nat \<Rightarrow> nat \<Rightarrow> nat" where
  "png_width_bytes img_n x depth = (img_n * x * depth + 7) div 8"

definition png_bytes :: "nat \<Rightarrow> nat" where
  "png_bytes depth = (if depth = 16 then 2 else 1)"

fun swap16 :: "stbi_uc list \<Rightarrow> stbi_uc list" where
  "swap16 (a # b # r) = b # a # swap16 r"
| "swap16 _ = []"

text \<open>What a scanline means: samples of less than 8 bits are the packed groups of bits (grey ones scaled
  to the full range), 16-bit samples are stored in the order of the platform, and where the output
  has one more component each pixel gets an opaque alpha.\<close>

definition png_row :: "nat \<Rightarrow> nat \<Rightarrow> nat \<Rightarrow> nat \<Rightarrow> int \<Rightarrow> stbi_uc list \<Rightarrow> stbi_uc list" where
  "png_row img_n out_n x depth color row =
     (let samples =
        (if depth < 8
         then map (\<lambda>i. (if color = 0 then stbi__depth_scale_table ! depth else 1) * packed_sample depth row i)
                [0..<x * img_n]
         else if depth = 8 then row else swap16 row);
        b = png_bytes depth
      in if out_n = img_n then samples
         else concat (map (\<lambda>px. px @ replicate b 255) (pixels (img_n * b) x samples)))"

lemma alpha_byte_shift: "n \<le> length s \<Longrightarrow> alpha_byte n s (k + (n + 1)) = alpha_byte n (drop n s) k"
proof -
  have "(k + (n + 1)) mod (n + 1) = k mod (n + 1)" "(k + (n + 1)) div (n + 1) = k div (n + 1) + 1"
    by (rule mod_add_self2, rule div_add_self2) simp
  moreover assume "n \<le> length s"
  ultimately show ?thesis by (simp only: alpha_byte_def) (simp add: ac_simps)
qed

lemma alpha_bytes_pixels:
  "x * n \<le> length s \<Longrightarrow> map (alpha_byte n s) [0..<x * (n + 1)] = concat (map (\<lambda>px. px @ [255]) (pixels n x s))"
proof (induction x arbitrary: s)
  case (Suc x)
  have "[0..<Suc x * (n + 1)] = [0..<n + 1] @ map (\<lambda>k. k + (n + 1)) [0..<x * (n + 1)]"
    using upt_add_eq_append [of 0 "n + 1" "x * (n + 1)"]
    by (simp only: map_add_upt mult_Suc add_0_left add.commute [of "n + 1"])
  moreover have "map (alpha_byte n s) [0..<n + 1] = take n s @ [255]"
    using Suc.prems by (intro nth_equalityI) (auto simp: alpha_byte_def nth_append less_Suc_eq)
  moreover have "map (alpha_byte n s) (map (\<lambda>k. k + (n + 1)) [0..<x * (n + 1)]) =
      concat (map (\<lambda>px. px @ [255]) (pixels n x (drop n s)))"
    unfolding map_map comp_def
    by (subst alpha_byte_shift, use Suc.prems in simp, rule Suc.IH, use Suc.prems in simp)
  ultimately show ?case by (simp only: map_append) simp
qed simp

lemma alpha_expand8_pixels:
  assumes "n \<in> {1, 3}" "length dest = x * (n + 1)" "x * n \<le> length (alpha_src src dest)"
  shows "stbi__create_png_alpha_expand8 dest src x n =
    Inr (concat (map (\<lambda>px. px @ [255]) (pixels n x (alpha_src src dest))))"
  using assms by (simp only: alpha_expand8_eq alpha_bytes_pixels)

lemma samples16_swap: "2 * n \<le> length cur \<Longrightarrow> samples16 n cur = Inr (swap16 (take (2 * n) cur))"
proof (induction n arbitrary: cur)
  case (Suc n)
  then obtain a b cur' where cur: "cur = a # b # cur'"
    by (cases cur; cases "tl cur") auto
  with Suc show ?case by (simp add: store16_be16)
qed simp

lemma swap16_append: "even (length xs) \<Longrightarrow> swap16 (xs @ ys) = swap16 xs @ swap16 ys"
  by (induction xs rule: swap16.induct) auto

lemma length_swap16: "length (swap16 xs) = 2 * (length xs div 2)"
  by (induction xs rule: swap16.induct) auto

lemma swap16_pixels: "length xs = x * (2 * n) \<Longrightarrow> pixels (n * 2) x (swap16 xs) = map swap16 (pixels (2 * n) x xs)"
proof (induction x arbitrary: xs)
  case (Suc x)
  have "swap16 xs = swap16 (take (2 * n) xs) @ swap16 (drop (2 * n) xs)"
    using Suc.prems by (simp flip: swap16_append)
  moreover have "length (swap16 (take (2 * n) xs)) = n * 2"
    using Suc.prems by (simp add: length_swap16)
  ultimately show ?case using Suc by simp
qed simp

lemma pixels16_swap:
  "length cur = x * (2 * n) \<Longrightarrow>
   pixels16 x n cur = Inr (concat (map (\<lambda>px. px @ [255, 255]) (map swap16 (pixels (2 * n) x cur))))"
proof (induction x arbitrary: cur)
  case (Suc x)
  then show ?case by (simp add: samples16_swap store16_def)
qed simp

lemma expand_row_spec:
  assumes "png_format img_n out_n depth" and "length cur = png_width_bytes img_n x depth"
  shows "expand_row img_n out_n x depth color cur = Inr (png_row img_n out_n x depth color cur)"
proof -
  have alpha: "out_n = img_n + 1" "img_n \<in> {1, 3}" if "out_n \<noteq> img_n"
    using assms(1) that by (auto simp: png_format_def)
  consider "depth \<in> {1, 2, 4}" | "depth = 8" | "depth = 16"
    using assms(1) by (auto simp: png_format_def)
  then show ?thesis
  proof cases
    case 1
    define scale where "scale = (if color = 0 then stbi__depth_scale_table ! depth else 1)"
    define smp where "smp = map (\<lambda>i. scale * packed_sample depth cur i) [0..<x * img_n]"
    have b: "expand_bits depth scale (x * img_n) cur = Inr smp"
      unfolding smp_def using assms(2) by (intro expand_bits_eq [OF 1]) (simp add: png_width_bytes_def mult.commute)
    have "stbi__create_png_alpha_expand8 (smp @ replicate (x * out_n - x * img_n) 0) None x img_n =
        Inr (concat (map (\<lambda>px. px @ [255]) (pixels img_n x smp)))" if "out_n \<noteq> img_n"
    proof -
      let ?d = "smp @ replicate (x * out_n - x * img_n) 0"
      have "pixels img_n x ?d = pixels img_n x smp"
        by (rule pixels_prefix) (simp add: smp_def)
      with alpha [OF that] show ?thesis
        by (subst alpha_expand8_pixels) (auto simp: alpha_src_def smp_def)
    qed
    with 1 b show ?thesis
      by (auto simp: expand_row_def png_row_def png_bytes_def smp_def scale_def Let_def)
  next
    case 2
    have w: "length cur = x * img_n" using assms(2) 2 by (simp add: png_width_bytes_def mult.commute)
    have "stbi__create_png_alpha_expand8 (replicate (x * out_n) 0) (Some cur) x img_n =
        Inr (concat (map (\<lambda>px. px @ [255]) (pixels img_n x cur)))" if "out_n \<noteq> img_n"
      using w alpha [OF that] by (subst alpha_expand8_pixels) (auto simp: alpha_src_def)
    with 2 w show ?thesis by (auto simp: expand_row_def png_row_def png_bytes_def Let_def)
  next
    case 3
    have w: "length cur = x * (2 * img_n)"
      using assms(2) 3 by (simp add: png_width_bytes_def ac_simps)
    show ?thesis
    proof (cases "out_n = img_n")
      case True
      with 3 w samples16_swap [of "x * img_n" cur] show ?thesis
        by (simp add: expand_row_def png_row_def mult.left_commute)
    next
      case False
      have px: "pixels (img_n * 2) x (swap16 cur) = map swap16 (pixels (2 * img_n) x cur)"
        using w by (rule swap16_pixels)
      have "pixels16 x img_n cur = Inr (concat (map (\<lambda>px. px @ [255, 255]) (pixels (img_n * 2) x (swap16 cur))))"
        unfolding px using w by (rule pixels16_swap)
      with 3 False alpha [OF False] show ?thesis
        by (auto simp: expand_row_def png_row_def png_bytes_def numeral_2_eq_2)
    qed
  qed
qed

lemma length_alpha_pixels:
  "length s = x * m \<Longrightarrow> length (concat (map (\<lambda>px. px @ replicate b 255) (pixels m x s))) = x * (m + b)"
  by (induction x arbitrary: s) simp_all

lemma length_png_row:
  assumes "png_format img_n out_n depth" and "length row = png_width_bytes img_n x depth"
  shows "length (png_row img_n out_n x depth color row) = x * (out_n * png_bytes depth)"
proof -
  define b where "b = png_bytes depth"
  define samples where "samples =
        (if depth < 8
         then map (\<lambda>i. (if color = 0 then stbi__depth_scale_table ! depth else 1) * packed_sample depth row i)
                [0..<x * img_n]
         else if depth = 8 then row else swap16 row)"
  have d: "depth \<in> {1, 2, 4, 8, 16}"
    using assms(1) by (simp add: png_format_def)
  have half: "(k * 8 + 7) div 8 = k" "2 * ((k * 16 + 7) div 8 div 2) = 2 * k" for k :: nat by presburger+
  from d consider "depth < 8" | "depth = 8" | "depth = 16" by auto
  then have len: "length samples = x * (img_n * b)"
  proof cases
    case 3
    then have "length samples = 2 * (img_n * x)"
      using assms(2) half(2) [of "img_n * x"] by (simp add: samples_def length_swap16 png_width_bytes_def)
    with 3 show ?thesis by (simp add: b_def png_bytes_def)
  qed (use assms(2) half(1) [of "img_n * x"] in \<open>simp_all add: samples_def b_def png_bytes_def png_width_bytes_def\<close>)
  have row: "png_row img_n out_n x depth color row =
      (if out_n = img_n then samples else concat (map (\<lambda>px. px @ replicate b 255) (pixels (img_n * b) x samples)))"
    by (simp only: png_row_def Let_def samples_def b_def)
  show ?thesis
  proof (cases "out_n = img_n")
    case True
    with len row show ?thesis by (simp add: b_def)
  next
    case False
    with assms(1) have "out_n = img_n + 1" by (simp add: png_format_def)
    with False len row length_alpha_pixels [of samples x "img_n * b" b] show ?thesis
      by (simp add: b_def add.commute)
  qed
qed

section \<open>Images\<close>

lemma filter_index:
  assumes "\<not> uint (f :: stbi_uc) > 4"
  shows "unat f < 5"
proof -
  have "int (unat f) = uint f" by simp
  with assms show ?thesis by linarith
qed

lemma ensures_row_step:
  assumes "png_format img_n out_n depth" "nk = png_width_bytes img_n x depth" "0 < fb" "fb \<le> nk"
    and "nk + 1 \<le> length raw" "j = 0 \<or> length prior = nk"
  shows "ensures (row_step (expand_row img_n out_n x depth color) fb nk j (raw, prior, out0))
    (\<lambda>(raw', prior', out'). raw' = drop (nk + 1) raw \<and> length prior' = nk \<and>
       length out' = length out0 + x * (out_n * png_bytes depth))"
proof -
  obtain f raw1 where raw: "raw = f # raw1" "nk \<le> length raw1"
    using assms(5) by (cases raw) auto
  define flt where "flt = (if j = 0 then first_row_filter else png_filters) ! unat f"
  show ?thesis
  proof (cases "uint f > 4")
    case False
    then have f: "unat f < 5" by (rule filter_index)
    have "flt \<in> set first_row_filter" if "j = 0"
      using f that by (auto simp: flt_def first_row_filter_def less_Suc_eq numeral_eq_Suc)
    then have "nk \<le> length prior \<or> flt \<in> set first_row_filter" using assms(6) by auto
    then have "ensures (unfilter_row flt fb nk raw1 prior) (\<lambda>cur. length cur = nk)"
      using raw assms(3,4) by (intro ensures_unfilter_row)
    moreover have "ensures (expand_row img_n out_n x depth color cur)
        (\<lambda>row. length row = x * (out_n * png_bytes depth))" if "length cur = nk" for cur
      using assms(1,2) that by (simp add: expand_row_spec length_png_row)
    ultimately show ?thesis
      using False by (simp add: row_step_def raw flt_def [symmetric] Let_def)
        (intro ensures_bind, assumption, auto intro!: ensures_bind)
  qed (simp add: row_step_def raw)
qed


lemma filter_geometry:
  assumes "png_format img_n out_n depth" "0 < x"
  defines "w \<equiv> png_width_bytes img_n x depth"
    and "fb \<equiv> (if depth < 8 then 1 else img_n * png_bytes depth)"
  shows "(if depth < 8 then w else x) * fb = w" and "0 < fb" and "fb \<le> (if depth < 8 then w else x) * fb"
proof -
  have n: "0 < img_n" "depth \<in> {1, 2, 4, 8, 16}" using assms(1) by (auto simp: png_format_def)
  have half: "(k * 16 + 7) div 8 = 2 * k" for k :: nat by presburger
  show "(if depth < 8 then w else x) * fb = w"
    using n(2) by (auto simp: half fb_def w_def png_width_bytes_def png_bytes_def)
  have "0 < img_n * x * depth" using n assms(2) by auto
  then have "0 < w" by (simp add: w_def png_width_bytes_def div_greater_zero_iff)
  then show "0 < fb" and "fb \<le> (if depth < 8 then w else x) * fb"
    using n assms(2) by (auto simp: fb_def png_bytes_def)
qed

lemma ensures_image_raw:
  assumes "png_format img_n out_n depth" "0 < x"
  shows "ensures (stbi__create_png_image_raw img_n raw out_n x y depth color)
    (\<lambda>out. length out = y * (x * (out_n * png_bytes depth)) \<and>
       (png_width_bytes img_n x depth + 1) * y \<le> length raw)"
proof -
  define w where "w = png_width_bytes img_n x depth"
  define fb where "fb = (if depth < 8 then 1 else img_n * png_bytes depth)"
  define nk where "nk = (if depth < 8 then w else x) * fb"
  have fb: "0 < fb" "fb \<le> nk" and nk: "nk = w"
    unfolding fb_def nk_def w_def by (rule filter_geometry [OF assms])+
  have rows: "ensures (efold (row_step (expand_row img_n out_n x depth color) fb nk) [0..<y] (raw, [], []))
      ((\<lambda>j (raw', prior', out'). raw' = drop (j * (w + 1)) raw \<and> (j = 0 \<or> length prior' = w) \<and>
         length out' = j * (x * (out_n * png_bytes depth))) y)"
    if len: "(w + 1) * y \<le> length raw"
  proof (rule ensures_efold_upt)
    fix j and st :: "stbi_uc list \<times> stbi_uc list \<times> stbi_uc list"
    assume j: "j < y"
    obtain raw' prior out0 where st: "st = (raw', prior, out0)" by (cases st) auto
    assume "case st of (raw', prior', out') \<Rightarrow> raw' = drop (j * (w + 1)) raw \<and> (j = 0 \<or> length prior' = w) \<and>
         length out' = j * (x * (out_n * png_bytes depth))"
    then have inv: "raw' = drop (j * (w + 1)) raw" "j = 0 \<or> length prior = w"
        "length out0 = j * (x * (out_n * png_bytes depth))" by (simp_all add: st)
    have "Suc j * (w + 1) \<le> y * (w + 1)" using j by (intro mult_le_mono1) simp
    with len have "w + 1 \<le> length raw'" by (simp add: inv(1) mult.commute)
    then have "ensures (row_step (expand_row img_n out_n x depth color) fb nk j (raw', prior, out0))
      (\<lambda>(raw'', prior', out'). raw'' = drop (nk + 1) raw' \<and> length prior' = nk \<and>
       length out' = length out0 + x * (out_n * png_bytes depth))"
      using assms(1) fb inv by (intro ensures_row_step) (simp_all add: nk w_def)
    then show "ensures (row_step (expand_row img_n out_n x depth color) fb nk j st)
       (\<lambda>(raw', prior', out'). raw' = drop (Suc j * (w + 1)) raw \<and> (Suc j = 0 \<or> length prior' = w) \<and>
         length out' = Suc j * (x * (out_n * png_bytes depth)))"
      unfolding st by (rule ensures_mono) (auto simp: inv nk algebra_simps)
  qed simp_all
  have "ensures (ebind (efold (row_step (expand_row img_n out_n x depth color) fb nk) [0..<y] (raw, [], []))
      (\<lambda>(_, _, out). Inr out)) (\<lambda>out. length out = y * (x * (out_n * png_bytes depth)) \<and>
       (png_width_bytes img_n x depth + 1) * y \<le> length raw)"
    if "(w + 1) * y \<le> length raw"
    by (rule ensures_bind [OF rows [OF that]]) (use that in \<open>auto simp: w_def\<close>)
  moreover have "out_n = img_n \<or> out_n = img_n + 1" using assms(1) by (auto simp: png_format_def)
  moreover have "(img_n * x * depth + 7) div 8 = w" by (simp add: w_def png_width_bytes_def)
  ultimately show ?thesis
    unfolding stbi__create_png_image_raw_def Let_def png_bytes_def [symmetric]
    by (simp only: fb_def [symmetric] nk_def [symmetric])
      (intro ensures_if; use nk in \<open>simp add: not_less\<close>)
qed

text \<open>A PNG encoder's view: the rows of an image, each with a filter type, as the filtered scanlines
  the specification prescribes; the row above the first one is all zeros.\<close>

fun filter_rows :: "nat \<Rightarrow> stbi_uc list \<Rightarrow> (nat \<times> stbi_uc list) list \<Rightarrow> stbi_uc list" where
  "filter_rows bpp prior [] = []"
| "filter_rows bpp prior ((f, row) # rows) =
     word_of_nat f # filter_row f bpp row prior @ filter_rows bpp row rows"

lemma filter_row_length [simp]: "length (filter_row f bpp row prior) = length row"
  by (simp add: filter_row_def)

lemma filter_rows_length:
  "(\<And>f row. (f, row) \<in> set rows \<Longrightarrow> length row = nk) \<Longrightarrow>
   length (filter_rows bpp prior rows) = length rows * (nk + 1)"
proof (induction bpp prior rows rule: filter_rows.induct)
  case (2 bpp prior f row rows)
  then have "length row = nk" "length (filter_rows bpp row rows) = length rows * (nk + 1)"
    by (blast intro: list.set_intros)+
  then show ?case by simp
qed simp

lemma row_step_filtered:
  assumes "f < 5" "0 < fb" "fb \<le> nk" "length row = nk" "length prior = nk" "expand row = Inr r"
    and "j = 0 \<longrightarrow> prior = replicate nk 0"
  shows "row_step expand fb nk j (word_of_nat f # filter_row f fb row prior @ rest, if j = 0 then p0 else prior, out0) =
    Inr (rest, row, out0 @ r)"
proof -
  have f: "unat (word_of_nat f :: stbi_uc) = f" "\<not> uint (word_of_nat f :: stbi_uc) > 4"
    using assms(1) by (simp_all add: unat_of_nat take_bit_nat_eq_self uint_nat)
  have "unfilter_row ((if j = 0 then first_row_filter else png_filters) ! f) fb nk (filter_row f fb row prior @ rest)
      (if j = 0 then p0 else prior) = Inr row"
    using unfilter_filter_row [of f fb row prior rest] unfilter_filter_first_row [of f fb row rest p0] assms by auto
  with assms f show ?thesis by (simp add: row_step_def Let_def)
qed

lemma rows_filtered:
  assumes "\<And>f row. (f, row) \<in> set rows \<Longrightarrow> f < 5 \<and> length row = nk \<and> expand row = Inr (E row)"
    and "0 < fb" "fb \<le> nk" "length prior = nk" "j = 0 \<longrightarrow> prior = replicate nk 0"
  shows "\<exists>p. efold (row_step expand fb nk) [j..<j + length rows]
      (filter_rows fb prior rows @ rest, if j = 0 then [] else prior, out0) =
    Inr (rest, p, out0 @ concat (map (E \<circ> snd) rows))"
  using assms
proof (induction rows arbitrary: prior j out0)
  case (Cons fr rows)
  obtain f row where fr: "fr = (f, row)" by fastforce
  have "row_step expand fb nk j (filter_rows fb prior (fr # rows) @ rest, if j = 0 then [] else prior, out0) =
      Inr (filter_rows fb row rows @ rest, row, out0 @ E row)"
    using row_step_filtered [of f fb nk row prior expand "E row" j "filter_rows fb row rows @ rest" "[]" out0]
      Cons.prems(1) [of f row] Cons.prems(2-) by (simp add: fr)
  moreover have "[j..<j + length (fr # rows)] = j # [Suc j..<Suc j + length rows]"
    by (subst upt_conv_Cons) simp_all
  moreover have "\<exists>p. efold (row_step expand fb nk) [Suc j..<Suc j + length rows]
      (filter_rows fb row rows @ rest, if Suc j = 0 then [] else row, out0 @ E row) =
    Inr (rest, p, (out0 @ E row) @ concat (map (E \<circ> snd) rows))"
    using Cons.prems by (intro Cons.IH) (auto simp: fr)
  ultimately show ?case by (simp only: efold.simps ebind_simps) (simp add: fr comp_def del: upt_Suc)
qed simp

text \<open>The sizes the decoder checks before it decodes an image of \<open>x * y\<close> pixels.\<close>

definition png_fits :: "nat \<Rightarrow> nat \<Rightarrow> nat \<Rightarrow> nat \<Rightarrow> nat \<Rightarrow> bool" where
  "png_fits img_n out_n depth x y \<longleftrightarrow>
     (let w = png_width_bytes img_n x depth; n = out_n * png_bytes depth in
      int (img_n * x) \<le> INT_MAX \<and> int (img_n * x * depth + 7) \<le> INT_MAX \<and>
      int (x * y) \<le> INT_MAX \<and> int (x * y * n) \<le> INT_MAX \<and>
      int (w * y + w) \<le> INT_MAX \<and> int (w * 2) \<le> INT_MAX)"

lemma image_raw_filtered:
  assumes fmt: "png_format img_n out_n depth" and "0 < x"
    and rows: "\<And>f row. (f, row) \<in> set rows \<Longrightarrow>
      f < 5 \<and> length row = png_width_bytes img_n x depth \<and> expand_row img_n out_n x depth color row = Inr (E row)"
    and fits: "png_fits img_n out_n depth x (length rows)"
  shows "stbi__create_png_image_raw img_n
      (filter_rows (if depth < 8 then 1 else img_n * png_bytes depth)
         (replicate (png_width_bytes img_n x depth) 0) rows @ rest) out_n x (length rows) depth color =
    Inr (concat (map (E \<circ> snd) rows))"
proof -
  define w where "w = png_width_bytes img_n x depth"
  define fb where "fb = (if depth < 8 then 1 else img_n * png_bytes depth)"
  define nk where "nk = (if depth < 8 then w else x) * fb"
  define data where "data = filter_rows fb (replicate w 0) rows @ rest"
  have fb: "0 < fb" "fb \<le> nk" and nk: "nk = w"
    unfolding fb_def nk_def w_def by (rule filter_geometry [OF fmt \<open>0 < x\<close>])+
  have "length data \<ge> (w + 1) * length rows"
    using filter_rows_length [of rows w fb "replicate w 0"] rows by (auto simp: data_def w_def)
  moreover obtain p where "efold (row_step (expand_row img_n out_n x depth color) fb nk) [0..<length rows] (data, [], []) =
      Inr (rest, p, concat (map (E \<circ> snd) rows))"
    using rows_filtered [of rows w "expand_row img_n out_n x depth color" E fb "replicate w 0" 0 rest "[]"] rows fb
    unfolding nk w_def [symmetric] by (auto simp: data_def)
  moreover have "out_n = img_n \<or> out_n = img_n + 1" using fmt by (auto simp: png_format_def)
  moreover have "(img_n * x * depth + 7) div 8 = w" by (simp add: w_def png_width_bytes_def)
  ultimately have "stbi__create_png_image_raw img_n data out_n x (length rows) depth color =
      Inr (concat (map (E \<circ> snd) rows))"
    using fits nk
    unfolding stbi__create_png_image_raw_def png_bytes_def [symmetric] png_fits_def w_def [symmetric] Let_def
    by (simp only: fb_def [symmetric] nk_def [symmetric])
      (simp add: stbi__malloc_mad3_def stbi__malloc_mad2_def size_checks not_less)
  then show ?thesis by (simp add: data_def fb_def w_def)
qed

text \<open>The other direction: whatever the data is, what the decoder returns are the pixels of scanlines whose
  filtering is the data. Together with the above, decoding an image succeeds exactly on filtered
  scanlines and inverts the filtering.\<close>

definition scanlines_image ::
    "nat \<Rightarrow> nat \<Rightarrow> nat \<Rightarrow> nat \<Rightarrow> nat \<Rightarrow> int \<Rightarrow> stbi_uc list \<Rightarrow> stbi_uc list \<Rightarrow> bool" where
  "scanlines_image img_n out_n x y depth color raw out \<longleftrightarrow>
     (\<exists>rows rest. length rows = y \<and>
        (\<forall>(f, row) \<in> set rows. f < 5 \<and> length row = png_width_bytes img_n x depth) \<and>
        raw = filter_rows (if depth < 8 then 1 else img_n * png_bytes depth)
                (replicate (png_width_bytes img_n x depth) 0) rows @ rest \<and>
        out = concat (map (png_row img_n out_n x depth color \<circ> snd) rows))"

lemma unfilter_steps:
  assumes "efold (\<lambda>k cur.
             ebind (arr_get raw (int k)) (\<lambda>r.
             ebind (filter_term flt fb prior k cur) (\<lambda>t.
             Inr (cur @ [STBI__BYTECAST (uint r + t)]))))
           [0..<n] [] = Inr cur"
  shows "length cur = n \<and> (\<forall>k < n. \<exists>t. filter_term flt fb prior k (take k cur) = Inr t \<and>
    cur ! k = raw ! k + STBI__BYTECAST t)"
  using assms
proof (induction n arbitrary: cur)
  case (Suc n)
  from Suc.prems obtain c r t where c: "efold (\<lambda>k cur.
             ebind (arr_get raw (int k)) (\<lambda>r.
             ebind (filter_term flt fb prior k cur) (\<lambda>t.
             Inr (cur @ [STBI__BYTECAST (uint r + t)]))))
           [0..<n] [] = Inr c" and r: "arr_get raw (int n) = Inr r" and t: "filter_term flt fb prior n c = Inr t"
      and cur: "cur = c @ [STBI__BYTECAST (uint r + t)]"
    by (auto simp: efold_append ebind_eq_Inr)
  have len: "length c = n" and old: "\<And>k. k < n \<Longrightarrow> \<exists>t. filter_term flt fb prior k (take k c) = Inr t \<and>
      c ! k = raw ! k + STBI__BYTECAST t"
    using Suc.IH [OF c] by auto
  have "r = raw ! n" using r by (simp add: arr_get_def split: if_splits)
  with len old t show ?case by (auto simp: cur less_Suc_eq nth_append BYTECAST_add)
qed simp

lemma filter_unfilter_row:
  assumes "unfilter_row flt fb nk raw prior = Inr cur" and "nk \<le> length raw"
    and "\<And>k row. k < length row \<Longrightarrow> length row = nk \<Longrightarrow>
      filter_term flt fb prior k (take k row) = Inr (predictor f fb row prior' k)"
  shows "length cur = nk" and "filter_row f fb cur prior' = take nk raw"
proof -
  have st: "length cur = nk \<and> (\<forall>k < nk. \<exists>t. filter_term flt fb prior k (take k cur) = Inr t \<and>
      cur ! k = raw ! k + STBI__BYTECAST t)"
    by (rule unfilter_steps) (use assms(1) in \<open>simp add: unfilter_row_def split: if_splits\<close>)
  then show "length cur = nk" ..
  show "filter_row f fb cur prior' = take nk raw"
  proof (rule nth_equalityI)
    fix k assume "k < length (filter_row f fb cur prior')"
    then have k: "k < nk" using st by simp
    then obtain t where "filter_term flt fb prior k (take k cur) = Inr t" "cur ! k = raw ! k + STBI__BYTECAST t"
      using st by blast
    moreover have "filter_term flt fb prior k (take k cur) = Inr (predictor f fb cur prior' k)"
      by (rule assms(3)) (use st k in simp_all)
    ultimately show "filter_row f fb cur prior' ! k = take nk raw ! k"
      using k st by (simp add: filter_row_def)
  qed (use st assms(2) in simp)
qed

lemma row_step_scanline:
  assumes "row_step expand fb nk j (raw, if j = 0 then p0 else prior, out0) = Inr (raw', cur, out')"
    and "nk < length raw" "0 < fb" "length prior = nk" "j = 0 \<longrightarrow> prior = replicate nk 0"
    and "\<And>row. length row = nk \<Longrightarrow> expand row = Inr (E row)"
  obtains f where "f < 5" "length cur = nk" "raw = word_of_nat f # filter_row f fb cur prior @ raw'"
    and "out' = out0 @ E cur"
proof -
  obtain b raw1 where raw: "raw = b # raw1" "nk \<le> length raw1" using assms(2) by (cases raw) auto
  define f where "f = unat b"
  have "\<not> uint b > 4" using assms(1) by (auto simp: row_step_def raw split: if_splits)
  then have f: "f < 5" unfolding f_def by (rule filter_index)
  define flt where "flt = (if j = 0 then first_row_filter else png_filters) ! f"
  have un: "unfilter_row flt fb nk raw1 (if j = 0 then p0 else prior) = Inr cur"
      and ex: "ebind (expand cur) (\<lambda>row. Inr (drop nk raw1, cur, out0 @ row)) = Inr (raw', cur, out')"
    using assms(1) by (auto simp: row_step_def raw flt_def f_def Let_def ebind_eq_Inr split: if_splits)
  have pred: "filter_term flt fb (if j = 0 then p0 else prior) k (take k row) = Inr (predictor f fb row prior k)"
    if "k < length row" "length row = nk" for k row
    using filter_term_row [of f k row prior fb] filter_term_first_row [of f k row fb p0] f that assms(3-5)
    by (auto simp: flt_def)
  note row = filter_unfilter_row [OF un raw(2) pred]
  show thesis
  proof (rule that [OF f row(1)])
    show "raw = word_of_nat f # filter_row f fb cur prior @ raw'"
      using ex row assms(6) append_take_drop_id [of nk raw1] by (simp add: raw f_def)
    show "out' = out0 @ E cur" using ex row(1) assms(6) by simp
  qed
qed

lemma rows_scanlines:
  assumes "efold (row_step expand fb nk) [j..<j + n] (raw, if j = 0 then [] else prior, out0) = Inr (raw', p, out)"
    and "n * (nk + 1) \<le> length raw" "0 < fb" "length prior = nk" "j = 0 \<longrightarrow> prior = replicate nk 0"
    and "\<And>row. length row = nk \<Longrightarrow> expand row = Inr (E row)"
  shows "\<exists>rows. length rows = n \<and> (\<forall>(f, row) \<in> set rows. f < 5 \<and> length row = nk) \<and>
    raw = filter_rows fb prior rows @ raw' \<and> out = out0 @ concat (map (E \<circ> snd) rows)"
  using assms
proof (induction n arbitrary: j raw prior out0)
  case (Suc n)
  have "[j..<j + Suc n] = j # [Suc j..<Suc j + n]" by (subst upt_conv_Cons) simp_all
  with Suc.prems(1) obtain raw1 cur out1
    where step: "row_step expand fb nk j (raw, if j = 0 then [] else prior, out0) = Inr (raw1, cur, out1)"
      and more: "efold (row_step expand fb nk) [Suc j..<Suc j + n] (raw1, cur, out1) = Inr (raw', p, out)"
    by (simp only: efold.simps) (auto simp: ebind_eq_Inr)
  obtain f where f: "f < 5" "length cur = nk" "raw = word_of_nat f # filter_row f fb cur prior @ raw1"
      "out1 = out0 @ E cur"
    by (rule row_step_scanline [OF step _ Suc.prems(3-6)]) (use Suc.prems(2) in simp)
  have rec: "\<exists>rows. length rows = n \<and> (\<forall>(f, row) \<in> set rows. f < 5 \<and> length row = nk) \<and>
      raw1 = filter_rows fb cur rows @ raw' \<and> out = out1 @ concat (map (E \<circ> snd) rows)"
    by (rule Suc.IH [of "Suc j"]) (use more f(2,3) Suc.prems(2,3,6) in simp_all)
  obtain rows where rows: "length rows = n" "\<forall>(f, row) \<in> set rows. f < 5 \<and> length row = nk"
      "raw1 = filter_rows fb cur rows @ raw'" "out = out1 @ concat (map (E \<circ> snd) rows)"
    using rec by blast
  show ?case
    by (rule exI [of _ "(f, cur) # rows"]) (use rows f in \<open>auto simp: comp_def\<close>)
qed simp

lemma image_raw_scanlines:
  assumes fmt: "png_format img_n out_n depth" and "0 < x"
    and run: "stbi__create_png_image_raw img_n raw out_n x y depth color = Inr out"
  shows "scanlines_image img_n out_n x y depth color raw out"
proof -
  define w where "w = png_width_bytes img_n x depth"
  define fb where "fb = (if depth < 8 then 1 else img_n * png_bytes depth)"
  define nk where "nk = (if depth < 8 then w else x) * fb"
  have fb: "0 < fb" and nk: "nk = w"
    unfolding fb_def nk_def w_def by (rule filter_geometry [OF fmt \<open>0 < x\<close>])+
  have wb: "(img_n * x * depth + 7) div 8 = w" by (simp add: w_def png_width_bytes_def)
  from run obtain raw' p where
      "efold (row_step (expand_row img_n out_n x depth color) fb nk) [0..<y] (raw, [], []) = Inr (raw', p, out)"
      and "(w + 1) * y \<le> length raw"
    unfolding stbi__create_png_image_raw_def Let_def png_bytes_def [symmetric] wb
    by (simp only: fb_def [symmetric] nk_def [symmetric])
      (auto simp: ebind_eq_Inr not_less split: if_splits)
  then have "\<exists>rows. length rows = y \<and> (\<forall>(f, row) \<in> set rows. f < 5 \<and> length row = w) \<and>
      raw = filter_rows fb (replicate w 0) rows @ raw' \<and>
      out = [] @ concat (map (png_row img_n out_n x depth color \<circ> snd) rows)"
    by (intro rows_scanlines [where j = 0 and expand = "expand_row img_n out_n x depth color"])
      (use fb nk expand_row_spec [OF fmt] in \<open>simp_all add: w_def mult.commute\<close>)
  then show ?thesis by (auto simp: scanlines_image_def w_def fb_def)
qed

section \<open>Properties\<close>

text \<open>C16. The branch-free Paeth predictor returns, for all arguments, what the definition in the PNG
  specification returns: the neighbour closest to \<open>a + b - c\<close>, ties broken in the order \<open>a\<close>, \<open>b\<close>, \<open>c\<close>.\<close>

theorem paeth_is_spec: "stbi__paeth a b c = paeth_predictor a b c"
  by (rule paeth_eq)

text \<open>C13. Decoding inverts the filtering a PNG encoder does: for every bit depth and number of
  components, scanlines filtered row by row with arbitrary filter types (followed by any
  further data) decode to the pixels of the rows, without reading or writing out of bounds.\<close>

theorem image_raw_decodes_filtered_rows:
  assumes "png_format img_n out_n depth" and "0 < x"
    and "\<forall>(f, row) \<in> set rows. f < 5 \<and> length row = png_width_bytes img_n x depth"
    and "png_fits img_n out_n depth x (length rows)"
  shows "stbi__create_png_image_raw img_n
      (filter_rows (if depth < 8 then 1 else img_n * png_bytes depth)
         (replicate (png_width_bytes img_n x depth) 0) rows @ rest) out_n x (length rows) depth color =
    Inr (concat (map (png_row img_n out_n x depth color \<circ> snd) rows))"
  using assms by (intro image_raw_filtered) (fastforce simp: expand_row_spec)+

theorem image_raw_decodes_filtered_rows_witness:
  "stbi__create_png_image_raw 3
      (filter_rows 3 (replicate 6 0) [(4, [10, 20, 30, 40, 50, 60]), (3, [1, 2, 3, 4, 5, 6])] @ []) 4 2 2 8 2 =
    Inr [10, 20, 30, 255, 40, 50, 60, 255, 1, 2, 3, 255, 4, 5, 6, 255]"
  using image_raw_decodes_filtered_rows [of 3 4 8 2 "[(4, [10, 20, 30, 40, 50, 60]), (3, [1, 2, 3, 4, 5, 6])]" "[]" 2]
  by (auto simp: png_format_def png_width_bytes_def png_fits_def png_bytes_def INT_MAX_def png_row_def
      numeral_2_eq_2 simp del: filter_rows.simps)

end
