(* ===== verification/Stbi_Png_Adam7.thy ===== *)
theory Stbi_Png_Adam7
  imports Stbi_Png_Rows
begin

text \<open>
  De-interlacing: the seven Adam7 passes partition the pixels of an image, so that
  \<open>stbi__create_png_image\<close> places every decoded pixel exactly once and inside the image.
\<close>

section \<open>Passes\<close>

text \<open>The passes: extents, and the unique pass a pixel belongs to.\<close>

abbreviation pass_x :: "nat \<Rightarrow> nat \<Rightarrow> nat" where
  "pass_x img_x p \<equiv> pass_extent img_x (adam7_xorig ! p) (adam7_xspc ! p)"

abbreviation pass_y :: "nat \<Rightarrow> nat \<Rightarrow> nat" where
  "pass_y img_y p \<equiv> pass_extent img_y (adam7_yorig ! p) (adam7_yspc ! p)"

lemma pass_extent_eq:
  assumes "0 < extent" "extent < 2 ^ 31" "orig < spc" "spc \<le> 8"
  shows "pass_extent extent orig spc = (extent + (spc - 1 - orig)) div spc"
proof -
  define e where "e = extent + (spc - 1 - orig)"
  have e: "e < 2 ^ 32" using assms by (simp add: e_def)
  have "(word_of_nat extent - word_of_nat orig + word_of_nat spc - 1 :: uint32) = word_of_nat e"
    using assms by (simp add: e_def of_nat_diff)
  with e assms(3,4) show ?thesis
    unfolding e_def [symmetric]
    by (simp add: pass_extent_def unat_div_distrib unat_of_nat take_bit_nat_eq_self)
qed

lemma pass_cases:
  assumes "p < (7 :: nat)"
  obtains "p = 0" | "p = 1" | "p = 2" | "p = 3" | "p = 4" | "p = 5" | "p = 6"
  using assms by linarith

lemmas adam7_tables = adam7_xorig_def adam7_yorig_def adam7_xspc_def adam7_yspc_def

lemma adam7_params:
  assumes "p < 7"
  shows "adam7_xorig ! p < adam7_xspc ! p" "adam7_xspc ! p \<le> 8"
    "adam7_yorig ! p < adam7_yspc ! p" "adam7_yspc ! p \<le> 8"
  using assms by (cases rule: pass_cases; simp add: adam7_tables)+

lemma less_extent_iff:
  assumes "0 < extent" "extent < 2 ^ 31" "orig < spc" "spc \<le> 8"
  shows "i < pass_extent extent orig spc \<longleftrightarrow> i * spc + orig < extent"
proof -
  have "i < (extent + (spc - 1 - orig)) div spc \<longleftrightarrow> Suc i \<le> (extent + (spc - 1 - orig)) div spc" by auto
  also have "\<dots> \<longleftrightarrow> Suc i * spc \<le> extent + (spc - 1 - orig)"
    using assms(3) by (simp add: less_eq_div_iff_mult_less_eq)
  also have "\<dots> \<longleftrightarrow> i * spc + orig < extent" using assms(3) by auto
  finally show ?thesis using assms by (simp add: pass_extent_eq)
qed

lemmas less_pass_x = less_extent_iff [OF _ _ adam7_params(1,2)]
lemmas less_pass_y = less_extent_iff [OF _ _ adam7_params(3,4)]

text \<open>The pass of a pixel, read off the low three bits of its coordinates.\<close>

definition in_pass :: "nat \<Rightarrow> nat \<Rightarrow> nat \<Rightarrow> bool" where
  "in_pass p c r \<longleftrightarrow> c mod adam7_xspc ! p = adam7_xorig ! p \<and> r mod adam7_yspc ! p = adam7_yorig ! p"

lemma in_pass_residue:
  assumes "p < 7"
  shows "in_pass p c r \<longleftrightarrow> in_pass p (c mod 8) (r mod 8)"
  using assms by (cases rule: pass_cases) (simp_all add: in_pass_def adam7_tables mod_mod_cancel)

lemma one_pass_residues:
  "\<forall>c \<in> set [0..<8]. \<forall>r \<in> set [0..<8]. length (filter (\<lambda>p. in_pass p c r) [0..<7]) = 1"
  by (code_simp)

lemma one_pass:
  shows "\<exists>!p. p < 7 \<and> in_pass p c r"
proof -
  have "length (filter (\<lambda>p. in_pass p (c mod 8) (r mod 8)) [0..<7]) = 1"
    using one_pass_residues by auto
  moreover have "filter (\<lambda>p. in_pass p (c mod 8) (r mod 8)) [0..<7] = filter (\<lambda>p. in_pass p c r) [0..<7]"
    by (intro filter_cong) (simp_all add: in_pass_residue [symmetric])
  ultimately obtain p where p: "filter (\<lambda>p. in_pass p c r) [0..<7] = [p]"
    by (auto simp: length_Suc_conv)
  have "{q. q < 7 \<and> in_pass q c r} = set (filter (\<lambda>p. in_pass p c r) [0..<7])" by auto
  then have "{q. q < 7 \<and> in_pass q c r} = {p}" by (simp add: p del: set_filter)
  then show ?thesis by (auto simp: Ex1_def)
qed

lemma pass_position:
  assumes "o' < (m :: nat)"
  shows "c = i * m + o' \<longleftrightarrow> i = c div m \<and> c mod m = o'"
  using assms by auto

lemma pass_pixel_iff:
  assumes "0 < w" "w < 2 ^ 31" "0 < h" "h < 2 ^ 31" "c < w" "r < h" "p < 7"
  shows "i < pass_x w p \<and> j < pass_y h p \<and>
      c = i * adam7_xspc ! p + adam7_xorig ! p \<and> r = j * adam7_yspc ! p + adam7_yorig ! p \<longleftrightarrow>
    in_pass p c r \<and> i = c div adam7_xspc ! p \<and> j = r div adam7_yspc ! p"
proof -
  have "i < pass_x w p" if "c = i * adam7_xspc ! p + adam7_xorig ! p"
    using that assms by (simp add: less_pass_x)
  moreover have "j < pass_y h p" if "r = j * adam7_yspc ! p + adam7_yorig ! p"
    using that assms by (simp add: less_pass_y)
  ultimately show ?thesis
    using pass_position [OF adam7_params(1) [OF assms(7)], of c i]
      pass_position [OF adam7_params(3) [OF assms(7)], of r j]
    unfolding in_pass_def by blast
qed

lemma pass_of_pixel:
  assumes "0 < w" "w < 2 ^ 31" "0 < h" "h < 2 ^ 31" "c < w" "r < h"
  shows "\<exists>!(p, i, j). p < 7 \<and> i < pass_x w p \<and> j < pass_y h p \<and>
    c = i * adam7_xspc ! p + adam7_xorig ! p \<and> r = j * adam7_yspc ! p + adam7_yorig ! p"
proof -
  obtain p where p: "p < 7" "in_pass p c r" "\<And>q. q < 7 \<Longrightarrow> in_pass q c r \<Longrightarrow> q = p"
    using one_pass [of c r] by blast
  have "p' < 7 \<and> i < pass_x w p' \<and> j < pass_y h p' \<and>
      c = i * adam7_xspc ! p' + adam7_xorig ! p' \<and> r = j * adam7_yspc ! p' + adam7_yorig ! p' \<longleftrightarrow>
    p' = p \<and> i = c div adam7_xspc ! p \<and> j = r div adam7_yspc ! p" for p' i j
    using p pass_pixel_iff [OF assms, of p' i j] by metis
  then show ?thesis
    by (simp only:) (rule ex1I [of _ "(p, c div adam7_xspc ! p, r div adam7_yspc ! p)"]; auto)
qed

section \<open>Placing a pass\<close>

lemma memcpy_pixel:
  assumes "Suc k * n \<le> length dst" "Suc k' * n \<le> length src"
  shows "\<exists>dst'. memcpy_chk dst (k * n) src (k' * n) n = Inr dst' \<and> length dst' = length dst \<and>
    (\<forall>m b. b < n \<longrightarrow> Suc m * n \<le> length dst \<longrightarrow>
       dst' ! (m * n + b) = (if m = k then src ! (k' * n + b) else dst ! (m * n + b)))"
proof -
  define blk where "blk = take n (drop (k' * n) src)"
  have blk: "length blk = n" using assms(2) by (simp add: blk_def)
  define d where "d = take (k * n) dst @ blk @ drop (k * n + n) dst"
  have "d ! (m * n + b) = (if m = k then src ! (k' * n + b) else dst ! (m * n + b))"
    if b: "b < n" and m: "Suc m * n \<le> length dst" for m b
  proof -
    consider "m = k" | "Suc m \<le> k" | "Suc k \<le> m" by linarith
    then show ?thesis
    proof cases
      case 1
      with b blk assms show ?thesis by (simp add: d_def blk_def nth_append)
    next
      case 2
      then have "Suc m * n \<le> k * n" by (rule mult_le_mono1)
      with b 2 assms(1) show ?thesis by (simp add: d_def nth_append)
    next
      case 3
      then have "Suc k * n \<le> m * n" by (rule mult_le_mono1)
      then obtain e where e: "m * n = k * n + n + e" by (metis add.commute le_Suc_ex mult_Suc)
      with b blk 3 assms(1) m show ?thesis by (simp add: d_def nth_append ac_simps)
    qed
  qed
  moreover have "length d = length dst" using assms(1) blk by (simp add: d_def)
  moreover have "memcpy_chk dst (k * n) src (k' * n) n = Inr d"
    using assms by (simp add: memcpy_chk_def d_def blk_def add.commute)
  ultimately show ?thesis by blast
qed

text \<open>What \<open>place_pass\<close> leaves in \<open>final\<close>, after the rows before \<open>j\<close> and the columns before \<open>i\<close> of row
  \<open>j\<close>: the pixels of the pass up to there come from \<open>out\<close>, the others are as they were.\<close>

definition placed ::
    "nat \<Rightarrow> nat \<Rightarrow> nat \<Rightarrow> nat \<Rightarrow> nat \<Rightarrow> stbi_uc list \<Rightarrow> stbi_uc list \<Rightarrow> nat \<Rightarrow> nat \<Rightarrow> stbi_uc list \<Rightarrow> bool" where
  "placed w h n p x out old j i final \<longleftrightarrow>
     length final = w * h * n \<and>
     (\<forall>r < h. \<forall>c < w. \<forall>b < n.
        final ! ((r * w + c) * n + b) =
          (if in_pass p c r \<and> (r div adam7_yspc ! p < j \<or> r div adam7_yspc ! p = j \<and> c div adam7_xspc ! p < i)
           then out ! ((r div adam7_yspc ! p * x + c div adam7_xspc ! p) * n + b)
           else old ! ((r * w + c) * n + b)))"

lemma pixel_in_image: "r < h \<Longrightarrow> c < w \<Longrightarrow> Suc (r * w + c) * n \<le> w * h * n" for r c w h n :: nat
proof -
  assume r: "r < h" and c: "c < w"
  have "Suc (r * w + c) \<le> Suc r * w" using c by simp
  also have "\<dots> \<le> h * w" using r by (intro mult_le_mono1) simp
  finally show ?thesis by (metis mult.commute mult_le_mono1)
qed

lemma pixel_index_inj: "c < w \<Longrightarrow> c' < w \<Longrightarrow> r * w + c = r' * w + c' \<longleftrightarrow> r = r' \<and> c = c'" for r r' c c' w :: nat
  by (metis add.commute div_mult_self1 div_less div_mult_self3 mod_less mod_mult_self3 mult.commute
      not_less_zero add_left_cancel add_right_cancel)

lemma placed_step:
  assumes dims: "0 < w" "w < 2 ^ 31" "0 < h" "h < 2 ^ 31" "p < 7"
    and ij: "i < pass_x w p" "j < pass_y h p" "length out = pass_y h p * pass_x w p * n"
    and pl: "placed w h n p (pass_x w p) out old j i final"
  defines "r0 \<equiv> j * adam7_yspc ! p + adam7_yorig ! p" and "c0 \<equiv> i * adam7_xspc ! p + adam7_xorig ! p"
  shows "ensures (memcpy_chk final (r0 * w * n + c0 * n) out ((j * pass_x w p + i) * n) n)
    (placed w h n p (pass_x w p) out old j (Suc i))"
proof -
  have in0: "r0 < h" "c0 < w"
    using ij dims by (simp_all add: less_pass_x less_pass_y r0_def c0_def)
  have dst: "Suc (r0 * w + c0) * n \<le> length final"
    using pl pixel_in_image [OF in0] by (simp add: placed_def)
  have src: "Suc (j * pass_x w p + i) * n \<le> length out"
    using pixel_in_image [OF ij(2,1)] ij(3) by (simp add: mult.commute)
  obtain d where d: "memcpy_chk final ((r0 * w + c0) * n) out ((j * pass_x w p + i) * n) n = Inr d"
      "length d = length final"
      "\<And>m b. b < n \<Longrightarrow> Suc m * n \<le> length final \<Longrightarrow>
       d ! (m * n + b) = (if m = r0 * w + c0 then out ! ((j * pass_x w p + i) * n + b) else final ! (m * n + b))"
    using memcpy_pixel [OF dst src] by blast
  have here: "in_pass p c r \<and> r div adam7_yspc ! p = j \<and> c div adam7_xspc ! p = i \<longleftrightarrow> r = r0 \<and> c = c0"
    if "r < h" "c < w" for r c
    using pass_pixel_iff [OF dims(1-4) that(2,1) dims(5), of i j] ij(1,2) by (auto simp: r0_def c0_def)
  have "placed w h n p (pass_x w p) out old j (Suc i) d"
    unfolding placed_def
  proof (intro conjI allI impI)
    show "length d = w * h * n" using d(2) pl by (simp add: placed_def)
    fix r c b assume rcb: "r < h" "c < w" "b < n"
    have "d ! ((r * w + c) * n + b) =
        (if r = r0 \<and> c = c0 then out ! ((j * pass_x w p + i) * n + b) else final ! ((r * w + c) * n + b))"
      using d(3) [OF rcb(3), of "r * w + c"] pixel_in_image [OF rcb(1,2), of n] pl in0 rcb
      by (simp add: placed_def pixel_index_inj)
    also have "\<dots> = (if in_pass p c r \<and> (r div adam7_yspc ! p < j \<or> r div adam7_yspc ! p = j \<and> c div adam7_xspc ! p < Suc i)
           then out ! ((r div adam7_yspc ! p * pass_x w p + c div adam7_xspc ! p) * n + b)
           else old ! ((r * w + c) * n + b))"
      using pl here [OF rcb(1,2)] rcb by (auto simp: placed_def less_Suc_eq)
    finally show "d ! ((r * w + c) * n + b) = \<dots>" .
  qed
  with d(1) show ?thesis by (simp add: add_mult_distrib mult.assoc)
qed

lemma placed_next_row:
  assumes "placed w h n p (pass_x w p) out old j (pass_x w p) final" "0 < w" "w < 2 ^ 31" "p < 7"
  shows "placed w h n p (pass_x w p) out old (Suc j) 0 final"
proof -
  have "c div adam7_xspc ! p < pass_x w p" if "c < w" "in_pass p c r" for c r
    using that assms(2-4) by (auto simp: less_pass_x in_pass_def) (metis div_mult_mod_eq)
  with assms(1) show ?thesis
    by (auto simp: placed_def less_Suc_eq)
qed

lemma ensures_place_pass:
  assumes dims: "0 < w" "w < 2 ^ 31" "0 < h" "h < 2 ^ 31" "p < 7"
    and len: "length out = pass_y h p * pass_x w p * n" "length old = w * h * n"
  shows "ensures (place_pass w n p (pass_x w p) (pass_y h p) out old)
    (placed w h n p (pass_x w p) out old (pass_y h p) 0)"
  unfolding place_pass_def Let_def
proof (rule ensures_efold_upt)
  show "placed w h n p (pass_x w p) out old 0 0 old" using len by (simp add: placed_def)
  fix j final assume j: "j < pass_y h p" and pl: "placed w h n p (pass_x w p) out old j 0 final"
  have "ensures (efold (\<lambda>i final. memcpy_chk final
            ((j * adam7_yspc ! p + adam7_yorig ! p) * w * n + (i * adam7_xspc ! p + adam7_xorig ! p) * n)
            out ((j * pass_x w p + i) * n) n) [0..<pass_x w p] final)
      (placed w h n p (pass_x w p) out old j (pass_x w p))"
    by (rule ensures_efold_upt [where P = "placed w h n p (pass_x w p) out old j"])
      (use pl j dims len in \<open>auto intro: placed_step\<close>)
  then show "ensures (efold (\<lambda>i final. memcpy_chk final
            ((j * adam7_yspc ! p + adam7_yorig ! p) * w * n + (i * adam7_xspc ! p + adam7_xorig ! p) * n)
            out ((j * pass_x w p + i) * n) n) [0..<pass_x w p] final)
      (placed w h n p (pass_x w p) out old (Suc j) 0)"
    by (rule ensures_mono) (use dims in \<open>auto intro: placed_next_row\<close>)
qed simp

section \<open>All passes\<close>

text \<open>Where the data of pass \<open>p\<close> starts, and the image the pass decodes to.\<close>

definition pass_offset :: "nat \<Rightarrow> nat \<Rightarrow> nat \<Rightarrow> nat \<Rightarrow> nat \<Rightarrow> nat" where
  "pass_offset img_n w h depth p =
     (\<Sum>q<p. if pass_x w q \<noteq> 0 \<and> pass_y h q \<noteq> 0
             then (png_width_bytes img_n (pass_x w q) depth + 1) * pass_y h q else 0)"

definition pass_image ::
    "nat \<Rightarrow> nat \<Rightarrow> nat \<Rightarrow> stbi_uc list \<Rightarrow> nat \<Rightarrow> nat \<Rightarrow> int \<Rightarrow> nat \<Rightarrow> stbi_uc list res" where
  "pass_image img_n w h image_data out_n depth color p =
     stbi__create_png_image_raw img_n (drop (pass_offset img_n w h depth p) image_data) out_n
       (pass_x w p) (pass_y h p) depth color"

text \<open>The pixel in column \<open>c\<close> and row \<open>r\<close> of \<open>final\<close> is the pixel of its pass, where the image of a
  pass is that of the scanlines it holds.\<close>

definition deinterlaced ::
    "nat \<Rightarrow> nat \<Rightarrow> nat \<Rightarrow> stbi_uc list \<Rightarrow> nat \<Rightarrow> nat \<Rightarrow> int \<Rightarrow> nat \<Rightarrow> stbi_uc list \<Rightarrow> bool" where
  "deinterlaced img_n w h image_data out_n depth color passes final \<longleftrightarrow>
     (\<forall>p < passes. \<forall>r < h. \<forall>c < w. in_pass p c r \<longrightarrow>
       (\<exists>out. scanlines_image img_n out_n (pass_x w p) (pass_y h p) depth color
                (drop (pass_offset img_n w h depth p) image_data) out \<and>
         (\<forall>b < out_n * png_bytes depth.
            final ! ((r * w + c) * (out_n * png_bytes depth) + b) =
              out ! ((r div adam7_yspc ! p * pass_x w p + c div adam7_xspc ! p) * (out_n * png_bytes depth) + b))))"

lemma ensures_pass_step:
  assumes dims: "0 < w" "w < 2 ^ 31" "0 < h" "h < 2 ^ 31" "p < 7"
    and fmt: "png_format img_n out_n depth"
    and len: "length final = w * h * (out_n * png_bytes depth)"
    and old: "deinterlaced img_n w h image_data out_n depth color p final"
  shows "ensures (pass_step img_n w h out_n depth color p (drop (pass_offset img_n w h depth p) image_data, final))
    (\<lambda>(data', final'). data' = drop (pass_offset img_n w h depth (Suc p)) image_data \<and>
       length final' = w * h * (out_n * png_bytes depth) \<and>
       deinterlaced img_n w h image_data out_n depth color (Suc p) final')"
proof (cases "pass_x w p \<noteq> 0 \<and> pass_y h p \<noteq> 0")
  case True
  define n where "n = out_n * png_bytes depth"
  have off: "pass_offset img_n w h depth (Suc p) =
      (png_width_bytes img_n (pass_x w p) depth + 1) * pass_y h p + pass_offset img_n w h depth p"
    using True by (simp add: pass_offset_def)
  have image: "ensures (pass_image img_n w h image_data out_n depth color p)
      (\<lambda>out. pass_image img_n w h image_data out_n depth color p = Inr out \<and> length out = pass_y h p * pass_x w p * n)"
    using ensures_image_raw [OF fmt, of "pass_x w p" "drop (pass_offset img_n w h depth p) image_data" "pass_y h p" color] True
    by (auto simp: pass_image_def n_def ensures_def mult.assoc split: sum.splits)
  have place: "ensures (place_pass w n p (pass_x w p) (pass_y h p) out final)
      (\<lambda>final'. length final' = w * h * n \<and> deinterlaced img_n w h image_data out_n depth color (Suc p) final')"
    if out: "pass_image img_n w h image_data out_n depth color p = Inr out" "length out = pass_y h p * pass_x w p * n"
    for out
  proof (rule ensures_mono [OF ensures_place_pass [OF dims out(2)]])
    show "length final = w * h * n" using len by (simp add: n_def)
    fix final' assume pl: "placed w h n p (pass_x w p) out final (pass_y h p) 0 final'"
    have "r div adam7_yspc ! p < pass_y h p" if "r < h" "in_pass p c r" for c r
      using that dims by (auto simp: less_pass_y in_pass_def) (metis div_mult_mod_eq)
    moreover have "\<not> in_pass p c r" if "q < p" "in_pass q c r" for q c r
      using one_pass [of c r] that dims(5) by (metis less_irrefl less_trans)
    ultimately show "length final' = w * h * n \<and> deinterlaced img_n w h image_data out_n depth color (Suc p) final'"
      using pl old image_raw_scanlines [OF fmt _ out(1) [unfolded pass_image_def]] True unfolding deinterlaced_def placed_def n_def [symmetric] less_Suc_eq
      by (simp; metis)
  qed
  have "ensures (ebind (pass_image img_n w h image_data out_n depth color p) (\<lambda>out.
      ebind (place_pass w n p (pass_x w p) (pass_y h p) out final) (\<lambda>final.
      Inr (drop ((png_width_bytes img_n (pass_x w p) depth + 1) * pass_y h p)
             (drop (pass_offset img_n w h depth p) image_data), final))))
    (\<lambda>(data', final'). data' = drop (pass_offset img_n w h depth (Suc p)) image_data \<and>
       length final' = w * h * n \<and> deinterlaced img_n w h image_data out_n depth color (Suc p) final')"
    by (rule ensures_bind [OF image], rule ensures_bind [OF place]) (simp_all add: off)
  then show ?thesis
    using True by (simp add: pass_step_def Let_def pass_image_def n_def png_bytes_def png_width_bytes_def)
next
  case False
  have "\<not> in_pass p c r" if "c < w" "r < h" for c r
    using pass_pixel_iff [OF dims(1-4) that dims(5), of "c div adam7_xspc ! p" "r div adam7_yspc ! p"] False by auto
  then have "deinterlaced img_n w h image_data out_n depth color (Suc p) final"
    using old by (auto simp: deinterlaced_def less_Suc_eq)
  moreover have "pass_offset img_n w h depth (Suc p) = pass_offset img_n w h depth p"
    using False by (auto simp: pass_offset_def)
  ultimately show ?thesis
    using False len by (auto simp: pass_step_def Let_def)
qed

lemma create_png_image_size:
  assumes "stbi__create_png_image img_n w h image_data out_n depth color interlaced = Inr out"
  shows "w * h * (out_n * png_bytes depth) < 2 ^ 31"
proof -
  have "stbi__malloc_mad3 (int w) (int h) (int (out_n * png_bytes depth)) 0 \<noteq> None"
    using assms
    by (cases interlaced) (auto simp: stbi__create_png_image_def stbi__create_png_image_raw_def Let_def png_bytes_def
        split: if_splits option.splits)
  then have "int (w * h * (out_n * png_bytes depth)) < int (2 ^ 31)"
    by (auto simp: stbi__malloc_mad3_def mad3sizes_valid_iff INT_MAX_def mult.assoc split: if_splits)
  then show ?thesis by (simp only: of_nat_less_iff)
qed

lemma ensures_create_png_image:
  assumes dims: "0 < w" "w < 2 ^ 31" "0 < h" "h < 2 ^ 31" and fmt: "png_format img_n out_n depth"
  shows "ensures (stbi__create_png_image img_n w h image_data out_n depth color interlaced)
    (\<lambda>out. length out = w * h * (out_n * png_bytes depth) \<and>
       (if interlaced then deinterlaced img_n w h image_data out_n depth color 7 out
        else scanlines_image img_n out_n w h depth color image_data out))"
proof (cases interlaced)
  case True
  define n where "n = out_n * png_bytes depth"
  have passes: "ensures (efold (pass_step img_n w h out_n depth color) [0..<7] (image_data, replicate k 0))
      ((\<lambda>p (data', final'). data' = drop (pass_offset img_n w h depth p) image_data \<and>
       length final' = w * h * n \<and> deinterlaced img_n w h image_data out_n depth color p final') 7)"
    if "k = w * h * n" for k
  proof (rule ensures_efold_upt)
    fix p st assume "p < 7" and inv: "case st of (data', final') \<Rightarrow> data' = drop (pass_offset img_n w h depth p) image_data \<and>
       length final' = w * h * n \<and> deinterlaced img_n w h image_data out_n depth color p final'"
    then show "ensures (pass_step img_n w h out_n depth color p st) (\<lambda>(data', final').
        data' = drop (pass_offset img_n w h depth (Suc p)) image_data \<and>
       length final' = w * h * n \<and> deinterlaced img_n w h image_data out_n depth color (Suc p) final')"
      using ensures_pass_step [OF dims \<open>p < 7\<close> fmt, of "snd st" image_data color] by (cases st) (simp add: n_def)
  qed (use that in \<open>simp_all add: pass_offset_def deinterlaced_def\<close>)
  have "ensures (ebind (efold (pass_step img_n w h out_n depth color) [0..<7] (image_data, replicate k 0))
      (\<lambda>(_, final). Inr final)) (\<lambda>out. length out = w * h * n \<and> deinterlaced img_n w h image_data out_n depth color 7 out)"
    if "k = w * h * n" for k
    by (rule ensures_bind [OF passes [OF that]]) auto
  moreover have "k = w * h * n" if "stbi__malloc_mad3 (int w) (int h) (int n) 0 = Some k" for k
    using that by (auto simp: stbi__malloc_mad3_def nat_mult_distrib split: if_splits)
  ultimately show ?thesis
    using True by (auto simp: stbi__create_png_image_def Let_def png_bytes_def [symmetric] n_def [symmetric]
        simp del: of_nat_mult split: option.splits)
next
  case False
  with ensures_image_raw [OF fmt dims(1), of image_data h color] image_raw_scanlines [OF fmt dims(1), of image_data h color]
  show ?thesis
    by (auto simp: stbi__create_png_image_def ensures_def Let_def ac_simps split: sum.splits)
qed

section \<open>Properties\<close>

text \<open>C15. The seven passes partition the image: every pixel is the image of exactly one position of
  exactly one pass, with the extents the code computes in wrapping 32-bit arithmetic.\<close>

theorem adam7_partition:
  assumes "0 < w" "w < 2 ^ 31" "0 < h" "h < 2 ^ 31" "c < w" "r < h"
  shows "\<exists>!(p, i, j). p < 7 \<and> i < pass_x w p \<and> j < pass_y h p \<and>
    c = i * adam7_xspc ! p + adam7_xorig ! p \<and> r = j * adam7_yspc ! p + adam7_yorig ! p"
  using assms by (rule pass_of_pixel)

theorem adam7_partition_witness:
  "\<exists>!(p, i, j). p < 7 \<and> i < pass_x 3 p \<and> j < pass_y 1 p \<and>
    2 = i * adam7_xspc ! p + adam7_xorig ! p \<and> 0 = j * adam7_yspc ! p + adam7_yorig ! p"
  using adam7_partition [of 3 1 2 0] by simp

text \<open>C14. Whatever the decompressed data is, \<open>stbi__create_png_image\<close> returns without leaving any
  buffer, or fails with a reason; and what it returns is the image the data stands for. Without
  interlacing the data is the filtering of exactly \<open>h\<close> scanlines, followed by anything, and the image is the
  pixels of those scanlines. With interlacing each pixel is the pixel that its pass holds for it, where a pass is such an
  image of its own extents and the passes follow one another in the data.\<close>

theorem create_png_image_correct:
  assumes "0 < w" "w < 2 ^ 31" "0 < h" "h < 2 ^ 31" and "png_format img_n out_n depth"
  shows "ensures (stbi__create_png_image img_n w h image_data out_n depth color interlaced)
    (\<lambda>out. length out = w * h * (out_n * png_bytes depth) \<and>
       (if interlaced then deinterlaced img_n w h image_data out_n depth color 7 out
        else scanlines_image img_n out_n w h depth color image_data out))"
  using assms by (rule ensures_create_png_image)

theorem create_png_image_correct_witness:
  "ensures (stbi__create_png_image 1 2 2 [0, 7, 0, 8, 0, 9, 9] 1 8 0 True) (\<lambda>out. length out = 4) \<and>
   ensures (stbi__create_png_image 1 2 2 [0, 7, 8, 2, 9, 9] 1 8 0 False)
     (\<lambda>out. length out = 4 \<and> scanlines_image 1 1 2 2 8 0 [0, 7, 8, 2, 9, 9] out)"
  using create_png_image_correct [of 2 2 1 1 8 "[0, 7, 0, 8, 0, 9, 9]" 0 True]
    create_png_image_correct [of 2 2 1 1 8 "[0, 7, 8, 2, 9, 9]" 0 False]
  by (auto simp: png_format_def png_bytes_def ensures_def split: sum.splits)

end
