(* ===== verification/Stbi_Zlib_Huffman.thy ===== *)
theory Stbi_Zlib_Huffman
  imports Stbi_Zlib
begin

text \<open>
  Correctness of the Huffman tables of the zlib decoder. \<open>hcode L i\<close> is the canonical code that
  DEFLATE assigns to symbol \<open>i\<close> under the code lengths \<open>L\<close>; \<open>hvalid L\<close> says that the lengths can
  be met. \<open>zbuild_huffman_decides\<close> shows that \<open>stbi__zbuild_huffman\<close> accepts exactly the valid lengths
  and that the tables it builds (\<open>firstcode\<close>, \<open>maxcode\<close>, \<open>firstsymbol\<close>, \<open>size\<close>, \<open>value\<close>, \<open>fast\<close>)
  describe the canonical code.
\<close>

section \<open>Bit reversal\<close>

section \<open>Bit reversal\<close>

lemma nat_less_16E:
  assumes "(i :: nat) < 16"
  obtains "i = 0" | "i = 1" | "i = 2" | "i = 3" | "i = 4" | "i = 5" | "i = 6" | "i = 7"
    | "i = 8" | "i = 9" | "i = 10" | "i = 11" | "i = 12" | "i = 13" | "i = 14" | "i = 15"
proof -
  have "i \<in> set [0..<16]" using assms by simp
  also have "[0..<16] = [0, 1, 2, 3, 4, 5, 6, 7, 8, 9, 10, 11, 12, 13, 14, 15 :: nat]"
    by (simp add: upt_rec)
  finally show thesis using that by auto
qed

definition mask_shift :: "int \<Rightarrow> int \<Rightarrow> nat \<Rightarrow> int \<Rightarrow> int" where
  "mask_shift hi lo k n = drop_bit k (n AND hi) OR push_bit k (n AND lo)"

lemma bit_mask_shift:
  "bit (mask_shift hi lo k n) i \<longleftrightarrow> bit n (i + k) \<and> bit hi (i + k) \<or> k \<le> i \<and> bit n (i - k) \<and> bit lo (i - k)"
  by (auto simp: mask_shift_def bit_simps add.commute)

lemma bitreverse16_stages:
  "stbi__bitreverse16 n =
     mask_shift 0xFF00 0x00FF 8 (mask_shift 0xF0F0 0x0F0F 4 (mask_shift 0xCCCC 0x3333 2 (mask_shift 0xAAAA 0x5555 1 n)))"
  by (simp add: stbi__bitreverse16_def mask_shift_def Let_def)

lemma bit_masks_high:
  assumes "16 \<le> i"
  shows "\<not> bit (0xFF00 :: int) i" "\<not> bit (0x00FF :: int) i" "\<not> bit (0xF0F0 :: int) i" "\<not> bit (0x0F0F :: int) i"
    "\<not> bit (0xCCCC :: int) i" "\<not> bit (0x3333 :: int) i" "\<not> bit (0xAAAA :: int) i" "\<not> bit (0x5555 :: int) i"
proof -
  have "\<not> bit (m :: int) i" if "0 \<le> m" "m < 2 ^ 16" for m
  proof -
    have "m div 2 ^ i = 0"
    proof (rule div_pos_pos_trivial)
      have "(2 :: int) ^ 16 \<le> 2 ^ i" using assms by (intro power_increasing) simp_all
      with that show "m < 2 ^ i" by linarith
    qed (rule that)
    then show ?thesis by (simp add: bit_iff_odd)
  qed
  then show "\<not> bit (0xFF00 :: int) i" "\<not> bit (0x00FF :: int) i" "\<not> bit (0xF0F0 :: int) i" "\<not> bit (0x0F0F :: int) i"
    "\<not> bit (0xCCCC :: int) i" "\<not> bit (0x3333 :: int) i" "\<not> bit (0xAAAA :: int) i" "\<not> bit (0x5555 :: int) i"
    by simp_all
qed

lemma bit_bitreverse16: "bit (stbi__bitreverse16 n) i \<longleftrightarrow> i < 16 \<and> bit n (15 - i)"
proof (cases "i < 16")
  case True
  then show ?thesis
    by (cases rule: nat_less_16E) (simp_all add: bitreverse16_stages bit_mask_shift numeral_2_eq_2 numeral_3_eq_3)
next
  case False
  have "bit (mask_shift 0xFF00 0x00FF 8 m) i \<longleftrightarrow> False" for m
  proof -
    have "\<not> bit (0x00FF :: int) (i - 8)"
    proof (cases "16 \<le> i - 8")
      case True then show ?thesis by (rule bit_masks_high)
    next
      case f: False
      with False have "i - 8 < 16" "8 \<le> i - 8" by auto
      then show ?thesis by (cases rule: nat_less_16E) simp_all
    qed
    with False bit_masks_high [of "i + 8"] show ?thesis by (simp add: bit_mask_shift)
  qed
  with False show ?thesis by (simp add: bitreverse16_stages)
qed

lemma bit_bit_reverse: "s \<le> 16 \<Longrightarrow> bit (stbi__bit_reverse v s) i \<longleftrightarrow> i < s \<and> bit v (s - 1 - i)"
  by (auto simp: stbi__bit_reverse_def bit_drop_bit_eq bit_bitreverse16)

lemma take_bit_eq_reverse_iff:
  assumes "s \<le> 16" "take_bit s c = c"
  shows "take_bit s w = stbi__bit_reverse c s \<longleftrightarrow> drop_bit (16 - s) (stbi__bitreverse16 w) = c"
proof -
  have "take_bit s w = stbi__bit_reverse c s \<longleftrightarrow> (\<forall>i < s. bit w i \<longleftrightarrow> bit c (s - 1 - i))"
    using assms(1) by (auto simp: bit_eq_iff bit_bit_reverse bit_take_bit_iff)
  also have "\<dots> \<longleftrightarrow> (\<forall>i < s. bit w (s - 1 - i) \<longleftrightarrow> bit c i)"
  proof -
    have "i = s - 1 - (s - 1 - i)" "s - 1 - i < s" if "i < s" for i using that by auto
    then show ?thesis by metis
  qed
  also have "\<dots> \<longleftrightarrow> drop_bit (16 - s) (stbi__bitreverse16 w) = c"
  proof -
    have "bit c i \<longrightarrow> i < s" for i using assms(2) by (metis bit_take_bit_iff)
    moreover have "bit (drop_bit (16 - s) (stbi__bitreverse16 w)) i \<longleftrightarrow> i < s \<and> bit w (s - 1 - i)" for i
      using assms(1) by (auto simp: bit_drop_bit_eq bit_bitreverse16)
    ultimately show ?thesis by (auto simp: bit_eq_iff)
  qed
  finally show ?thesis .
qed

lemma bitreverse16_range: "0 \<le> stbi__bitreverse16 n" "stbi__bitreverse16 n < 65536"
proof -
  have "take_bit 16 (stbi__bitreverse16 n) = stbi__bitreverse16 n"
    by (auto simp: bit_eq_iff bit_take_bit_iff bit_bitreverse16)
  then have "0 \<le> stbi__bitreverse16 n \<and> stbi__bitreverse16 n < 2 ^ 16"
    by (metis take_bit_nonnegative take_bit_int_less_exp)
  then show "0 \<le> stbi__bitreverse16 n" "stbi__bitreverse16 n < 65536" by simp_all
qed

section \<open>Canonical codes\<close>

section \<open>Canonical prefix codes\<close>

text \<open>A list \<open>L\<close> of code lengths (0: unused) determines the code of DEFLATE (RFC 1951, 3.2.2): \<open>hfirst L s\<close>
  is the first code of length \<open>s\<close>, \<open>hcode L i\<close> the code of symbol \<open>i\<close>.\<close>

definition hcount :: "nat list \<Rightarrow> nat \<Rightarrow> nat" where
  "hcount L s = (if s = 0 then 0 else count_list L s)"

fun hfirst :: "nat list \<Rightarrow> nat \<Rightarrow> nat" where
  "hfirst L 0 = 0"
| "hfirst L (Suc s) = 2 * (hfirst L s + hcount L s)"

definition hrank :: "nat list \<Rightarrow> nat \<Rightarrow> nat" where
  "hrank L i = count_list (take i L) (L ! i)"

definition hcode :: "nat list \<Rightarrow> nat \<Rightarrow> nat" where
  "hcode L i = hfirst L (L ! i) + hrank L i"

definition hsym :: "nat list \<Rightarrow> nat \<Rightarrow> nat" where
  "hsym L s = sum (hcount L) {..<s}"

definition hvalid :: "nat list \<Rightarrow> bool" where
  "hvalid L \<longleftrightarrow> (\<forall>s \<in> {1..<16}. hcount L s \<noteq> 0 \<longrightarrow> hfirst L s + hcount L s \<le> 2 ^ s)"

text \<open>The end of the codes of length at most \<open>s\<close>, on a scale of 16 bits.\<close>

definition hmax :: "nat list \<Rightarrow> nat \<Rightarrow> nat" where
  "hmax L s = (hfirst L s + hcount L s) * 2 ^ (16 - s)"

lemma hfirst_scaled:
  assumes "s < 16"
  shows "hfirst L (Suc s) * 2 ^ (16 - Suc s) = hmax L s"
proof -
  have "(2 :: nat) ^ (16 - s) = 2 * 2 ^ (16 - Suc s)"
    using assms by (metis Suc_diff_Suc power_Suc)
  then show ?thesis by (simp add: hmax_def)
qed

lemma hmax_Suc: "s < 15 \<Longrightarrow> hmax L (Suc s) = hmax L s + hcount L (Suc s) * 2 ^ (16 - Suc s)"
  using hfirst_scaled [of s L] by (simp add: hmax_def add_mult_distrib del: hfirst.simps)

lemma hmax_mono: "s \<le> t \<Longrightarrow> t \<le> 15 \<Longrightarrow> hmax L s \<le> hmax L t"
proof (induction t)
  case (Suc t)
  then show ?case by (cases "s = Suc t") (auto simp: hmax_Suc)
qed simp

lemma hvalid_first:
  assumes "hvalid L" "1 \<le> s" "s \<le> 15"
  shows "hfirst L s + hcount L s \<le> 2 ^ s"
  using assms(2,3)
proof (induction s)
  case (Suc s)
  show ?case
  proof (cases "hcount L (Suc s) = 0")
    case True
    have "hfirst L s + hcount L s \<le> 2 ^ s"
      by (cases s) (use Suc in \<open>auto simp: hcount_def\<close>)
    with True show ?thesis by simp
  next
    case False
    moreover have "Suc s \<in> {1..<16}" using Suc.prems by simp
    ultimately show ?thesis using assms(1) unfolding hvalid_def by blast
  qed
qed simp

lemma count_list_take_less:
  assumes "i < length L"
  shows "count_list (take i L) (L ! i) < count_list L (L ! i)"
proof -
  have "count_list L (L ! i) = count_list (take i L) (L ! i) + count_list (drop i L) (L ! i)"
    by (metis append_take_drop_id count_list_append)
  moreover have "drop i L = L ! i # drop (Suc i) L" using assms by (simp add: Cons_nth_drop_Suc)
  ultimately show ?thesis by simp
qed

lemma hrank_less: "i < length L \<Longrightarrow> L ! i \<noteq> 0 \<Longrightarrow> hrank L i < hcount L (L ! i)"
  by (simp add: hrank_def hcount_def count_list_take_less)

text \<open>Every rank below the count belongs to exactly one symbol.\<close>

lemma rank_exists:
  assumes "r < count_list L x"
  shows "\<exists>i < length L. L ! i = x \<and> count_list (take i L) x = r"
  using assms
proof (induction L rule: rev_induct)
  case (snoc y L)
  show ?case
  proof (cases "r < count_list L x")
    case True
    with snoc.IH obtain i where "i < length L" "L ! i = x" "count_list (take i L) x = r" by blast
    then show ?thesis by (intro exI [of _ i]) (simp add: nth_append)
  next
    case False
    with snoc.prems have "y = x" "r = count_list L x" by (auto split: if_splits)
    then show ?thesis by (intro exI [of _ "length L"]) simp
  qed
qed simp

lemma rank_inj:
  assumes "i < j" "j < length L" "L ! i = L ! j"
  shows "hrank L i < hrank L j"
proof -
  have "count_list (take i L) (L ! j) < count_list (take j L) (L ! j)"
    using count_list_take_less [of i "take j L"] assms by (simp add: min_def)
  with assms(3) show ?thesis by (simp add: hrank_def)
qed

text \<open>A word \<open>k\<close> of 16 bits starts with the code of symbol \<open>i\<close>.\<close>

definition hmatch :: "nat list \<Rightarrow> nat \<Rightarrow> nat \<Rightarrow> bool" where
  "hmatch L k i \<longleftrightarrow> i < length L \<and> L ! i \<noteq> 0 \<and> k div 2 ^ (16 - L ! i) = hcode L i"

lemma hcode_less: "hvalid L \<Longrightarrow> i < length L \<Longrightarrow> L ! i \<noteq> 0 \<Longrightarrow> L ! i \<le> 15 \<Longrightarrow> hcode L i < 2 ^ (L ! i)"
  using hvalid_first [of L "L ! i"] hrank_less [of i L] by (simp add: hcode_def)

lemma div_eq_iff_range: "0 < (m :: nat) \<Longrightarrow> k div m = q \<longleftrightarrow> q * m \<le> k \<and> k < q * m + m"
  by (metis add.commute div_nat_eqI dividend_less_times_div mult.commute mult_Suc times_div_less_eq_dividend)

lemma hmatch_range:
  assumes "hmatch L k i" "\<forall>l \<in> set L. l \<le> 15"
  shows "hmax L (L ! i - 1) \<le> k" "k < hmax L (L ! i)"
proof -
  define s where "s = L ! i"
  have i: "i < length L" "s \<noteq> 0" "k div 2 ^ (16 - s) = hfirst L s + hrank L i"
    using assms(1) by (auto simp: hmatch_def s_def hcode_def)
  have s: "s \<le> 15" using assms(2) i(1) by (auto simp: s_def)
  have r: "(hfirst L s + hrank L i) * 2 ^ (16 - s) \<le> k"
      "k < (hfirst L s + hrank L i) * 2 ^ (16 - s) + 2 ^ (16 - s)"
    using i(3) div_eq_iff_range [of "2 ^ (16 - s)" k] by auto
  have "hmax L (s - 1) = hfirst L s * 2 ^ (16 - s)"
    using hfirst_scaled [of "s - 1" L] i(2) s by simp
  also have "\<dots> \<le> (hfirst L s + hrank L i) * 2 ^ (16 - s)" by simp
  finally show "hmax L (L ! i - 1) \<le> k" using r(1) by (simp add: s_def)
  have "Suc (hrank L i) \<le> hcount L s" using hrank_less [of i L] i by (simp add: s_def)
  then have "(hfirst L s + Suc (hrank L i)) * 2 ^ (16 - s) \<le> hmax L s"
    unfolding hmax_def by (intro mult_le_mono1) simp
  with r(2) show "k < hmax L (L ! i)" by (simp add: s_def)
qed

lemma hmatch_unique:
  assumes "hmatch L k i" "hmatch L k j" "\<forall>l \<in> set L. l \<le> 15"
  shows "i = j"
proof -
  have len: "L ! i \<le> 15" "L ! j \<le> 15" "i < length L" "j < length L" "L ! i \<noteq> 0" "L ! j \<noteq> 0"
    using assms by (auto simp: hmatch_def)
  have "\<not> L ! a < L ! b" if "hmatch L k a" "hmatch L k b" "L ! b \<le> 15" for a b
  proof
    assume lt: "L ! a < L ! b"
    then have "hmax L (L ! a) \<le> hmax L (L ! b - 1)" using that(3) by (intro hmax_mono) auto
    with hmatch_range [OF that(1) assms(3)] hmatch_range [OF that(2) assms(3)] show False by linarith
  qed
  then have "L ! i = L ! j" using assms(1,2) len by (meson linorder_neqE_nat)
  moreover from this have "hrank L i = hrank L j" using assms(1,2) by (auto simp: hmatch_def hcode_def)
  ultimately show ?thesis using rank_inj [of i j L] rank_inj [of j i L] len by (metis linorder_neqE_nat less_irrefl)
qed

text \<open>The codes of length at most \<open>s\<close> cover exactly the words below \<open>hmax L s\<close>.\<close>

lemma hmatch_exists:
  assumes "hmax L s \<le> k" "k < hmax L (Suc s)" "Suc s \<le> 15"
  shows "\<exists>i. hmatch L k i \<and> L ! i = Suc s \<and> hrank L i = k div 2 ^ (16 - Suc s) - hfirst L (Suc s) \<and>
    hfirst L (Suc s) \<le> k div 2 ^ (16 - Suc s)"
proof -
  define m :: nat where "m = 2 ^ (16 - Suc s)"
  define q where "q = k div m"
  have m: "0 < m" by (simp add: m_def)
  have lo: "hfirst L (Suc s) * m \<le> k" using assms(1,3) hfirst_scaled [of s L] by (simp add: m_def)
  then have q: "hfirst L (Suc s) \<le> q"
    using m by (simp add: q_def less_eq_div_iff_mult_less_eq)
  have "k < (hfirst L (Suc s) + hcount L (Suc s)) * m" using assms(2) by (simp only: hmax_def m_def)
  then have "q < hfirst L (Suc s) + hcount L (Suc s)" by (simp only: q_def less_mult_imp_div_less)
  with q have "q - hfirst L (Suc s) < count_list L (Suc s)" by (simp add: hcount_def del: hfirst.simps)
  from rank_exists [OF this] obtain i where i: "i < length L" "L ! i = Suc s" "hrank L i = q - hfirst L (Suc s)"
    by (auto simp: hrank_def)
  with q have "hmatch L k i" by (simp add: hmatch_def hcode_def q_def m_def del: hfirst.simps)
  with i q show ?thesis unfolding q_def m_def by blast
qed

lemma hmatch_below:
  assumes "k < hmax L t" "t \<le> 15"
  shows "\<exists>i. hmatch L k i \<and> L ! i \<le> t"
  using assms
proof (induction t)
  case 0
  then show ?case by (simp add: hmax_def hcount_def)
next
  case (Suc t)
  show ?case
  proof (cases "k < hmax L t")
    case True
    with Suc show ?thesis by (metis Suc_leD le_SucI)
  next
    case False
    then show ?thesis using hmatch_exists [of L t k] Suc.prems by auto
  qed
qed

section \<open>What the tables hold\<close>

section \<open>The decoding tables\<close>

definition fast_value :: "nat list \<Rightarrow> nat \<Rightarrow> stbi_us" where
  "fast_value L i = u16cast (push_bit 9 (int (L ! i)) OR int i)"

text \<open>The low 9 bits \<open>j\<close> of the bit buffer start with the code of symbol \<open>i\<close>, of length at most 9.\<close>

definition hfast :: "nat list \<Rightarrow> nat \<Rightarrow> nat \<Rightarrow> bool" where
  "hfast L j i \<longleftrightarrow> i < length L \<and> L ! i \<noteq> 0 \<and> L ! i \<le> 9 \<and>
     int (j mod 2 ^ (L ! i)) = stbi__bit_reverse (int (hcode L i)) (L ! i)"

text \<open>What the tables hold for the symbols below \<open>m\<close>.\<close>

definition table_upto :: "nat list \<Rightarrow> nat \<Rightarrow> stbi__zhuffman \<Rightarrow> bool" where
  "table_upto L m z \<longleftrightarrow>
     length (zsize z) = 288 \<and> length (zvalue z) = 288 \<and> length (zfast z) = 512 \<and>
     (\<forall>i < m. L ! i \<noteq> 0 \<longrightarrow>
        zsize z ! (hsym L (L ! i) + hrank L i) = word_of_nat (L ! i) \<and>
        zvalue z ! (hsym L (L ! i) + hrank L i) = word_of_nat i) \<and>
     (\<forall>j < 512. (\<forall>i < m. hfast L j i \<longrightarrow> zfast z ! j = fast_value L i) \<and>
        ((\<forall>i < m. \<not> hfast L j i) \<longrightarrow> zfast z ! j = 0))"

definition codes_ok :: "nat list \<Rightarrow> stbi__zhuffman \<Rightarrow> bool" where
  "codes_ok L z \<longleftrightarrow>
     length (zfirstcode z) = 16 \<and> length (zmaxcode z) = 17 \<and> length (zfirstsymbol z) = 16 \<and>
     (\<forall>s \<in> {1..<16}. uint (zfirstcode z ! s) = int (hfirst L s) \<and> zmaxcode z ! s = int (hmax L s) \<and>
        uint (zfirstsymbol z ! s) = int (hsym L s))"

definition table_ok :: "nat list \<Rightarrow> stbi__zhuffman \<Rightarrow> bool" where
  "table_ok L z \<longleftrightarrow> codes_ok L z \<and> zmaxcode z ! 16 = 0x10000 \<and> table_upto L (length L) z"

definition shape_ok :: "stbi__zhuffman \<Rightarrow> bool" where
  "shape_ok z \<longleftrightarrow> length (zfirstcode z) = 16 \<and> length (zmaxcode z) = 17 \<and> length (zfirstsymbol z) = 16 \<and>
     length (zsize z) = 288 \<and> length (zvalue z) = 288 \<and> length (zfast z) = 512"

lemma table_ok_shape: "table_ok L z \<Longrightarrow> shape_ok z"
  by (simp add: table_ok_def codes_ok_def table_upto_def shape_ok_def)

lemma efold_decides:
  assumes "P m s" "m \<le> n"
    and "\<And>i s. m \<le> i \<Longrightarrow> i < n \<Longrightarrow> P i s \<Longrightarrow>
      (if C i then \<exists>s'. f i s = Inr s' \<and> P (Suc i) s' else \<exists>r. f i s = Inl (Failure r))"
  shows "if \<forall>i \<in> {m..<n}. C i then \<exists>t. efold f [m..<n] s = Inr t \<and> P n t
    else \<exists>r. efold f [m..<n] s = Inl (Failure r)"
  using assms
proof (induction "n - m" arbitrary: m s)
  case 0
  then show ?case by simp
next
  case (Suc d)
  then have lt: "m < n" by simp
  then have upt: "[m..<n] = m # [Suc m..<n]" and set: "{m..<n} = insert m {Suc m..<n}"
    by (auto simp: upt_conv_Cons)
  show ?case
  proof (cases "C m")
    case True
    then obtain s' where s': "f m s = Inr s'" "P (Suc m) s'"
      using Suc.prems(1,3) lt by (metis order_refl)
    have "if \<forall>i \<in> {Suc m..<n}. C i then \<exists>t. efold f [Suc m..<n] s' = Inr t \<and> P n t
        else \<exists>r. efold f [Suc m..<n] s' = Inl (Failure r)"
      by (rule Suc.hyps(1)) (use Suc s' lt in auto)
    with True s' show ?thesis by (simp add: upt set)
  next
    case False
    then obtain r where "f m s = Inl (Failure r)"
      using Suc.prems(1,3) lt by (metis order_refl)
    with False show ?thesis by (auto simp: upt set)
  qed
qed

lemma count_sizes_eq:
  assumes "num \<le> length sizelist" "L = map unat (take num sizelist)" "\<forall>l \<in> set L. l \<le> 15"
  shows "count_sizes sizelist num = Inr (map (\<lambda>s. int (hcount L s)) [0..<17])"
proof -
  have el: "unat (sizelist ! i) = L ! i" "uint (sizelist ! i) = int (L ! i)" "L ! i \<le> 15" if "i < num" for i
    using that assms nth_mem [of i L] by auto
  have "efold (\<lambda>i sizes.
         ebind (arr_get sizelist (int i)) (\<lambda>s.
         ebind (arr_get sizes (uint s)) (\<lambda>c. arr_set sizes (uint s) (c + 1))))
       [0..<num] (map (\<lambda>s. int (count_list (take 0 L) s)) [0..<17]) =
      Inr (map (\<lambda>s. int (count_list (take num L) s)) [0..<17])"
  proof (rule efold_Inr_upt)
    fix i assume i: "i < num"
    then have "take (Suc i) L = take i L @ [L ! i]" using assms by (simp add: take_Suc_conv_app_nth)
    then have "(map (\<lambda>s. int (count_list (take i L) s)) [0..<17])[L ! i := int (count_list (take i L) (L ! i)) + 1] =
        map (\<lambda>s. int (count_list (take (Suc i) L) s)) [0..<17]"
      by (intro nth_equalityI) (auto simp: nth_list_update)
    with i el [OF i] assms(1) show "ebind (arr_get sizelist (int i)) (\<lambda>s.
         ebind (arr_get (map (\<lambda>s. int (count_list (take i L) s)) [0..<17]) (uint s))
           (\<lambda>c. arr_set (map (\<lambda>s. int (count_list (take i L) s)) [0..<17]) (uint s) (c + 1))) =
      Inr (map (\<lambda>s. int (count_list (take (Suc i) L) s)) [0..<17])"
      by simp
  qed simp
  moreover have "map (\<lambda>s. int (count_list (take 0 L) s)) [0..<17] = replicate 17 0"
    by (intro nth_equalityI) simp_all
  moreover have "take num L = L" using assms(1,2) by simp
  moreover have "(map (\<lambda>s. int (count_list L s)) [0..<17])[0 := 0] = map (\<lambda>s. int (hcount L s)) [0..<17]"
    by (intro nth_equalityI) (auto simp: nth_list_update hcount_def)
  ultimately show ?thesis by (simp add: count_sizes_def)
qed

lemma check_sizes_decides:
  "if \<forall>s \<in> {1..<16}. hcount L s \<le> 2 ^ s then check_sizes (map (\<lambda>s. int (hcount L s)) [0..<17]) = Inr ()
   else \<exists>r. check_sizes (map (\<lambda>s. int (hcount L s)) [0..<17]) = Inl (Failure r)"
proof -
  have "if \<forall>s \<in> {1..<16}. hcount L s \<le> 2 ^ s
    then \<exists>t. check_sizes (map (\<lambda>s. int (hcount L s)) [0..<17]) = Inr t \<and> True
    else \<exists>r. check_sizes (map (\<lambda>s. int (hcount L s)) [0..<17]) = Inl (Failure r)"
    unfolding check_sizes_def
    by (rule efold_decides [where P = "\<lambda>_ _. True"]) (auto simp: not_le simp flip: of_nat_le_iff of_nat_less_iff)
  then show ?thesis by auto
qed

definition assign_inv ::
    "nat list \<Rightarrow> stbi__zhuffman \<Rightarrow> nat \<Rightarrow> int \<times> int \<times> int list \<times> stbi__zhuffman \<Rightarrow> bool" where
  "assign_inv L z0 i st \<longleftrightarrow>
     (case st of (code, k, next_code, z) \<Rightarrow>
        code = int (hfirst L i) \<and> k = int (hsym L i) \<and> length next_code = 16 \<and> shape_ok z \<and>
        zsize z = zsize z0 \<and> zvalue z = zvalue z0 \<and> zfast z = zfast z0 \<and>
        (\<forall>s \<in> {1..<i}. hfirst L s + hcount L s \<le> 2 ^ s \<and> next_code ! s = int (hfirst L s) \<and>
           uint (zfirstcode z ! s) = int (hfirst L s) \<and> zmaxcode z ! s = int (hmax L s) \<and>
           uint (zfirstsymbol z ! s) = int (hsym L s)))"

lemma hsym_Suc: "hsym L (Suc s) = hsym L s + hcount L s"
  by (simp add: hsym_def)

lemma sum_count_le:
  assumes "finite A"
  shows "sum (count_list L) A \<le> length L"
proof -
  have "sum (count_list L) A \<le> sum (count_list L) (A \<union> set L)"
    using assms by (intro sum_mono2) auto
  also have "\<dots> = length L" using assms by (intro sum_count_set) auto
  finally show ?thesis .
qed

lemma hsym_le: "hsym L s \<le> length L"
proof -
  have "hsym L s \<le> sum (count_list L) {..<s}"
    unfolding hsym_def by (intro sum_mono) (simp add: hcount_def)
  with sum_count_le [of "{..<s}" L] show ?thesis by simp
qed

lemma hsym_rank_less:
  assumes "i < length L" "L ! i \<noteq> 0"
  shows "hsym L (L ! i) + hrank L i < length L"
  using hsym_le [of L "Suc (L ! i)"] hrank_less [OF assms] by (simp add: hsym_Suc)

lemma assign_step_decides:
  assumes "length L \<le> 288" "1 \<le> i" "i < 16" "assign_inv L z0 i st"
  shows "if hcount L i \<noteq> 0 \<longrightarrow> hfirst L i + hcount L i \<le> 2 ^ i
    then \<exists>st'. assign_step (map (\<lambda>s. int (hcount L s)) [0..<17]) i st = Inr st' \<and> assign_inv L z0 (Suc i) st'
    else \<exists>r. assign_step (map (\<lambda>s. int (hcount L s)) [0..<17]) i st = Inl (Failure r)"
proof -
  obtain code k nc z where st: "st = (code, k, nc, z)" by (cases st) auto
  have inv: "code = int (hfirst L i)" "k = int (hsym L i)" "length nc = 16" "shape_ok z"
      "zsize z = zsize z0" "zvalue z = zvalue z0" "zfast z = zfast z0"
      "\<And>s. 1 \<le> s \<Longrightarrow> s < i \<Longrightarrow> hfirst L s + hcount L s \<le> 2 ^ s \<and> nc ! s = int (hfirst L s) \<and>
           uint (zfirstcode z ! s) = int (hfirst L s) \<and> zmaxcode z ! s = int (hmax L s) \<and>
           uint (zfirstsymbol z ! s) = int (hsym L s)"
    using assms(4) by (auto simp: assign_inv_def st)
  have first: "hfirst L i \<le> 2 ^ i"
  proof (cases "i = 1")
    case False
    with assms(2) have "hfirst L (i - 1) + hcount L (i - 1) \<le> 2 ^ (i - 1)" using inv(8) [of "i - 1"] by simp
    moreover have "hfirst L i = 2 * (hfirst L (i - 1) + hcount L (i - 1))" "(2 :: nat) ^ i = 2 * 2 ^ (i - 1)"
      using assms(2) by (cases i; simp)+
    ultimately show ?thesis by simp
  qed (simp add: hcount_def)
  have "(2 :: nat) ^ i \<le> 2 ^ 15" using assms(3) by (intro power_increasing) simp_all
  with first have fit: "hfirst L i < 65536" by simp
  have sym: "hsym L i < 65536" using hsym_le [of L i] assms(1) by simp
  have cast: "uint (u16cast (int n)) = int n" if "n < 65536" for n
    using that by (simp add: u16cast_def unsigned_of_nat take_bit_nat_eq_self)
  have bad: "int (hcount L i) \<noteq> 0 \<and> code + int (hcount L i) - 1 \<ge> 2 ^ i \<longleftrightarrow>
      \<not> (hcount L i \<noteq> 0 \<longrightarrow> hfirst L i + hcount L i \<le> 2 ^ i)"
  proof -
    have "code + int (hcount L i) - 1 \<ge> 2 ^ i \<longleftrightarrow> \<not> int (hfirst L i + hcount L i) \<le> int (2 ^ i)"
      by (auto simp: inv(1))
    then show ?thesis by (simp only: of_nat_le_iff) auto
  qed
  define st' where "st' = ((code + int (hcount L i)) * 2, k + int (hcount L i), nc[i := code],
      z\<lparr>zfirstcode := (zfirstcode z)[i := u16cast code], zfirstsymbol := (zfirstsymbol z)[i := u16cast k],
        zmaxcode := (zmaxcode z)[i := (code + int (hcount L i)) * 2 ^ (16 - i)]\<rparr>)"
  have step: "assign_step (map (\<lambda>s. int (hcount L s)) [0..<17]) i st =
      (if int (hcount L i) \<noteq> 0 \<and> code + int (hcount L i) - 1 \<ge> 2 ^ i then Inl (Failure ''bad codelengths'') else Inr st')"
    using inv(3,4) assms(3) by (simp add: assign_step_def st st'_def shape_ok_def Let_def)
  have "assign_inv L z0 (Suc i) st'" if ok: "hcount L i \<noteq> 0 \<longrightarrow> hfirst L i + hcount L i \<le> 2 ^ i"
  proof -
    have "hfirst L i + hcount L i \<le> 2 ^ i" using ok first by (cases "hcount L i = 0") auto
    with inv assms(2,3) fit sym cast show ?thesis
      by (auto simp: assign_inv_def st'_def shape_ok_def hsym_Suc hmax_def less_Suc_eq nth_list_update)
  qed
  then show ?thesis
    unfolding step bad by (auto simp del: split_paired_Ex)
qed


section \<open>Filling the tables\<close>

lemma fill_fast_eq:
  assumes "0 \<le> j" "length fast = 512"
  shows "\<exists>fast'. fill_fast fast v j s = Inr fast' \<and> length fast' = 512 \<and>
    (\<forall>t < 512. fast' ! t = (if nat j \<le> t \<and> (t - nat j) mod 2 ^ s = 0 then v else fast ! t))"
  using assms
proof (induction fast v j s rule: fill_fast.induct)
  case (1 fast v j s)
  show ?case
  proof (cases "j < 512")
    case True
    define f1 where "f1 = fast[nat j := v]"
    have set: "arr_set fast j v = Inr f1" using True "1.prems" by (simp add: f1_def)
    obtain f' where f': "fill_fast f1 v (j + 2 ^ s) s = Inr f'" "length f' = 512"
        "\<And>t. t < 512 \<Longrightarrow> f' ! t = (if nat (j + 2 ^ s) \<le> t \<and> (t - nat (j + 2 ^ s)) mod 2 ^ s = 0 then v else f1 ! t)"
      using "1.IH" [OF True set] "1.prems" by (auto simp: f1_def)
    have jn: "nat (j + 2 ^ s) = nat j + 2 ^ s" using "1.prems" by (simp add: nat_add_distrib nat_power_eq)
    have "f' ! t = (if nat j \<le> t \<and> (t - nat j) mod 2 ^ s = 0 then v else fast ! t)" if t: "t < 512" for t
    proof -
      consider "t < nat j" | "t = nat j" | "nat j < t" "t < nat j + 2 ^ s" | "nat j + 2 ^ s \<le> t" by linarith
      then show ?thesis
      proof cases
        case 4
        then have "t - nat j = t - (nat j + 2 ^ s) + 2 ^ s" by simp
        then have "(t - nat j) mod 2 ^ s = (t - (nat j + 2 ^ s)) mod 2 ^ s" by (metis mod_add_self2)
        moreover have "nat j < t" using 4 less_le_trans [of "nat j" "nat j + 2 ^ s" t] by simp
        ultimately show ?thesis using 4 f'(3) [OF t] by (auto simp: jn f1_def)
      qed (use f'(3) [OF t] "1.prems" t in \<open>auto simp: jn f1_def\<close>)
    qed
    with f' set True show ?thesis by (subst fill_fast.simps) auto
  next
    case False
    with "1.prems" show ?thesis by (subst fill_fast.simps) auto
  qed
qed

lemma hfast_iff_match:
  assumes "hvalid L" "\<forall>l \<in> set L. l \<le> 15" "take_bit 9 w = int j"
  shows "hfast L j i \<longleftrightarrow> hmatch L (nat (stbi__bitreverse16 w)) i \<and> L ! i \<le> 9"
proof (cases "i < length L \<and> L ! i \<noteq> 0 \<and> L ! i \<le> 9")
  case True
  define s where "s = L ! i"
  define k where "k = stbi__bitreverse16 w"
  have k: "0 \<le> k" unfolding k_def by (rule bitreverse16_range)
  have "hcode L i < 2 ^ s" using hcode_less [OF assms(1), of i] True by (simp add: s_def)
  then have "take_bit s (int (hcode L i)) = int (hcode L i)"
    by (metis of_nat_take_bit take_bit_nat_eq_self)
  then have "take_bit s w = stbi__bit_reverse (int (hcode L i)) s \<longleftrightarrow> drop_bit (16 - s) k = int (hcode L i)"
    using take_bit_eq_reverse_iff [of s "int (hcode L i)" w] True by (simp add: s_def k_def)
  moreover have "take_bit s w = int (j mod 2 ^ s)"
  proof -
    have "take_bit s w = take_bit s (take_bit 9 w)" using True by (simp add: s_def min_def)
    also have "\<dots> = int (j mod 2 ^ s)" by (simp only: assms(3)) (simp add: take_bit_eq_mod zmod_int)
    finally show ?thesis .
  qed
  moreover have "drop_bit (16 - s) k = int (nat k div 2 ^ (16 - s))"
    using k by (simp add: drop_bit_eq_div zdiv_int)
  ultimately show ?thesis using True by (simp add: hfast_def hmatch_def s_def k_def)
qed (auto simp: hfast_def hmatch_def)

lemma hfast_unique:
  assumes "hvalid L" "\<forall>l \<in> set L. l \<le> 15" "j < 512" "hfast L j i" "hfast L j i'"
  shows "i = i'"
proof -
  have "take_bit 9 (int j) = int j" using assms(3) by (simp add: take_bit_int_eq_self)
  from hfast_iff_match [OF assms(1,2) this] hmatch_unique assms show ?thesis by blast
qed

lemma hsym_rank_inj:
  assumes "i < length L" "j < length L" "L ! i \<noteq> 0" "L ! j \<noteq> 0"
    "hsym L (L ! i) + hrank L i = hsym L (L ! j) + hrank L j"
  shows "i = j"
proof -
  have mono: "hsym L s \<le> hsym L t" if "s \<le> t" for s t
    unfolding hsym_def using that by (intro sum_mono2) auto
  have "\<not> L ! a < L ! b" if "a < length L" "b < length L" "L ! a \<noteq> 0" "L ! b \<noteq> 0"
    "hsym L (L ! a) + hrank L a = hsym L (L ! b) + hrank L b" for a b
  proof
    assume "L ! a < L ! b"
    then have "hsym L (Suc (L ! a)) \<le> hsym L (L ! b)" by (intro mono) simp
    with hrank_less [OF that(1,3)] that(5) show False by (simp add: hsym_Suc)
  qed
  then have "L ! i = L ! j" using assms by (metis linorder_neqE_nat)
  with assms(5) have "hrank L i = hrank L j" by simp
  then show ?thesis
    using rank_inj [of i j L] rank_inj [of j i L] assms \<open>L ! i = L ! j\<close> by (metis linorder_neqE_nat less_irrefl)
qed

section \<open>Building the tables\<close>

definition symbol_inv :: "nat list \<Rightarrow> nat \<Rightarrow> int list \<times> stbi__zhuffman \<Rightarrow> bool" where
  "symbol_inv L m st \<longleftrightarrow>
     (case st of (next_code, z) \<Rightarrow>
        length next_code = 16 \<and>
        (\<forall>s \<in> {1..<16}. next_code ! s = int (hfirst L s + count_list (take m L) s)) \<and>
        codes_ok L z \<and> zmaxcode z ! 16 = 0x10000 \<and> table_upto L m z)"

lemma table_upto_unused:
  assumes "table_upto L m z" "L ! m = 0"
  shows "table_upto L (Suc m) z"
  using assms by (auto simp: table_upto_def less_Suc_eq hfast_def)

lemma fast_fill:
  assumes "hvalid L" "\<forall>l \<in> set L. l \<le> 15" "m < length L" "L ! m \<noteq> 0" "L ! m \<le> 9" "length fast = 512"
    and old: "\<And>j. j < 512 \<Longrightarrow> (\<forall>i < m. hfast L j i \<longrightarrow> fast ! j = fast_value L i) \<and>
        ((\<forall>i < m. \<not> hfast L j i) \<longrightarrow> fast ! j = 0)"
  shows "\<exists>fast'. fill_fast fast (fast_value L m) (stbi__bit_reverse (int (hcode L m)) (L ! m)) (L ! m) = Inr fast' \<and>
    length fast' = 512 \<and> (\<forall>j < 512. (\<forall>i < Suc m. hfast L j i \<longrightarrow> fast' ! j = fast_value L i) \<and>
        ((\<forall>i < Suc m. \<not> hfast L j i) \<longrightarrow> fast' ! j = 0))"
proof -
  define s where "s = L ! m"
  define j0 where "j0 = stbi__bit_reverse (int (hcode L m)) s"
  have j0: "take_bit s j0 = j0"
    using assms(5) by (auto simp: j0_def s_def bit_eq_iff bit_take_bit_iff bit_bit_reverse)
  then have r: "0 \<le> j0" "j0 < 2 ^ s"
    by (metis take_bit_nonnegative) (metis j0 take_bit_int_less_exp)
  have hit: "hfast L j m \<longleftrightarrow> nat j0 \<le> j \<and> (j - nat j0) mod 2 ^ s = 0" for j
  proof -
    have "hfast L j m \<longleftrightarrow> j mod 2 ^ s = nat j0"
      using assms(3-5) r(1) by (auto simp: hfast_def s_def j0_def)
    also have "\<dots> \<longleftrightarrow> nat j0 \<le> j \<and> (j - nat j0) mod 2 ^ s = 0"
    proof
      assume "j mod 2 ^ s = nat j0"
      then show "nat j0 \<le> j \<and> (j - nat j0) mod 2 ^ s = 0"
        by (metis mod_less_eq_dividend minus_mod_eq_mult_div mod_mult_self1_is_0)
    next
      assume a: "nat j0 \<le> j \<and> (j - nat j0) mod 2 ^ s = 0"
      then have "j mod 2 ^ s = (nat j0 + (j - nat j0)) mod 2 ^ s" by simp
      also have "\<dots> = nat j0 mod 2 ^ s" using a by (metis add.right_neutral mod_add_right_eq)
      finally show "j mod 2 ^ s = nat j0" using r by (simp add: nat_less_iff)
    qed
    finally show ?thesis .
  qed
  obtain f' where f': "fill_fast fast (fast_value L m) j0 s = Inr f'" "length f' = 512"
      "\<And>t. t < 512 \<Longrightarrow> f' ! t = (if hfast L t m then fast_value L m else fast ! t)"
    using fill_fast_eq [OF r(1) assms(6), of "fast_value L m" s] hit by auto
  have "(\<forall>i < Suc m. hfast L j i \<longrightarrow> f' ! j = fast_value L i) \<and> ((\<forall>i < Suc m. \<not> hfast L j i) \<longrightarrow> f' ! j = 0)"
    if j: "j < 512" for j
    using old [OF j] f'(3) [OF j] hfast_unique [OF assms(1,2) j, of m] by (auto simp: less_Suc_eq)
  with f'(1,2) show ?thesis by (auto simp: j0_def s_def)
qed

lemma symbol_step_inv:
  assumes "hvalid L" "\<forall>l \<in> set L. l \<le> 15" "length L \<le> 288"
    and "num \<le> length sizelist" "L = map unat (take num sizelist)" "m < num"
    and "symbol_inv L m st"
  shows "\<exists>st'. symbol_step sizelist m st = Inr st' \<and> symbol_inv L (Suc m) st'"
proof -
  obtain nc z where st: "st = (nc, z)" by (cases st) auto
  define s where "s = L ! m"
  have m: "m < length L" "take (Suc m) L = take m L @ [s]" "uint (sizelist ! m) = int s" "s \<le> 15"
    using assms nth_mem [of m L] by (auto simp: s_def take_Suc_conv_app_nth)
  have inv: "length nc = 16" "\<And>t. 1 \<le> t \<Longrightarrow> t < 16 \<Longrightarrow> nc ! t = int (hfirst L t + count_list (take m L) t)"
      "codes_ok L z" "zmaxcode z ! 16 = 0x10000" "table_upto L m z"
    using assms(7) by (auto simp: symbol_inv_def st)
  show ?thesis
  proof (cases "s = 0")
    case True
    then have "symbol_step sizelist m st = Inr st" using m assms(4,6) by (simp add: symbol_step_def st)
    moreover have "symbol_inv L (Suc m) st"
      using True inv m table_upto_unused [OF inv(5)] by (auto simp: symbol_inv_def st s_def)
    ultimately show ?thesis by blast
  next
    case False
    define c where "c = hsym L s + hrank L m"
    have c: "c < 288" using hsym_rank_less [of m L] False m(1) assms(3) by (simp add: c_def s_def)
    have nc: "nc ! s = int (hcode L m)" using inv(2) [of s] False m(4) by (simp add: hcode_def hrank_def s_def)
    have codes: "length (zfirstcode z) = 16" "length (zfirstsymbol z) = 16"
        "uint (zfirstcode z ! s) = int (hfirst L s)" "uint (zfirstsymbol z ! s) = int (hsym L s)"
      using inv(3) False m(4) by (auto simp: codes_ok_def)
    have tab: "length (zsize z) = 288" "length (zvalue z) = 288" "length (zfast z) = 512"
      using inv(5) by (auto simp: table_upto_def)
    have ci: "int (hcode L m) - int (hfirst L s) + int (hsym L s) = int c"
      by (simp add: hcode_def c_def s_def)
    obtain f' where f': "(if s \<le> 9 then fill_fast (zfast z) (fast_value L m) (stbi__bit_reverse (int (hcode L m)) s) s
           else Inr (zfast z)) = Inr f'" "length f' = 512"
        "\<And>j. j < 512 \<Longrightarrow> (\<forall>i < Suc m. hfast L j i \<longrightarrow> f' ! j = fast_value L i) \<and>
          ((\<forall>i < Suc m. \<not> hfast L j i) \<longrightarrow> f' ! j = 0)"
    proof (cases "s \<le> 9")
      case True
      then show ?thesis
        using fast_fill [OF assms(1,2) m(1), of "zfast z"] False inv(5) that by (auto simp: s_def table_upto_def)
    next
      case no: False
      then have "\<not> hfast L j m" for j by (simp add: hfast_def s_def)
      with no inv(5) that [of "zfast z"] tab(3) show ?thesis by (auto simp: table_upto_def less_Suc_eq)
    qed
    define z' where "z' = z\<lparr>zsize := (zsize z)[c := word_of_nat s], zvalue := (zvalue z)[c := word_of_nat m], zfast := f'\<rparr>"
    have "symbol_step sizelist m st = Inr (nc[s := int (hcode L m) + 1], z')"
      using m False inv(1) assms(4,6) codes nc tab c f'(1)
      by (cases "s \<le> 9"; cases z) (simp_all add: symbol_step_def st z'_def ci s_def [symmetric] Let_def
          fast_value_def [of L m, unfolded s_def [symmetric], symmetric] STBI__BYTECAST_def u16cast_def [of "int m"])
    moreover have "symbol_inv L (Suc m) (nc[s := int (hcode L m) + 1], z')"
    proof -
      have "table_upto L (Suc m) z'"
      proof -
        have "zsize z' ! (hsym L (L ! i) + hrank L i) = word_of_nat (L ! i) \<and>
            zvalue z' ! (hsym L (L ! i) + hrank L i) = word_of_nat i" if i: "i < Suc m" "L ! i \<noteq> 0" for i
        proof (cases "i = m")
          case True
          with c tab show ?thesis by (simp add: z'_def c_def s_def)
        next
          case ne: False
          then have "hsym L (L ! i) + hrank L i \<noteq> c"
            using hsym_rank_inj [of i L m] i False m(1) by (auto simp: c_def s_def)
          with i ne inv(5) show ?thesis by (auto simp: z'_def table_upto_def less_Suc_eq)
        qed
        with f'(2,3) tab show ?thesis by (auto simp: table_upto_def z'_def)
      qed
      moreover have "codes_ok L z'" "zmaxcode z' ! 16 = 0x10000"
        using inv(3,4) by (auto simp: codes_ok_def z'_def)
      moreover have "(nc[s := int (hcode L m) + 1]) ! t = int (hfirst L t + count_list (take (Suc m) L) t)"
        if "1 \<le> t" "t < 16" for t
        using inv(1) inv(2) [OF that] nc that m(2,4) by (cases "t = s") auto
      ultimately show ?thesis using inv(1) by (auto simp: symbol_inv_def)
    qed
    ultimately show ?thesis by blast
  qed
qed


lemma zbuild_huffman_decides:
  assumes "\<forall>l \<in> set L. l \<le> 15" "num \<le> 288" "num \<le> length sizelist"
    and "L = map unat (take num sizelist)" "shape_ok z"
  shows "if hvalid L then \<exists>z'. stbi__zbuild_huffman z sizelist num = Inr z' \<and> table_ok L z'
    else \<exists>r. stbi__zbuild_huffman z sizelist num = Inl (Failure r)"
proof -
  define sizes where "sizes = map (\<lambda>s. int (hcount L s)) [0..<17]"
  define z0 where "z0 = z\<lparr>zfast := replicate 512 0\<rparr>"
  have cnt: "count_sizes sizelist num = Inr sizes"
    unfolding sizes_def by (rule count_sizes_eq) (use assms in auto)
  have len: "length L = num" using assms by simp
  have valid_small: "\<forall>s \<in> {1..<16}. hcount L s \<le> 2 ^ s" if "hvalid L"
  proof
    fix s assume "s \<in> {1..<16 :: nat}"
    then show "hcount L s \<le> 2 ^ s" using hvalid_first [OF that, of s] by simp
  qed
  have assign: "if \<forall>i \<in> {1..<16}. hcount L i \<noteq> 0 \<longrightarrow> hfirst L i + hcount L i \<le> 2 ^ i
    then \<exists>st. efold (assign_step sizes) [1..<16] (0, 0, replicate 16 0, z0) = Inr st \<and> assign_inv L z0 16 st
    else \<exists>r. efold (assign_step sizes) [1..<16] (0, 0, replicate 16 0, z0) = Inl (Failure r)"
    unfolding sizes_def
    by (rule efold_decides, use assms(5) in \<open>simp add: assign_inv_def z0_def shape_ok_def hsym_def hcount_def\<close>, simp)
      (rule assign_step_decides; use assms(2) len in simp)
  show ?thesis
  proof (cases "hvalid L")
    case True
    then obtain st where st: "efold (assign_step sizes) [1..<16] (0, 0, replicate 16 0, z0) = Inr st" "assign_inv L z0 16 st"
      using assign unfolding hvalid_def by auto
    obtain code k nc z1 where st4: "st = (code, k, nc, z1)" by (cases st) auto
    have z1: "length nc = 16" "shape_ok z1" "zfast z1 = replicate 512 0"
        "\<And>s. s \<in> {1..<16} \<Longrightarrow> nc ! s = int (hfirst L s) \<and>
           uint (zfirstcode z1 ! s) = int (hfirst L s) \<and> zmaxcode z1 ! s = int (hmax L s) \<and>
           uint (zfirstsymbol z1 ! s) = int (hsym L s)"
      using st(2) by (auto simp: assign_inv_def st4 z0_def)
    define z2 where "z2 = z1\<lparr>zmaxcode := (zmaxcode z1)[16 := 0x10000]\<rparr>"
    have init: "symbol_inv L 0 (nc, z2)"
      using z1 by (auto simp: symbol_inv_def z2_def codes_ok_def table_upto_def shape_ok_def)
    have "\<exists>t. efold (symbol_step sizelist) [0..<n] (nc, z2) = Inr t \<and> symbol_inv L n t" if "n \<le> num" for n
      using that
    proof (induction n)
      case 0
      then show ?case using init by simp
    next
      case (Suc n)
      then obtain t where "efold (symbol_step sizelist) [0..<n] (nc, z2) = Inr t" "symbol_inv L n t" by auto
      with symbol_step_inv [OF True assms(1) _ assms(3,4), of n t] Suc.prems assms(2) len show ?case
        by (auto simp: efold_append)
    qed
    then obtain nc' z3 where z3: "efold (symbol_step sizelist) [0..<num] (nc, z2) = Inr (nc', z3)" "symbol_inv L num (nc', z3)"
      by (metis order_refl surj_pair)
    have "check_sizes sizes = Inr ()"
      using check_sizes_decides [of L] valid_small [OF True] by (simp add: sizes_def)
    then have "stbi__zbuild_huffman z sizelist num = Inr z3"
      using cnt st(1) z3(1) z1(2)
      by (simp add: stbi__zbuild_huffman_def z0_def [symmetric] Let_def st4 z2_def shape_ok_def)
    moreover have "table_ok L z3" using z3(2) len by (simp add: symbol_inv_def table_ok_def)
    ultimately show ?thesis using True by auto
  next
    case False
    then obtain r where bad: "efold (assign_step sizes) [1..<16] (0, 0, replicate 16 0, z0) = Inl (Failure r)"
      using assign unfolding hvalid_def [symmetric] by auto
    have "(\<exists>r. check_sizes sizes = Inl (Failure r)) \<or> check_sizes sizes = Inr ()"
      using check_sizes_decides [of L] by (auto simp: sizes_def split: if_splits)
    then show ?thesis
      using False cnt bad by (auto simp: stbi__zbuild_huffman_def z0_def [symmetric] Let_def)
  qed
qed

end
