(* ===== verification/Stbi_Zlib_Bits.thy ===== *)
theory Stbi_Zlib_Bits
  imports Stbi_Zlib_Huffman
begin

text \<open>
  The bit reader of the zlib decoder against the stream of bits it reads. \<open>zstream a\<close> is the sequence
  of bits still to come, low bits first; \<open>stbi__zreceive\<close> returns and consumes a prefix of it, and
  \<open>stbi__zhuffman_decode\<close> returns the symbol whose code starts it, by the fast table or by the search
  over code lengths.
\<close>

section \<open>The stream of bits\<close>

section \<open>The bit stream\<close>

definition zbits_ok :: "stbi__zbuf \<Rightarrow> bool" where
  "zbits_ok a \<longleftrightarrow> 0 \<le> num_bits a \<and> num_bits a \<le> 32 \<and> uint (code_buffer a) < 2 ^ nat (num_bits a)"

text \<open>Bit \<open>i\<close> of the input that is still to be read: from the bit buffer, then from the unread bytes, low
  bits first, then zeros for ever.\<close>

definition zstream :: "stbi__zbuf \<Rightarrow> nat \<Rightarrow> bool" where
  "zstream a i \<longleftrightarrow>
     (if i < nat (num_bits a) then bit (code_buffer a) i
      else let k = i - nat (num_bits a)
           in k div 8 < length (zbuffer a) \<and> bit (zbuffer a ! (k div 8)) (k mod 8))"

lemma zbits_high: "zbits_ok a \<Longrightarrow> bit (code_buffer a) i \<Longrightarrow> i < nat (num_bits a)"
proof -
  assume ok: "zbits_ok a" and b: "bit (code_buffer a) i"
  have "take_bit (nat (num_bits a)) (uint (code_buffer a)) = uint (code_buffer a)"
    using ok by (simp add: zbits_ok_def take_bit_int_eq_self)
  moreover have "bit (uint (code_buffer a)) i" using b bit_imp_le_length [OF b] by (simp add: bit_uint_iff)
  ultimately show ?thesis by (metis bit_take_bit_iff)
qed

lemma zbits_okI:
  assumes "0 \<le> num_bits a" "num_bits a \<le> 32" "\<And>i. bit (code_buffer a) i \<Longrightarrow> i < nat (num_bits a)"
  shows "zbits_ok a"
proof -
  have "take_bit (nat (num_bits a)) (uint (code_buffer a)) = uint (code_buffer a)"
    using assms(3) by (auto simp: bit_eq_iff bit_take_bit_iff bit_uint_iff)
  then have "uint (code_buffer a) < 2 ^ nat (num_bits a)" by (metis take_bit_int_less_exp)
  with assms(1,2) show ?thesis by (simp add: zbits_ok_def)
qed

lemma zget8_stream:
  assumes "zbits_ok a" "num_bits a \<le> 24" "stbi__zget8 a = (b, y)"
  defines "a' \<equiv> y\<lparr>code_buffer := code_buffer y OR push_bit (nat (num_bits y)) (ucast b), num_bits := num_bits y + 8\<rparr>"
  shows "zbits_ok a'" "zstream a' = zstream a"
proof -
  define n where "n = nat (num_bits a)"
  have n: "num_bits a = int n" "n \<le> 24" using assms(1,2) by (auto simp: zbits_ok_def n_def)
  note f = zget8_frame [OF assms(3)]
  have buf: "code_buffer a' = code_buffer a OR push_bit n (ucast b)" "num_bits a' = int n + 8" "zbuffer a' = zbuffer y"
    using f n by (simp_all add: a'_def)
  have bits: "bit (code_buffer a') i \<longleftrightarrow> bit (code_buffer a) i \<or> n \<le> i \<and> bit b (i - n)" for i
    using n(2) bit_imp_le_length [of b "i - n"] by (auto simp: buf bit_simps)
  show "zbits_ok a'"
  proof (rule zbits_okI)
    fix i assume "bit (code_buffer a') i"
    then consider "bit (code_buffer a) i" | "n \<le> i" "bit b (i - n)" using bits by blast
    then show "i < nat (num_bits a')"
    proof cases
      case 1
      then have "i < n" using zbits_high [OF assms(1)] n by simp
      then show ?thesis by (simp add: buf)
    next
      case 2
      then show ?thesis using bit_imp_le_length [of b "i - n"] by (simp add: buf)
    qed
  qed (use n in \<open>simp_all add: buf\<close>)
  show "zstream a' = zstream a"
  proof
    fix i
    consider "i < n" | "n \<le> i" "i < n + 8" | "n + 8 \<le> i" by linarith
    then show "zstream a' i = zstream a i"
    proof cases
      case 1
      moreover from this have "i < nat (int n + 8)" by linarith
      ultimately show ?thesis by (simp add: zstream_def n buf(2) bits)
    next
      case 2
      have "\<not> bit (code_buffer a) i" using zbits_high [OF assms(1), of i] 2(1) n by auto
      then have "zstream a' i \<longleftrightarrow> bit b (i - n)" using 2 by (simp add: zstream_def buf(2) bits nat_add_distrib)
      moreover have "zstream a i \<longleftrightarrow> bit b (i - n)"
        using f(5) 2 by (auto simp: zstream_def n)
      ultimately show ?thesis by simp
    next
      case 3
      then obtain k where k: "i = n + 8 + k" by (metis le_Suc_ex)
      have "nat (int n + 8) = n + 8" by simp
      moreover have "(8 + k) div 8 = Suc (k div 8)" "(8 + k) mod 8 = k mod 8" by simp_all
      ultimately show ?thesis using f(5) by (auto simp: zstream_def n(1) buf k Let_def)
    qed
  qed
qed

lemma fill_bits_step:
  assumes "zbits_ok a" "num_bits a \<le> 24" "stbi__zget8 a = (x, y)"
  defines "a' \<equiv> y\<lparr>code_buffer := code_buffer y OR push_bit (nat (num_bits y)) (ucast x), num_bits := num_bits y + 8\<rparr>"
  shows "\<not> (num_bits a < 0 \<or> num_bits a \<ge> 32)" "\<not> code_buffer a \<ge> push_bit (nat (num_bits a)) 1"
    "stbi__fill_bits a = (if num_bits a' \<le> 24 then stbi__fill_bits a' else Inr a')"
proof -
  show ok: "\<not> (num_bits a < 0 \<or> num_bits a \<ge> 32)" using assms(1,2) by (auto simp: zbits_ok_def)
  define n where "n = nat (num_bits a)"
  have n: "n \<le> 24" using assms(2) by (simp add: n_def)
  have "uint (push_bit n (1 :: uint32)) = 2 ^ n"
  proof -
    have "(2 :: int) ^ n < 2 ^ 32" using n by (intro power_strict_increasing) simp_all
    with n show ?thesis by (subst unsigned_push_bit_eq) (simp add: take_bit_int_eq_self)
  qed
  then show small: "\<not> code_buffer a \<ge> push_bit (nat (num_bits a)) 1"
    using assms(1) by (simp add: zbits_ok_def word_le_def n_def)
  show "stbi__fill_bits a = (if num_bits a' \<le> 24 then stbi__fill_bits a' else Inr a')"
    using ok small assms(3) by (subst stbi__fill_bits.simps) (simp add: a'_def Let_def)
qed

lemma fill_bits_stream:
  assumes "zbits_ok a" "num_bits a \<le> 24"
  shows "\<exists>b. stbi__fill_bits a = Inr b \<and> zbits_ok b \<and> 24 < num_bits b \<and> zstream b = zstream a"
  using assms
proof (induction a rule: stbi__fill_bits.induct)
  case (1 a)
  obtain x y where g: "stbi__zget8 a = (x, y)" by fastforce
  define a' where "a' = y\<lparr>code_buffer := code_buffer y OR push_bit (nat (num_bits y)) (ucast x), num_bits := num_bits y + 8\<rparr>"
  note st = fill_bits_step [OF "1.prems" g, folded a'_def]
  have a': "zbits_ok a'" "zstream a' = zstream a"
    using zget8_stream [OF "1.prems" g] by (simp_all add: a'_def)
  show ?case
  proof (cases "num_bits a' \<le> 24")
    case True
    with "1.IH" [OF st(1,2) g [symmetric] refl refl] a' st(3) show ?thesis by (simp add: a'_def)
  next
    case False
    with a' st(3) show ?thesis by auto
  qed
qed

text \<open>The value of the next \<open>n\<close> bits, low bit first.\<close>

definition sval :: "(nat \<Rightarrow> bool) \<Rightarrow> nat \<Rightarrow> nat" where
  "sval f n = horner_sum of_bool 2 (map f [0..<n])"

lemma bit_sval: "bit (sval f n) i \<longleftrightarrow> i < n \<and> f i"
  by (auto simp: sval_def bit_horner_sum_bit_iff)

lemma sval_less: "sval f n < 2 ^ n"
proof -
  have "take_bit n (sval f n) = sval f n" by (auto simp: bit_eq_iff bit_take_bit_iff bit_sval)
  then show ?thesis by (metis take_bit_nat_less_exp)
qed

lemma consume_stream:
  assumes "zbits_ok a" "int n \<le> num_bits a"
  defines "b \<equiv> a\<lparr>code_buffer := drop_bit n (code_buffer a), num_bits := num_bits a - int n\<rparr>"
  shows "zbits_ok b" "zstream b = (\<lambda>i. zstream a (i + n))"
proof -
  have "i < nat (num_bits b)" if "bit (code_buffer b) i" for i
  proof -
    have "n + i < nat (num_bits a)" using that zbits_high [OF assms(1)] by (simp add: b_def bit_drop_bit_eq)
    then show ?thesis by (simp add: b_def)
  qed
  then show "zbits_ok b"
    using assms(2) assms(1) [unfolded zbits_ok_def] by (intro zbits_okI) (auto simp: b_def)
  show "zstream b = (\<lambda>i. zstream a (i + n))"
  proof
    fix i
    have "nat (num_bits a - int n) = nat (num_bits a) - n" using assms(2) by simp
    moreover have "n \<le> nat (num_bits a)" using assms(2) by simp
    ultimately show "zstream b i = zstream a (i + n)"
      by (auto simp: zstream_def b_def bit_drop_bit_eq Let_def add.commute)
  qed
qed

lemma zreceive_stream:
  assumes "zbits_ok a" "n \<le> 16"
  shows "\<exists>k b. stbi__zreceive a n = Inr (k, b) \<and> zbits_ok b \<and> zstream b = (\<lambda>i. zstream a (i + n)) \<and>
    unat k = sval (zstream a) n"
proof -
  obtain c where c: "(if num_bits a < int n then stbi__fill_bits a else Inr a) = Inr c" "zbits_ok c"
      "int n \<le> num_bits c" "zstream c = zstream a"
    using fill_bits_stream [OF assms(1)] assms by (cases "num_bits a < int n") force+
  have mask: "push_bit n (1 :: uint32) - 1 = mask n" by (simp add: mask_eq_exp_minus_1 push_bit_eq_mult)
  have "unat (code_buffer c AND mask n) = sval (zstream a) n"
  proof (rule bit_eqI)
    fix i
    have "zstream a i = bit (code_buffer c) i" if "i < n"
    proof -
      have "i < nat (num_bits c)" using that c(3) by linarith
      then show ?thesis by (simp add: zstream_def flip: c(4))
    qed
    then show "bit (unat (code_buffer c AND mask n)) i \<longleftrightarrow> bit (sval (zstream a) n) i"
      using assms(2) by (auto simp: bit_simps bit_sval)
  qed
  with c consume_stream [OF c(2,3)] show ?thesis
    by (simp only: stbi__zreceive_def mask ebind_simps) auto
qed

section \<open>The two decoding paths\<close>

section \<open>Decoding a symbol\<close>

text \<open>The next 16 bits as a number whose top bit is the first one: the order in which codes are compared.\<close>

definition zpeek :: "(nat \<Rightarrow> bool) \<Rightarrow> nat" where
  "zpeek f = sval (\<lambda>i. f (15 - i)) 16"

lemma zpeek_buffer:
  assumes "16 \<le> num_bits a"
  shows "nat (stbi__bitreverse16 (uint (code_buffer a))) = zpeek (zstream a)"
proof -
  have "stbi__bitreverse16 (uint (code_buffer a)) = int (zpeek (zstream a))"
  proof (rule bit_eqI)
    fix i
    have "zstream a (15 - i) = bit (code_buffer a) (15 - i)"
    proof -
      have "15 - i < nat (num_bits a)" using assms by linarith
      then show ?thesis by (simp add: zstream_def)
    qed
    then show "bit (stbi__bitreverse16 (uint (code_buffer a))) i \<longleftrightarrow> bit (int (zpeek (zstream a))) i"
      by (auto simp: bit_bitreverse16 zpeek_def bit_of_nat_iff_bit bit_sval bit_uint_iff)
  qed
  then show ?thesis by simp
qed

lemma fast_value_parts:
  assumes "i < 512" "L ! i \<le> 15"
  shows "uint (fast_value L i) AND 511 = int i" "drop_bit 9 (uint (fast_value L i)) = int (L ! i)"
proof -
  have i: "bit (int i) n \<Longrightarrow> n < 9" for n
  proof -
    assume "bit (int i) n"
    moreover have "take_bit 9 (int i) = int i" using assms(1) by (simp add: take_bit_int_eq_self)
    ultimately show "n < 9" by (metis bit_take_bit_iff)
  qed
  have l: "bit (int (L ! i)) n \<Longrightarrow> n < 4" for n
  proof -
    assume "bit (int (L ! i)) n"
    moreover have "take_bit 4 (int (L ! i)) = int (L ! i)" using assms(2) by (simp add: take_bit_int_eq_self)
    ultimately show "n < 4" by (metis bit_take_bit_iff)
  qed
  have bits: "bit (uint (fast_value L i)) n \<longleftrightarrow> 9 \<le> n \<and> bit (int (L ! i)) (n - 9) \<or> bit (int i) n" for n
  proof -
    have "9 \<le> n \<Longrightarrow> bit (int (L ! i)) (n - 9) \<Longrightarrow> n < 16" using l [of "n - 9"] by linarith
    moreover have "bit (int i) n \<Longrightarrow> n < 16" using i [of n] by linarith
    ultimately show ?thesis
      by (auto simp: fast_value_def u16cast_def bit_uint_iff bit_word_of_int_iff bit_or_iff bit_push_bit_iff)
  qed
  have "(511 :: int) = mask 9" by (simp add: mask_eq_exp_minus_1)
  then show "uint (fast_value L i) AND 511 = int i"
    using i by (auto simp: bit_eq_iff bit_and_iff bit_mask_iff bits)
  have "\<not> bit (int i) (9 + n)" for n using i [of "9 + n"] by auto
  then show "drop_bit 9 (uint (fast_value L i)) = int (L ! i)"
    by (auto simp: bit_eq_iff bit_drop_bit_eq bits)
qed

lemma find_size_spec:
  assumes "length mc = 17" "k < mc ! 16" "0 \<le> s" "s \<le> 16"
  shows "\<exists>t. find_size mc k s = Inr t \<and> s \<le> t \<and> t \<le> 16 \<and> k < mc ! nat t \<and> (\<forall>u. s \<le> u \<longrightarrow> u < t \<longrightarrow> mc ! nat u \<le> k)"
  using assms
proof (induction mc k s rule: find_size.induct)
  case (1 mc k s)
  show ?case
  proof (cases "k < mc ! nat s")
    case True
    with "1.prems" show ?thesis by (subst find_size.simps) auto
  next
    case False
    with "1.prems" have "s \<noteq> 16" by auto
    with "1.prems" have s: "s + 1 \<le> 16" by simp
    obtain t where t: "find_size mc k (s + 1) = Inr t" "s + 1 \<le> t" "t \<le> 16" "k < mc ! nat t"
        "\<forall>u. s + 1 \<le> u \<longrightarrow> u < t \<longrightarrow> mc ! nat u \<le> k"
      using "1.IH" [of "mc ! nat s"] False "1.prems" s by auto
    have "mc ! nat u \<le> k" if "s \<le> u" "u < t" for u
      using t(5) False that by (cases "u = s") auto
    with t False "1.prems" show ?thesis by (subst find_size.simps) auto
  qed
qed

text \<open>The slow path finds the symbol when its code has at least 10 bits.\<close>

lemma slowpath_spec:
  assumes tab: "table_ok L z" "hvalid L" "\<forall>l \<in> set L. l \<le> 15" "length L \<le> 288"
    and k: "stbi__bitreverse16 (uint (code_buffer a)) = int k" "k < 65536" "\<And>i. hmatch L k i \<Longrightarrow> 9 < L ! i"
  shows "if \<exists>i. hmatch L k i
    then \<exists>i. hmatch L k i \<and> stbi__zhuffman_decode_slowpath a z =
        Inr (int i, a\<lparr>code_buffer := drop_bit (L ! i) (code_buffer a), num_bits := num_bits a - int (L ! i)\<rparr>)
    else stbi__zhuffman_decode_slowpath a z = Inr (-1, a)"
proof -
  have mc: "length (zmaxcode z) = 17" "zmaxcode z ! 16 = 65536"
      "\<And>s. 1 \<le> s \<Longrightarrow> s < 16 \<Longrightarrow> uint (zfirstcode z ! s) = int (hfirst L s) \<and> zmaxcode z ! s = int (hmax L s) \<and>
        uint (zfirstsymbol z ! s) = int (hsym L s)"
      "length (zfirstcode z) = 16" "length (zfirstsymbol z) = 16" "length (zsize z) = 288" "length (zvalue z) = 288"
    using tab(1) by (auto simp: table_ok_def codes_ok_def table_upto_def)
  obtain t where t: "find_size (zmaxcode z) (int k) 10 = Inr t" "10 \<le> t" "t \<le> 16" "int k < zmaxcode z ! nat t"
      "\<And>u. 10 \<le> u \<Longrightarrow> u < t \<Longrightarrow> zmaxcode z ! nat u \<le> int k"
    using find_size_spec [of "zmaxcode z" "int k" 10] mc(1,2) k(2) by auto
  have k9: "hmax L 9 \<le> k"
    using hmatch_below [of k L 9] k(3) by (auto simp: not_less [symmetric])
  have rev: "stbi__bit_reverse (uint (code_buffer a)) 16 = int k" using k(1) by (simp add: stbi__bit_reverse_def)
  show ?thesis
  proof (cases "t = 16")
    case True
    then have "hmax L 15 \<le> k" using t(5) [of 15] mc(3) [of 15] by simp
    have "\<not> hmatch L k i" for i
    proof
      assume m: "hmatch L k i"
      then have "L ! i \<le> 15" using tab(3) by (auto simp: hmatch_def)
      then have "hmax L (L ! i) \<le> hmax L 15" by (intro hmax_mono) auto
      with hmatch_range(2) [OF m tab(3)] \<open>hmax L 15 \<le> k\<close> show False by simp
    qed
    with True t(1) rev show ?thesis by (simp add: stbi__zhuffman_decode_slowpath_def)
  next
    case False
    define s where "s = nat t"
    have s: "t = int s" "10 \<le> s" "s \<le> 15" using t(2,3) False by (auto simp: s_def)
    have "hmax L (s - 1) \<le> k"
    proof (cases "s = 10")
      case True
      with k9 show ?thesis by simp
    next
      case False
      then show ?thesis using t(5) [of "int s - 1"] mc(3) [of "s - 1"] s by (simp add: nat_diff_distrib)
    qed
    moreover have "k < hmax L s" using t(4) mc(3) [of s] s by simp
    ultimately obtain i where i: "hmatch L k i" "L ! i = s" "hrank L i = k div 2 ^ (16 - s) - hfirst L s"
        "hfirst L s \<le> k div 2 ^ (16 - s)"
      using hmatch_exists [of L "s - 1" k] s by auto
    define c where "c = hsym L s + hrank L i"
    have il: "i < length L" "s \<noteq> 0" using i s by (auto simp: hmatch_def)
    have c: "c < 288" using hsym_rank_less [of i L] il i(2) tab(4) by (simp add: c_def)
    have b: "drop_bit (nat (16 - t)) (int k) - uint (zfirstcode z ! s) + uint (zfirstsymbol z ! s) = int c"
      using mc(3) [of s] s i(3,4) by (simp add: c_def drop_bit_eq_div zdiv_int nat_diff_distrib)
    have "zsize z ! c = word_of_nat s" "zvalue z ! c = word_of_nat i"
      using tab(1) il i(2) by (auto simp: table_ok_def table_upto_def c_def)
    then have "uint (zsize z ! c) = int s" "uint (zvalue z ! c) = int i"
      using s il tab(4) by (simp_all add: unsigned_of_nat take_bit_nat_eq_self)
    with c b rev t(1) s mc(4-7) i(2)
    have "stbi__zhuffman_decode_slowpath a z =
        Inr (int i, a\<lparr>code_buffer := drop_bit (L ! i) (code_buffer a), num_bits := num_bits a - int (L ! i)\<rparr>)"
      by (simp add: stbi__zhuffman_decode_slowpath_def STBI__ZNSYMS_def Let_def)
    with i(1) show ?thesis by auto
  qed
qed

section \<open>Decoding a symbol\<close>

text \<open>At the end of the input the decoder grants itself 16 zero bits, once.\<close>

definition out_of_bits :: "stbi__zbuf \<Rightarrow> bool" where
  "out_of_bits a \<longleftrightarrow> num_bits a < 16 \<and> zbuffer a = [] \<and> hit_zeof_once a"

lemma zeof_stream:
  assumes "zbits_ok a" "num_bits a < 16" "zbuffer a = []"
  defines "b \<equiv> a\<lparr>hit_zeof_once := True, num_bits := num_bits a + 16\<rparr>"
  shows "zbits_ok b" "zstream b = zstream a"
proof -
  have nb: "0 \<le> num_bits a" using assms(1) by (simp add: zbits_ok_def)
  show "zbits_ok b"
  proof (rule zbits_okI)
    fix i assume "bit (code_buffer b) i"
    then have "i < nat (num_bits a)" using zbits_high [OF assms(1), of i] by (simp add: b_def)
    then show "i < nat (num_bits b)" by (simp add: b_def)
  qed (use nb assms(2) in \<open>simp_all add: b_def\<close>)
  show "zstream b = zstream a"
  proof
    fix i
    show "zstream b i = zstream a i"
      using zbits_high [OF assms(1), of i] assms(3) by (auto simp: zstream_def b_def)
  qed
qed

lemma zhuffman_decode_spec:
  assumes tab: "table_ok L z" "hvalid L" "\<forall>l \<in> set L. l \<le> 15" "length L \<le> 288" and ok: "zbits_ok a"
  shows "\<exists>v b. stbi__zhuffman_decode a z = Inr (v, b) \<and> zbits_ok b \<and>
    (if out_of_bits a then v = -1
     else if \<exists>i. hmatch L (zpeek (zstream a)) i
     then \<exists>i. v = int i \<and> hmatch L (zpeek (zstream a)) i \<and> zstream b = (\<lambda>n. zstream a (n + L ! i))
     else v = -1)"
proof -
  define k where "k = zpeek (zstream a)"
  show ?thesis
  proof (cases "out_of_bits a")
    case True
    then have "stbi__zhuffman_decode a z = Inr (-1, a)"
      by (simp add: stbi__zhuffman_decode_def decode_refill_def out_of_bits_def stbi__zeof_def)
    with True ok show ?thesis by auto
  next
    case False
    obtain c where c: "decode_refill a = Inr (Some c)" "zbits_ok c" "16 \<le> num_bits c" "zstream c = zstream a"
    proof (cases "num_bits a < 16")
      case True
      show ?thesis
      proof (cases "stbi__zeof a")
        case eof: True
        with False True have "\<not> hit_zeof_once a" by (simp add: out_of_bits_def stbi__zeof_def)
        moreover have "0 \<le> num_bits a" using ok by (simp add: zbits_ok_def)
        ultimately show ?thesis
          using that [of "a\<lparr>hit_zeof_once := True, num_bits := num_bits a + 16\<rparr>"] True eof zeof_stream [OF ok True]
          by (simp add: decode_refill_def stbi__zeof_def)
      next
        case no: False
        obtain b where "stbi__fill_bits a = Inr b" "zbits_ok b" "24 < num_bits b" "zstream b = zstream a"
          using fill_bits_stream [OF ok] True by auto
        with no True that [of b] show ?thesis by (simp add: decode_refill_def)
      qed
    qed (use ok that [of a] in \<open>auto simp: decode_refill_def\<close>)
    define j where "j = nat (take_bit 9 (uint (code_buffer c)))"
    have j: "take_bit 9 (uint (code_buffer c)) = int j" "j < 512"
      using take_bit_int_less_exp [of 9 "uint (code_buffer c)"] by (simp_all add: j_def nat_less_iff)
    have "code_buffer c AND STBI__ZFAST_MASK = take_bit 9 (code_buffer c)"
      by (simp add: STBI__ZFAST_MASK_def take_bit_eq_mask mask_eq_exp_minus_1)
    then have low: "uint (code_buffer c AND STBI__ZFAST_MASK) = int j"
      by (simp add: unsigned_take_bit_eq j(1))
    have k: "stbi__bitreverse16 (uint (code_buffer c)) = int k"
      using zpeek_buffer [OF c(3)] bitreverse16_range(1) [of "uint (code_buffer c)"] c(4) by (simp add: k_def)
    have k16: "k < 65536" using bitreverse16_range(2) [of "uint (code_buffer c)"] k by simp
    note fast = hfast_iff_match [OF tab(2,3) j(1), unfolded k nat_int]
    have zf: "length (zfast z) = 512" "\<And>i. hfast L j i \<Longrightarrow> zfast z ! j = fast_value L i"
        "(\<And>i. \<not> hfast L j i) \<Longrightarrow> zfast z ! j = 0"
      using tab(1) j(2) by (auto simp: table_ok_def table_upto_def hfast_def)
    have dec: "stbi__zhuffman_decode a z =
       (if zfast z ! j \<noteq> 0
         then (let s = drop_bit 9 (uint (zfast z ! j))
               in Inr (uint (zfast z ! j) AND 511,
                       c\<lparr>code_buffer := drop_bit (nat s) (code_buffer c), num_bits := num_bits c - s\<rparr>))
         else stbi__zhuffman_decode_slowpath c z)"
      using c(1) zf(1) j(2) by (simp add: stbi__zhuffman_decode_def decode_lookup_def low)
    have adv: "zbits_ok b \<and> zstream b = (\<lambda>n. zstream a (n + L ! i))"
      if "hmatch L k i" "b = c\<lparr>code_buffer := drop_bit (L ! i) (code_buffer c), num_bits := num_bits c - int (L ! i)\<rparr>" for b i
    proof -
      have "L ! i \<le> 15" using that(1) tab(3) by (auto simp: hmatch_def)
      then show ?thesis using consume_stream [OF c(2), of "L ! i"] c(3,4) that(2) by simp
    qed
    show ?thesis
    proof (cases "\<exists>i. hfast L j i")
      case True
      then obtain i where i: "hfast L j i" by blast
      then have m: "hmatch L k i" "L ! i \<le> 9" using fast by auto
      have il: "i < 512" "L ! i \<le> 15" using m tab(3,4) by (auto simp: hmatch_def)
      have nz: "fast_value L i \<noteq> 0"
        using fast_value_parts(2) [OF il] m(1) by (auto simp: hmatch_def)
      have "stbi__zhuffman_decode a z =
          Inr (int i, c\<lparr>code_buffer := drop_bit (L ! i) (code_buffer c), num_bits := num_bits c - int (L ! i)\<rparr>)"
        using dec zf(2) [OF i] nz fast_value_parts [OF il] by (simp add: Let_def)
      with m(1) adv False show ?thesis unfolding k_def by auto
    next
      case nofast: False
      then have dec': "stbi__zhuffman_decode a z = stbi__zhuffman_decode_slowpath c z"
        using dec zf(3) by simp
      have "9 < L ! i" if "hmatch L k i" for i using fast [of i] nofast that by (auto simp: not_le [symmetric])
      note slow = slowpath_spec [OF tab k k16 this]
      show ?thesis
      proof (cases "\<exists>i. hmatch L k i")
        case True
        then obtain i where "hmatch L k i" "stbi__zhuffman_decode a z =
          Inr (int i, c\<lparr>code_buffer := drop_bit (L ! i) (code_buffer c), num_bits := num_bits c - int (L ! i)\<rparr>)"
          using slow dec' by auto
        with adv False show ?thesis unfolding k_def by auto
      next
        case none: False
        then have "stbi__zhuffman_decode a z = Inr (-1, c)" using slow dec' by simp
        with none c(2) False show ?thesis unfolding k_def by auto
      qed
    qed
  qed
qed

section \<open>Properties\<close>

text \<open>C12. Building a decoding table and decoding with it agree with the canonical code of the
  lengths. For code lengths of at most 15 bits \<open>stbi__zbuild_huffman\<close> fails with an error exactly
  when the lengths are over-subscribed; otherwise \<open>stbi__zhuffman_decode\<close> on its table returns the
  one symbol whose canonical code starts the remaining bits and consumes that code, and returns -1
  when there is none or when the input has ended before.\<close>

theorem zlib_huffman_canonical:
  assumes "\<forall>l \<in> set (take num sizelist). unat l \<le> 15" and "num \<le> 288" and "num \<le> length sizelist"
    and "zbits_ok a"
  defines "L \<equiv> map unat (take num sizelist)"
  shows "if hvalid L
    then \<exists>z v b. stbi__zbuild_huffman zhuffman_uninit sizelist num = Inr z \<and>
      stbi__zhuffman_decode a z = Inr (v, b) \<and>
      (if out_of_bits a \<or> \<not> (\<exists>i. hmatch L (zpeek (zstream a)) i) then v = -1
       else (\<exists>i. v = int i \<and> hmatch L (zpeek (zstream a)) i \<and>
               (\<forall>j. hmatch L (zpeek (zstream a)) j \<longrightarrow> j = i) \<and>
               zstream b = (\<lambda>n. zstream a (n + L ! i))))
    else \<exists>r. stbi__zbuild_huffman zhuffman_uninit sizelist num = Inl (Failure r)"
proof -
  have L: "\<forall>l \<in> set L. l \<le> 15" "length L \<le> 288" using assms(1-3) by (auto simp: L_def)
  have shape: "shape_ok zhuffman_uninit" by (simp add: shape_ok_def zhuffman_uninit_def STBI__ZNSYMS_def)
  note d = zbuild_huffman_decides [OF L(1) assms(2,3) L_def [THEN meta_eq_to_obj_eq] shape]
  show ?thesis
  proof (cases "hvalid L")
    case True
    with d obtain z where z: "stbi__zbuild_huffman zhuffman_uninit sizelist num = Inr z" "table_ok L z" by auto
    from zhuffman_decode_spec [OF z(2) True L assms(4)] obtain v b where
      "stbi__zhuffman_decode a z = Inr (v, b)"
      "if out_of_bits a then v = -1
       else if \<exists>i. hmatch L (zpeek (zstream a)) i
       then \<exists>i. v = int i \<and> hmatch L (zpeek (zstream a)) i \<and> zstream b = (\<lambda>n. zstream a (n + L ! i))
       else v = -1" by blast
    moreover have "j = i" if "hmatch L k i" "hmatch L k j" for i j k
      using hmatch_unique [OF that L(1)] by simp
    ultimately show ?thesis
      using True z(1) by (cases "out_of_bits a"; cases "\<exists>i. hmatch L (zpeek (zstream a)) i") (simp_all, metis)
  next
    case False
    with d show ?thesis by auto
  qed
qed

theorem zlib_huffman_canonical_witness:
  "\<exists>z v b. stbi__zbuild_huffman zhuffman_uninit [1, 2, 2] 3 = Inr z \<and>
     stbi__zhuffman_decode \<lparr>zbuffer = [5], num_bits = 0, hit_zeof_once = False, code_buffer = 0, zout = [],
       zlimit = 4, z_expandable = True, z_length = zhuffman_uninit, z_distance = zhuffman_uninit\<rparr> z = Inr (v, b)"
proof -
  have "s = 1 \<or> s = 2" if "hcount [1, 2, 2] s \<noteq> 0" for s using that by (auto simp: hcount_def split: if_splits)
  moreover have "hfirst [1, 2, 2] 1 = 0" "hfirst [1, 2, 2] 2 = 2" by (simp_all add: numeral_2_eq_2 hcount_def)
  ultimately have "hvalid (map unat (take 3 [1, 2, 2 :: stbi_uc]))"
    by (force simp: hvalid_def hcount_def)
  then show ?thesis
    using zlib_huffman_canonical [of 3 "[1, 2, 2]" "\<lparr>zbuffer = [5], num_bits = 0, hit_zeof_once = False,
      code_buffer = 0, zout = [], zlimit = 4, z_expandable = True, z_length = zhuffman_uninit,
      z_distance = zhuffman_uninit\<rparr>"]
    by (simp add: zbits_ok_def) blast
qed

text \<open>C19. Receiving bits: from a bit buffer in order, \<open>stbi__zreceive a n\<close> returns the value of the next
  \<open>n\<close> bits of the input, low bit first, consumes exactly those, and leaves the buffer in order; past
  the end of the input the bits read as zeros.\<close>

theorem zreceive_reads_stream:
  assumes "zbits_ok a" and "n \<le> 16"
  shows "\<exists>k b. stbi__zreceive a n = Inr (k, b) \<and> zbits_ok b \<and> unat k = sval (zstream a) n \<and>
    (\<forall>i. zstream b i = zstream a (i + n))"
  using zreceive_stream [OF assms] by auto

theorem zreceive_reads_stream_witness:
  "\<exists>k b. stbi__zreceive \<lparr>zbuffer = [5, 6], num_bits = 0, hit_zeof_once = False, code_buffer = 0,
     zout = [], zlimit = 4, z_expandable = True, z_length = zhuffman_uninit, z_distance = zhuffman_uninit\<rparr> 12 = Inr (k, b)"
  using zreceive_reads_stream [of "\<lparr>zbuffer = [5, 6], num_bits = 0, hit_zeof_once = False, code_buffer = 0,
     zout = [], zlimit = 4, z_expandable = True, z_length = zhuffman_uninit, z_distance = zhuffman_uninit\<rparr>" 12]
  by (auto simp: zbits_ok_def)

end
