(* ===== verification/Stbi_Zlib_Safe.thy ===== *)
theory Stbi_Zlib_Safe
  imports Stbi_Zlib_Bits
begin

text \<open>
  Safety of the zlib decoder and the meaning of its copies. \<open>zok\<close> is the invariant of
  \<open>stbi__zbuf\<close> between blocks, \<open>zgood\<close> the one inside a compressed block; each operation keeps them
  and never has undefined behaviour. \<open>lz_extend\<close> is the LZ77 copy that both copying loops implement.
\<close>

section \<open>Compressed blocks\<close>

section \<open>Safety\<close>

definition htab :: "stbi__zhuffman \<Rightarrow> bool" where
  "htab z \<longleftrightarrow> (\<exists>L. table_ok L z \<and> hvalid L \<and> (\<forall>l \<in> set L. l \<le> 15) \<and> length L \<le> 288)"

definition zok :: "stbi__zbuf \<Rightarrow> bool" where
  "zok a \<longleftrightarrow> zbits_ok a \<and> length (zout a) \<le> unat (zlimit a) \<and> 0 < unat (zlimit a) \<and>
     shape_ok (z_length a) \<and> shape_ok (z_distance a)"

definition ztables :: "stbi__zbuf \<Rightarrow> bool" where
  "ztables a \<longleftrightarrow> htab (z_length a) \<and> htab (z_distance a)"

lemma zok_same_out: "zok a \<Longrightarrow> same_out b a \<Longrightarrow> zbits_ok b \<Longrightarrow> zok b"
  by (auto simp: zok_def same_out_def)

lemma ztables_same_out: "ztables a \<Longrightarrow> same_out b a \<Longrightarrow> ztables b"
  by (auto simp: ztables_def same_out_def)

lemma htab_shape: "htab z \<Longrightarrow> shape_ok z"
  by (auto simp: htab_def table_ok_shape)

lemma ensures_zbuild:
  assumes "\<forall>l \<in> set (take num sizelist). unat l \<le> 15" "num \<le> 288" "num \<le> length sizelist" "shape_ok z"
  shows "ensures (stbi__zbuild_huffman z sizelist num) htab"
proof -
  define L where "L = map unat (take num sizelist)"
  have "\<forall>l \<in> set L. l \<le> 15" "length L \<le> 288" using assms by (auto simp: L_def)
  moreover from this have "if hvalid L then \<exists>z'. stbi__zbuild_huffman z sizelist num = Inr z' \<and> table_ok L z'
    else \<exists>r. stbi__zbuild_huffman z sizelist num = Inl (Failure r)"
    using assms by (intro zbuild_huffman_decides) (simp_all add: L_def)
  ultimately show ?thesis by (auto simp: htab_def split: if_splits)
qed

lemma ensures_zreceive:
  assumes "zbits_ok a" "n \<le> 16"
  shows "ensures (stbi__zreceive a n) (\<lambda>(k, b). zbits_ok b \<and> same_out b a \<and> unat k < 2 ^ n)"
proof -
  obtain k b where kb: "stbi__zreceive a n = Inr (k, b)" "zbits_ok b" "unat k = sval (zstream a) n"
    using zreceive_stream [OF assms] by blast
  with zreceive_frame(1) [OF kb(1)] sval_less [of "zstream a" n] show ?thesis by simp
qed

lemma ensures_decode:
  assumes "htab z" "zbits_ok a"
  shows "ensures (stbi__zhuffman_decode a z) (\<lambda>(v, b). zbits_ok b \<and> same_out b a)"
proof -
  obtain L where L: "table_ok L z" "hvalid L" "\<forall>l \<in> set L. l \<le> 15" "length L \<le> 288"
    using assms(1) by (auto simp: htab_def)
  obtain v b where "stbi__zhuffman_decode a z = Inr (v, b)" "zbits_ok b"
    using zhuffman_decode_spec [OF L assms(2)] by blast
  with zhuffman_decode_frame(1) [of a z v b] show ?thesis by simp
qed

lemma ensures_base_extra:
  assumes "zbits_ok a" "0 \<le> z" "z < int (length base)" "length extra = length base" "\<forall>e \<in> set extra. e \<le> 16"
  shows "ensures (base_extra base extra a z) (\<lambda>(v, b). zbits_ok b \<and> same_out b a \<and> base ! nat z \<le> v)"
proof -
  have e: "extra ! nat z \<le> 16" using assms by (auto simp: nat_less_iff)
  have "ensures (ebind (stbi__zreceive a (extra ! nat z)) (\<lambda>(k, a). Inr (base ! nat z + uint k, a)))
      (\<lambda>(v, b). zbits_ok b \<and> same_out b a \<and> base ! nat z \<le> v)"
    by (rule ensures_bind [OF ensures_zreceive [OF assms(1) e]]) (auto simp: uint_bounds32)
  with assms show ?thesis by (simp add: base_extra_def)
qed

lemma ensures_grow_limit:
  assumes "2 ^ (33 - fuel) \<le> limit" "limit \<le> UINT_MAX" "fuel \<le> 33"
  shows "ensures (grow_limit fuel cur n limit) (\<lambda>l. cur + n \<le> l \<and> limit \<le> l \<and> l \<le> UINT_MAX)"
  using assms
proof (induction fuel arbitrary: limit)
  case 0
  then show ?case by (simp add: UINT_MAX_def)
next
  case (Suc fuel)
  show ?case
  proof (cases "cur + n > limit \<and> \<not> limit > UINT_MAX div 2")
    case True
    have "(2 :: nat) ^ (33 - fuel) = 2 * 2 ^ (33 - Suc fuel)"
      using Suc.prems(3) by (metis Suc_diff_le Suc_le_mono diff_Suc_Suc numeral_nat(2) power_Suc Suc_diff_Suc Suc_le_lessD)
    with Suc.prems True have "ensures (grow_limit fuel cur n (limit * 2)) (\<lambda>l. cur + n \<le> l \<and> limit * 2 \<le> l \<and> l \<le> UINT_MAX)"
      by (intro Suc.IH) (auto simp: UINT_MAX_def)
    with True show ?thesis by simp (erule ensures_mono, simp)
  next
    case False
    with Suc.prems show ?thesis by auto
  qed
qed

lemma ensures_zexpand:
  assumes "zok a"
  shows "ensures (stbi__zexpand a n) (\<lambda>b. zok b \<and> zout b = zout a \<and> z_length b = z_length a \<and>
    z_distance b = z_distance a \<and> zbuffer b = zbuffer a \<and> length (zout b) + n \<le> unat (zlimit b))"
proof -
  have "unat (zlimit a) < 2 ^ LENGTH(32)" by (rule unsigned_less)
  then have lim: "unat (zlimit a) \<le> UINT_MAX" by (simp add: UINT_MAX_def)
  have grow: "ensures (grow_limit 33 (length (zout a)) n (unat (zlimit a)))
      (\<lambda>l. length (zout a) + n \<le> l \<and> unat (zlimit a) \<le> l \<and> l \<le> UINT_MAX)"
    by (rule ensures_grow_limit) (use assms lim in \<open>auto simp: zok_def\<close>)
  have cast: "unat (word_of_nat l :: uint32) = l" if "l \<le> UINT_MAX" for l
    using that by (simp add: UINT_MAX_def unsigned_of_nat take_bit_nat_eq_self)
  have "ensures (ebind (grow_limit 33 (length (zout a)) n (unat (zlimit a)))
      (\<lambda>limit. Inr (a\<lparr>zlimit := word_of_nat limit\<rparr>))) (\<lambda>b. zok b \<and> zout b = zout a \<and> z_length b = z_length a \<and>
    z_distance b = z_distance a \<and> zbuffer b = zbuffer a \<and> length (zout b) + n \<le> unat (zlimit b))"
    by (rule ensures_bind [OF grow]) (use assms in \<open>auto simp: zok_def zbits_ok_def cast\<close>)
  then show ?thesis by (simp add: stbi__zexpand_def Let_def)
qed


lemma zput_ok:
  assumes "zok a" "length (zout a) < unat (zlimit a)"
  shows "zput a v = Inr (a\<lparr>zout := zout a @ [v]\<rparr>)" and "zok (a\<lparr>zout := zout a @ [v]\<rparr>)"
  using assms by (auto simp: zput_def zok_def zbits_ok_def)

lemma copy_run_eq:
  "zok a \<Longrightarrow> length (zout a) + n \<le> unat (zlimit a) \<Longrightarrow> copy_run v n a = Inr (a\<lparr>zout := zout a @ replicate n v\<rparr>)"
proof (induction n arbitrary: a)
  case (Suc n)
  then show ?case using zput_ok [OF Suc.prems(1), of v] by (simp add: replicate_app_Cons_same)
qed simp

text \<open>A match of length \<open>n\<close> at distance \<open>d\<close> repeats the last \<open>d\<close> bytes.\<close>

fun lz_extend :: "nat \<Rightarrow> nat \<Rightarrow> stbi_uc list \<Rightarrow> stbi_uc list" where
  "lz_extend d 0 xs = xs"
| "lz_extend d (Suc n) xs = lz_extend d n (xs @ [xs ! (length xs - d)])"

lemma length_lz_extend [simp]: "length (lz_extend d n xs) = length xs + n"
  by (induction d n xs rule: lz_extend.induct) auto

lemma copy_match_eq:
  assumes "zok a" "length (zout a) + n \<le> unat (zlimit a)" "0 < d" "d \<le> length (zout a)"
  shows "copy_match (int d) n a = Inr (a\<lparr>zout := lz_extend d n (zout a)\<rparr>)"
  using assms
proof (induction n arbitrary: a)
  case (Suc n)
  have "arr_get (zout a) (int (length (zout a)) - int d) = Inr (zout a ! (length (zout a) - d))"
    using Suc.prems(3,4) by (simp add: arr_get_def nat_diff_distrib')
  moreover have "zput a (zout a ! (length (zout a) - d)) = Inr (a\<lparr>zout := zout a @ [zout a ! (length (zout a) - d)]\<rparr>)"
    using Suc.prems by (intro zput_ok) simp_all
  ultimately show ?case
    using Suc.IH [of "a\<lparr>zout := zout a @ [zout a ! (length (zout a) - d)]\<rparr>"] Suc.prems zput_ok(2) [of a] by simp
qed simp

lemma replicate_lz_extend: "xs \<noteq> [] \<Longrightarrow> lz_extend 1 n xs = xs @ replicate n (last xs)"
  by (induction n arbitrary: xs) (simp_all add: last_conv_nth replicate_app_Cons_same)

text \<open>Both copying loops together.\<close>

lemma copy_eq:
  assumes "zok a" "length (zout a) + n \<le> unat (zlimit a)" "0 < d" "d \<le> length (zout a)"
  shows "(if int d = 1
      then ebind (arr_get (zout a) (int (length (zout a)) - int d)) (\<lambda>v. copy_run v n a)
      else copy_match (int d) n a) = Inr (a\<lparr>zout := lz_extend d n (zout a)\<rparr>)"
proof (cases "d = 1")
  case True
  then have ne: "zout a \<noteq> []" using assms(4) by auto
  have "arr_get (zout a) (int (length (zout a)) - 1) = Inr (last (zout a))"
    using ne by (cases "zout a" rule: rev_cases) (simp_all add: arr_get_def nat_add_distrib)
  then show ?thesis using assms ne by (simp add: True copy_run_eq replicate_lz_extend [OF ne, simplified])
next
  case False
  with copy_match_eq [OF assms] show ?thesis by simp
qed

lemma zdist_base_pos:
  assumes "0 \<le> z" "z < 30"
  shows "0 < stbi__zdist_base ! nat z"
proof -
  have i: "nat z < 30" using assms by simp
  have "list_all ((<) 0) (take 30 stbi__zdist_base)" "length (take 30 stbi__zdist_base) = 30"
    by (simp_all add: stbi__zdist_base_def)
  with i have "0 < take 30 stbi__zdist_base ! nat z" unfolding list_all_length by metis
  with i show ?thesis by simp
qed

abbreviation zgood :: "stbi__zbuf \<Rightarrow> bool" where
  "zgood a \<equiv> zok a \<and> ztables a"

lemma zgood_same_out: "zgood a \<Longrightarrow> same_out b a \<Longrightarrow> zbits_ok b \<Longrightarrow> zgood b"
  using zok_same_out ztables_same_out by blast

lemma ensures_put_literal:
  assumes "zgood a"
  shows "ensures (put_literal a z) (\<lambda>(fin, b). zgood b)"
proof -
  have "ensures (if length (zout a) \<ge> unat (zlimit a) then stbi__zexpand a 1 else Inr a)
      (\<lambda>c. zgood c \<and> length (zout c) < unat (zlimit c))"
    using assms ensures_zexpand [of a 1] by (auto simp: ztables_def elim: ensures_mono)
  then show ?thesis
    unfolding put_literal_def by (rule ensures_bind) (use zput_ok in \<open>auto simp: ztables_def\<close>)
qed

lemma ensures_put_match:
  assumes "zgood a" "0 \<le> len" "0 < dist"
  shows "ensures (put_match len dist a)
    (\<lambda>(fin, b). zgood b \<and> \<not> fin \<and> zout b = lz_extend (nat dist) (nat len) (zout a))"
proof (cases "int (length (zout a)) < dist")
  case False
  obtain d where d: "dist = int d" "0 < d" using assms(3) by (metis pos_int_cases)
  have room: "ensures (if len > int (unat (zlimit a)) - int (length (zout a)) then stbi__zexpand a (nat len) else Inr a)
      (\<lambda>c. zgood c \<and> zout c = zout a \<and> length (zout c) + nat len \<le> unat (zlimit c))"
  proof (cases "len > int (unat (zlimit a)) - int (length (zout a))")
    case True
    with assms ensures_zexpand [of a "nat len"] show ?thesis
      by (auto simp: ztables_def elim: ensures_mono)
  next
    case False
    then have "length (zout a) + nat len \<le> unat (zlimit a)" using assms(2) by linarith
    with False assms show ?thesis by simp
  qed
  have copied: "zgood (c\<lparr>zout := lz_extend d (nat len) (zout c)\<rparr>)"
    if "zgood c" "length (zout c) + nat len \<le> unat (zlimit c)" for c
    using that by (auto simp: zok_def zbits_ok_def ztables_def)
  show ?thesis
    unfolding put_match_def if_not_P [OF False]
  proof (rule ensures_bind [OF room])
    fix c assume c: "zgood c \<and> zout c = zout a \<and> length (zout c) + nat len \<le> unat (zlimit c)"
    then have "(if dist = 1
        then ebind (arr_get (zout c) (int (length (zout c)) - dist)) (\<lambda>v. copy_run v (nat len) c)
        else copy_match dist (nat len) c) = Inr (c\<lparr>zout := lz_extend d (nat len) (zout c)\<rparr>)"
      unfolding d(1) using False d by (intro copy_eq) auto
    moreover have "zgood (c\<lparr>zout := lz_extend d (nat len) (zout c)\<rparr>)" using c by (intro copied) auto
    ultimately show "ensures (ebind (if dist = 1
        then ebind (arr_get (zout c) (int (length (zout c)) - dist)) (\<lambda>v. copy_run v (nat len) c)
        else copy_match dist (nat len) c) (\<lambda>a. Inr (False, a)))
        (\<lambda>(fin, b). zgood b \<and> \<not> fin \<and> zout b = lz_extend (nat dist) (nat len) (zout a))"
      using c d by simp
  qed
qed (simp add: put_match_def)

lemma ensures_read_dist:
  assumes "zgood a" "0 \<le> len"
  shows "ensures (read_dist len a) (\<lambda>(fin, b). zgood b)"
  unfolding read_dist_def
proof (rule ensures_bind, rule ensures_decode)
  fix x :: "int \<times> stbi__zbuf" assume "case x of (z, c) \<Rightarrow> zbits_ok c \<and> same_out c a"
  then obtain z c where x: "x = (z, c)" and c: "zbits_ok c" "same_out c a" by (cases x) auto
  have good: "zgood c" using zgood_same_out [OF assms(1) c(2,1)] .
  have dist: "ensures (base_extra stbi__zdist_base stbi__zdist_extra c z)
      (\<lambda>(v, b). zbits_ok b \<and> same_out b c \<and> stbi__zdist_base ! nat z \<le> v)" if "0 \<le> z" "z < 30"
    using that c by (intro ensures_base_extra) (auto simp: stbi__zdist_base_def stbi__zdist_extra_def)
  show "ensures (case x of (z, a) \<Rightarrow> if z < 0 \<or> z \<ge> 30 then Inl (Failure ''bad huffman code'')
      else ebind (base_extra stbi__zdist_base stbi__zdist_extra a z) (\<lambda>(dist, a). put_match len dist a))
    (\<lambda>(fin, b). zgood b)"
  proof (cases "z < 0 \<or> z \<ge> 30")
    case False
    then have "0 < stbi__zdist_base ! nat z" by (intro zdist_base_pos) auto
    then show ?thesis
      using False assms(2) zgood_same_out [OF good] unfolding x
      by (simp, intro ensures_bind [OF dist]) (auto intro!: ensures_mono [OF ensures_put_match])
  qed (simp add: x)
qed (use assms in \<open>auto simp: zok_def ztables_def\<close>)

lemma ensures_huffman_block_step:
  assumes "zgood a"
  shows "ensures (huffman_block_step a) (\<lambda>(fin, b). zgood b)"
  unfolding huffman_block_step_def
proof (rule ensures_bind, rule ensures_decode)
  fix x :: "int \<times> stbi__zbuf" assume "case x of (z, c) \<Rightarrow> zbits_ok c \<and> same_out c a"
  then obtain z c where x: "x = (z, c)" and c: "zbits_ok c" "same_out c a" by (cases x) auto
  have good: "zgood c" using zgood_same_out [OF assms c(2,1)] .
  have len: "ensures (ebind (base_extra stbi__zlength_base stbi__zlength_extra c (z - 257)) (\<lambda>(len, a). read_dist len a))
      (\<lambda>(fin, b). zgood b)" if z: "256 < z" "z < 286"
  proof (rule ensures_bind, rule ensures_base_extra)
    fix y assume "case y of (v, b) \<Rightarrow> zbits_ok b \<and> same_out b c \<and> stbi__zlength_base ! nat (z - 257) \<le> v"
    then show "ensures (case y of (len, a) \<Rightarrow> read_dist len a) (\<lambda>(fin, b). zgood b)"
      using zgood_same_out [OF good] zlength_base_ge3 [of "z - 257"] z by (cases y) (auto intro!: ensures_read_dist)
  qed (use c z in \<open>auto simp: stbi__zlength_base_def stbi__zlength_extra_def\<close>)
  show "ensures (case x of (z, a) \<Rightarrow>
     if z < 256
     then if z < 0 then Inl (Failure ''bad huffman code'') else put_literal a z
     else if z = 256
     then if hit_zeof_once a \<and> num_bits a < 16 then Inl (Failure ''unexpected end'')
          else Inr (True, a)
     else if z \<ge> 286 then Inl (Failure ''bad huffman code'')
     else ebind (base_extra stbi__zlength_base stbi__zlength_extra a (z - 257)) (\<lambda>(len, a).
          read_dist len a)) (\<lambda>(fin, b). zgood b)"
    unfolding x prod.case
    by (intro ensures_if len ensures_put_literal) (use good in auto)
qed (use assms in \<open>auto simp: zok_def ztables_def\<close>)

lemma ensures_parse_huffman_block:
  "zgood a \<Longrightarrow> ensures (stbi__parse_huffman_block a) zgood"
proof (induction a rule: stbi__parse_huffman_block.induct)
  case (1 a)
  show ?case
  proof (cases "huffman_block_step a")
    case (Inl e)
    with ensures_huffman_block_step [OF "1.prems"] show ?thesis
      by (subst stbi__parse_huffman_block.simps) simp
  next
    case (Inr x)
    obtain fin b where x: "x = (fin, b)" by fastforce
    with Inr ensures_huffman_block_step [OF "1.prems"] have "zgood b" by simp
    with Inr x "1.IH" [OF Inr x [symmetric]] show ?thesis
      by (subst stbi__parse_huffman_block.simps) simp
  qed
qed

section \<open>Dynamic code lengths\<close>

lemma ensures_bind2:
  assumes "ensures m (\<lambda>(x, y). P x y)" and "\<And>x y. P x y \<Longrightarrow> ensures (f x y) Q"
  shows "ensures (ebind m (\<lambda>(x, y). f x y)) Q"
  using assms by (cases m) auto

text \<open>Reading the code lengths of a dynamic block: they stay below 16 and their number below \<open>ntot\<close>.\<close>

definition lens_ok :: "stbi_uc list \<Rightarrow> bool" where
  "lens_ok l \<longleftrightarrow> (\<forall>x \<in> set l. unat x \<le> 15)"

lemma ensures_zreceive':
  assumes "zbits_ok b" "same_out b a" "n \<le> 16"
  shows "ensures (stbi__zreceive b n) (\<lambda>(k, d). zbits_ok d \<and> same_out d a \<and> unat k < 2 ^ n)"
  using ensures_zreceive [OF assms(1,3)] by (rule ensures_mono) (use assms(2) in \<open>auto intro: same_out_trans\<close>)

lemma ensures_codelength_run:
  assumes "zbits_ok b" "same_out b a" "lens_ok l"
  shows "ensures (codelength_run c l b) (\<lambda>(n, fill, d). zbits_ok d \<and> same_out d a \<and> unat fill \<le> 15)"
proof -
  have "l \<noteq> [] \<Longrightarrow> unat (last l) \<le> 15" using assms(3) by (simp add: lens_ok_def)
  then show ?thesis
    unfolding codelength_run_def
    by (intro ensures_if ensures_bind [OF ensures_zreceive' [OF assms(1,2)]]) auto
qed

lemma ensures_codelength_step:
  assumes "htab zc" "zbits_ok a" "lens_ok l" "length l < ntot" "ntot \<le> 320"
  shows "ensures (codelength_step zc ntot l a)
    (\<lambda>(l', b). zbits_ok b \<and> same_out b a \<and> lens_ok l' \<and> length l' \<le> ntot)"
  unfolding codelength_step_def
proof (rule ensures_bind [OF ensures_decode [OF assms(1,2)]])
  fix x :: "int \<times> stbi__zbuf" assume "case x of (v, b) \<Rightarrow> zbits_ok b \<and> same_out b a"
  then obtain c b where x: "x = (c, b)" and b: "zbits_ok b" "same_out b a" by (cases x) auto
  have lit: "unat (STBI__BYTECAST c) \<le> 15" if "0 \<le> c" "c < 16"
  proof -
    have "int (unat (STBI__BYTECAST c)) = c" using that by (simp add: uint_BYTECAST_id)
    then show ?thesis using that by linarith
  qed
  show "ensures (case x of (c, a) \<Rightarrow>
     if c < 0 \<or> c \<ge> 19 then Inl (Failure ''bad codelengths'')
     else if c < 16 then
       ebind (lencodes_add l [STBI__BYTECAST c]) (\<lambda>l. Inr (l, a))
     else
       ebind (codelength_run c l a) (\<lambda>(c, fill, a).
       if ntot - length l < c then Inl (Failure ''bad codelengths'')
       else ebind (lencodes_add l (replicate c fill)) (\<lambda>l. Inr (l, a))))
    (\<lambda>(l', b). zbits_ok b \<and> same_out b a \<and> lens_ok l' \<and> length l' \<le> ntot)"
    unfolding x prod.case
    by (intro ensures_if ensures_bind [OF ensures_codelength_run [OF b assms(3)]])
      (use assms b lit in \<open>auto simp: lencodes_add_def lens_ok_def\<close>)
qed

lemma ensures_codelengths_loop:
  assumes "htab zc" "zbits_ok b" "same_out b a" "lens_ok l" "length l \<le> ntot" "ntot \<le> 320"
  shows "ensures (codelengths_loop zc ntot l b) (\<lambda>(l', b). zbits_ok b \<and> same_out b a \<and> lens_ok l' \<and> length l' \<le> ntot)"
  using assms
proof (induction zc ntot l b rule: codelengths_loop.induct)
  case (1 zc ntot l b)
  show ?case
  proof (cases "length l < ntot")
    case True
    have st: "ensures (codelength_step zc ntot l b)
        (\<lambda>(l', c). zbits_ok c \<and> same_out c b \<and> lens_ok l' \<and> length l' \<le> ntot)"
      using "1.prems" True by (intro ensures_codelength_step)
    have "ensures (codelengths_loop zc ntot l1 c)
        (\<lambda>(l', b). zbits_ok b \<and> same_out b a \<and> lens_ok l' \<and> length l' \<le> ntot)"
      if "codelength_step zc ntot l b = Inr (l1, c)" for l1 c
      using "1.IH" [OF True that refl] "1.prems" ensures_Inr [OF st that] by (auto intro: same_out_trans)
    with st True show ?thesis
      by (subst codelengths_loop.simps) (cases "codelength_step zc ntot l b", auto)
  next
    case False
    with "1.prems" show ?thesis by (subst codelengths_loop.simps) simp
  qed
qed

lemma ensures_codelength_sizes:
  assumes "zbits_ok a" "n \<le> 19"
  shows "ensures (efold codelength_size_step [0..<n] (replicate 19 0, a))
    (\<lambda>(sizes, b). length sizes = 19 \<and> lens_ok sizes \<and> zbits_ok b \<and> same_out b a)"
proof (rule ensures_efold)
  fix i and st :: "stbi_uc list \<times> stbi__zbuf"
  assume i: "i \<in> set [0..<n]"
  assume "case st of (sizes, b) \<Rightarrow> length sizes = 19 \<and> lens_ok sizes \<and> zbits_ok b \<and> same_out b a"
  then obtain sizes b where st: "st = (sizes, b)" "length sizes = 19" "lens_ok sizes" "zbits_ok b" "same_out b a"
    by (cases st) auto
  have "list_all (\<lambda>p. p < 19) length_dezigzag" and len: "length length_dezigzag = 19" by (simp_all add: length_dezigzag_def)
  then have p: "length_dezigzag ! i < 19" using i assms(2) by (simp add: list_all_length)
  have "unat (ucast s :: stbi_uc) \<le> 15" if "unat s < 8" for s :: uint32
    using that by (simp add: unsigned_ucast_eq unsigned_take_bit_eq take_bit_nat_eq_self)
  then have "lens_ok (sizes[length_dezigzag ! i := ucast s])" if "unat s < 8" for s :: uint32
    using st(3) that set_update_subset_insert [of sizes "length_dezigzag ! i" "ucast s"] unfolding lens_ok_def by blast
  then show "ensures (codelength_size_step i st)
      (\<lambda>(sizes, b). length sizes = 19 \<and> lens_ok sizes \<and> zbits_ok b \<and> same_out b a)"
    unfolding st(1) codelength_size_step_def prod.case
    by (intro ensures_bind [OF ensures_zreceive' [OF st(4,5)]]) (use i assms(2) p len st(2) in auto)
qed (use assms in \<open>simp add: lens_ok_def\<close>)

lemma shape_uninit: "shape_ok zhuffman_uninit"
  by (simp add: shape_ok_def zhuffman_uninit_def STBI__ZNSYMS_def)

lemma lens_ok_take_drop: "lens_ok l \<Longrightarrow> \<forall>x \<in> set (take n (drop m l)). unat x \<le> 15"
  by (auto simp: lens_ok_def dest!: in_set_takeD in_set_dropD)

lemma ensures_both_tables:
  assumes "zok b" "ensures m htab" "ensures m' htab"
  shows "ensures (ebind m (\<lambda>zl. ebind m' (\<lambda>zd. Inr (b\<lparr>z_length := zl, z_distance := zd\<rparr>)))) zgood"
  by (rule ensures_bind [OF assms(2)], rule ensures_bind [OF assms(3)])
    (use assms(1) in \<open>auto simp: zok_def zbits_ok_def ztables_def htab_shape\<close>)

lemma ensures_compute_huffman_codes:
  assumes "zok a"
  shows "ensures (stbi__compute_huffman_codes a) zgood"
proof -
  have tabs: "ensures (ebind (stbi__zbuild_huffman (z_length b) l hlit) (\<lambda>zl.
       ebind (stbi__zbuild_huffman (z_distance b) (drop hlit l) hdist) (\<lambda>zd.
       Inr (b\<lparr>z_length := zl, z_distance := zd\<rparr>)))) zgood"
    if "zbits_ok b" "same_out b a" "lens_ok l" "hlit + hdist = length l" "hlit \<le> 288" "hdist \<le> 288" for b l hlit hdist
  proof -
    have b: "zok b" using zok_same_out [OF assms] that by blast
    have "ensures (stbi__zbuild_huffman (z_length b) l hlit) htab"
      using b that lens_ok_take_drop [OF that(3), of hlit 0] by (intro ensures_zbuild) (auto simp: zok_def)
    moreover have "ensures (stbi__zbuild_huffman (z_distance b) (drop hlit l) hdist) htab"
      using b that by (intro ensures_zbuild lens_ok_take_drop) (simp_all add: zok_def)
    ultimately show ?thesis by (rule ensures_both_tables [OF b])
  qed
  have zb: "zbits_ok a" using assms by (simp add: zok_def)
  have lens: "ensures (stbi__zbuild_huffman zhuffman_uninit sizes 19) htab" if "length sizes = 19" "lens_ok sizes" for sizes
    using that lens_ok_take_drop [OF that(2), of 19 0] by (intro ensures_zbuild) (simp_all add: shape_uninit)
  have loop: "ensures (ebind (codelengths_loop zc (hlit + hdist) [] b) (\<lambda>(l, b).
       if length l \<noteq> hlit + hdist then Inl (Failure ''bad codelengths'')
       else ebind (stbi__zbuild_huffman (z_length b) l hlit) (\<lambda>zl.
            ebind (stbi__zbuild_huffman (z_distance b) (drop hlit l) hdist) (\<lambda>zd.
            Inr (b\<lparr>z_length := zl, z_distance := zd\<rparr>))))) zgood"
    if "htab zc" "zbits_ok b" "same_out b a" "hlit \<le> 288" "hdist \<le> 32" for zc b hlit hdist
    by (rule ensures_bind [OF ensures_codelengths_loop [OF that(1-3)]])
      (use that tabs in \<open>auto simp: lens_ok_def split: if_splits\<close>)
  have sizes: "ensures (ebind (efold codelength_size_step [0..<n] (replicate 19 0, b)) (\<lambda>(sizes, b).
       ebind (stbi__zbuild_huffman zhuffman_uninit sizes 19) (\<lambda>zc.
       ebind (codelengths_loop zc (hlit + hdist) [] b) (\<lambda>(l, b).
       if length l \<noteq> hlit + hdist then Inl (Failure ''bad codelengths'')
       else ebind (stbi__zbuild_huffman (z_length b) l hlit) (\<lambda>zl.
            ebind (stbi__zbuild_huffman (z_distance b) (drop hlit l) hdist) (\<lambda>zd.
            Inr (b\<lparr>z_length := zl, z_distance := zd\<rparr>))))))) zgood"
    if b: "zbits_ok b" "same_out b a" and le: "n \<le> 19" "hlit \<le> 288" "hdist \<le> 32" for n b hlit hdist
    by (rule ensures_bind [OF ensures_codelength_sizes [OF b(1) le(1)]], clarsimp,
        rule ensures_bind [OF lens], assumption, assumption, rule loop)
      (use b le in \<open>auto intro: same_out_trans\<close>)
  show ?thesis
    unfolding stbi__compute_huffman_codes_def Let_def
    by (rule ensures_bind2 [OF ensures_zreceive' [OF zb same_out_refl]], simp,
        (elim conjE, rule ensures_bind2 [OF ensures_zreceive'], assumption, assumption, simp)+,
        rule sizes) auto
qed

section \<open>Stored blocks and the block loop\<close>

lemma ensures_align_byte:
  assumes "zok a"
  shows "ensures (align_byte a) (\<lambda>b. zok b \<and> num_bits b mod 8 = 0)"
proof -
  define k where "k = nat (num_bits a AND 7)"
  have z: "zbits_ok a" using assms by (simp add: zok_def)
  have m: "num_bits a AND 7 = num_bits a mod 8" using take_bit_eq_mask [of 3 "num_bits a"] by (simp add: mask_eq_exp_minus_1 take_bit_eq_mod)
  have k: "int k = num_bits a mod 8" "k \<le> 7" using m by (auto simp: k_def)
  have le: "\<not> num_bits a < int k" using z k by (auto simp: zbits_ok_def zmod_le_nonneg_dividend)
  have "ensures (stbi__zreceive a k) (\<lambda>(_, b). zok b \<and> num_bits b mod 8 = 0)"
    using ensures_zreceive [OF z, of k] k le assms
    by (auto simp: stbi__zreceive_def Let_def minus_mod_eq_mult_div dest: zok_same_out)
  then show ?thesis
    unfolding align_byte_def k_def [symmetric] using assms m
    by (intro ensures_if) (auto intro: ensures_bind)
qed

lemma ensures_drain_header:
  assumes "zok a" "num_bits a mod 8 = 0" "int (length h) + num_bits a div 8 \<le> 4"
  shows "ensures (drain_header h a) (\<lambda>(h', b). zok b \<and> num_bits b = 0 \<and> length h' \<le> 4)"
  using assms
proof (induction h a rule: drain_header.induct)
  case (1 h a)
  show ?case
  proof (cases "num_bits a > 0")
    case True
    with "1.prems"(2) have "8 \<le> num_bits a" by presburger
    define b where "b = a\<lparr>code_buffer := drop_bit 8 (code_buffer a), num_bits := num_bits a - 8\<rparr>"
    have lt: "length h < 4" using "1.prems"(3) \<open>8 \<le> num_bits a\<close> by linarith
    have "zbits_ok a" using "1.prems"(1) by (simp add: zok_def)
    then have "zbits_ok b" using consume_stream(1) [of a 8] \<open>8 \<le> num_bits a\<close> by (simp add: b_def)
    moreover have "same_out b a" by (simp add: b_def same_out_def)
    ultimately have b: "zok b" using "1.prems"(1) by (blast intro: zok_same_out)
    have "num_bits b mod 8 = 0" "num_bits b div 8 = num_bits a div 8 - 1"
      using "1.prems"(2) by (auto simp: b_def)
    with "1.IH" [OF True lt, folded b_def] b "1.prems"(3)
    have "ensures (drain_header (h @ [ucast (code_buffer a AND 255)]) b)
        (\<lambda>(h', b). zok b \<and> num_bits b = 0 \<and> length h' \<le> 4)" by simp
    with True lt show ?thesis by (subst drain_header.simps) (simp add: b_def)
  next
    case False
    with "1.prems" show ?thesis by (subst drain_header.simps) (auto simp: zok_def zbits_ok_def)
  qed
qed

lemma fill_header_zok:
  assumes "zok a" "fill_header h a = (h', b)"
  shows "zok b"
proof -
  from fill_header_frame [OF assms(2)] have f: "same_out b a" "num_bits b = num_bits a" by auto
  have "code_buffer b = code_buffer a"
    using assms(2)
  proof (induction h a rule: fill_header.induct)
    case (1 h a)
    obtain x y where g: "stbi__zget8 a = (x, y)" by fastforce
    have "code_buffer y = code_buffer a" using g by (auto simp: stbi__zget8_def split: list.splits)
    with 1 g show ?case by (subst (asm) (2) fill_header.simps) (auto split: if_splits)
  qed
  with f assms(1) show ?thesis by (auto simp: zok_def zbits_ok_def same_out_def)
qed

lemma ensures_copy_stored:
  assumes "zok a"
  shows "ensures (copy_stored n a) (\<lambda>b. zok b \<and> zout b = zout a @ take n (zbuffer a))"
proof -
  have "ensures (if length (zout a) + n > unat (zlimit a) then stbi__zexpand a n else Inr a)
      (\<lambda>b. zok b \<and> zout b = zout a \<and> zbuffer b = zbuffer a \<and> length (zout b) + n \<le> unat (zlimit b))"
    using assms by (intro ensures_if ensures_mono [OF ensures_zexpand]) auto
  then show ?thesis
    unfolding copy_stored_def
    by (intro ensures_if) (simp, rule ensures_bind, assumption, auto simp: zok_def zbits_ok_def)
qed

lemma ensures_parse_uncompressed_block:
  assumes "zok a"
  shows "ensures (stbi__parse_uncompressed_block a) zok"
proof -
  have tail: "ensures (let (header, a) = fill_header h b;
           len = uint (header ! 1) * 256 + uint (header ! 0);
           nlen = uint (header ! 3) * 256 + uint (header ! 2)
       in if nlen \<noteq> (len XOR 0xffff) then Inl (Failure ''zlib corrupt'') else copy_stored (nat len) a) zok"
    if "zok b" for h b
    using that fill_header_zok [OF that] ensures_mono [OF ensures_copy_stored]
    by (auto simp: Let_def split: prod.split)
  have drain: "ensures (drain_header [] b) (\<lambda>(h', b). zok b \<and> num_bits b = 0 \<and> length h' \<le> 4)"
    if "zok b" "num_bits b mod 8 = 0" for b
    using that by (intro ensures_drain_header) (auto simp: zok_def zbits_ok_def)
  show ?thesis
    unfolding stbi__parse_uncompressed_block_def
    by (rule ensures_bind [OF ensures_align_byte [OF assms]], rule ensures_bind [OF drain])
      (use tail in auto)
qed

lemma ensures_zlib_block:
  assumes "zok a"
  shows "ensures (zlib_block a) (\<lambda>(fin, b). zok b)"
proof -
  have fixed: "ensures (ebind (stbi__zbuild_huffman (z_length b) stbi__zdefault_length STBI__ZNSYMS) (\<lambda>zl.
      ebind (stbi__zbuild_huffman (z_distance b) stbi__zdefault_distance 32) (\<lambda>zd.
      Inr (b\<lparr>z_length := zl, z_distance := zd\<rparr>)))) zgood" if "zok b" for b
    using that
    by (intro ensures_both_tables ensures_zbuild)
      (auto simp: zok_def stbi__zdefault_length_def stbi__zdefault_distance_def STBI__ZNSYMS_def)
  have tabs: "ensures (if (t :: uint32) = 1
      then ebind (stbi__zbuild_huffman (z_length b) stbi__zdefault_length STBI__ZNSYMS) (\<lambda>zl.
           ebind (stbi__zbuild_huffman (z_distance b) stbi__zdefault_distance 32) (\<lambda>zd.
           Inr (b\<lparr>z_length := zl, z_distance := zd\<rparr>)))
      else stbi__compute_huffman_codes b) zgood" if "zok b" for b t
    using fixed [OF that] ensures_compute_huffman_codes [OF that] by simp
  have body: "ensures (if t = 0 then stbi__parse_uncompressed_block b
      else if t = 3 then Inl Silent
      else ebind (if t = 1
                then ebind (stbi__zbuild_huffman (z_length b) stbi__zdefault_length STBI__ZNSYMS) (\<lambda>zl.
                     ebind (stbi__zbuild_huffman (z_distance b) stbi__zdefault_distance 32) (\<lambda>zd.
                     Inr (b\<lparr>z_length := zl, z_distance := zd\<rparr>)))
                else stbi__compute_huffman_codes b) stbi__parse_huffman_block) zok"
    if "zok b" for b and t :: uint32
    using ensures_parse_uncompressed_block [OF that]
    by (intro ensures_if ensures_bind [OF tabs [OF that]])
      (auto intro: ensures_mono [OF ensures_parse_huffman_block])
  have rec: "ensures (stbi__zreceive b n) (\<lambda>(k, c). zok c)" if "zok b" "n \<le> 16" for b n
    using that ensures_zreceive [of b n] by (auto simp: zok_def same_out_def elim!: ensures_mono)
  show ?thesis
    unfolding zlib_block_def
    by (rule ensures_bind2 [OF rec [OF assms]], simp, rule ensures_bind2 [OF rec], assumption, simp,
        rule ensures_bind [OF body], assumption) simp
qed

lemma ensures_zlib_blocks: "zok a \<Longrightarrow> ensures (zlib_blocks a) zok"
proof (induction a rule: zlib_blocks.induct)
  case (1 a)
  note st = ensures_zlib_block [OF "1.prems"]
  have "ensures (zlib_blocks b) zok" if "zlib_block a = Inr (False, b)" for b
    using "1.IH" [OF that refl] ensures_Inr [OF st that] by simp
  with st show ?case
    by (subst zlib_blocks.simps) (cases "zlib_block a", auto)
qed

lemma ensures_parse_zlib:
  assumes "0 < unat (zlimit a)" "length (zout a) \<le> unat (zlimit a)" "shape_ok (z_length a)" "shape_ok (z_distance a)"
  shows "ensures (stbi__parse_zlib a h) zok"
proof -
  have hd: "ensures (if h then stbi__parse_zlib_header a else Inr a) (\<lambda>b. same_out b a)"
    by (auto simp: stbi__parse_zlib_header_def stbi__zget8_def same_out_def Let_def split: list.split)
  show ?thesis
    unfolding stbi__parse_zlib_def
    by (rule ensures_bind [OF hd], rule ensures_zlib_blocks)
      (use assms in \<open>auto simp: zok_def zbits_ok_def same_out_def\<close>)
qed

lemma ensures_do_zlib:
  assumes "0 < olen" "olen < 2 ^ 32"
  shows "ensures (stbi__do_zlib ibuf olen exp hdr) zok"
  unfolding stbi__do_zlib_def
  by (rule ensures_parse_zlib) (use assms shape_uninit in \<open>auto simp: unat_of_nat\<close>)

section \<open>Properties\<close>

text \<open>C11. Memory safety and termination of the zlib decoder: on every input of bytes, with an output
  buffer of any positive size below \<open>2 ^ 32\<close>, growing or fixed, with or without a header,
  \<open>stbi__do_zlib\<close> returns; it reads and writes no table, buffer or output position out of bounds,
  shifts by no more than the width, fails no assertion, and the output it returns lies within the
  limit of the buffer.\<close>

theorem do_zlib_safe:
  assumes "0 < olen" and "olen < 2 ^ 32"
  shows "(case stbi__do_zlib ibuf olen exp parse_header of
    Inl e \<Rightarrow> e \<noteq> Undefined \<and> e \<noteq> NoReturn
  | Inr a \<Rightarrow> length (zout a) \<le> unat (zlimit a))"
  using ensures_do_zlib [OF assms, of ibuf exp parse_header]
  by (auto simp: ensures_def regular_def zok_def split: sum.splits)

theorem do_zlib_safe_witness:
  "(case stbi__do_zlib [0x78, 0x9c, 0x03, 0x00] 16384 True True of
    Inl e \<Rightarrow> e \<noteq> Undefined \<and> e \<noteq> NoReturn
  | Inr a \<Rightarrow> length (zout a) \<le> unat (zlimit a))"
  by (rule do_zlib_safe) simp_all

end
