(* ===== verification/Stbi_Source.thy ===== *)
theory Stbi_Source
  imports Stbi_State Stbi_Stdio
begin

text \<open>
  What the format decoders rely on when they read: the interface \<open>byte_source\<close>. Every context that
  offers it delivers its remaining bytes and then zeros, never leaves its buffer, and reading leaves
  the image fields alone. Memory blocks offer it, and so does every callback source that keeps its
  contract (\<open>io_source\<close>), in particular the \<open>FILE\<close> callbacks. The rules for the weakest
  preconditions of the reading steps are proved once, here.
\<close>

section \<open>The interface\<close>

locale byte_source =
  fixes ok :: "'u stbi__context \<Rightarrow> bool"
    and left :: "'u stbi__context \<Rightarrow> nat"
  assumes get8_ok: "ok s \<Longrightarrow> ok (snd (stbi__get8 s))"
    and get8_left: "ok s \<Longrightarrow> left (snd (stbi__get8 s)) = left s - 1"
    and get8_end: "ok s \<Longrightarrow> left s = 0 \<Longrightarrow> fst (stbi__get8 s) = 0"
    and skip_ok: "ok s \<Longrightarrow> ok (stbi__skip s n)"
    and skip_left: "ok s \<Longrightarrow> left (stbi__skip s n) \<le> left s"
    and getn_ok: "ok s \<Longrightarrow> ok (snd (stbi__getn s k))"
    and getn_left: "ok s \<Longrightarrow> left (snd (stbi__getn s k)) \<le> left s"
    and getn_bytes: "ok s \<Longrightarrow> fst (stbi__getn s k) = Some bs \<Longrightarrow> length bs = k"
    and img_ok [simp]: "ok (s\<lparr>img_x := x\<rparr>) = ok s" "ok (s\<lparr>img_y := y\<rparr>) = ok s"
      "ok (s\<lparr>img_n := c\<rparr>) = ok s" "ok (s\<lparr>img_out_n := c\<rparr>) = ok s"
    and img_left [simp]: "left (s\<lparr>img_x := x\<rparr>) = left s" "left (s\<lparr>img_y := y\<rparr>) = left s"
      "left (s\<lparr>img_n := c\<rparr>) = left s" "left (s\<lparr>img_out_n := c\<rparr>) = left s"
begin

text \<open>\<open>t\<close> is a context that reading from \<open>s\<close> may lead to.\<close>

definition after :: "'u stbi__context \<Rightarrow> 'u stbi__context \<Rightarrow> bool" where
  "after s t \<longleftrightarrow> ok t \<and> left t \<le> left s \<and> same_img t s"

lemma after_refl [simp]: "after s s \<longleftrightarrow> ok s"
  by (simp add: after_def)

lemma after_trans [trans]: "after s t \<Longrightarrow> after t u \<Longrightarrow> after s u"
  by (auto simp: after_def intro: same_img_trans)

lemma afterD: "after s t \<Longrightarrow> ok t" "after s t \<Longrightarrow> left t \<le> left s" "after s t \<Longrightarrow> same_img t s"
  by (simp_all add: after_def)

lemma after_img:
  "after s t \<Longrightarrow> img_x t = img_x s" "after s t \<Longrightarrow> img_y t = img_y s"
  "after s t \<Longrightarrow> img_n t = img_n s" "after s t \<Longrightarrow> img_out_n t = img_out_n s"
  by (simp_all add: after_def same_img_def)

lemma after_skip: "ok s \<Longrightarrow> after s (stbi__skip s n)"
  by (simp add: after_def skip_ok skip_left skip_same_img)

text \<open>The reading steps. A decoder state that is exhausted reads zeros.\<close>

lemma wp_get8:
  assumes "ok s"
    and "\<And>b t. after s t \<Longrightarrow> left t = left s - 1 \<Longrightarrow> (left s = 0 \<Longrightarrow> b = 0) \<Longrightarrow> Q b t"
  shows "wp (stot stbi__get8) Q E s"
  using get8_ok [OF assms(1)] get8_left [OF assms(1)] get8_end [OF assms(1)]
  by (cases "stbi__get8 s") (auto simp: wp_stot after_def intro!: assms(2) dest: get8_same_img)

lemma wp_get16:
  assumes s: "ok s"
    and Q: "\<And>v t. after s t \<Longrightarrow> left t = left s - 2 \<Longrightarrow> 0 \<le> v \<Longrightarrow> v < 65536 \<Longrightarrow>
      (left s = 0 \<Longrightarrow> v = 0) \<Longrightarrow> Q v t"
  shows "wp (stot stbi__get16be) Q E s" and "wp (stot stbi__get16le) Q E s"
proof -
  obtain a t where a: "stbi__get8 s = (a, t)" by fastforce
  obtain b u where b: "stbi__get8 t = (b, u)" by fastforce
  have t: "ok t" "left t = left s - 1" "left s = 0 \<Longrightarrow> a = 0" "same_img t s"
    using get8_ok [OF s] get8_left [OF s] get8_end [OF s] a by (auto dest: get8_same_img)
  have u: "ok u" "left u = left t - 1" "left t = 0 \<Longrightarrow> b = 0" "same_img u t"
    using get8_ok [OF t(1)] get8_left [OF t(1)] get8_end [OF t(1)] b by (auto dest: get8_same_img)
  have "after s u" and "left u = left s - 2" and z: "left s = 0 \<Longrightarrow> a = 0 \<and> b = 0"
    using t u by (auto simp: after_def intro: same_img_trans)
  note Q = Q [OF this(1,2)]
  have bounds: "uint a \<le> 255" "uint b \<le> 255" "0 \<le> uint a" "0 \<le> uint b"
    using uint_bounds8 [of a] uint_bounds8 [of b] by simp_all
  have "Q (uint a * 256 + uint b) u" and "Q (uint a + uint b * 256) u"
    by (rule Q; use bounds z in auto)+
  then show "wp (stot stbi__get16be) Q E s" and "wp (stot stbi__get16le) Q E s"
    by (simp_all add: wp_stot stbi__get16be_def stbi__get16le_def a b)
qed

lemma wp_get32:
  assumes s: "ok s"
    and Q: "\<And>v t. after s t \<Longrightarrow> left t = left s - 4 \<Longrightarrow> (left s = 0 \<Longrightarrow> v = 0) \<Longrightarrow> Q v t"
  shows "wp (stot stbi__get32be) Q E s" and "wp (stot stbi__get32le) Q E s"
proof -
  have "wp (sbind (stot stbi__get16be) (\<lambda>z. sbind (stot stbi__get16be) (\<lambda>y.
      sret (push_bit 16 (u32cast z) + u32cast y)))) Q E s"
    unfolding wp_simps
    by (rule wp_get16(1) [OF s], rule wp_get16(1)) (auto simp: u32cast_def dest: afterD intro!: Q intro: after_trans)
  then show "wp (stot stbi__get32be) Q E s"
    by (simp add: wp_stot wp_simps stbi__get32be_def split: prod.splits)
  have "wp (sbind (stot stbi__get16le) (\<lambda>z. sbind (stot stbi__get16le) (\<lambda>y.
      sret (u32cast z + push_bit 16 (u32cast y))))) Q E s"
    unfolding wp_simps
    by (rule wp_get16(2) [OF s], rule wp_get16(2)) (auto simp: u32cast_def dest: afterD intro!: Q intro: after_trans)
  then show "wp (stot stbi__get32le) Q E s"
    by (simp add: wp_stot wp_simps stbi__get32le_def split: prod.splits)
qed

lemma wp_getn:
  assumes "ok s" and "\<And>r t. after s t \<Longrightarrow> (\<And>bs. r = Some bs \<Longrightarrow> length bs = k) \<Longrightarrow> Q r t"
  shows "wp (stot (\<lambda>s. stbi__getn s k)) Q E s"
  using getn_ok [OF assms(1), of k] getn_left [OF assms(1), of k] getn_bytes [OF assms(1), of k]
  by (cases "stbi__getn s k") (auto simp: wp_stot after_def intro!: assms(2) dest: getn_same_img)

text \<open>The same rules with the facts about the new context spelt out, as equations that rewrite its
  fields, for automatic proofs.\<close>

definition reads_to :: "'u stbi__context \<Rightarrow> nat \<Rightarrow> 'u stbi__context \<Rightarrow> bool" where
  "reads_to s k t \<longleftrightarrow> ok t \<and> left t = left s - k \<and> img_x t = img_x s \<and> img_y t = img_y s \<and>
     img_n t = img_n s \<and> img_out_n t = img_out_n s"

lemma reads_to_after: "after s t \<Longrightarrow> left t = left s - k \<Longrightarrow> reads_to s k t"
  by (simp add: after_def reads_to_def same_img_def)

lemma vc_get8:
  assumes "ok s" and "\<And>b t. reads_to s 1 t \<Longrightarrow> Q b t"
  shows "wp (stot stbi__get8) Q E s"
  by (rule wp_get8 [OF assms(1)], rule assms(2), rule reads_to_after)

lemma vc_get16:
  assumes "ok s" and "\<And>v t. reads_to s 2 t \<Longrightarrow> 0 \<le> v \<Longrightarrow> v < 65536 \<Longrightarrow> Q v t"
  shows "wp (stot stbi__get16be) Q E s" and "wp (stot stbi__get16le) Q E s"
  by (rule wp_get16 [OF assms(1)], rule assms(2); simp add: reads_to_after)+

lemma vc_get32:
  assumes "ok s" and "\<And>v t. reads_to s 4 t \<Longrightarrow> Q v t"
  shows "wp (stot stbi__get32be) Q E s" and "wp (stot stbi__get32le) Q E s"
  by (rule wp_get32 [OF assms(1)], rule assms(2); simp add: reads_to_after)+

end

section \<open>Memory blocks\<close>

lemma mem_stream: "mem_ctx s \<Longrightarrow> stream s = drop (img_buffer s) (buffer s)"
  by (simp add: stream_def mem_ctx_def)

interpretation mem: byte_source mem_ctx "\<lambda>s. length (stream s)"
proof unfold_locales
  fix s :: "'a stbi__context" and n :: int and k :: nat and bs assume s: "mem_ctx s"
  show "mem_ctx (snd (stbi__get8 s))" and "length (stream (snd (stbi__get8 s))) = length (stream s) - 1"
      and "length (stream s) = 0 \<Longrightarrow> fst (stbi__get8 s) = 0"
    using s get8_mem_Nil [OF s] get8_mem_Cons [OF s] by (cases "stream s"; simp)+
  show "mem_ctx (stbi__skip s n)"
    using s by (simp add: stbi__skip_def mem_ctx_def)
  then show "length (stream (stbi__skip s n)) \<le> length (stream s)"
    using s by (simp add: mem_stream) (auto simp: stbi__skip_def mem_ctx_def intro: diff_le_mono2)
  show "mem_ctx (snd (stbi__getn s k))"
    using s by (simp add: stbi__getn_def getn_buffered_def mem_ctx_def)
  then show "length (stream (snd (stbi__getn s k))) \<le> length (stream s)"
    using s by (simp add: mem_stream) (auto simp: stbi__getn_def getn_buffered_def mem_ctx_def intro: diff_le_mono2)
  show "fst (stbi__getn s k) = Some bs \<Longrightarrow> length bs = k"
    using s by (auto simp: stbi__getn_def getn_buffered_def mem_ctx_def split: if_splits)
qed (simp_all add: mem_ctx_def stream_def)

section \<open>Callbacks\<close>

context io_source
begin

lemma cb_skip:
  assumes "cb_ctx s"
  shows "cb_ctx (stbi__skip s n)" and "length (cb_stream (stbi__skip s n)) \<le> length (cb_stream s)"
proof -
  have le: "img_buffer s \<le> img_buffer_end s" and io: "io s = Some cb" and ok: "ok (io_user_data s)"
    using assms by (auto simp: cb_ctx_def)
  have pos: "0 \<le> n - (int (img_buffer_end s) - int (img_buffer s))" if "int (img_buffer_end s) - int (img_buffer s) < n"
    using that by simp
  have sub: "set (drop (a + nat n) xs) \<subseteq> set (drop a xs)" for a and xs :: "stbi_uc list"
    by (rule set_drop_subset_set_drop) simp
  show "cb_ctx (stbi__skip s n)"
    using assms pos sub [of "img_buffer s"] skip_ok [OF ok pos]
    by (auto simp: stbi__skip_def cb_ctx_def Let_def subset_iff)
  show "length (cb_stream (stbi__skip s n)) \<le> length (cb_stream s)"
    using io skip_rest [OF ok pos] by (auto simp: stbi__skip_def cb_stream_def Let_def stream_def)
qed

lemma cb_getn:
  assumes "cb_ctx s"
  shows "cb_ctx (snd (stbi__getn s k))" and "length (cb_stream (snd (stbi__getn s k))) \<le> length (cb_stream s)"
    and "fst (stbi__getn s k) = Some bs \<Longrightarrow> length bs = k"
proof -
  have le: "img_buffer s \<le> img_buffer_end s" "img_buffer_end s \<le> length (buffer s)"
      and io: "io s = Some cb" and ok: "ok (io_user_data s)"
    using assms by (auto simp: cb_ctx_def)
  have pos: "0 \<le> int k - (int (img_buffer_end s) - int (img_buffer s))"
    if "int (img_buffer_end s) - int (img_buffer s) < int k"
    using that by simp
  have sub: "set (drop (a + k) xs) \<subseteq> set (drop a xs)" for a and xs :: "stbi_uc list"
    by (rule set_drop_subset_set_drop) simp
  show "cb_ctx (snd (stbi__getn s k))"
    using assms sub [of "img_buffer s"] read_ok [OF ok pos]
    by (auto simp: stbi__getn_def getn_buffered_def cb_ctx_def Let_def subset_iff split: prod.splits)
  show "length (cb_stream (snd (stbi__getn s k))) \<le> length (cb_stream s)"
    using io read_rest [OF ok pos]
    by (auto simp: stbi__getn_def getn_buffered_def cb_stream_def Let_def stream_def split: prod.splits)
  show "fst (stbi__getn s k) = Some bs \<Longrightarrow> length bs = k"
    using io le by (auto simp: stbi__getn_def getn_buffered_def Let_def split: prod.splits if_splits)
qed

end

sublocale io_source \<subseteq> src: byte_source cb_ctx "\<lambda>s. length (cb_stream s)"
proof unfold_locales
  fix s n k bs assume s: "cb_ctx s"
  show "cb_ctx (snd (stbi__get8 s))" and "length (cb_stream (snd (stbi__get8 s))) = length (cb_stream s) - 1"
      and "length (cb_stream s) = 0 \<Longrightarrow> fst (stbi__get8 s) = 0"
    by (rule get8_stream [OF s], simp)+
  show "cb_ctx (stbi__skip s n)" "length (cb_stream (stbi__skip s n)) \<le> length (cb_stream s)"
    using s by (rule cb_skip)+
  show "cb_ctx (snd (stbi__getn s k))" "length (cb_stream (snd (stbi__getn s k))) \<le> length (cb_stream s)"
      "fst (stbi__getn s k) = Some bs \<Longrightarrow> length bs = k"
    using s by (rule cb_getn)+
qed (simp_all add: cb_ctx_def cb_stream_def stream_def)

end
