(* ===== verification/Stbi_Png_Safe.thy ===== *)
theory Stbi_Png_Safe
  imports Stbi_Png Stbi_Png_Adam7 Stbi_Zlib_Safe Stbi_Source
begin

text \<open>
  Safety of the whole PNG decoder: from any source of bytes, \<open>stbi__png_load\<close> returns, without
  undefined behaviour, and an image it returns has the size it says. The state of the chunk loop
  keeps the invariant \<open>png_inv\<close>; each handler is shown to keep it.
\<close>

section \<open>Pixel passes\<close>

lemma ensures_each_pixel:
  assumes "count * n \<le> length p" and "\<And>q. length q = n \<Longrightarrow> length (f q) = n"
  shows "ensures (each_pixel n f count p) (\<lambda>r. length r = length p)"
  using assms(1)
proof (induction count arbitrary: p)
  case (Suc count)
  then have "ensures (each_pixel n f count (drop n p)) (\<lambda>r. length r = length p - n)"
    by (intro ensures_mono [OF Suc.IH]) auto
  with Suc.prems assms(2) show ?case
    by (auto simp: ensures_def ebind_def split: sum.splits)
qed simp

lemma ensures_transparency:
  assumes "out_n = 2 \<or> out_n = 4" and "count * out_n \<le> length p"
  shows "ensures (stbi__compute_transparency count key out_n p) (\<lambda>r. length r = length p)"
  using assms by (auto simp: stbi__compute_transparency_def intro!: ensures_each_pixel)

lemma ensures_transparency16:
  assumes "out_n = 2 \<or> out_n = 4" and "count * (out_n * 2) \<le> length p"
  shows "ensures (stbi__compute_transparency16 count key out_n p) (\<lambda>r. length r = length p)"
  using assms by (auto simp: stbi__compute_transparency16_def store16_def intro!: ensures_each_pixel)

lemma ensures_de_iphone:
  assumes "out_n = 3 \<or> out_n = 4" and "count * out_n \<le> length p"
  shows "ensures (stbi__de_iphone cfg count out_n p) (\<lambda>r. length r = length p)"
  using assms by (auto simp: stbi__de_iphone_def Let_def intro!: ensures_each_pixel)

lemma ensures_expand_palette:
  assumes "count \<le> length p" and "length pal = 1024" and "n = 3 \<or> n = 4"
  shows "ensures (stbi__expand_png_palette count pal n p) (\<lambda>r. length r = count * n)"
proof -
  have idx: "uint v * 4 + 3 < 1024" "0 \<le> uint v" for v :: stbi_uc
    using uint_bounds8 [of v] by auto
  have "ensures (efold (\<lambda>i q.
      ebind (arr_get p (int i)) (\<lambda>v. let k = uint v * 4 in
      ebind (arr_get pal k) (\<lambda>c0. ebind (arr_get pal (k + 1)) (\<lambda>c1. ebind (arr_get pal (k + 2)) (\<lambda>c2.
      if n = 3 then Inr (q @ [c0, c1, c2])
      else ebind (arr_get pal (k + 3)) (\<lambda>c3. Inr (q @ [c0, c1, c2, c3]))))))) [0..<count] [])
    ((\<lambda>i q. length q = i * n) count)"
  proof (rule ensures_efold_upt)
    fix i and q :: "stbi_uc list" assume "i < count" and "length q = i * n"
    then show "ensures (ebind (arr_get p (int i)) (\<lambda>v. let k = uint v * 4 in
      ebind (arr_get pal k) (\<lambda>c0. ebind (arr_get pal (k + 1)) (\<lambda>c1. ebind (arr_get pal (k + 2)) (\<lambda>c2.
      if n = 3 then Inr (q @ [c0, c1, c2])
      else ebind (arr_get pal (k + 3)) (\<lambda>c3. Inr (q @ [c0, c1, c2, c3]))))))) (\<lambda>q. length q = Suc i * n)"
      using assms idx [of "p ! i"] by (auto simp: Let_def)
  qed simp_all
  then show ?thesis
    by (auto simp: stbi__expand_png_palette_def Let_def split: option.split)
qed

lemma ensures_guesssize:
  assumes "n \<noteq> 0" and "n < 2 ^ 32"
  shows "ensures (stbi_zlib_decode_malloc_guesssize_headerflag d n h) (\<lambda>_. True)"
proof (cases "n < 0")
  case False
  have "ensures (ebind (stbi__do_zlib d (nat n) True h) (\<lambda>a. Inr (zout a))) (\<lambda>_. True)"
    by (rule ensures_bind [OF ensures_do_zlib]) (use assms False in \<open>auto simp: nat_less_iff\<close>)
  with False show ?thesis by (simp add: stbi_zlib_decode_malloc_guesssize_headerflag_def)
qed (simp add: stbi_zlib_decode_malloc_guesssize_headerflag_def)

text \<open>The \<open>IDAT\<close> buffer grows without wrap-around while the size needed is below \<open>2 ^ 31\<close>.\<close>

lemma ensures_grow_idata:
  assumes "0 < limit" and "unat need < 2 ^ 31" and "unat need \<le> unat limit * 2 ^ fuel"
  shows "ensures (grow_idata (Suc fuel) need limit) (\<lambda>l. need \<le> l)"
  using assms
proof (induction fuel arbitrary: limit)
  case 0
  then show ?case by (simp add: word_le_nat_alt word_less_nat_alt)
next
  case (Suc fuel)
  show ?case
  proof (cases "need > limit")
    case True
    then have "unat limit < 2 ^ 31" using Suc.prems(2) by (simp add: word_less_nat_alt)
    then have "unat (limit * 2) = unat limit * 2"
      by (simp add: unat_mult_lem [THEN iffD1])
    then have "ensures (grow_idata (Suc fuel) need (limit * 2)) (\<lambda>l. need \<le> l)"
      using Suc.prems by (intro Suc.IH) (auto simp: word_less_nat_alt)
    with True show ?thesis by simp
  qed (auto dest: leD)
qed

section \<open>The invariant\<close>

definition png_data :: "'u stbi__png \<Rightarrow> bool" where
  "png_data z \<longleftrightarrow> length (palette z) = 1024 \<and> pal_img_n z \<in> {0, 3, 4} \<and> unat (pal_len z) \<le> 256 \<and>
     (case idata z of None \<Rightarrow> idata_limit z = 0
      | Some d \<Rightarrow> 0 < idata_limit z \<and> length d \<le> unat (idata_limit z) \<and> length d < 2 ^ 31)"

definition png_head :: "'u stbi__png \<Rightarrow> bool" where
  "png_head z \<longleftrightarrow>
     (let s = png_s z; x = unat (img_x s); y = unat (img_y s) in
      depth z \<in> {1, 2, 4, 8, 16} \<and> 0 < x \<and> x \<le> 2 ^ 24 \<and> 0 < y \<and> y \<le> 2 ^ 24 \<and>
      (if pal_img_n z = 0 then img_n s \<in> {1, 2, 3, 4} \<and> x * y * nat (img_n s) \<le> 2 ^ 30
       else img_n s = 1 \<and> depth z \<noteq> 16 \<and> x * y * 4 \<le> 2 ^ 30) \<and>
      (has_trans z \<longrightarrow> pal_img_n z = 0 \<and> img_n s \<in> {1, 3}))"

definition png_state :: "'u stbi__png \<Rightarrow> bool" where
  "png_state z \<longleftrightarrow> png_data z \<and> (if png_first z then \<not> has_trans z \<and> pal_img_n z = 0 else png_head z)"

lemma png_state_start: "png_state (png_start s)"
  by (simp add: png_state_def png_data_def png_start_def)

definition same_size :: "'u stbi__context \<Rightarrow> 'u stbi__context \<Rightarrow> bool" where
  "same_size s t \<longleftrightarrow> img_x s = img_x t \<and> img_y s = img_y t"

text \<open>What the parser leaves for \<open>stbi__do_png\<close>.\<close>

definition png_image :: "int \<Rightarrow> 'u stbi__png \<Rightarrow> bool" where
  "png_image req z \<longleftrightarrow>
     (let s = png_s z; x = unat (img_x s); y = unat (img_y s) in
      depth z \<in> {1, 2, 4, 8, 16} \<and> 0 < x \<and> x \<le> 2 ^ 24 \<and> 0 < y \<and> y \<le> 2 ^ 24 \<and>
      img_out_n s \<in> {1, 2, 3, 4} \<and> (req = 0 \<longrightarrow> img_out_n s = img_n s) \<and>
      length (out z) = x * y * (nat (img_out_n s) * png_bytes (nat (depth z))) \<and>
      (depth z = 16 \<longrightarrow> x * y * nat (img_out_n s) < 2 ^ 30))"

lemma png_headD:
  assumes "png_head z"
  shows "0 < unat (img_x (png_s z))" "unat (img_x (png_s z)) \<le> 2 ^ 24"
    "0 < unat (img_y (png_s z))" "unat (img_y (png_s z)) \<le> 2 ^ 24" "depth z \<in> {1, 2, 4, 8, 16}"
    "pal_img_n z \<noteq> 0 \<Longrightarrow> img_n (png_s z) = 1 \<and> depth z \<noteq> 16 \<and> \<not> has_trans z"
    "has_trans z \<Longrightarrow> img_n (png_s z) \<in> {1, 3}" "img_n (png_s z) \<in> {1, 2, 3, 4}"
    "unat (img_x (png_s z)) * unat (img_y (png_s z)) * nat (img_n (png_s z)) \<le> 2 ^ 30"
  using assms unfolding png_head_def Let_def by (cases "pal_img_n z = 0"; simp)+

lemma png_head_upd [simp]:
  "png_head (z\<lparr>palette := p\<rparr>) = png_head z" "png_head (z\<lparr>pal_len := l\<rparr>) = png_head z"
  "png_head (z\<lparr>idata := d\<rparr>) = png_head z" "png_head (z\<lparr>idata_limit := l\<rparr>) = png_head z"
  by (simp_all add: png_head_def Let_def)

lemma png_state_upd [simp]:
  "png_state (z\<lparr>is_iphone := b\<rparr>) = png_state z"
  "png_state (z\<lparr>interlace := i\<rparr>) = png_state z"
  "png_state (z\<lparr>tc := t\<rparr>) = png_state z"
  "png_state (z\<lparr>tc16 := u\<rparr>) = png_state z"
  by (simp_all add: png_state_def png_data_def png_head_def Let_def split: option.split)

lemma png_state_ctx: "same_img s (png_s z) \<Longrightarrow> png_state (z\<lparr>png_s := s\<rparr>) = png_state z"
  by (simp add: png_state_def png_data_def png_head_def same_img_def Let_def split: option.split)

context byte_source
begin

text \<open>The decoder state is good, and no byte was given back since \<open>z0\<close>.\<close>

definition png_ok :: "'u stbi__png \<Rightarrow> 'u stbi__png \<Rightarrow> bool" where
  "png_ok z0 z \<longleftrightarrow> ok (png_s z) \<and> left (png_s z) \<le> left (png_s z0) \<and> png_state z"

definition png_out :: "stbi__scan \<Rightarrow> int \<Rightarrow> 'u stbi__png \<Rightarrow> bool" where
  "png_out scan req z \<longleftrightarrow> ok (png_s z) \<and> (scan = STBI__SCAN_load \<longrightarrow> png_image req z)"

text \<open>What a chunk handler promises when it starts in \<open>z\<close>.\<close>

definition png_handles :: "stbi__scan \<Rightarrow> int \<Rightarrow> ('u stbi__png, bool) step \<Rightarrow> 'u stbi__png \<Rightarrow> bool" where
  "png_handles scan req m z \<longleftrightarrow>
     wp m (\<lambda>fin z'. if fin then png_out scan req z' else png_ok z z') (\<lambda>z'. ok (png_s z')) z"

lemma png_ok_after: "png_ok z0 z \<Longrightarrow> after (png_s z) s \<Longrightarrow> png_ok z0 (z\<lparr>png_s := s\<rparr>)"
  by (auto simp: png_ok_def after_def png_state_ctx)

lemmas png_unfold = png_handles_def on_ctx_def upd_ctx_def Let_def

lemma handles_CgBI:
  assumes "png_ok z z"
  shows "png_handles scan req (png_CgBI c) z"
  using assms by (simp add: png_CgBI_def png_unfold wp_simps png_ok_def skip_ok skip_left png_state_ctx skip_same_img)

lemma handles_other:
  assumes "png_ok z z"
  shows "png_handles scan req (png_other c) z"
  using assms by (simp add: png_other_def png_unfold wp_simps png_ok_def skip_ok skip_left png_state_ctx skip_same_img)

text \<open>The checks of the \<open>IHDR\<close> handler establish the part of the invariant about the image.\<close>

lemma size_limit:
  assumes "\<not> 2 ^ 30 div x div n < y" and "0 < x" "0 < n"
  shows "x * y * n \<le> (2 :: nat) ^ 30"
proof -
  have "y \<le> 2 ^ 30 div (x * n)" using assms(1) by (simp add: div_mult2_eq)
  then have "y * (x * n) \<le> 2 ^ 30" using assms(2,3) by (simp add: less_eq_div_iff_mult_less_eq)
  then show ?thesis by (simp add: ac_simps)
qed

lemma png_data_upd [simp]:
  "png_data (z\<lparr>png_first := b\<rparr>) = png_data z" "png_data (z\<lparr>depth := i\<rparr>) = png_data z"
  "png_data (z\<lparr>color := i\<rparr>) = png_data z" "png_data (z\<lparr>interlace := i\<rparr>) = png_data z"
  "png_data (z\<lparr>png_s := s\<rparr>) = png_data z" "png_data (z\<lparr>has_trans := b\<rparr>) = png_data z"
  by (simp_all add: png_data_def split: option.split)

lemma png_data_pal: "png_data z \<Longrightarrow> p \<in> {0, 3, 4} \<Longrightarrow> png_data (z\<lparr>pal_img_n := p\<rparr>)"
  by (simp add: png_data_def split: option.splits)

lemma png_state_IHDR:
  assumes "png_data z" "\<not> png_first z" "\<not> has_trans z" "depth z \<in> {1, 2, 4, 8, 16}"
    and "img_x (png_s z) \<noteq> 0" "unat (img_x (png_s z)) \<le> 2 ^ 24" "img_y (png_s z) \<noteq> 0" "unat (img_y (png_s z)) \<le> 2 ^ 24"
    and "if pal_img_n z = 0
      then img_n (png_s z) \<in> {1, 2, 3, 4} \<and> \<not> 2 ^ 30 div unat (img_x (png_s z)) div nat (img_n (png_s z)) < unat (img_y (png_s z))
      else img_n (png_s z) = 1 \<and> depth z \<noteq> 16 \<and> \<not> 2 ^ 30 div unat (img_x (png_s z)) div 4 < unat (img_y (png_s z))"
  shows "png_state z"
proof -
  have pos: "0 < unat (img_x (png_s z))" "0 < unat (img_y (png_s z))" using assms(5,7) by (simp_all add: unat_gt_0)
  moreover have "unat (img_x (png_s z)) * unat (img_y (png_s z)) * nat (img_n (png_s z)) \<le> 2 ^ 30" if "pal_img_n z = 0"
    using assms(9) that pos by (intro size_limit) auto
  moreover have "unat (img_x (png_s z)) * unat (img_y (png_s z)) * 4 \<le> 2 ^ 30" if "pal_img_n z \<noteq> 0"
    using assms(9) that pos by (intro size_limit) auto
  ultimately show ?thesis
    using assms unfolding png_state_def png_head_def Let_def by (cases "pal_img_n z = 0") simp_all
qed

lemma handles_IHDR:
  assumes "png_ok z z"
  shows "png_handles scan req (png_IHDR c) z"
proof -
  have st: "ok (png_s z)" "png_data z" "png_first z \<Longrightarrow> pal_img_n z = 0 \<and> \<not> has_trans z"
    using assms by (simp_all add: png_ok_def png_state_def)
  have b16: "uint b = 16 \<Longrightarrow> b = 16" for b :: stbi_uc
    by (metis word_of_int_numeral word_of_int_uint)
  show ?thesis
    unfolding png_IHDR_def png_IHDR_components_def png_unfold
    apply (intro wp_intros vc_get8 vc_get32)
                        apply (simp_all add: reads_to_def png_ok_def st STBI_MAX_DIMENSIONS_def)
      apply ((intro conjI impI)?; rule png_state_IHDR; auto simp: st png_data_pal dest: b16)+
    done
qed

text \<open>Reading and writing the palette keep the invariant.\<close>

lemma png_get8:
  assumes "png_ok z0 z" and "\<And>b z'. png_ok z0 z' \<Longrightarrow> Q b z'"
  shows "wp (on_ctx stbi__get8) Q E z"
  unfolding on_ctx_def wp_son
  by (rule wp_get8) (use assms(1) in \<open>simp add: png_ok_def\<close>, blast intro: assms(2) png_ok_after [OF assms(1)])

lemma png_get16be:
  assumes "png_ok z0 z" and "\<And>b z'. png_ok z0 z' \<Longrightarrow> depth z' = depth z \<Longrightarrow> Q b z'"
  shows "wp (on_ctx stbi__get16be) Q E z"
  unfolding on_ctx_def wp_son
  by (rule wp_get16) (use assms(1) in \<open>simp add: png_ok_def\<close>, simp add: assms(2) png_ok_after [OF assms(1)])

lemma png_set_palette:
  assumes "png_ok z0 z" and "i < 1024" and "\<And>z'. png_ok z0 z' \<Longrightarrow> Q () z'"
  shows "wp (set_palette i v) Q E z"
proof -
  have len: "length (palette z) = 1024" using assms(1) by (simp add: png_ok_def png_state_def png_data_def)
  then have "png_ok z0 (z\<lparr>palette := (palette z)[i := v]\<rparr>)"
    using assms(1) by (simp add: png_ok_def png_state_def png_data_def split: option.splits)
  with len assms(2,3) show ?thesis
    unfolding set_palette_def by (intro wp_intros) (simp add: wp_simps)
qed

lemma handles_PLTE:
  assumes "png_ok z z"
  shows "png_handles scan req (png_PLTE c) z"
proof -
  have ok: "ok (png_s z)" using assms by (simp add: png_ok_def)
  have entries: "wp (sfold (\<lambda>i u.
         sbind (on_ctx stbi__get8) (\<lambda>r. sbind (set_palette (i * 4 + 0) r) (\<lambda>_.
         sbind (on_ctx stbi__get8) (\<lambda>g. sbind (set_palette (i * 4 + 1) g) (\<lambda>_.
         sbind (on_ctx stbi__get8) (\<lambda>b. sbind (set_palette (i * 4 + 2) b) (\<lambda>_.
         set_palette (i * 4 + 3) 255))))))) [0..<n] ()) (\<lambda>_. png_ok z) (\<lambda>z. ok (png_s z)) z'"
    if "png_ok z z'" "n \<le> 256" for n z'
    by (rule wp_sfold) (use that in \<open>auto intro!: wp_intros png_get8 png_set_palette\<close>)
  have len: "unat (chunk_length c div 3) \<le> 256" if "\<not> chunk_length c > 768"
    using that by (simp add: word_less_nat_alt unat_div not_less)
  have pl: "png_ok z (z\<lparr>pal_len := chunk_length c div 3\<rparr>)" if "\<not> chunk_length c > 768"
    using assms len [OF that]
    by (simp add: png_ok_def png_state_def png_data_def split: option.splits)
  show ?thesis
    unfolding png_PLTE_def png_handles_def Let_def
    by (intro wp_intros wp_mono [OF entries]) (simp_all add: ok pl len)
qed

lemma handles_tRNS:
  assumes "png_ok z z"
  shows "png_handles scan req (png_tRNS scan c) z"
proof -
  have ok: "ok (png_s z)" and st: "png_state z" using assms by (simp_all add: png_ok_def)
  have alphas: "wp (sfold (\<lambda>i u. sbind (on_ctx stbi__get8) (set_palette (i * 4 + 3))) [0..<n] ())
      (\<lambda>_. png_ok z) (\<lambda>z. ok (png_s z)) z'" if "png_ok z z'" "n \<le> 256" for n z'
    by (rule wp_sfold) (use that in \<open>auto intro!: wp_intros png_get8 png_set_palette\<close>)
  have keys: "wp (sfold (\<lambda>k u. sbind (on_ctx stbi__get16be) (\<lambda>v.
      if depth z = 16 then smodify (\<lambda>z. z\<lparr>tc16 := (tc16 z)[k := u16cast v]\<rparr>)
      else sbind (slift (arr_get stbi__depth_scale_table (depth z))) (\<lambda>sc.
           smodify (\<lambda>z. z\<lparr>tc := (tc z)[k := STBI__BYTECAST (v AND 255) * sc]\<rparr>)))) ks ())
      (\<lambda>_. png_ok z) (\<lambda>z. ok (png_s z)) z'" if "png_ok z z'" "depth z \<in> {1, 2, 4, 8, 16}" for ks z'
  proof (rule wp_sfold, goal_cases)
    case (2 k u s)
    have "depth z = 16 \<or> 0 \<le> depth z \<and> depth z < int (length stbi__depth_scale_table)"
      using that(2) by (auto simp: stbi__depth_scale_table_def)
    with 2 show ?case
      by (intro wp_intros png_get16be) (auto simp: png_ok_def wp_simps)
  qed (fact that)
  have len: "unat (chunk_length c) \<le> 256" if "\<not> chunk_length c > pal_len z"
    using that st by (simp add: word_less_nat_alt png_state_def png_data_def)
  have pal: "png_ok z (z\<lparr>pal_img_n := 4\<rparr>)" if "pal_img_n z \<noteq> 0"
    using assms that by (auto simp: png_ok_def png_state_def png_data_def png_head_def Let_def split: option.splits)
  have odd: "img_n (png_s z) \<in> {1, 3}" "depth z \<in> {1, 2, 4, 8, 16}"
    if "\<not> png_first z" "img_n (png_s z) AND 1 \<noteq> 0" "pal_img_n z = 0"
    using st that by (auto simp: png_state_def png_head_def Let_def)
  have tr: "png_ok z (z\<lparr>has_trans := True\<rparr>)"
    if "\<not> png_first z" "img_n (png_s z) AND 1 \<noteq> 0" "pal_img_n z = 0"
    using assms odd [OF that] that by (simp add: png_ok_def png_state_def png_head_def Let_def)
  show ?thesis
    unfolding png_tRNS_def png_handles_def upd_ctx_def Let_def id_def
    by (intro wp_intros wp_mono [OF alphas] wp_mono [OF keys])
      (use odd(2) in \<open>simp_all add: ok pal len tr png_out_def\<close>)
qed

text \<open>\<open>IDAT\<close>: the size needed stays below \<open>2 ^ 31\<close>, so the buffer limit can reach it by doubling.\<close>

lemma idat_need:
  assumes "i < 2 ^ 31" and "\<not> len > (2 ^ 30 :: uint32)"
    and "\<not> sint (word_of_nat i + len) < sint (word_of_nat i :: uint32)"
  shows "unat (word_of_nat i + len) = i + unat len" and "i + unat len < 2 ^ 31"
proof -
  have off: "unat (word_of_nat i :: uint32) = i" using assms(1) by (simp add: unat_of_nat)
  have len: "unat len \<le> 2 ^ 30" using assms(2) by (simp add: word_less_nat_alt not_less)
  show sum: "unat (word_of_nat i + len) = i + unat len"
    using off len assms(1) by (subst unat_add_lem [THEN iffD1]) simp_all
  have "sint (word_of_nat i :: uint32) \<ge> 0" using assms(1) off by (simp add: sint_small32)
  then have "0 \<le> sint (word_of_nat i + len)" using assms(3) by linarith
  then show "i + unat len < 2 ^ 31" using sum sint_nonneg32 by metis
qed

lemma handles_IDAT:
  assumes "png_ok z z"
  shows "png_handles scan req (png_IDAT scan c) z"
proof -
  define len where "len = chunk_length c"
  define need :: uint32 where "need = word_of_nat (ioff z) + len"
  have ok: "ok (png_s z)" and st: "png_data z" using assms by (simp_all add: png_ok_def png_state_def)
  have off: "ioff z < 2 ^ 31" using st by (auto simp: png_data_def ioff_def split: option.splits)
  have size: "unat need = ioff z + unat len" "ioff z + unat len < 2 ^ 31"
    if "\<not> len > 2 ^ 30" "\<not> sint need < sint (word_of_nat (ioff z) :: uint32)"
    using idat_need [OF off, of len] that by (simp_all add: need_def)
  text \<open>The state after the buffer was made large enough.\<close>
  define mid where "mid z' \<longleftrightarrow> png_ok z z' \<and> ioff z' = ioff z \<and> need \<le> idata_limit z'" for z' :: "'u stbi__png"
  have grow: "ensures (grow_idata 33 need limit) (\<lambda>l. mid (z\<lparr>idata_limit := l,
      idata := Some (case idata z of None \<Rightarrow> [] | Some d \<Rightarrow> d)\<rparr>))"
    if "0 < limit" "need > idata_limit z" "unat need = ioff z + unat len" "ioff z + unat len < 2 ^ 31" for limit
  proof -
    have "1 \<le> unat limit" using that(1) by (simp add: unat_gt_0 Suc_le_eq)
    then have "ensures (grow_idata (Suc 32) need limit) (\<lambda>l. need \<le> l)"
      using that by (intro ensures_grow_idata) (auto simp: Suc_le_eq)
    moreover have "0 < need" using that(2) by (simp add: word_less_nat_alt)
    ultimately show ?thesis
      using assms that off
      by (auto simp: mid_def png_ok_def png_state_def png_data_def ioff_def word_less_nat_alt word_le_nat_alt
        split: option.splits elim!: ensures_mono)
  qed
  have keep: "mid z" if "\<not> need > idata_limit z"
    using assms that by (simp add: mid_def not_less)
  have append: "png_ok z (z'\<lparr>png_s := s, idata := map_option (\<lambda>d. d @ bs) (idata z')\<rparr>)"
    if "mid z'" "after (png_s z') s" "length bs = unat len" "unat need = ioff z + unat len" "ioff z + unat len < 2 ^ 31"
    for z' s bs
    using that png_ok_after [of z z' s]
    by (auto simp: mid_def png_ok_def png_state_def png_data_def ioff_def word_le_nat_alt split: option.splits)
  have room: "wp (png_IDAT_room need len) (\<lambda>_. mid) (\<lambda>z. ok (png_s z)) z"
    if "unat need = ioff z + unat len" "ioff z + unat len < 2 ^ 31"
    unfolding png_IDAT_room_def Let_def
    by (intro wp_intros wp_slift ensures_mono [OF grow])
      (use that keep ok in \<open>auto simp: word_less_nat_alt unat_gt_0\<close>)
  have tail: "wp (case r of None \<Rightarrow> sfail (Failure ''outofdata'')
      | Some bytes \<Rightarrow> sbind (smodify (\<lambda>z. z\<lparr>idata := map_option (\<lambda>d. d @ bytes) (idata z)\<rparr>)) (\<lambda>_. sret False))
      (\<lambda>fin z'. if fin then png_out scan req z' else png_ok z z') (\<lambda>z'. ok (png_s z')) (z'\<lparr>png_s := s\<rparr>)"
    if "mid z'" "after (png_s z') s" "\<And>bs. r = Some bs \<Longrightarrow> length bs = unat len"
      "unat need = ioff z + unat len" "ioff z + unat len < 2 ^ 31" for r z' s
    using that append by (cases r) (auto simp: wp_simps dest: afterD)
  have mid: "ok (png_s z')" "ioff z + unat len \<le> unat (idata_limit z')"
    if "mid z'" "unat need = ioff z + unat len" for z'
    using that by (simp_all add: mid_def png_ok_def word_le_nat_alt)
  show ?thesis
    unfolding png_IDAT_def png_handles_def on_ctx_def upd_ctx_def Let_def id_def len_def [symmetric]
    by (intro wp_intros wp_mono [OF room [unfolded need_def]] wp_getn size [unfolded need_def] tail [unfolded need_def])
      (simp_all add: ok size(1) [unfolded need_def] mid [unfolded need_def] png_out_def)
qed

text \<open>\<open>IEND\<close>: the size estimate is positive and does not wrap.\<close>

lemma raw_len_nonzero:
  fixes x y :: uint32
  assumes "0 < unat y" "unat x \<le> 2 ^ 24" "unat y \<le> 2 ^ 24" "d \<in> {1, 2, 4, 8, 16}" "n \<in> {1, 2, 3, 4}"
    and "unat x * unat y * nat n \<le> 2 ^ 30"
  shows "(x * u32cast d + 7) div 8 * y * u32cast n + y \<noteq> 0"
proof -
  let ?b = "(unat x * nat d + 7) div 8"
  have d: "unat (u32cast d) = nat d" "nat d \<le> 16" and n: "unat (u32cast n) = nat n"
    using assms(4,5) by (auto simp: u32cast_def)
  have xd: "unat x * nat d \<le> 2 ^ 24 * 16" using assms(2) d(2) by (rule mult_le_mono)
  then have "unat (x * u32cast d) = unat x * nat d" by (subst unat_mult_lem [THEN iffD1]) (simp_all add: d)
  then have "unat (x * u32cast d + 7) = unat x * nat d + 7" using xd by (subst unat_add_lem [THEN iffD1]) simp_all
  then have b: "unat ((x * u32cast d + 7) div 8) = ?b" by (simp add: unat_div)
  have "unat x * nat d \<le> unat x * 16" using d(2) by (rule mult_le_mono2)
  moreover have "p \<le> k * 16 \<Longrightarrow> p + 7 < 8 * (2 * k + 1)" for p k :: nat by simp
  ultimately have "unat x * nat d + 7 < 8 * (2 * unat x + 1)" by blast
  then have "?b \<le> 2 * unat x" by (simp add: less_mult_imp_div_less flip: less_Suc_eq_le)
  then have "?b * (unat y * nat n) \<le> 2 * unat x * (unat y * nat n)" by (rule mult_le_mono1)
  also have "2 * unat x * (unat y * nat n) = 2 * (unat x * unat y * nat n)" by simp
  also have "\<dots> \<le> 2 * 2 ^ 30" using assms(6) by (rule mult_le_mono2)
  finally have byn: "?b * unat y * nat n \<le> 2 ^ 31" by (simp add: mult.assoc)
  have "?b * unat y \<le> ?b * unat y * nat n" using assms(5) by auto
  then have "?b * unat y \<le> 2 ^ 31" using byn by (rule order_trans)
  then have "unat ((x * u32cast d + 7) div 8 * y) = ?b * unat y" by (subst unat_mult_lem [THEN iffD1]) (simp_all add: b)
  then have "unat ((x * u32cast d + 7) div 8 * y * u32cast n) = ?b * unat y * nat n"
    using byn by (subst unat_mult_lem [THEN iffD1]) (simp_all add: n)
  then have "unat ((x * u32cast d + 7) div 8 * y * u32cast n + y) = ?b * unat y * nat n + unat y"
    using byn assms(3) by (subst unat_add_lem [THEN iffD1]) simp_all
  with assms(1) show ?thesis by (metis add_is_0 less_irrefl unat_0)
qed

text \<open>The state in which \<open>png_finish\<close> is called.\<close>

definition png_ready :: "int \<Rightarrow> 'u stbi__png \<Rightarrow> bool" where
  "png_ready req z \<longleftrightarrow> ok (png_s z) \<and> length (palette z) = 1024 \<and> pal_img_n z \<in> {0, 3, 4} \<and> png_head z \<and>
     req \<in> {0..4} \<and> png_format (nat (img_n (png_s z))) (nat (img_out_n (png_s z))) (nat (depth z)) \<and>
     img_out_n (png_s z) \<in> {1, 2, 3, 4} \<and>
     (has_trans z \<longrightarrow> img_out_n (png_s z) = img_n (png_s z) + 1) \<and>
     (pal_img_n z \<noteq> 0 \<longrightarrow> img_out_n (png_s z) = 1) \<and>
     (req = 0 \<longrightarrow> has_trans z \<or> img_out_n (png_s z) = img_n (png_s z))"

lemma ready_pixels:
  assumes "png_ready req z"
  shows "png_pixel_count z = unat (img_x (png_s z)) * unat (img_y (png_s z))"
proof -
  have hd: "png_head z" using assms by (simp add: png_ready_def)
  have "1 \<le> nat (img_n (png_s z))" using png_headD(8) [OF hd] by auto
  then have "unat (img_x (png_s z)) * unat (img_y (png_s z)) * 1 \<le>
      unat (img_x (png_s z)) * unat (img_y (png_s z)) * nat (img_n (png_s z))"
    by (rule mult_le_mono2)
  also note png_headD(9) [OF hd]
  finally show ?thesis
    unfolding png_pixel_count_def by (subst unat_mult_lem [THEN iffD1]) simp_all
qed

lemma wp_png_finish:
  assumes "png_ready req z"
  shows "wp (png_finish cfg req) (\<lambda>_ z'. ok (png_s z') \<and> png_image req z') (\<lambda>z'. ok (png_s z')) z"
proof -
  let ?s = "png_s z"
  let ?n = "nat (img_out_n ?s)"
  let ?px = "unat (img_x ?s) * unat (img_y ?s)"
  let ?len = "?px * (?n * png_bytes (nat (depth z)))"
  note px = ready_pixels [OF assms]
  have rd: "ok ?s" "length (palette z) = 1024" "req \<in> {0..4}" "png_head z"
      "png_format (nat (img_n ?s)) ?n (nat (depth z))" and n: "img_out_n ?s \<in> {1, 2, 3, 4}"
    using assms by (simp_all add: png_ready_def)
  have hd: "0 < unat (img_x ?s)" "unat (img_x ?s) < 2 ^ 31" "0 < unat (img_y ?s)" "unat (img_y ?s) < 2 ^ 31"
    using png_headD(1-4) [OF rd(4)] by simp_all
  have n2: "?n = 2 \<or> ?n = 4" if "has_trans z"
  proof -
    have "img_n ?s \<in> {1, 3}" using that png_headD(7) [OF rd(4)] by simp
    moreover have "img_out_n ?s = img_n ?s + 1" using that assms by (simp add: png_ready_def)
    ultimately show ?thesis by auto
  qed
  have n3: "?n = 3 \<or> ?n = 4" if "img_out_n ?s > 2" using n that by auto
  have n1: "?n = 1" "depth z \<noteq> 16" if "pal_img_n z \<noteq> 0"
    using that assms png_headD(6) [OF rd(4)] by (simp_all add: png_ready_def)
  have create: "ensures (stbi__create_png_image (nat (img_n ?s)) (unat (img_x ?s)) (unat (img_y ?s)) (expanded z) ?n
      (nat (depth z)) (color z) (interlace z \<noteq> 0)) (\<lambda>img. length img = ?len \<and> (depth z = 16 \<longrightarrow> ?px * ?n < 2 ^ 30))"
    using ensures_create_png_image [OF hd rd(5), of "expanded z" "color z" "interlace z \<noteq> 0"]
    by (auto simp: ensures_iff png_bytes_def ac_simps dest!: create_png_image_size)
  have trans: "ensures (if has_trans z
      then if depth z = 16 then stbi__compute_transparency16 (png_pixel_count z) (tc16 z) ?n img
           else stbi__compute_transparency (png_pixel_count z) (tc z) ?n img
      else Inr img) (\<lambda>img. length img = ?len)" if "length img = ?len" for img
    unfolding px
    by (intro ensures_if ensures_mono [OF ensures_transparency] ensures_mono [OF ensures_transparency16])
      (use that n2 in \<open>simp_all add: png_bytes_def ac_simps\<close>)
  have iphone: "ensures (if is_iphone z \<and> stbi__flag_value (de_iphone_flag cfg) \<and> img_out_n ?s > 2
      then stbi__de_iphone cfg (png_pixel_count z) ?n img else Inr img) (\<lambda>img. length img = ?len)"
    if "length img = ?len" for img
    unfolding px
    by (intro ensures_if ensures_mono [OF ensures_de_iphone]) (use that n3 in \<open>simp_all add: png_bytes_def\<close>)
  have pal: "ensures (stbi__expand_png_palette (png_pixel_count z) (palette z) n img) (\<lambda>r. length r = ?px * n)"
    if "length img = ?len" "pal_img_n z \<noteq> 0" "n = 3 \<or> n = 4" for img n
    using that rd(2) n1 by (simp add: px ensures_expand_palette png_bytes_def)
  have image: "png_image req z'"
    if "same_size (png_s z') ?s" "depth z' = depth z" "img_out_n (png_s z') \<in> {1, 2, 3, 4}"
      "req = 0 \<Longrightarrow> img_out_n (png_s z') = img_n (png_s z')"
      "length (out z') = ?px * (nat (img_out_n (png_s z')) * png_bytes (nat (depth z)))"
      "depth z = 16 \<Longrightarrow> ?px * nat (img_out_n (png_s z')) < 2 ^ 30" for z'
    using that png_headD(1-5) [OF rd(4)] by (simp add: png_image_def Let_def same_size_def)
  have p34: "pal_img_n z = 3 \<or> pal_img_n z = 4" if "pal_img_n z \<noteq> 0" using that assms by (simp add: png_ready_def)
  have r34: "req = 3 \<or> req = 4" if "3 \<le> req" using that rd(3) by auto
  have req0: "img_out_n ?s = img_n ?s + (if has_trans z then 1 else 0)" if "req = 0"
    using that assms by (auto simp: png_ready_def)
  show ?thesis
    unfolding png_finish_def upd_ctx_def Let_def id_def
    by (intro wp_intros wp_slift ensures_mono [OF create] ensures_mono [OF trans] ensures_mono [OF iphone]
        ensures_mono [OF pal] conjI image)
      (use n p34 r34 n1 req0 in \<open>auto simp: rd same_size_def png_bytes_def\<close>)
qed

end

end
