(* ===== verification/Stbi_Png_Load.thy ===== *)
theory Stbi_Png_Load
  imports Stbi_Png_Safe
begin

text \<open>
  The end of the image and the loop over the chunks: from any source of bytes, \<open>stbi__png_load\<close>
  returns without undefined behaviour, and an image it returns has the size it says. Every round of
  the loop consumes a byte, or stops, since an exhausted source delivers the chunk type 0, which is
  critical and unknown; so as much fuel as there are bytes is enough.
\<close>

section \<open>The last chunk\<close>

lemma png_formatI:
  fixes n m d :: int
  assumes "n \<in> {1, 2, 3, 4}" and "m = n \<or> m = n + 1 \<and> n \<in> {1, 3}" and "d \<in> {1, 2, 4, 8, 16}"
  shows "png_format (nat n) (nat m) (nat d)"
proof -
  have "nat d \<in> {1, 2, 4, 8, 16}" using assms(3) by auto
  moreover have "nat n \<in> {1, 2, 3, 4}" "nat m = nat n \<or> nat m = nat n + 1 \<and> nat n \<in> {1, 3}"
    using assms(1,2) by auto
  ultimately show ?thesis unfolding png_format_def by blast
qed

lemma png_head_out:
  "png_head (z\<lparr>expanded := r, idata := d, png_s := (png_s z)\<lparr>img_out_n := k\<rparr>\<rparr>) = png_head z"
  by (simp add: png_head_def Let_def)

text \<open>The one case the decoder does not handle: a grey picture of 16 bits per sample that is to get
  colours, where the conversion needs \<open>2 ^ 32\<close> bytes or more.\<close>

definition png_wide :: "int \<Rightarrow> 'u stbi__png \<Rightarrow> bool" where
  "png_wide req z \<longleftrightarrow> depth z = 16 \<and> img_out_n (png_s z) = 1 \<and> 3 \<le> req \<and>
     2 ^ 32 \<le> 2 * nat req * unat (img_x (png_s z)) * unat (img_y (png_s z))"

lemma png_image_fits16:
  assumes "png_image req z" and "req \<in> {0..4}" and "req \<noteq> 0" and "depth z = 16" and "\<not> png_wide req z"
  shows "fits16 (nat req) (img_x (png_s z)) (img_y (png_s z))"
proof -
  let ?x = "unat (img_x (png_s z))" and ?y = "unat (img_y (png_s z))" and ?n = "nat (img_out_n (png_s z))"
  have im: "img_out_n (png_s z) \<in> {1, 2, 3, 4}" "?x * ?y * ?n < 2 ^ 30"
    using assms(1,4) by (simp_all add: png_image_def Let_def)
  show ?thesis
  proof (cases "nat req \<le> 2 * ?n")
    case True
    define a where "a = ?x * ?y"
    have "nat req * a \<le> 2 * ?n * a" using True by (rule mult_le_mono1)
    also have "\<dots> < 2 ^ 31" using im(2) by (simp add: a_def ac_simps)
    finally show ?thesis by (simp add: fits16_def a_def ac_simps)
  next
    case False
    then have "img_out_n (png_s z) = 1" "3 \<le> req" using im(1) assms(2) by auto
    then show ?thesis using assms(4,5) by (simp add: png_wide_def fits16_def ac_simps)
  qed
qed

lemma png_wide_not_fits16: "png_wide req z \<Longrightarrow> \<not> fits16 (nat req) (img_x (png_s z)) (img_y (png_s z))"
  by (simp add: png_wide_def fits16_def ac_simps)

definition png_wraps :: "nat \<Rightarrow> stbi__config \<Rightarrow> int \<Rightarrow> 'u stbi__context \<Rightarrow> bool" where
  "png_wraps fuel cfg req s =
     (case stbi__parse_png_file fuel cfg STBI__SCAN_load req (png_start s) of
        (Inl _, _) \<Rightarrow> False | (Inr _, z) \<Rightarrow> png_wide req z)"

context byte_source
begin

lemma handles_IEND:
  assumes "png_ok z z" and req: "req \<in> {0..4}"
  shows "png_handles scan req (png_IEND cfg scan req) z"
proof -
  let ?s = "png_s z"
  have ok: "ok ?s" and st: "png_data z" "\<not> png_first z \<Longrightarrow> png_head z"
    using assms by (simp_all add: png_ok_def png_state_def)
  have raw: "ensures (stbi_zlib_decode_malloc_guesssize_headerflag d (sint ((img_x ?s * u32cast (depth z) + 7) div 8 *
      img_y ?s * u32cast (img_n ?s) + img_y ?s)) h) (\<lambda>_. True)" if "\<not> png_first z" for d h
  proof (rule ensures_guesssize)
    have "(img_x ?s * u32cast (depth z) + 7) div 8 * img_y ?s * u32cast (img_n ?s) + img_y ?s \<noteq> 0"
      using st(2) [OF that] by (intro raw_len_nonzero) (simp_all only: png_headD)
    then show "sint ((img_x ?s * u32cast (depth z) + 7) div 8 * img_y ?s * u32cast (img_n ?s) + img_y ?s) \<noteq> 0"
      by (simp only: signed_eq_0_iff not_False_eq_True)
    show "sint w < 2 ^ 32" for w :: uint32
      using sint_lt [of w] by simp
  qed
  let ?out_n = "if (req = img_n ?s + 1 \<and> req \<noteq> 3 \<and> pal_img_n z = 0) \<or> has_trans z then img_n ?s + 1 else img_n ?s"
  have ready: "png_ready req (z\<lparr>expanded := raw, idata := None, png_s := ?s\<lparr>img_out_n := ?out_n\<rparr>\<rparr>)"
    if "\<not> png_first z" for raw
  proof -
    note hd = st(2) [OF that]
    have n: "img_n ?s = 1 \<or> img_n ?s = 2 \<or> img_n ?s = 3 \<or> img_n ?s = 4" using png_headD(8) [OF hd] by simp
    have tr: "has_trans z \<Longrightarrow> img_n ?s = 1 \<or> img_n ?s = 3" using png_headD(7) [OF hd] by simp
    have out: "?out_n \<in> {1, 2, 3, 4}" "?out_n = img_n ?s \<or> ?out_n = img_n ?s + 1 \<and> img_n ?s \<in> {1, 3}"
      using n tr req by auto
    have "png_format (nat (img_n ?s)) (nat ?out_n) (nat (depth z))"
      using png_headD(8) [OF hd] out(2) png_headD(5) [OF hd] by (rule png_formatI)
    moreover have "png_head (z\<lparr>expanded := raw, idata := None, png_s := ?s\<lparr>img_out_n := ?out_n\<rparr>\<rparr>)"
      using hd by (simp only: png_head_out)
    moreover have "req = 0 \<Longrightarrow> has_trans z \<or> ?out_n = img_n ?s" using n by auto
    moreover have "pal_img_n z \<noteq> 0 \<Longrightarrow> ?out_n = 1" using png_headD(6) [OF hd] by simp
    ultimately show ?thesis
      using ok st(1) req out(1) by (simp add: png_ready_def png_data_def del: if_split)
  qed
  have fin: "png_out sc req (z'\<lparr>png_s := t\<rparr>)" if "png_image req z'" "reads_to (png_s z') 4 t" for z' t sc
    using that by (simp add: png_out_def png_image_def reads_to_def Let_def)
  show ?thesis
  proof (cases "idata z")
    case None
    then show ?thesis
      unfolding png_IEND_def png_handles_def by (simp add: wp_simps ok png_out_def)
  next
    case (Some d)
    show ?thesis
      unfolding png_IEND_def png_handles_def upd_ctx_def on_ctx_def Let_def id_def
      apply (intro wp_sbindI wp_basicI wp_sguardI wp_ifI)
      subgoal by (simp add: ok png_out_def)
      subgoal
        unfolding Some option.case
        by (intro wp_sbindI wp_basicI wp_slift ensures_mono [OF raw] wp_mono [OF wp_png_finish] wp_sonI vc_get32(1))
          (simp_all add: ok ready fin)
      by (simp_all add: ok)
  qed
qed

section \<open>The loop over the chunks\<close>

lemma handles_chunk:
  assumes "png_ok z z" and "req \<in> {0..4}"
  shows "png_handles scan req (png_chunk cfg scan req c) z"
  using assms handles_CgBI handles_IHDR handles_PLTE handles_tRNS handles_IDAT handles_IEND handles_other
  by (simp add: png_chunk_def)

text \<open>A source without bytes delivers a chunk of type 0, which ends the loop.\<close>

lemma chunk_type_0:
  assumes "png_ok z z" and "chunk_type c = 0"
  shows "wp (png_chunk cfg scan req c) (\<lambda>_ _. False) (\<lambda>z'. ok (png_s z')) z"
proof -
  have eq: "(png_chunk cfg scan req c :: ('u stbi__png, bool) step) = png_other c"
    unfolding png_chunk_def assms(2) STBI__PNG_TYPE_def by simp
  show ?thesis
    unfolding eq using assms by (simp add: png_other_def wp_simps png_ok_def)
qed

lemma wp_chunk_header:
  assumes "ok s"
    and "\<And>c t. reads_to s 8 t \<Longrightarrow> (left s = 0 \<Longrightarrow> chunk_type c = 0) \<Longrightarrow> Q c t"
  shows "wp (stot stbi__get_chunk_header) Q E s"
proof -
  have "wp (sbind (stot stbi__get32be) (\<lambda>len. sbind (stot stbi__get32be) (\<lambda>ty.
      sret \<lparr>chunk_length = len, chunk_type = ty\<rparr>))) Q E s"
    unfolding wp_simps
    by (rule wp_get32(1) [OF assms(1)], rule wp_get32(1))
      (auto simp: after_def same_img_def reads_to_def intro!: assms(2))
  then show ?thesis
    by (simp add: wp_stot wp_simps stbi__get_chunk_header_def split: prod.splits)
qed

lemma wp_png_chunks:
  assumes "png_ok z z" and "req \<in> {0..4}" and "left (png_s z) < fuel"
  shows "wp (png_chunks fuel cfg scan req) (\<lambda>_. png_out scan req) (\<lambda>z'. ok (png_s z')) z"
  using assms
proof (induction fuel arbitrary: z)
  case (Suc fuel)
  have round: "wp (sbind (png_chunk cfg scan req c) (\<lambda>fin. if fin then sret ()
        else sbind (on_ctx stbi__get32be) (\<lambda>_. png_chunks fuel cfg scan req)))
      (\<lambda>_. png_out scan req) (\<lambda>z'. ok (png_s z')) (z\<lparr>png_s := t\<rparr>)"
    if t: "reads_to (png_s z) 8 t" "left (png_s z) = 0 \<Longrightarrow> chunk_type c = 0" for c t
  proof -
    have ok: "png_ok (z\<lparr>png_s := t\<rparr>) (z\<lparr>png_s := t\<rparr>)"
      using Suc.prems(1) t(1) by (simp add: png_ok_def reads_to_def png_state_ctx same_img_def)
    show ?thesis
    proof (cases "left (png_s z) = 0")
      case True
      then show ?thesis
        unfolding wp_sbind by (intro wp_mono [OF chunk_type_0 [OF ok]]) (auto simp: t)
    next
      case False
      then have less: "left t < fuel" using t(1) Suc.prems(3) by (simp add: reads_to_def)
      have rest: "wp (sbind (on_ctx stbi__get32be) (\<lambda>_. png_chunks fuel cfg scan req))
          (\<lambda>_. png_out scan req) (\<lambda>z'. ok (png_s z')) z'" if "png_ok (z\<lparr>png_s := t\<rparr>) z'" for z'
        unfolding wp_sbind on_ctx_def wp_son
      proof (rule wp_get32(1))
        fix v u assume "after (png_s z') u"
        then have "png_ok (z\<lparr>png_s := t\<rparr>) (z'\<lparr>png_s := u\<rparr>)" using that by (intro png_ok_after)
        then show "wp (png_chunks fuel cfg scan req) (\<lambda>_. png_out scan req) (\<lambda>z'. ok (png_s z')) (z'\<lparr>png_s := u\<rparr>)"
          using less Suc.prems(2) by (intro Suc.IH) (auto simp: png_ok_def)
      qed (use that in \<open>simp add: png_ok_def\<close>)
      show ?thesis
        unfolding wp_sbind
        by (rule wp_mono [OF handles_chunk [OF ok Suc.prems(2), unfolded png_handles_def]])
          (auto simp: wp_simps rest [unfolded wp_sbind] split: if_splits)
    qed
  qed
  show ?case
    unfolding png_chunks.simps on_ctx_def
    by (rule wp_sbindI, rule wp_sonI, rule wp_chunk_header)
      (use round [unfolded on_ctx_def] Suc.prems(1) in \<open>auto simp: png_ok_def\<close>)
qed simp

section \<open>Loading\<close>

lemma wp_check_header:
  assumes "ok s"
  shows "wp stbi__check_png_header (\<lambda>_. after s) ok s"
  unfolding stbi__check_png_header_def
  by (rule wp_sfold)
    (use assms in \<open>auto intro!: wp_intros wp_get8 intro: after_trans dest: afterD\<close>)

lemma wp_parse_png:
  assumes "ok s" and "req \<in> {0..4}" and "left s < fuel" and "scan \<noteq> STBI__SCAN_type"
  shows "wp (stbi__parse_png_file fuel cfg scan req) (\<lambda>_. png_out scan req) (\<lambda>z'. ok (png_s z')) (png_start s)"
proof -
  have st: "png_ok (png_start s) (png_start s)" and s: "png_s (png_start s) = s"
    using assms(1) by (simp_all add: png_ok_def png_state_start) (simp_all add: png_start_def)
  have chunks: "wp (png_chunks fuel cfg scan req) (\<lambda>_. png_out scan req) (\<lambda>z'. ok (png_s z')) ((png_start s)\<lparr>png_s := t\<rparr>)"
    if "after s t" for t
    using png_ok_after [OF st, of t] that assms(2,3)
    by (intro wp_png_chunks) (auto simp: s png_ok_def dest: afterD)
  show ?thesis
    unfolding stbi__parse_png_file_def
    by (rule wp_sbindI, rule wp_sonI, rule wp_mono, rule wp_check_header)
      (use assms chunks in \<open>auto simp: s\<close>)
qed

lemma length_samples_of: "length (samples_of bs) = length bs div 2"
  by (simp add: samples_of_def)

lemma wp_png_result:
  assumes "png_image req p" and "req \<in> {0..4}" and "\<not> png_wide req p" and "depth p \<le> 8 \<Longrightarrow> r = Pixels8 (out p)"
    and "\<not> depth p \<le> 8 \<Longrightarrow> r = Pixels16 (samples_of (out p))"
  shows "wp (if req \<noteq> 0 \<and> req \<noteq> img_out_n (png_s p)
      then sbind (slift (case r of
               Pixels8 d \<Rightarrow> ebind (stbi__convert_format d (img_out_n (png_s p)) req (img_x (png_s p)) (img_y (png_s p)))
                             (\<lambda>d. Inr (Pixels8 d))
             | Pixels16 d \<Rightarrow> ebind (stbi__convert_format16 d (img_out_n (png_s p)) req (img_x (png_s p)) (img_y (png_s p)))
                             (\<lambda>d. Inr (Pixels16 d)))) (\<lambda>result.
           sbind (upd_ctx (\<lambda>s. s\<lparr>img_out_n := req\<rparr>)) (\<lambda>_. sret result))
      else sret r)
    (\<lambda>r _. loaded_ok req \<lparr>ld_data = r, ld_x = unat (img_x (png_s p)), ld_y = unat (img_y (png_s p)), ld_comp = img_n (png_s p)\<rparr>)
    (\<lambda>_. True) p"
proof -
  let ?x = "unat (img_x (png_s p))" and ?y = "unat (img_y (png_s p))"
  define n where "n = nat (img_out_n (png_s p))"
  have im: "depth p \<in> {1, 2, 4, 8, 16}" "0 < ?x" "0 < ?y" "?y < 2 ^ 31" "img_out_n (png_s p) = int n"
      "1 \<le> n" "n \<le> 4" "req = 0 \<Longrightarrow> int n = img_n (png_s p)"
    using assms(1) by (auto simp: png_image_def Let_def n_def)
  have len: "length (out p) = ?x * ?y * (n * png_bytes (nat (depth p)))"
    using assms(1) by (simp add: png_image_def Let_def n_def)
  have size: "case r of Pixels8 d \<Rightarrow> length d = ?y * ?x * n | Pixels16 d \<Rightarrow> length d = ?y * ?x * n"
    using im(1) assms(4,5) len by (auto simp: length_samples_of png_bytes_def)
  have conv: "ensures (case r of
        Pixels8 d \<Rightarrow> ebind (stbi__convert_format d (int n) req (img_x (png_s p)) (img_y (png_s p))) (\<lambda>d. Inr (Pixels8 d))
      | Pixels16 d \<Rightarrow> ebind (stbi__convert_format16 d (int n) req (img_x (png_s p)) (img_y (png_s p))) (\<lambda>d. Inr (Pixels16 d)))
      (\<lambda>r. loaded_ok req \<lparr>ld_data = r, ld_x = ?x, ld_y = ?y, ld_comp = img_n (png_s p)\<rparr>)" if "req \<noteq> 0"
  proof -
    have m: "1 \<le> nat req" "nat req \<le> 4" "int (nat req) = req" using that assms(2) by auto
    show ?thesis
    proof (cases r)
      case (Pixels8 d)
      have "ensures (stbi__convert_format d (int n) (int (nat req)) (img_x (png_s p)) (img_y (png_s p))) (\<lambda>d. length d = ?y * ?x * nat req)"
        by (rule ensures_convert_format) (use im m size Pixels8 in simp_all)
      with that im(2,3) show ?thesis
        unfolding Pixels8 pixel_data.case m(3) by (elim ensures_bind) (simp add: loaded_ok_def)
    next
      case (Pixels16 d)
      then have "depth p = 16" using im(1) assms(4) by auto
      then have fits: "fits16 (nat req) (img_x (png_s p)) (img_y (png_s p))"
        using png_image_fits16 [OF assms(1,2) that _ assms(3)] by simp
      then have small: "?y * ?x * nat req < 2 ^ 31"
        by (simp add: fits16_def ac_simps)
      have "ensures (stbi__convert_format16 d (int n) (int (nat req)) (img_x (png_s p)) (img_y (png_s p))) (\<lambda>d. length d = ?y * ?x * nat req)"
        by (rule ensures_convert_format16) (use im(1-7) m size Pixels16 fits in simp_all)
      with that im(2,3) small show ?thesis
        unfolding Pixels16 pixel_data.case m(3) by (elim ensures_bind) (simp add: loaded_ok_def)
    qed
  qed
  have same: "loaded_ok req \<lparr>ld_data = r, ld_x = ?x, ld_y = ?y, ld_comp = img_n (png_s p)\<rparr>" if "req = 0 \<or> req = int n"
  proof (cases r)
    case (Pixels8 d)
    then show ?thesis using that im size by (auto simp: loaded_ok_def)
  next
    case (Pixels16 d)
    then have "depth p = 16" using im(1) assms(4) by auto
    then have "?x * ?y * n < 2 ^ 30"
      using assms(1) by (simp add: png_image_def Let_def n_def)
    then show ?thesis using that im size Pixels16 by (auto simp: loaded_ok_def ac_simps)
  qed
  show ?thesis
    unfolding im(5) upd_ctx_def
    by (intro wp_ifI wp_sbindI wp_slift ensures_mono [OF conv] wp_basicI) (use same in auto)
qed

lemma wp_do_png:
  assumes "ok s" and "left s < fuel" and "\<not> png_wraps fuel cfg req s"
  shows "wp (stbi__do_png fuel cfg req) (\<lambda>r _. loaded_ok req r) (\<lambda>_. True) (png_start s)"
proof (cases "req \<in> {0..4}")
  case True
  have fin: "wp (sbind (if depth p \<le> 8 then sret (Pixels8 (out p))
         else if depth p = 16 then sret (Pixels16 (samples_of (out p)))
         else sfail (Failure ''bad bits_per_channel'')) (\<lambda>result.
    sbind (if req \<noteq> 0 \<and> req \<noteq> img_out_n (png_s p)
         then sbind (slift (case result of
                  Pixels8 d \<Rightarrow> ebind (stbi__convert_format d (img_out_n (png_s p)) req (img_x (png_s p)) (img_y (png_s p)))
                                (\<lambda>d. Inr (Pixels8 d))
                | Pixels16 d \<Rightarrow> ebind (stbi__convert_format16 d (img_out_n (png_s p)) req (img_x (png_s p)) (img_y (png_s p)))
                                (\<lambda>d. Inr (Pixels16 d)))) (\<lambda>result.
              sbind (upd_ctx (\<lambda>s. s\<lparr>img_out_n := req\<rparr>)) (\<lambda>_. sret result))
         else sret result) (\<lambda>result.
    sret \<lparr>ld_data = result, ld_x = unat (img_x (png_s p)), ld_y = unat (img_y (png_s p)), ld_comp = img_n (png_s p)\<rparr>)))
      (\<lambda>r _. loaded_ok req r) (\<lambda>_. True) p" if "png_out STBI__SCAN_load req p" "\<not> png_wide req p" for p
    by (intro wp_sbindI wp_ifI wp_basicI wp_mono [OF wp_png_result [of req p]])
      (use that True in \<open>auto simp: png_out_def wp_simps\<close>)
  show ?thesis
    unfolding stbi__do_png_def Let_def id_def
    by (rule wp_ifI, use True in simp, rule wp_sbindI, rule wp_mono, rule wp_self, rule wp_parse_png)
      (use True assms in \<open>simp_all add: png_wraps_def\<close>, rule wp_sbindI, rule wp_basicI, rule fin, simp_all)
qed (auto simp: stbi__do_png_def wp_simps)

text \<open>What happens in the excluded case: the conversion to more components writes out of its block.\<close>

lemma do_png_wraps:
  assumes "ok s" and "left s < fuel" and "png_wraps fuel cfg req s" and "req \<in> {0..4}"
  shows "fst (stbi__do_png fuel cfg req (png_start s)) = Inl Undefined"
proof -
  obtain p where p: "stbi__parse_png_file fuel cfg STBI__SCAN_load req (png_start s) = (Inr (), p)" "png_wide req p"
    using assms(3) by (auto simp: png_wraps_def split: prod.splits sum.splits)
  have "png_image req p"
    using wp_Inr [OF wp_parse_png [OF assms(1,4,2)] p(1)] by (simp add: png_out_def)
  then have "stbi__convert_format16 d (img_out_n (png_s p)) req (img_x (png_s p)) (img_y (png_s p)) = Inl Undefined" for d
    using convert_format16_wraps [OF _ _ _ _ _ png_wide_not_fits16 [OF p(2)], of 1 d] p(2) assms(4)
    by (auto simp: png_wide_def png_image_def Let_def)
  then show ?thesis
    using assms(4) p by (simp add: stbi__do_png_def sbind_def sget_def sret_def slift_def png_wide_def Let_def)
qed

lemma png_load_outcome:
  assumes "ok s" and "left s < fuel"
  shows "(case fst (stbi__png_load fuel cfg req s) of
      Inl e \<Rightarrow> e \<noteq> NoReturn \<and> (e = Undefined \<longrightarrow> png_wraps fuel cfg req s)
    | Inr r \<Rightarrow> loaded_ok req r)"
proof -
  have eq: "fst (stbi__png_load fuel cfg req s) = fst (stbi__do_png fuel cfg req (png_start s))"
    by (simp add: stbi__png_load_def png_run_def split: prod.splits)
  consider "\<not> png_wraps fuel cfg req s" | "req \<notin> {0..4}" | "png_wraps fuel cfg req s" "req \<in> {0..4}" by auto
  then show ?thesis
  proof cases
    case 1
    show ?thesis
      unfolding eq using wp_ensures [OF wp_do_png [OF assms 1]] by (auto simp: ensures_def regular_def split: sum.splits)
  next
    case 2
    then show ?thesis unfolding eq by (auto simp: stbi__do_png_def sfail_def)
  next
    case 3
    show ?thesis unfolding eq do_png_wraps [OF assms 3] using 3(1) by simp
  qed
qed

end

section \<open>Properties\<close>

text \<open>C3. Safety and termination of the PNG decoder on a block of memory: whatever the bytes, the number
  of components asked for and the settings, \<open>stbi__png_load\<close> returns after at most as many
  chunks as there are bytes; an image it returns has exactly width times height pixels of the components asked
  for (or of the components it reports); and it reads or writes out of bounds or fails an assertion in one case only,
  \<open>png_wraps\<close>: the file is sound, holds a grey picture without alpha of 16 bits per sample, three or four components are
  asked for, and the converted picture needs \<open>2 ^ 32\<close> bytes or more.\<close>

theorem png_load_safe:
  assumes "length data < fuel"
  shows "(case fst (stbi__png_load fuel cfg req_comp (stbi__start_mem s data)) of
    Inl e \<Rightarrow> e \<noteq> NoReturn \<and> (e = Undefined \<longrightarrow> png_wraps fuel cfg req_comp (stbi__start_mem s data))
  | Inr r \<Rightarrow> loaded_ok req_comp r)"
  using assms by (intro mem.png_load_outcome) simp_all

theorem png_load_safe_witness:
  "(case fst (stbi__png_load 10 stbi__config_start 0 (stbi__start_mem (undefined :: unit stbi__context) [137, 80, 78, 71])) of
    Inl e \<Rightarrow> e \<noteq> NoReturn \<and>
      (e = Undefined \<longrightarrow> png_wraps 10 stbi__config_start 0 (stbi__start_mem (undefined :: unit stbi__context) [137, 80, 78, 71]))
  | Inr r \<Rightarrow> loaded_ok 0 r)"
  by (rule png_load_safe) simp

text \<open>C4. The same on a file: with the callbacks of the C library, which read through the buffer of the
  context, \<open>stbi__png_load\<close> is safe on every readable file, also on one that ends early, with the same exception.\<close>

theorem png_load_file_safe:
  assumes "file_ok f" and "buffer_start \<noteq> []" and "length (file_rest f) < fuel"
  shows "(case fst (stbi__png_load fuel cfg req_comp (stbi__start_file s f buffer_start)) of
    Inl e \<Rightarrow> e \<noteq> NoReturn \<and> (e = Undefined \<longrightarrow> png_wraps fuel cfg req_comp (stbi__start_file s f buffer_start))
  | Inr r \<Rightarrow> loaded_ok req_comp r)"
  using assms stdio.start_source [OF assms(1,2), of s]
  by (intro stdio.src.png_load_outcome) (simp_all add: stbi__start_file_def)

theorem png_load_file_safe_witness:
  "(case fst (stbi__png_load 20 stbi__config_start 4
      (stbi__start_file undefined \<lparr>fbytes = [137, 80, 78, 71, 13, 10, 26, 10, 0], fpos = 0, feof = False, ferror = False\<rparr> [0, 0])) of
    Inl e \<Rightarrow> e \<noteq> NoReturn \<and> (e = Undefined \<longrightarrow> png_wraps 20 stbi__config_start 4
      (stbi__start_file undefined \<lparr>fbytes = [137, 80, 78, 71, 13, 10, 26, 10, 0], fpos = 0, feof = False, ferror = False\<rparr> [0, 0]))
  | Inr r \<Rightarrow> loaded_ok 4 r)"
  by (rule png_load_file_safe) (simp_all add: file_ok_def file_rest_def)

end
