(* ===== verification/Stbi_Jpeg_Huff.thy ===== *)
theory Stbi_Jpeg_Huff
  imports Stbi_State
begin

text \<open>
  The entropy-coding side of the JPEG decoder of \<open>src/stb_image.h\<close>: the decoder state
  \<open>stbi__jpeg\<close> (lines 1938-2001), the Huffman tables (2003-2073) and the bit reader (2075-2190).

  Loops that skip fill bytes have no bound in the source (a callback may deliver fill bytes for
  ever); they get the fuel \<open>scan_fuel\<close>, a component the model adds to the state. On a memory
  context a fuel above the number of bytes is enough.
\<close>

section \<open>State\<close>

definition FAST_BITS :: nat where "FAST_BITS = 9"

record stbi__huffman =
  h_fast :: "stbi_uc list"
  h_code :: "stbi_us list"
  h_values :: "stbi_uc list"
  h_size :: "stbi_uc list"
  h_maxcode :: "uint32 list"
  h_delta :: "int list"

definition huffman_zero :: stbi__huffman where
  "huffman_zero = \<lparr>h_fast = replicate 512 0, h_code = replicate 256 0, h_values = replicate 256 0,
     h_size = replicate 257 0, h_maxcode = replicate 18 0, h_delta = replicate 17 0\<rparr>"

text \<open>A component of the image. \<open>comp_data\<close>, \<open>comp_coeff\<close> and \<open>linebuf\<close> are the memory the
  pointers \<open>data\<close>, \<open>coeff\<close> and \<open>linebuf\<close> give access to, \<open>None\<close> for \<open>NULL\<close>; \<open>raw_data\<close> and
  \<open>raw_coeff\<close>, the same memory before alignment, are \<open>NULL\<close> together with them.\<close>

record stbi__jpeg_comp =
  comp_id :: int
  comp_h :: int
  comp_v :: int
  comp_tq :: int
  comp_hd :: int
  comp_ha :: int
  dc_pred :: int
  comp_x :: int
  comp_y :: int
  comp_w2 :: int
  comp_h2 :: int
  comp_data :: "stbi_uc list option"
  linebuf :: "stbi_uc list option"
  comp_coeff :: "int list option"
  coeff_w :: int
  coeff_h :: int

definition jpeg_comp_zero :: stbi__jpeg_comp where
  "jpeg_comp_zero = \<lparr>comp_id = 0, comp_h = 0, comp_v = 0, comp_tq = 0, comp_hd = 0, comp_ha = 0,
     dc_pred = 0, comp_x = 0, comp_y = 0, comp_w2 = 0, comp_h2 = 0, comp_data = None,
     linebuf = None, comp_coeff = None, coeff_w = 0, coeff_h = 0\<rparr>"

record 'u stbi__jpeg =
  jpeg_s :: "'u stbi__context"
  huff_dc :: "stbi__huffman list"
  huff_ac :: "stbi__huffman list"
  dequant :: "stbi_us list list"
  fast_ac :: "int list list"
  img_h_max :: int
  img_v_max :: int
  img_mcu_x :: int
  img_mcu_y :: int
  img_mcu_w :: int
  img_mcu_h :: int
  img_comp :: "stbi__jpeg_comp list"
  jcode_buffer :: uint32
  code_bits :: int
  jmarker :: stbi_uc
  nomore :: bool
  progressive :: bool
  spec_start :: int
  spec_end :: int
  succ_high :: int
  succ_low :: int
  eob_run :: int
  jfif :: bool
  app14_color_transform :: int
  jrgb :: int
  scan_n :: int
  jorder :: "int list"
  restart_interval :: int
  todo :: int
  scan_fuel :: nat

text \<open>The state after \<open>memset(j, 0, sizeof(stbi__jpeg))\<close>.\<close>

definition jpeg_zero :: "nat \<Rightarrow> 'u stbi__context \<Rightarrow> 'u stbi__jpeg" where
  "jpeg_zero fuel s = \<lparr>jpeg_s = s, huff_dc = replicate 4 huffman_zero, huff_ac = replicate 4 huffman_zero,
     dequant = replicate 4 (replicate 64 0), fast_ac = replicate 4 (replicate 512 0),
     img_h_max = 0, img_v_max = 0, img_mcu_x = 0, img_mcu_y = 0, img_mcu_w = 0, img_mcu_h = 0,
     img_comp = replicate 4 jpeg_comp_zero, jcode_buffer = 0, code_bits = 0, jmarker = 0, nomore = False,
     progressive = False, spec_start = 0, spec_end = 0, succ_high = 0, succ_low = 0, eob_run = 0,
     jfif = False, app14_color_transform = 0, jrgb = 0, scan_n = 0, jorder = replicate 4 0,
     restart_interval = 0, todo = 0, scan_fuel = fuel\<rparr>"

definition jctx :: "('u stbi__context, 'a) step \<Rightarrow> ('u stbi__jpeg, 'a) step" where
  "jctx = son jpeg_s (\<lambda>c j. j\<lparr>jpeg_s := c\<rparr>)"

definition jget8 :: "('u stbi__jpeg, int) step" where
  "jget8 = sbind (jctx (stot stbi__get8)) (\<lambda>b. sret (uint b))"

definition jget16be :: "('u stbi__jpeg, int) step" where
  "jget16be = jctx (stot stbi__get16be)"

section \<open>Building the tables\<close>

text \<open>The size list: \<open>count[i]\<close> entries of sizes \<open>i + 1\<close>, with the check after each store.\<close>

definition store_size :: "nat \<Rightarrow> nat \<times> stbi_uc list \<Rightarrow> (nat \<times> stbi_uc list) res" where
  "store_size i st =
     (case st of (k, sizes) \<Rightarrow>
        ebind (arr_set sizes (int k) (word_of_nat (i + 1))) (\<lambda>sizes.
        if k + 1 \<ge> 257 then Inl (Failure ''bad size list'') else Inr (k + 1, sizes)))"

definition size_list :: "int list \<Rightarrow> stbi_uc list \<Rightarrow> (nat \<times> stbi_uc list) res" where
  "size_list count sizes =
     efold (\<lambda>i st. ebind (arr_get count (int i)) (\<lambda>c. efold (\<lambda>_. store_size i) [0..<nat c] st)) [0..<16] (0, sizes)"

text \<open>The \<open>while (h->sizes[k] == j) h->code[k++] = code++\<close>.\<close>

function assign_codes :: "stbi_uc list \<Rightarrow> nat \<Rightarrow> nat \<Rightarrow> uint32 \<Rightarrow> stbi_us list \<Rightarrow> (nat \<times> uint32 \<times> stbi_us list) res" where
  "assign_codes sizes j k code codes =
     (if k < length sizes
      then if unat (sizes ! k) = j
           then ebind (arr_set codes (int k) (ucast code)) (\<lambda>codes. assign_codes sizes j (k + 1) (code + 1) codes)
           else Inr (k, code, codes)
      else Inl Undefined)"
  by pat_completeness auto
termination
  by (relation "measure (\<lambda>(sizes, j, k, code, codes). length sizes - k)") auto

declare assign_codes.simps [simp del]

definition symbol_sizes_step :: "nat \<Rightarrow> nat \<times> uint32 \<times> stbi__huffman \<Rightarrow> (nat \<times> uint32 \<times> stbi__huffman) res" where
  "symbol_sizes_step j st =
     (case st of (k, code, h) \<Rightarrow>
        ebind (arr_set (h_delta h) (int j) (int_of_u32 (word_of_nat k - code))) (\<lambda>delta.
        ebind (arr_get (h_size h) (int k)) (\<lambda>sz.
        ebind (if unat sz = j
               then ebind (assign_codes (h_size h) j k code (h_code h)) (\<lambda>(k, code, codes).
                    if code - 1 \<ge> push_bit j 1 then Inl (Failure ''bad code lengths'')
                    else Inr (k, code, codes))
               else Inr (k, code, h_code h)) (\<lambda>(k, code, codes).
        ebind (arr_set (h_maxcode h) (int j) (push_bit (16 - j) code)) (\<lambda>maxcode.
        Inr (k, push_bit 1 code, h\<lparr>h_delta := delta, h_code := codes, h_maxcode := maxcode\<rparr>))))))"

definition fast_step :: "stbi__huffman \<Rightarrow> nat \<Rightarrow> stbi_uc list \<Rightarrow> stbi_uc list res" where
  "fast_step h i fast =
     ebind (arr_get (h_size h) (int i)) (\<lambda>sz.
     let s = unat sz in
     if s \<le> FAST_BITS then
       ebind (arr_get (h_code h) (int i)) (\<lambda>cd.
       let c = push_bit (FAST_BITS - s) (uint cd); m = 2 ^ (FAST_BITS - s) in
       efold (\<lambda>j fast. arr_set fast (c + int j) (word_of_nat i)) [0..<m] fast)
     else Inr fast)"

definition stbi__build_huffman :: "stbi__huffman \<Rightarrow> int list \<Rightarrow> stbi__huffman res" where
  "stbi__build_huffman h count =
     ebind (size_list count (h_size h)) (\<lambda>(k, sizes).
     ebind (arr_set sizes (int k) 0) (\<lambda>sizes.
     ebind (efold symbol_sizes_step [1..<17] (0, 0, h\<lparr>h_size := sizes\<rparr>)) (\<lambda>(k, code, h).
     ebind (arr_set (h_maxcode h) 17 0xffffffff) (\<lambda>maxcode.
     let h = h\<lparr>h_maxcode := maxcode\<rparr> in
     ebind (efold (fast_step h) [0..<k] (replicate 512 255)) (\<lambda>fast.
     Inr (h\<lparr>h_fast := fast\<rparr>))))))"

text \<open>The value that the \<open>magbits\<close> bits \<open>k\<close> stand for: \<open>k += (~0U << magbits) + 1\<close> for \<open>k < m\<close>.\<close>

definition fast_ac_entry :: "stbi__huffman \<Rightarrow> nat \<Rightarrow> int res" where
  "fast_ac_entry h i =
     ebind (arr_get (h_fast h) (int i)) (\<lambda>fast.
     if unat fast < 255 then
       ebind (arr_get (h_values h) (uint fast)) (\<lambda>rs.
       ebind (arr_get (h_size h) (uint fast)) (\<lambda>sz.
       let run = drop_bit 4 (uint rs) AND 15; magbits = nat (uint rs AND 15); len = unat sz in
       if magbits \<noteq> 0 \<and> len + magbits \<le> FAST_BITS then
         let k = drop_bit (FAST_BITS - magbits) (push_bit len (int i) AND 511);
             m = 2 ^ (magbits - 1);
             k = (if k < m then k - 2 ^ magbits + 1 else k)
         in if k \<ge> -128 \<and> k \<le> 127 then Inr (shortcast (k * 256 + run * 16 + int (len + magbits)))
            else Inr 0
       else Inr 0))
     else Inr 0)"

definition stbi__build_fast_ac :: "int list \<Rightarrow> stbi__huffman \<Rightarrow> int list res" where
  "stbi__build_fast_ac fac h =
     efold (\<lambda>i fac. ebind (fast_ac_entry h i) (\<lambda>v. arr_set fac (int i) v)) [0..<512] fac"

section \<open>The bit reader\<close>

text \<open>\<open>do c = stbi__get8(s); while (c == 0xff)\<close>: the next byte that is no fill byte.\<close>

fun skip_fill :: "nat \<Rightarrow> ('u stbi__context, stbi_uc) step" where
  "skip_fill 0 = sfail NoReturn"
| "skip_fill (Suc fuel) = sbind (stot stbi__get8) (\<lambda>c. if c = 0xff then skip_fill fuel else sret c)"

definition append_byte :: "int \<Rightarrow> ('u stbi__jpeg, bool) step" where
  "append_byte b =
     sbind (sget code_bits) (\<lambda>n.
     if n < -7 \<or> n > 24 then sfail Undefined
     else sbind (smodify (\<lambda>j. j\<lparr>jcode_buffer := jcode_buffer j OR push_bit (nat (24 - n)) (u32cast b),
                               code_bits := n + 8\<rparr>)) (\<lambda>_.
          sret (n + 8 \<le> 24)))"

text \<open>One round of \<open>stbi__grow_buffer_unsafe\<close>; the result says whether to go on.\<close>

definition grow_step :: "('u stbi__jpeg, bool) step" where
  "grow_step =
     sbind (sget nomore) (\<lambda>nm.
     sbind (if nm then sret 0 else jget8) (\<lambda>b.
     if b = 0xff then
       sbind (sget scan_fuel) (\<lambda>fuel.
       sbind (jctx (skip_fill fuel)) (\<lambda>c.
       if c \<noteq> 0 then sbind (smodify (\<lambda>j. j\<lparr>jmarker := c, nomore := True\<rparr>)) (\<lambda>_. sret False)
       else append_byte b))
     else append_byte b))"

text \<open>Each round but the last adds 8 bits, so four rounds are enough.\<close>

fun grow_loop :: "nat \<Rightarrow> ('u stbi__jpeg, unit) step" where
  "grow_loop 0 = sfail NoReturn"
| "grow_loop (Suc n) = sbind grow_step (\<lambda>more. if more then grow_loop n else sret ())"

definition stbi__grow_buffer_unsafe :: "('u stbi__jpeg, unit) step" where
  "stbi__grow_buffer_unsafe = grow_loop 4"

definition need_bits :: "int \<Rightarrow> ('u stbi__jpeg, unit) step" where
  "need_bits n = sbind (sget code_bits) (\<lambda>b. swhen (b < n) stbi__grow_buffer_unsafe)"

definition stbi__bmask :: "uint32 list" where
  "stbi__bmask = [0,1,3,7,15,31,63,127,255,511,1023,2047,4095,8191,16383,32767,65535]"

text \<open>\<open>j->code_buffer <<= s; j->code_bits -= s\<close>; a shift by 32 or more is undefined.\<close>

definition drop_bits :: "int \<Rightarrow> ('u stbi__jpeg, unit) step" where
  "drop_bits s =
     (if s < 0 \<or> s \<ge> 32 then sfail Undefined
      else smodify (\<lambda>j. j\<lparr>jcode_buffer := push_bit (nat s) (jcode_buffer j), code_bits := code_bits j - s\<rparr>))"

text \<open>\<open>for (k = FAST_BITS + 1; ; ++k) if (temp < h->maxcode[k]) break;\<close>\<close>

function find_maxcode :: "uint32 list \<Rightarrow> uint32 \<Rightarrow> nat \<Rightarrow> nat res" where
  "find_maxcode maxcode temp k =
     (if k < length maxcode
      then if temp < maxcode ! k then Inr k else find_maxcode maxcode temp (k + 1)
      else Inl Undefined)"
  by pat_completeness auto
termination
  by (relation "measure (\<lambda>(m, t, k). length m - k)") auto

declare find_maxcode.simps [simp del]

text \<open>The slow path, for codes longer than \<open>FAST_BITS\<close>: the symbol index and the length of its
  code, or \<open>None\<close> for the two \<open>return -1\<close> that follow the search for the length.\<close>

definition symbol_index :: "stbi__huffman \<Rightarrow> uint32 \<Rightarrow> nat \<Rightarrow> int option res" where
  "symbol_index h buf k =
     ebind (arr_get stbi__bmask (int k)) (\<lambda>mask.
     ebind (arr_get (h_delta h) (int k)) (\<lambda>delta.
     let c = int_of_u32 ((drop_bit (32 - k) buf AND mask) + word_of_int delta) in
     if c < 0 \<or> c \<ge> 256 then Inr None
     else
       ebind (arr_get (h_size h) c) (\<lambda>sz.
       ebind (arr_get stbi__bmask (uint sz)) (\<lambda>smask.
       ebind (arr_get (h_code h) c) (\<lambda>cd.
       if unat sz = 0 \<or> (drop_bit (32 - unat sz) buf AND smask) \<noteq> ucast cd then Inl Undefined
       else Inr (Some c))))))"

definition huff_slow :: "stbi__huffman \<Rightarrow> ('u stbi__jpeg, int) step" where
  "huff_slow h =
     sbind (sget id) (\<lambda>j.
     sbind (slift (find_maxcode (h_maxcode h) (drop_bit 16 (jcode_buffer j)) (FAST_BITS + 1))) (\<lambda>k.
     if k = 17 then sbind (smodify (\<lambda>j. j\<lparr>code_bits := code_bits j - 16\<rparr>)) (\<lambda>_. sret (-1))
     else if int k > code_bits j then sret (-1)
     else
       sbind (slift (symbol_index h (jcode_buffer j) k)) (\<lambda>c.
       case c of None \<Rightarrow> sret (-1)
       | Some c \<Rightarrow>
           sbind (drop_bits (int k)) (\<lambda>_.
           sbind (slift (arr_get (h_values h) c)) (\<lambda>v. sret (uint v))))))"

definition stbi__jpeg_huff_decode :: "stbi__huffman \<Rightarrow> ('u stbi__jpeg, int) step" where
  "stbi__jpeg_huff_decode h =
     sbind (need_bits 16) (\<lambda>_.
     sbind (sget id) (\<lambda>j.
     sbind (slift (arr_get (h_fast h) (uint (drop_bit 23 (jcode_buffer j))))) (\<lambda>k.
     if unat k < 255 then
       sbind (slift (arr_get (h_size h) (uint k))) (\<lambda>s.
       if uint s > code_bits j then sret (-1)
       else
         sbind (drop_bits (uint s)) (\<lambda>_.
         sbind (slift (arr_get (h_values h) (uint k))) (\<lambda>v. sret (uint v))))
     else huff_slow h)))"

definition stbi__jbias :: "int list" where
  "stbi__jbias = [0,-1,-3,-7,-15,-31,-63,-127,-255,-511,-1023,-2047,-4095,-8191,-16383,-32767]"

definition stbi_lrot :: "uint32 \<Rightarrow> nat \<Rightarrow> uint32" where
  "stbi_lrot x y = push_bit y x OR drop_bit (nat (- int y AND 31)) x"

text \<open>The top \<open>n\<close> bits of the buffer, removed from it by a rotation.\<close>

definition take_bits :: "nat \<Rightarrow> ('u stbi__jpeg, uint32) step" where
  "take_bits n =
     sbind (slift (arr_get stbi__bmask (int n))) (\<lambda>mask.
     sbind (sget jcode_buffer) (\<lambda>buf.
     let k = stbi_lrot buf n in
     sbind (smodify (\<lambda>j. j\<lparr>jcode_buffer := k AND NOT mask, code_bits := code_bits j - int n\<rparr>)) (\<lambda>_.
     sret (k AND mask))))"

definition stbi__extend_receive :: "nat \<Rightarrow> ('u stbi__jpeg, int) step" where
  "stbi__extend_receive n =
     sbind (need_bits (int n)) (\<lambda>_.
     sbind (sget id) (\<lambda>j.
     if code_bits j < int n then sret 0
     else
       let sgn = uint (drop_bit 31 (jcode_buffer j)) in
       sbind (take_bits n) (\<lambda>k.
       sbind (slift (arr_get stbi__jbias (int n))) (\<lambda>bias.
       sret (int_of_u32 (k + word_of_int (bias AND (sgn - 1))))))))"

definition stbi__jpeg_get_bits :: "nat \<Rightarrow> ('u stbi__jpeg, int) step" where
  "stbi__jpeg_get_bits n =
     sbind (need_bits (int n)) (\<lambda>_.
     sbind (sget id) (\<lambda>j.
     if code_bits j < int n then sret 0
     else sbind (take_bits n) (\<lambda>k. sret (int_of_u32 k))))"

text \<open>The result is tested for being nonzero only, so it is a \<open>bool\<close> here.\<close>

definition stbi__jpeg_get_bit :: "('u stbi__jpeg, bool) step" where
  "stbi__jpeg_get_bit =
     sbind (need_bits 1) (\<lambda>_.
     sbind (sget id) (\<lambda>j.
     if code_bits j < 1 then sret False
     else
       sbind (drop_bits 1) (\<lambda>_.
       sret (jcode_buffer j AND 0x80000000 \<noteq> 0))))"

end
