(* ===== verification/Stbi_Jpeg_Block.thy ===== *)
theory Stbi_Jpeg_Block
  imports Stbi_Jpeg_Huff
begin

text \<open>
  Decoding of 8x8 blocks (\<open>src/stb_image.h\<close>, lines 2192-2524): the baseline block, the first and
  the refinement scans of a progressive image, and the inverse cosine transform. A block is a list
  of 64 \<open>short\<close>s, an \<open>int\<close> each, cut to 16 bits by \<open>shortcast\<close> wherever the code stores one.
\<close>

section \<open>Components and blocks\<close>

definition jcomp :: "int \<Rightarrow> ('u stbi__jpeg, stbi__jpeg_comp) step" where
  "jcomp n = sbind (sget img_comp) (\<lambda>cs. slift (arr_get cs n))"

definition upd_comp :: "int \<Rightarrow> (stbi__jpeg_comp \<Rightarrow> stbi__jpeg_comp) \<Rightarrow> ('u stbi__jpeg, unit) step" where
  "upd_comp n f =
     sbind (jcomp n) (\<lambda>c.
     sbind (sget img_comp) (\<lambda>cs.
     sbind (slift (arr_set cs n (f c))) (\<lambda>cs.
     smodify (\<lambda>j. j\<lparr>img_comp := cs\<rparr>))))"

definition stbi__jpeg_dezigzag :: "nat list" where
  "stbi__jpeg_dezigzag =
    [ 0,  1,  8, 16,  9,  2,  3, 10,
     17, 24, 32, 25, 18, 11,  4,  5,
     12, 19, 26, 33, 40, 48, 41, 34,
     27, 20, 13,  6,  7, 14, 21, 28,
     35, 42, 49, 56, 57, 50, 43, 36,
     29, 22, 15, 23, 30, 37, 44, 51,
     58, 59, 52, 45, 38, 31, 39, 46,
     53, 60, 61, 54, 47, 55, 62, 63,
     63, 63, 63, 63, 63, 63, 63, 63,
     63, 63, 63, 63, 63, 63, 63]"

text \<open>\<open>zig = stbi__jpeg_dezigzag[k]; data[zig] = (short) v(zig)\<close>, with the factor \<open>dequant[zig]\<close>
  of the baseline decoder.\<close>

definition store_dequant :: "stbi_us list \<Rightarrow> nat \<Rightarrow> int \<Rightarrow> int list \<Rightarrow> int list res" where
  "store_dequant dq k v data =
     ebind (arr_get stbi__jpeg_dezigzag (int k)) (\<lambda>zig.
     ebind (arr_get dq (int zig)) (\<lambda>q.
     arr_set data (int zig) (shortcast (v * uint q))))"

text \<open>The difference of the DC coefficient and its sum with the prediction.\<close>

definition dc_update :: "int \<Rightarrow> int \<Rightarrow> ('u stbi__jpeg, int) step" where
  "dc_update b t =
     sbind (if t \<noteq> 0 then stbi__extend_receive (nat t) else sret 0) (\<lambda>diff.
     sbind (jcomp b) (\<lambda>c.
     if \<not> stbi__addints_valid (dc_pred c) diff then sfail (Failure ''bad delta'')
     else
       let dc = dc_pred c + diff in
       sbind (upd_comp b (\<lambda>c. c\<lparr>dc_pred := dc\<rparr>)) (\<lambda>_. sret dc)))"

section \<open>Baseline blocks\<close>

text \<open>One round of the loop over the AC coefficients at position \<open>k\<close>: \<open>None\<close> is the \<open>break\<close>;
  \<open>Some (r, data)\<close> advances \<open>k\<close> by \<open>r + 1\<close>.\<close>

definition ac_round ::
    "(nat \<Rightarrow> int \<Rightarrow> int list \<Rightarrow> int list res) \<Rightarrow> stbi__huffman \<Rightarrow> int list \<Rightarrow>
     (int \<Rightarrow> ('u stbi__jpeg, bool) step) \<Rightarrow> nat \<Rightarrow> int list \<Rightarrow> ('u stbi__jpeg, (nat \<times> int list) option) step" where
  "ac_round store hac fac zero_run k data =
     sbind (need_bits 16) (\<lambda>_.
     sbind (sget id) (\<lambda>j.
     sbind (slift (arr_get fac (uint (drop_bit 23 (jcode_buffer j))))) (\<lambda>r.
     if r \<noteq> 0 then
       let run = nat (drop_bit 4 r AND 15); s = r AND 15 in
       if s > code_bits j then sfail (Failure ''bad huffman code'')
       else
         sbind (drop_bits s) (\<lambda>_.
         sbind (slift (store (k + run) (drop_bit 8 r) data)) (\<lambda>data.
         sret (Some (run, data))))
     else
       sbind (stbi__jpeg_huff_decode hac) (\<lambda>rs.
       if rs < 0 then sfail (Failure ''bad huffman code'')
       else
         let s = nat (rs AND 15); r = drop_bit 4 rs in
         if s = 0 then sbind (zero_run rs) (\<lambda>go. sret (if go then Some (15, data) else None))
         else
           sbind (stbi__extend_receive s) (\<lambda>v.
           sbind (slift (store (k + nat r) v data)) (\<lambda>data.
           sret (Some (nat r, data))))))))"

text \<open>\<open>if (rs != 0xf0) break\<close>: the end of the block unless the code is a run of 16 zeros.\<close>

definition baseline_zero_run :: "int \<Rightarrow> ('u stbi__jpeg, bool) step" where
  "baseline_zero_run rs = sret (rs = 0xf0)"

function decode_ac :: "stbi__huffman \<Rightarrow> int list \<Rightarrow> stbi_us list \<Rightarrow> nat \<Rightarrow> int list \<Rightarrow> ('u stbi__jpeg, int list) step" where
  "decode_ac hac fac dq k data =
     sbind (ac_round (store_dequant dq) hac fac baseline_zero_run k data) (\<lambda>r.
     case r of None \<Rightarrow> sret data
     | Some (run, data) \<Rightarrow> if k + run + 1 < 64 then decode_ac hac fac dq (k + run + 1) data else sret data)"
  by pat_completeness auto
termination
  by (relation "measure (\<lambda>(hac, fac, dq, k, data). 64 - k)") auto

declare decode_ac.simps [simp del]

definition stbi__jpeg_decode_block ::
    "stbi__huffman \<Rightarrow> stbi__huffman \<Rightarrow> int list \<Rightarrow> int \<Rightarrow> stbi_us list \<Rightarrow> ('u stbi__jpeg, int list) step" where
  "stbi__jpeg_decode_block hdc hac fac b dq =
     sbind (need_bits 16) (\<lambda>_.
     sbind (stbi__jpeg_huff_decode hdc) (\<lambda>t.
     if t < 0 \<or> t > 15 then sfail (Failure ''bad huffman code'')
     else
       sbind (dc_update b t) (\<lambda>dc.
       sbind (slift (arr_get dq 0)) (\<lambda>q0.
       if \<not> stbi__mul2shorts_valid dc (uint q0) then sfail (Failure ''can't merge dc and ac'')
       else decode_ac hac fac dq 1 ((replicate 64 0)[0 := shortcast (dc * uint q0)])))))"

section \<open>Progressive blocks\<close>

text \<open>\<open>1 << n\<close>, undefined outside the width of an \<open>int\<close>.\<close>

definition shl1 :: "int \<Rightarrow> int res" where
  "shl1 n = (if n < 0 \<or> n \<ge> 31 then Inl Undefined else Inr (2 ^ nat n))"

definition stbi__jpeg_decode_block_prog_dc ::
    "int list \<Rightarrow> stbi__huffman \<Rightarrow> int \<Rightarrow> ('u stbi__jpeg, int list) step" where
  "stbi__jpeg_decode_block_prog_dc data hdc b =
     sbind (sget id) (\<lambda>j.
     if spec_end j \<noteq> 0 then sfail (Failure ''can't merge dc and ac'')
     else
       sbind (need_bits 16) (\<lambda>_.
       sbind (slift (shl1 (succ_low j))) (\<lambda>bt.
       if succ_high j = 0 then
         sbind (stbi__jpeg_huff_decode hdc) (\<lambda>t.
         if t < 0 \<or> t > 15 then sfail (Failure ''can't merge dc and ac'')
         else
           sbind (dc_update b t) (\<lambda>dc.
           if \<not> stbi__mul2shorts_valid dc bt then sfail (Failure ''can't merge dc and ac'')
           else slift (arr_set (map (\<lambda>_. 0) data) 0 (shortcast (dc * bt)))))
       else
         sbind stbi__jpeg_get_bit (\<lambda>b1.
         if b1 then
           slift (ebind (arr_get data 0) (\<lambda>d0. arr_set data 0 (shortcast (d0 + shortcast bt))))
         else sret data))))"

text \<open>First scan for AC coefficients.\<close>

definition store_shifted :: "int \<Rightarrow> nat \<Rightarrow> int \<Rightarrow> int list \<Rightarrow> int list res" where
  "store_shifted bt k v data =
     ebind (arr_get stbi__jpeg_dezigzag (int k)) (\<lambda>zig. arr_set data (int zig) (shortcast (v * bt)))"

definition eob_zero_run :: "int \<Rightarrow> ('u stbi__jpeg, bool) step" where
  "eob_zero_run rs =
     (let r = drop_bit 4 rs in
      if r < 15 then
        sbind (slift (shl1 r)) (\<lambda>run.
        sbind (if r \<noteq> 0 then stbi__jpeg_get_bits (nat r) else sret 0) (\<lambda>extra.
        sbind (smodify (\<lambda>j. j\<lparr>eob_run := run + extra - 1\<rparr>)) (\<lambda>_. sret False)))
      else sret True)"

function prog_ac_first :: "stbi__huffman \<Rightarrow> int list \<Rightarrow> int \<Rightarrow> nat \<Rightarrow> nat \<Rightarrow> int list \<Rightarrow> ('u stbi__jpeg, int list) step" where
  "prog_ac_first hac fac bt send k data =
     sbind (ac_round (store_shifted bt) hac fac eob_zero_run k data) (\<lambda>r.
     case r of None \<Rightarrow> sret data
     | Some (run, data) \<Rightarrow>
         if k + run + 1 \<le> send then prog_ac_first hac fac bt send (k + run + 1) data else sret data)"
  by pat_completeness auto
termination
  by (relation "measure (\<lambda>(hac, fac, bt, send, k, data). Suc send - k)") auto

declare prog_ac_first.simps [simp del]

text \<open>A nonzero coefficient in a refinement scan: one more bit of it, when the stream says so and
  it does not have it yet.\<close>

definition refine_coeff :: "int \<Rightarrow> nat \<Rightarrow> int list \<Rightarrow> ('u stbi__jpeg, int list) step" where
  "refine_coeff bt zig data =
     sbind stbi__jpeg_get_bit (\<lambda>b1.
     if b1 then
       slift (ebind (arr_get data (int zig)) (\<lambda>p.
         if p AND bt = 0
         then arr_set data (int zig) (shortcast (if p > 0 then p + bt else p - bt))
         else Inr data))
     else sret data)"

text \<open>The refinement of a block inside a run of empty blocks.\<close>

definition refine_all :: "int \<Rightarrow> nat \<Rightarrow> int list \<Rightarrow> ('u stbi__jpeg, int list) step" where
  "refine_all bt k data =
     sbind (slift (arr_get stbi__jpeg_dezigzag (int k))) (\<lambda>zig.
     sbind (slift (arr_get data (int zig))) (\<lambda>p.
     if p \<noteq> 0 then refine_coeff bt zig data else sret data))"

text \<open>\<open>while (k <= j->spec_end)\<close>: advance over \<open>r\<close> zero coefficients, refining the others, and
  store \<open>s\<close> in the next zero one.\<close>

function refine_run :: "int \<Rightarrow> nat \<Rightarrow> int \<Rightarrow> nat \<Rightarrow> nat \<Rightarrow> int list \<Rightarrow> ('u stbi__jpeg, nat \<times> int list) step" where
  "refine_run bt send s r k data =
     (if k \<le> send then
        sbind (slift (arr_get stbi__jpeg_dezigzag (int k))) (\<lambda>zig.
        sbind (slift (arr_get data (int zig))) (\<lambda>p.
        if p \<noteq> 0 then
          sbind (refine_coeff bt zig data) (\<lambda>data. refine_run bt send s r (k + 1) data)
        else if r = 0 then
          sbind (slift (arr_set data (int zig) (shortcast s))) (\<lambda>data. sret (k + 1, data))
        else refine_run bt send s (r - 1) (k + 1) data))
      else sret (k, data))"
  by pat_completeness auto
termination
  by (relation "measure (\<lambda>(bt, send, s, r, k, data). Suc send - k)") auto

declare refine_run.simps [simp del]

text \<open>The run \<open>r\<close> and the new coefficient \<open>s\<close> that a code of a refinement scan stands for.\<close>

definition refine_code :: "stbi__huffman \<Rightarrow> int \<Rightarrow> ('u stbi__jpeg, nat \<times> int) step" where
  "refine_code hac bt =
     sbind (stbi__jpeg_huff_decode hac) (\<lambda>rs.
     if rs < 0 then sfail (Failure ''bad huffman code'')
     else
       let s = rs AND 15; r = drop_bit 4 rs in
       if s = 0 then
         if r < 15 then
           sbind (slift (shl1 r)) (\<lambda>run.
           sbind (if r \<noteq> 0 then stbi__jpeg_get_bits (nat r) else sret 0) (\<lambda>extra.
           sbind (smodify (\<lambda>j. j\<lparr>eob_run := run - 1 + extra\<rparr>)) (\<lambda>_. sret (64, s))))
         else sret (nat r, s)
       else if s \<noteq> 1 then sfail (Failure ''bad huffman code'')
       else sbind stbi__jpeg_get_bit (\<lambda>b1. sret (nat r, if b1 then bt else - bt)))"

text \<open>Each round that the loop goes on after has passed a coefficient.\<close>

fun prog_ac_refine :: "nat \<Rightarrow> stbi__huffman \<Rightarrow> int \<Rightarrow> nat \<Rightarrow> nat \<Rightarrow> int list \<Rightarrow> ('u stbi__jpeg, int list) step" where
  "prog_ac_refine 0 hac bt send k data = sfail NoReturn"
| "prog_ac_refine (Suc n) hac bt send k data =
     sbind (refine_code hac bt) (\<lambda>(r, s).
     sbind (refine_run bt send s r k data) (\<lambda>(k, data).
     if k \<le> send then prog_ac_refine n hac bt send k data else sret data))"

definition stbi__jpeg_decode_block_prog_ac ::
    "int list \<Rightarrow> stbi__huffman \<Rightarrow> int list \<Rightarrow> ('u stbi__jpeg, int list) step" where
  "stbi__jpeg_decode_block_prog_ac data hac fac =
     sbind (sget id) (\<lambda>j.
     if spec_start j = 0 then sfail (Failure ''can't merge dc and ac'')
     else
       let start = nat (spec_start j); send = nat (spec_end j) in
       sbind (slift (shl1 (succ_low j))) (\<lambda>bt.
       if eob_run j \<noteq> 0 then
         sbind (smodify (\<lambda>j. j\<lparr>eob_run := eob_run j - 1\<rparr>)) (\<lambda>_.
         if succ_high j = 0 then sret data
         else sfold (refine_all (shortcast bt)) [start..<send + 1] data)
       else if succ_high j = 0 then prog_ac_first hac fac bt send start data
       else prog_ac_refine 66 hac (shortcast bt) send start data))"

section \<open>The inverse cosine transform\<close>

definition stbi__clamp :: "int \<Rightarrow> stbi_uc" where
  "stbi__clamp x =
     (if uint (u32cast x) > 255 then if x < 0 then 0 else if x > 255 then 255 else STBI__BYTECAST x
      else STBI__BYTECAST x)"

text \<open>\<open>(int) (x * 4096 + 0.5)\<close> for the decimal \<open>x = n / 10 ^ 9\<close>; the conversion truncates.\<close>

definition stbi__f2f :: "int \<Rightarrow> int" where
  "stbi__f2f n = (n * 4096 + 500000000) sdiv 1000000000"

definition stbi__fsh :: "int \<Rightarrow> int" where
  "stbi__fsh x = x * 4096"

text \<open>The macro \<open>STBI__IDCT_1D\<close>: the values of \<open>x0\<close>, \<open>x1\<close>, \<open>x2\<close>, \<open>x3\<close>, \<open>t0\<close>, \<open>t1\<close>, \<open>t2\<close>, \<open>t3\<close> at
  its end. The signed arithmetic of the source is that of the integers here.\<close>

definition idct_even :: "int \<Rightarrow> int \<Rightarrow> int \<Rightarrow> int \<Rightarrow> int \<times> int \<times> int \<times> int" where
  "idct_even s0 s2 s4 s6 =
     (let p1 = (s2 + s6) * stbi__f2f 541196100;
          t2 = p1 + s6 * stbi__f2f (-1847759065);
          t3 = p1 + s2 * stbi__f2f 765366865;
          t0 = stbi__fsh (s0 + s4);
          t1 = stbi__fsh (s0 - s4)
      in (t0 + t3, t1 + t2, t1 - t2, t0 - t3))"

definition idct_odd :: "int \<Rightarrow> int \<Rightarrow> int \<Rightarrow> int \<Rightarrow> int \<times> int \<times> int \<times> int" where
  "idct_odd s1 s3 s5 s7 =
     (let p3 = s7 + s3; p4 = s5 + s1; p1 = s7 + s1; p2 = s5 + s3;
          p5 = (p3 + p4) * stbi__f2f 1175875602;
          t0 = s7 * stbi__f2f 298631336;
          t1 = s5 * stbi__f2f 2053119869;
          t2 = s3 * stbi__f2f 3072711026;
          t3 = s1 * stbi__f2f 1501321110;
          p1 = p5 + p1 * stbi__f2f (-899976223);
          p2 = p5 + p2 * stbi__f2f (-2562915447);
          p3 = p3 * stbi__f2f (-1961570560);
          p4 = p4 * stbi__f2f (-390180644)
      in (t0 + (p1 + p3), t1 + (p2 + p4), t2 + (p2 + p3), t3 + (p1 + p4)))"

text \<open>The eight outputs in order, with the rounding term \<open>bias\<close> and the final shift.\<close>

definition idct_1d :: "int \<Rightarrow> nat \<Rightarrow> int list \<Rightarrow> int list" where
  "idct_1d bias sh s =
     (let (x0, x1, x2, x3) = idct_even (s ! 0) (s ! 2) (s ! 4) (s ! 6);
          (t0, t1, t2, t3) = idct_odd (s ! 1) (s ! 3) (s ! 5) (s ! 7);
          (x0, x1, x2, x3) = (x0 + bias, x1 + bias, x2 + bias, x3 + bias)
      in map (drop_bit sh)
           [x0 + t3, x1 + t2, x2 + t1, x3 + t0, x3 - t0, x2 - t1, x1 - t2, x0 - t3])"

definition idct_column :: "int list \<Rightarrow> int list" where
  "idct_column d =
     (if \<forall>v \<in> set (tl d). v = 0 then replicate 8 (hd d * 4) else idct_1d 512 10 d)"

definition column_of :: "int list \<Rightarrow> nat \<Rightarrow> int list" where
  "column_of data i = map (\<lambda>k. data ! (8 * k + i)) [0..<8]"

text \<open>The rows of \<open>val\<close> after the column pass, and the bytes of the output rows.\<close>

definition idct_values :: "int list \<Rightarrow> int list list" where
  "idct_values data =
     (let cols = map (\<lambda>i. idct_column (column_of data i)) [0..<8]
      in map (\<lambda>k. map (\<lambda>c. c ! k) cols) [0..<8])"

definition idct_rows :: "int list \<Rightarrow> stbi_uc list list" where
  "idct_rows data = map (\<lambda>v. map stbi__clamp (idct_1d (65536 + 128 * 2 ^ 17) 17 v)) (idct_values data)"

text \<open>\<open>stbi__idct_block\<close> stores row \<open>i\<close> at \<open>out + i * out_stride\<close>; \<open>off\<close> is the offset of \<open>out\<close> in
  the array \<open>plane\<close> that it points into.\<close>

definition stbi__idct_block :: "stbi_uc list \<Rightarrow> int \<Rightarrow> int \<Rightarrow> int list \<Rightarrow> stbi_uc list res" where
  "stbi__idct_block plane off stride data =
     (if length data \<noteq> 64 then Inl Undefined
      else efold (\<lambda>(i, k) plane. arr_set plane (off + int i * stride + int k) (idct_rows data ! i ! k))
             (List.product [0..<8] [0..<8]) plane)"

end
