(* ===== verification/Stbi_Jpeg.thy ===== *)
theory Stbi_Jpeg
  imports Stbi_Jpeg_Block Stbi_Png
begin

text \<open>
  The structure of a JPEG file (\<open>src/stb_image.h\<close>, lines 2915-3447): markers and segments, the scan
  header, the entropy-coded scans of baseline and progressive images, the frame header with its
  allocations, and the loop over the segments of an image. Memory from \<open>stbi__malloc\<close> holds zeros
  in the model; its contents are unspecified in C.
\<close>

section \<open>Markers\<close>

definition STBI__MARKER_none :: stbi_uc where "STBI__MARKER_none = 0xff"

definition stbi__get_marker :: "('u stbi__jpeg, stbi_uc) step" where
  "stbi__get_marker =
     sbind (sget jmarker) (\<lambda>m.
     if m \<noteq> STBI__MARKER_none then
       sbind (smodify (\<lambda>j. j\<lparr>jmarker := STBI__MARKER_none\<rparr>)) (\<lambda>_. sret m)
     else
       sbind (jctx (stot stbi__get8)) (\<lambda>x.
       if x \<noteq> 0xff then sret STBI__MARKER_none
       else sbind (sget scan_fuel) (\<lambda>fuel. jctx (skip_fill fuel))))"

definition STBI__RESTART :: "stbi_uc \<Rightarrow> bool" where
  "STBI__RESTART x \<longleftrightarrow> x \<ge> 0xd0 \<and> x \<le> 0xd7"

definition stbi__jpeg_reset :: "('u stbi__jpeg, unit) step" where
  "stbi__jpeg_reset =
     smodify (\<lambda>j. j\<lparr>code_bits := 0, jcode_buffer := 0, nomore := False,
       img_comp := map (\<lambda>c. c\<lparr>dc_pred := 0\<rparr>) (img_comp j), jmarker := STBI__MARKER_none,
       todo := (if restart_interval j \<noteq> 0 then restart_interval j else 0x7fffffff), eob_run := 0\<rparr>)"

section \<open>Entropy-coded data\<close>

text \<open>The blocks \<open>(i, j)\<close> of \<open>for (j = 0; j < h; ++j) for (i = 0; i < w; ++i)\<close> in order.\<close>

definition grid :: "int \<Rightarrow> int \<Rightarrow> (int \<times> int) list" where
  "grid w h = concat (map (\<lambda>j. map (\<lambda>i. (int i, int j)) [0..<nat w]) [0..<nat h])"

definition comp_blocks :: "stbi__jpeg_comp \<Rightarrow> (int \<times> int) list" where
  "comp_blocks c = grid (drop_bit 3 (comp_x c + 7)) (drop_bit 3 (comp_y c + 7))"

text \<open>\<open>if (--z->todo <= 0) \<dots>\<close> after each MCU: the result says that the scan ends here because the
  next marker is no restart marker.\<close>

definition count_mcu :: "('u stbi__jpeg, bool) step" where
  "count_mcu =
     sbind (smodify (\<lambda>j. j\<lparr>todo := todo j - 1\<rparr>)) (\<lambda>_.
     sbind (sget id) (\<lambda>j.
     if todo j \<le> 0 then
       sbind (need_bits 24) (\<lambda>_.
       sbind (sget jmarker) (\<lambda>m.
       if \<not> STBI__RESTART m then sret True
       else sbind stbi__jpeg_reset (\<lambda>_. sret False)))
     else sret False))"

definition put_block :: "int \<Rightarrow> int \<Rightarrow> int list \<Rightarrow> ('u stbi__jpeg, unit) step" where
  "put_block n off data =
     sbind (jcomp n) (\<lambda>c.
     case comp_data c of None \<Rightarrow> sfail Undefined
     | Some plane \<Rightarrow>
         sbind (slift (stbi__idct_block plane off (comp_w2 c) data)) (\<lambda>plane.
         upd_comp n (\<lambda>c. c\<lparr>comp_data := Some plane\<rparr>)))"

text \<open>Decode a baseline block of component \<open>n\<close> and transform it into its plane at block \<open>(x, y)\<close>.\<close>

definition baseline_block :: "int \<Rightarrow> int \<Rightarrow> int \<Rightarrow> ('u stbi__jpeg, unit) step" where
  "baseline_block n x y =
     sbind (jcomp n) (\<lambda>c.
     sbind (sget id) (\<lambda>z.
     sbind (slift (arr_get (huff_dc z) (comp_hd c))) (\<lambda>hdc.
     sbind (slift (arr_get (huff_ac z) (comp_ha c))) (\<lambda>hac.
     sbind (slift (arr_get (fast_ac z) (comp_ha c))) (\<lambda>fac.
     sbind (slift (arr_get (dequant z) (comp_tq c))) (\<lambda>dq.
     sbind (stbi__jpeg_decode_block hdc hac fac n dq) (\<lambda>data.
     put_block n (comp_w2 c * (y * 8) + x * 8) data)))))))"

text \<open>The 64 coefficients of block \<open>(x, y)\<close> of component \<open>n\<close>, changed in place by \<open>f\<close>.\<close>

definition on_coeff ::
    "int \<Rightarrow> int \<Rightarrow> int \<Rightarrow> (stbi__jpeg_comp \<Rightarrow> int list \<Rightarrow> ('u stbi__jpeg, int list) step) \<Rightarrow> ('u stbi__jpeg, unit) step" where
  "on_coeff n x y f =
     sbind (jcomp n) (\<lambda>c.
     case comp_coeff c of None \<Rightarrow> sfail Undefined
     | Some coeff \<Rightarrow>
         let off = 64 * (x + y * coeff_w c) in
         if off < 0 \<or> off + 64 > int (length coeff) then sfail Undefined
         else
           sbind (f c (take 64 (drop (nat off) coeff))) (\<lambda>data.
           upd_comp n (\<lambda>c. c\<lparr>comp_coeff :=
             Some (take (nat off) coeff @ data @ drop (nat off + 64) coeff)\<rparr>)))"

definition prog_dc_block :: "int \<Rightarrow> int \<Rightarrow> int \<Rightarrow> ('u stbi__jpeg, unit) step" where
  "prog_dc_block n x y =
     on_coeff n x y (\<lambda>c data.
       sbind (sget huff_dc) (\<lambda>hs.
       sbind (slift (arr_get hs (comp_hd c))) (\<lambda>hdc.
       stbi__jpeg_decode_block_prog_dc data hdc n)))"

definition prog_ac_block :: "int \<Rightarrow> int \<Rightarrow> int \<Rightarrow> ('u stbi__jpeg, unit) step" where
  "prog_ac_block n x y =
     on_coeff n x y (\<lambda>c data.
       sbind (sget id) (\<lambda>z.
       sbind (slift (arr_get (huff_ac z) (comp_ha c))) (\<lambda>hac.
       sbind (slift (arr_get (fast_ac z) (comp_ha c))) (\<lambda>fac.
       stbi__jpeg_decode_block_prog_ac data hac fac))))"

text \<open>A scan of one component, block by block, and a scan of several, MCU by MCU; \<open>blk n x y\<close>
  decodes block \<open>(x, y)\<close> of component \<open>n\<close>.\<close>

definition single_scan :: "(int \<Rightarrow> int \<Rightarrow> int \<Rightarrow> ('u stbi__jpeg, unit) step) \<Rightarrow> ('u stbi__jpeg, unit) step" where
  "single_scan blk =
     sbind (sget jorder) (\<lambda>ord.
     sbind (slift (arr_get ord 0)) (\<lambda>n.
     sbind (jcomp n) (\<lambda>c.
     sbind (suntil (\<lambda>(i, j). sbind (blk n i j) (\<lambda>_. count_mcu)) (comp_blocks c)) (\<lambda>_. sret ()))))"

definition mcu_component ::
    "(int \<Rightarrow> int \<Rightarrow> int \<Rightarrow> ('u stbi__jpeg, unit) step) \<Rightarrow> int \<Rightarrow> int \<Rightarrow> nat \<Rightarrow> ('u stbi__jpeg, unit) step" where
  "mcu_component blk i j k =
     sbind (sget jorder) (\<lambda>ord.
     sbind (slift (arr_get ord (int k))) (\<lambda>n.
     sbind (jcomp n) (\<lambda>c.
     sfold (\<lambda>(x, y) _. blk n (i * comp_h c + x) (j * comp_v c + y)) (grid (comp_h c) (comp_v c)) ())))"

definition mcu_scan :: "(int \<Rightarrow> int \<Rightarrow> int \<Rightarrow> ('u stbi__jpeg, unit) step) \<Rightarrow> ('u stbi__jpeg, unit) step" where
  "mcu_scan blk =
     sbind (sget id) (\<lambda>z.
     sbind (suntil (\<lambda>(i, j).
       sbind (sfold (\<lambda>k _. mcu_component blk i j k) [0..<nat (scan_n z)] ()) (\<lambda>_. count_mcu))
       (grid (img_mcu_x z) (img_mcu_y z))) (\<lambda>_. sret ()))"

definition stbi__parse_entropy_coded_data :: "('u stbi__jpeg, unit) step" where
  "stbi__parse_entropy_coded_data =
     sbind stbi__jpeg_reset (\<lambda>_.
     sbind (sget id) (\<lambda>z.
     if \<not> progressive z then
       if scan_n z = 1 then single_scan baseline_block else mcu_scan baseline_block
     else if scan_n z = 1 then
       single_scan (if spec_start z = 0 then prog_dc_block else prog_ac_block)
     else mcu_scan prog_dc_block))"

definition stbi__jpeg_dequantize :: "int list \<Rightarrow> stbi_us list \<Rightarrow> int list res" where
  "stbi__jpeg_dequantize data dq =
     efold (\<lambda>i data.
       ebind (arr_get data (int i)) (\<lambda>d.
       ebind (arr_get dq (int i)) (\<lambda>q. arr_set data (int i) (shortcast (d * uint q))))) [0..<64] data"

definition finish_block :: "int \<Rightarrow> int \<Rightarrow> int \<Rightarrow> ('u stbi__jpeg, unit) step" where
  "finish_block n i j =
     on_coeff n i j (\<lambda>c data.
       sbind (sget dequant) (\<lambda>dqs.
       sbind (slift (arr_get dqs (comp_tq c))) (\<lambda>dq.
       sbind (slift (stbi__jpeg_dequantize data dq)) (\<lambda>data.
       sbind (put_block n (comp_w2 c * j * 8 + i * 8) data) (\<lambda>_. sret data)))))"

definition stbi__jpeg_finish :: "('u stbi__jpeg, unit) step" where
  "stbi__jpeg_finish =
     sbind (sget id) (\<lambda>z.
     if progressive z then
       sfold (\<lambda>n _. sbind (jcomp (int n)) (\<lambda>c.
         sfold (\<lambda>(i, j) _. finish_block (int n) i j) (comp_blocks c) ())) [0..<nat (img_n (jpeg_s z))] ()
     else sret ())"

section \<open>Segments\<close>

definition read_dqt_entry :: "bool \<Rightarrow> int \<Rightarrow> nat \<Rightarrow> ('u stbi__jpeg, unit) step" where
  "read_dqt_entry sixteen t i =
     sbind (if sixteen then jget16be else jget8) (\<lambda>v.
     sbind (sget dequant) (\<lambda>dqs.
     sbind (slift (ebind (arr_get dqs t) (\<lambda>dq.
       ebind (arr_get stbi__jpeg_dezigzag (int i)) (\<lambda>zig.
       ebind (arr_set dq (int zig) (u16cast v)) (\<lambda>dq. arr_set dqs t dq))))) (\<lambda>dqs.
     smodify (\<lambda>j. j\<lparr>dequant := dqs\<rparr>))))"

text \<open>One quantization table; the result is the number of bytes it took, less one.\<close>

definition read_dqt :: "('u stbi__jpeg, nat) step" where
  "read_dqt =
     sbind jget8 (\<lambda>q.
     let p = drop_bit 4 q; sixteen = (p \<noteq> 0); t = q AND 15 in
     if p \<noteq> 0 \<and> p \<noteq> 1 then sfail (Failure ''bad DQT type'')
     else if t > 3 then sfail (Failure ''bad DQT table'')
     else
       sbind (sfold (\<lambda>i _. read_dqt_entry sixteen t i) [0..<64] ()) (\<lambda>_.
       sret (if sixteen then 128 else 64)))"

text \<open>\<open>while (L > 0)\<close> over tables, where \<open>tab\<close> reads a table of \<open>n + 1\<close> bytes; then \<open>return L == 0\<close>.\<close>

function segment_loop :: "('u stbi__jpeg, nat) step \<Rightarrow> int \<Rightarrow> ('u stbi__jpeg, unit) step" where
  "segment_loop tab L =
     (if L > 0 then sbind tab (\<lambda>n. segment_loop tab (L - (int n + 1)))
      else if L = 0 then sret () else sfail Silent)"
  by pat_completeness auto
termination
  by (relation "measure (\<lambda>(tab, L). nat L)") auto

declare segment_loop.simps [simp del]

definition read_values :: "nat \<Rightarrow> stbi__huffman \<Rightarrow> ('u stbi__jpeg, stbi__huffman) step" where
  "read_values n h =
     sfold (\<lambda>i h. sbind jget8 (\<lambda>v. slift (ebind (arr_set (h_values h) (int i) (STBI__BYTECAST v)) (\<lambda>vs.
       Inr (h\<lparr>h_values := vs\<rparr>))))) [0..<n] h"

definition read_dht :: "('u stbi__jpeg, nat) step" where
  "read_dht =
     sbind jget8 (\<lambda>q.
     let tc = drop_bit 4 q; th = q AND 15 in
     if tc > 1 \<or> th > 3 then sfail (Failure ''bad DHT header'')
     else
       sbind (sfold (\<lambda>_ sizes. sbind jget8 (\<lambda>v. sret (sizes @ [v]))) [0..<16] []) (\<lambda>sizes.
       let n = nat (sum_list sizes) in
       if n > 256 then sfail (Failure ''bad DHT header'')
       else
         sbind (sget id) (\<lambda>z.
         let hs = (if tc = 0 then huff_dc z else huff_ac z) in
         sbind (slift (ebind (arr_get hs th) (\<lambda>h. stbi__build_huffman h sizes))) (\<lambda>h.
         sbind (read_values n h) (\<lambda>h.
         sbind (slift (arr_set hs th h)) (\<lambda>hs.
         if tc = 0 then sbind (smodify (\<lambda>j. j\<lparr>huff_dc := hs\<rparr>)) (\<lambda>_. sret (16 + n))
         else
           sbind (slift (ebind (arr_get (fast_ac z) th) (\<lambda>fac.
             ebind (stbi__build_fast_ac fac h) (\<lambda>fac. arr_set (fast_ac z) th fac)))) (\<lambda>facs.
           sbind (smodify (\<lambda>j. j\<lparr>huff_ac := hs, fast_ac := facs\<rparr>)) (\<lambda>_. sret (16 + n)))))))))"

text \<open>Whether the next bytes are the tag; all of them are read in any case.\<close>

definition read_tag :: "int list \<Rightarrow> ('u stbi__jpeg, bool) step" where
  "read_tag tag = sfold (\<lambda>t ok. sbind jget8 (\<lambda>b. sret (ok \<and> b = t))) tag True"

definition app0_segment :: "int \<Rightarrow> ('u stbi__jpeg, int) step" where
  "app0_segment L =
     sbind (read_tag [74, 70, 73, 70, 0]) (\<lambda>ok.
     sbind (swhen ok (smodify (\<lambda>j. j\<lparr>jfif := True\<rparr>))) (\<lambda>_. sret (L - 5)))"

definition app14_segment :: "int \<Rightarrow> ('u stbi__jpeg, int) step" where
  "app14_segment L =
     sbind (read_tag [65, 100, 111, 98, 101, 0]) (\<lambda>ok.
     if ok then
       sbind jget8 (\<lambda>_. sbind jget16be (\<lambda>_. sbind jget16be (\<lambda>_.
       sbind jget8 (\<lambda>t.
       sbind (smodify (\<lambda>j. j\<lparr>app14_color_transform := t\<rparr>)) (\<lambda>_. sret (L - 6 - 6))))))
     else sret (L - 6))"

definition stbi__process_marker :: "stbi_uc \<Rightarrow> ('u stbi__jpeg, unit) step" where
  "stbi__process_marker m =
     (if m = STBI__MARKER_none then sfail (Failure ''expected marker'')
      else if m = 0xDD then
        sbind jget16be (\<lambda>len.
        if len \<noteq> 4 then sfail (Failure ''bad DRI len'')
        else sbind jget16be (\<lambda>r. smodify (\<lambda>j. j\<lparr>restart_interval := r\<rparr>)))
      else if m = 0xDB then sbind jget16be (\<lambda>L. segment_loop read_dqt (L - 2))
      else if m = 0xC4 then sbind jget16be (\<lambda>L. segment_loop read_dht (L - 2))
      else if m \<ge> 0xE0 \<and> m \<le> 0xEF \<or> m = 0xFE then
        sbind jget16be (\<lambda>L.
        if L < 2 then sfail (Failure (if m = 0xFE then ''bad COM len'' else ''bad APP len''))
        else
          let L = L - 2 in
          sbind (if m = 0xE0 \<and> L \<ge> 5 then app0_segment L
                 else if m = 0xEE \<and> L \<ge> 12 then app14_segment L
                 else sret L) (\<lambda>L.
          jctx (smodify (\<lambda>s. stbi__skip s L))))
      else sfail (Failure ''unknown marker''))"

section \<open>Scan header\<close>

definition scan_component :: "nat \<Rightarrow> ('u stbi__jpeg, unit) step" where
  "scan_component i =
     sbind jget8 (\<lambda>ident.
     sbind jget8 (\<lambda>q.
     sbind (sget id) (\<lambda>z.
     case find (\<lambda>w. comp_id (img_comp z ! w) = ident) [0..<min (nat (img_n (jpeg_s z))) (length (img_comp z))] of
       None \<Rightarrow> if nat (img_n (jpeg_s z)) > length (img_comp z) then sfail Undefined else sfail Silent
     | Some w \<Rightarrow>
         sbind (upd_comp (int w) (\<lambda>c. c\<lparr>comp_hd := drop_bit 4 q\<rparr>)) (\<lambda>_.
         if drop_bit 4 q > 3 then sfail (Failure ''bad DC huff'')
         else
           sbind (upd_comp (int w) (\<lambda>c. c\<lparr>comp_ha := q AND 15\<rparr>)) (\<lambda>_.
           if q AND 15 > 3 then sfail (Failure ''bad AC huff'')
           else
             sbind (sget jorder) (\<lambda>ord.
             sbind (slift (arr_set ord (int i) (int w))) (\<lambda>ord.
             smodify (\<lambda>j. j\<lparr>jorder := ord\<rparr>))))))))"

definition scan_parameters :: "('u stbi__jpeg, unit) step" where
  "scan_parameters =
     sbind jget8 (\<lambda>ss. sbind jget8 (\<lambda>se. sbind jget8 (\<lambda>aa.
     sbind (smodify (\<lambda>j. j\<lparr>spec_start := ss, spec_end := se, succ_high := drop_bit 4 aa, succ_low := aa AND 15\<rparr>)) (\<lambda>_.
     sbind (sget id) (\<lambda>z.
     if progressive z then
       sguard (\<not> (spec_start z > 63 \<or> spec_end z > 63 \<or> spec_start z > spec_end z \<or> succ_high z > 13 \<or> succ_low z > 13))
         (Failure ''bad SOS'')
     else if spec_start z \<noteq> 0 then sfail (Failure ''bad SOS'')
     else if succ_high z \<noteq> 0 \<or> succ_low z \<noteq> 0 then sfail (Failure ''bad SOS'')
     else smodify (\<lambda>j. j\<lparr>spec_end := 63\<rparr>))))))"

definition stbi__process_scan_header :: "('u stbi__jpeg, unit) step" where
  "stbi__process_scan_header =
     sbind jget16be (\<lambda>Ls.
     sbind jget8 (\<lambda>n.
     sbind (smodify (\<lambda>j. j\<lparr>scan_n := n\<rparr>)) (\<lambda>_.
     sbind (sget id) (\<lambda>z.
     if n < 1 \<or> n > 4 \<or> n > img_n (jpeg_s z) then sfail (Failure ''bad SOS component count'')
     else if Ls \<noteq> 6 + 2 * n then sfail (Failure ''bad SOS len'')
     else
       sbind (sfold (\<lambda>i _. scan_component i) [0..<nat n] ()) (\<lambda>_.
       scan_parameters)))))"

section \<open>Frame header\<close>

definition free_component :: "stbi__jpeg_comp \<Rightarrow> stbi__jpeg_comp" where
  "free_component c = c\<lparr>comp_data := None, comp_coeff := None, linebuf := None\<rparr>"

definition stbi__free_jpeg_components :: "nat \<Rightarrow> ('u stbi__jpeg, unit) step" where
  "stbi__free_jpeg_components ncomp =
     smodify (\<lambda>j. j\<lparr>img_comp := map free_component (take ncomp (img_comp j)) @ drop ncomp (img_comp j)\<rparr>)"

text \<open>The component parameters in the frame header; component \<open>i\<close> counts as one of "RGB" by its id.\<close>

definition frame_component :: "int \<Rightarrow> nat \<Rightarrow> ('u stbi__jpeg, unit) step" where
  "frame_component n i =
     sbind jget8 (\<lambda>ident.
     sbind (upd_comp (int i) (\<lambda>c. c\<lparr>comp_id := ident\<rparr>)) (\<lambda>_.
     sbind (swhen (n = 3 \<and> ident = [82, 71, 66] ! i) (smodify (\<lambda>j. j\<lparr>jrgb := jrgb j + 1\<rparr>))) (\<lambda>_.
     sbind jget8 (\<lambda>q.
     sbind (upd_comp (int i) (\<lambda>c. c\<lparr>comp_h := drop_bit 4 q\<rparr>)) (\<lambda>_.
     if drop_bit 4 q = 0 \<or> drop_bit 4 q > 4 then sfail (Failure ''bad H'')
     else
       sbind (upd_comp (int i) (\<lambda>c. c\<lparr>comp_v := q AND 15\<rparr>)) (\<lambda>_.
       if q AND 15 = 0 \<or> q AND 15 > 4 then sfail (Failure ''bad V'')
       else
         sbind jget8 (\<lambda>tq.
         sbind (upd_comp (int i) (\<lambda>c. c\<lparr>comp_tq := tq\<rparr>)) (\<lambda>_.
         sguard (tq \<le> 3) (Failure ''bad TQ'')))))))))"

definition frame_size :: "('u stbi__jpeg, int) step" where
  "frame_size =
     sbind jget16be (\<lambda>Lf.
     if Lf < 11 then sfail (Failure ''bad SOF len'')
     else sbind jget8 (\<lambda>p.
     if p \<noteq> 8 then sfail (Failure ''only 8-bit'')
     else sbind jget16be (\<lambda>y.
     sbind (jctx (smodify (\<lambda>s. s\<lparr>img_y := u32cast y\<rparr>))) (\<lambda>_.
     if y = 0 then sfail (Failure ''no header height'')
     else sbind jget16be (\<lambda>x.
     sbind (jctx (smodify (\<lambda>s. s\<lparr>img_x := u32cast x\<rparr>))) (\<lambda>_.
     if x = 0 then sfail (Failure ''0 width'')
     else if y > int STBI_MAX_DIMENSIONS then sfail (Failure ''too large'')
     else if x > int STBI_MAX_DIMENSIONS then sfail (Failure ''too large'')
     else sbind jget8 (\<lambda>c.
     if c \<noteq> 3 \<and> c \<noteq> 1 \<and> c \<noteq> 4 then sfail (Failure ''bad component count'')
     else
       sbind (jctx (smodify (\<lambda>s. s\<lparr>img_n := c\<rparr>))) (\<lambda>_.
       sbind (sfold (\<lambda>i _. upd_comp (int i) (\<lambda>c. c\<lparr>comp_data := None, linebuf := None\<rparr>)) [0..<nat c] ()) (\<lambda>_.
       if Lf \<noteq> 8 + 3 * c then sfail (Failure ''bad SOF len'') else sret c)))))))))"

text \<open>The geometry of component \<open>i\<close> and the memory for its samples and coefficients.\<close>

definition alloc_component :: "int \<Rightarrow> int \<Rightarrow> nat \<Rightarrow> ('u stbi__jpeg, unit) step" where
  "alloc_component h_max v_max i =
     sbind (sget id) (\<lambda>z.
     sbind (upd_comp (int i) (\<lambda>c. c\<lparr>
        comp_x := (uint (img_x (jpeg_s z)) * comp_h c + h_max - 1) div h_max,
        comp_y := (uint (img_y (jpeg_s z)) * comp_v c + v_max - 1) div v_max,
        comp_w2 := img_mcu_x z * comp_h c * 8, comp_h2 := img_mcu_y z * comp_v c * 8,
        comp_coeff := None, linebuf := None\<rparr>)) (\<lambda>_.
     sbind (jcomp (int i)) (\<lambda>c.
     case stbi__malloc_mad2 (comp_w2 c) (comp_h2 c) 15 of
       None \<Rightarrow> sbind (stbi__free_jpeg_components (i + 1)) (\<lambda>_. sfail (Failure ''outofmem''))
     | Some _ \<Rightarrow>
         sbind (upd_comp (int i) (\<lambda>c. c\<lparr>comp_data := Some (replicate (nat (comp_w2 c * comp_h2 c)) 0)\<rparr>)) (\<lambda>_.
         if progressive z then
           sbind (upd_comp (int i) (\<lambda>c. c\<lparr>coeff_w := comp_w2 c div 8, coeff_h := comp_h2 c div 8\<rparr>)) (\<lambda>_.
           case stbi__malloc_mad3 (comp_w2 c) (comp_h2 c) 2 15 of
             None \<Rightarrow> sbind (stbi__free_jpeg_components (i + 1)) (\<lambda>_. sfail (Failure ''outofmem''))
           | Some _ \<Rightarrow> upd_comp (int i) (\<lambda>c. c\<lparr>comp_coeff := Some (replicate (nat (comp_w2 c * comp_h2 c)) 0)\<rparr>))
         else sret ()))))"

definition frame_sampling :: "'u stbi__jpeg \<Rightarrow> int \<times> int" where
  "frame_sampling z =
     fold (\<lambda>c (h, v). (max h (comp_h c), max v (comp_v c))) (take (nat (img_n (jpeg_s z))) (img_comp z)) (1, 1)"

definition check_sampling :: "int \<Rightarrow> int \<Rightarrow> stbi__jpeg_comp \<Rightarrow> unit res" where
  "check_sampling h_max v_max c =
     (if comp_h c = 0 \<or> comp_v c = 0 then Inl Undefined
      else if h_max mod comp_h c \<noteq> 0 then Inl (Failure ''bad H'')
      else if v_max mod comp_v c \<noteq> 0 then Inl (Failure ''bad V'')
      else Inr ())"

definition frame_layout :: "int \<Rightarrow> ('u stbi__jpeg, unit) step" where
  "frame_layout n =
     sbind (sget id) (\<lambda>z.
     let s = jpeg_s z; (h_max, v_max) = frame_sampling z in
     if \<not> stbi__mad3sizes_valid (uint (img_x s)) (uint (img_y s)) n 0 then sfail (Failure ''too large'')
     else
       sbind (slift (efold (\<lambda>c _. check_sampling h_max v_max c) (take (nat n) (img_comp z)) ())) (\<lambda>_.
       sbind (smodify (\<lambda>j. j\<lparr>img_h_max := h_max, img_v_max := v_max, img_mcu_w := h_max * 8, img_mcu_h := v_max * 8,
          img_mcu_x := (uint (img_x s) + h_max * 8 - 1) div (h_max * 8),
          img_mcu_y := (uint (img_y s) + v_max * 8 - 1) div (v_max * 8)\<rparr>)) (\<lambda>_.
       sfold (\<lambda>i _. alloc_component h_max v_max i) [0..<nat n] ())))"

definition stbi__process_frame_header :: "stbi__scan \<Rightarrow> ('u stbi__jpeg, unit) step" where
  "stbi__process_frame_header scan =
     sbind frame_size (\<lambda>n.
     sbind (smodify (\<lambda>j. j\<lparr>jrgb := 0\<rparr>)) (\<lambda>_.
     sbind (sfold (\<lambda>i _. frame_component n i) [0..<nat n] ()) (\<lambda>_.
     if scan \<noteq> STBI__SCAN_load then sret () else frame_layout n)))"

section \<open>The file\<close>

definition stbi__SOF :: "stbi_uc \<Rightarrow> bool" where
  "stbi__SOF x \<longleftrightarrow> x = 0xc0 \<or> x = 0xc1 \<or> x = 0xc2"

text \<open>\<open>while (m == STBI__MARKER_none)\<close>: skip padding up to the next marker.\<close>

fun skip_padding :: "nat \<Rightarrow> stbi_uc \<Rightarrow> ('u stbi__jpeg, stbi_uc) step" where
  "skip_padding 0 m = sfail NoReturn"
| "skip_padding (Suc n) m =
     (if m = STBI__MARKER_none then
        sbind (sget (\<lambda>j. stbi__at_eof (jpeg_s j))) (\<lambda>eof.
        if eof then sfail (Failure ''no SOF'')
        else sbind stbi__get_marker (skip_padding n))
      else sret m)"

fun find_SOF :: "nat \<Rightarrow> stbi_uc \<Rightarrow> ('u stbi__jpeg, stbi_uc) step" where
  "find_SOF 0 m = sfail NoReturn"
| "find_SOF (Suc n) m =
     (if stbi__SOF m then sret m
      else
        sbind (stbi__process_marker m) (\<lambda>_.
        sbind stbi__get_marker (\<lambda>m.
        sbind (sget scan_fuel) (\<lambda>fuel.
        sbind (skip_padding fuel m) (find_SOF n)))))"

definition stbi__decode_jpeg_header :: "stbi__scan \<Rightarrow> ('u stbi__jpeg, unit) step" where
  "stbi__decode_jpeg_header scan =
     sbind (smodify (\<lambda>j. j\<lparr>jfif := False, app14_color_transform := -1, jmarker := STBI__MARKER_none\<rparr>)) (\<lambda>_.
     sbind stbi__get_marker (\<lambda>m.
     if m \<noteq> 0xd8 then sfail (Failure ''no SOI'')
     else if scan = STBI__SCAN_type then sret ()
     else
       sbind stbi__get_marker (\<lambda>m.
       sbind (sget scan_fuel) (\<lambda>fuel.
       sbind (find_SOF fuel m) (\<lambda>m.
       sbind (smodify (\<lambda>j. j\<lparr>progressive := (m = 0xc2)\<rparr>)) (\<lambda>_.
       stbi__process_frame_header scan))))))"

text \<open>The two loops of \<open>stbi__skip_jpeg_junk_at_end\<close>: \<open>lead\<close> says that the last byte was \<open>0xff\<close>.\<close>

fun skip_junk :: "nat \<Rightarrow> bool \<Rightarrow> ('u stbi__context, stbi_uc) step" where
  "skip_junk 0 lead = sfail NoReturn"
| "skip_junk (Suc n) lead =
     sbind (sget stbi__at_eof) (\<lambda>eof.
     if eof then sret STBI__MARKER_none
     else
       sbind (stot stbi__get8) (\<lambda>x.
       if lead \<and> x \<noteq> 0 \<and> x \<noteq> 0xff then sret x
       else skip_junk n (x = 0xff)))"

definition stbi__skip_jpeg_junk_at_end :: "('u stbi__jpeg, stbi_uc) step" where
  "stbi__skip_jpeg_junk_at_end = sbind (sget scan_fuel) (\<lambda>fuel. jctx (skip_junk fuel False))"

definition jpeg_SOS :: "('u stbi__jpeg, stbi_uc) step" where
  "jpeg_SOS =
     sbind stbi__process_scan_header (\<lambda>_.
     sbind stbi__parse_entropy_coded_data (\<lambda>_.
     sbind (sget jmarker) (\<lambda>m.
     sbind (swhen (m = STBI__MARKER_none)
       (sbind stbi__skip_jpeg_junk_at_end (\<lambda>x. smodify (\<lambda>j. j\<lparr>jmarker := x\<rparr>)))) (\<lambda>_.
     sbind stbi__get_marker (\<lambda>m.
     if STBI__RESTART m then stbi__get_marker else sret m)))))"

definition jpeg_DNL :: "('u stbi__jpeg, stbi_uc) step" where
  "jpeg_DNL =
     sbind jget16be (\<lambda>Ld.
     sbind jget16be (\<lambda>NL.
     sbind (sget (\<lambda>j. uint (img_y (jpeg_s j)))) (\<lambda>y.
     if Ld \<noteq> 4 then sfail (Failure ''bad DNL len'')
     else if NL \<noteq> y then sfail (Failure ''bad DNL height'')
     else stbi__get_marker)))"

text \<open>The loop over the segments after the frame header. A segment that cannot be processed ends
  it with success (\<open>return 1\<close>), without the final pass of a progressive image; the result says
  whether the loop came to the end of the image.\<close>

fun image_loop :: "nat \<Rightarrow> stbi_uc \<Rightarrow> ('u stbi__jpeg, bool) step" where
  "image_loop 0 m = sfail NoReturn"
| "image_loop (Suc n) m =
     (if m = 0xd9 then sret True
      else if m = 0xda then sbind jpeg_SOS (image_loop n)
      else if m = 0xdc then sbind jpeg_DNL (image_loop n)
      else
        sbind (stry (stbi__process_marker m)) (\<lambda>ok.
        if \<not> ok then sret False
        else sbind stbi__get_marker (image_loop n)))"

definition stbi__decode_jpeg_image :: "('u stbi__jpeg, unit) step" where
  "stbi__decode_jpeg_image =
     sbind (smodify (\<lambda>j. j\<lparr>img_comp := map (\<lambda>c. c\<lparr>comp_data := None, comp_coeff := None\<rparr>) (img_comp j),
                          restart_interval := 0\<rparr>)) (\<lambda>_.
     sbind (stbi__decode_jpeg_header STBI__SCAN_load) (\<lambda>_.
     sbind stbi__get_marker (\<lambda>m.
     sbind (sget scan_fuel) (\<lambda>fuel.
     sbind (image_loop fuel m) (\<lambda>done.
     if done then stbi__jpeg_finish else sret ())))))"

end
