(* ===== verification/Stbi_Jpeg_Output.thy ===== *)
theory Stbi_Jpeg_Output
  imports Stbi_Jpeg
begin

text \<open>
  From decoded planes to pixels (\<open>src/stb_image.h\<close>, lines 3449-3683 and 3820-4078): the row
  upsamplers, the conversion from YCbCr, \<open>load_jpeg_image\<close> and the entry points of the JPEG
  decoder. A pointer into a plane or line buffer is the list of bytes from there on.
\<close>

section \<open>Upsampling rows\<close>

definition stbi__div4 :: "int \<Rightarrow> stbi_uc" where
  "stbi__div4 x = STBI__BYTECAST (drop_bit 2 x)"

definition stbi__div16 :: "int \<Rightarrow> stbi_uc" where
  "stbi__div16 x = STBI__BYTECAST (drop_bit 4 x)"

definition rget :: "stbi_uc list \<Rightarrow> int \<Rightarrow> int res" where
  "rget xs i = ebind (arr_get xs i) (\<lambda>b. Inr (uint b))"

definition resample_row_1 :: "stbi_uc list \<Rightarrow> stbi_uc list \<Rightarrow> stbi_uc list \<Rightarrow> int \<Rightarrow> int \<Rightarrow> stbi_uc list res" where
  "resample_row_1 outp near far w hs = Inr near"

definition stbi__resample_row_v_2 ::
    "stbi_uc list \<Rightarrow> stbi_uc list \<Rightarrow> stbi_uc list \<Rightarrow> int \<Rightarrow> int \<Rightarrow> stbi_uc list res" where
  "stbi__resample_row_v_2 outp near far w hs =
     efold (\<lambda>i outp.
       ebind (rget near (int i)) (\<lambda>a. ebind (rget far (int i)) (\<lambda>b.
       arr_set outp (int i) (stbi__div4 (3 * a + b + 2))))) [0..<nat w] outp"

definition h_2_step :: "stbi_uc list \<Rightarrow> nat \<Rightarrow> stbi_uc list \<Rightarrow> stbi_uc list res" where
  "h_2_step input i outp =
     ebind (rget input (int i)) (\<lambda>m. ebind (rget input (int i - 1)) (\<lambda>l. ebind (rget input (int i + 1)) (\<lambda>r.
     let n = 3 * m + 2 in
     ebind (arr_set outp (int i * 2) (stbi__div4 (n + l))) (\<lambda>outp.
     arr_set outp (int i * 2 + 1) (stbi__div4 (n + r))))))"

definition stbi__resample_row_h_2 ::
    "stbi_uc list \<Rightarrow> stbi_uc list \<Rightarrow> stbi_uc list \<Rightarrow> int \<Rightarrow> int \<Rightarrow> stbi_uc list res" where
  "stbi__resample_row_h_2 outp near far w hs =
     ebind (rget near 0) (\<lambda>a.
     if w = 1 then ebind (arr_set outp 1 (STBI__BYTECAST a)) (\<lambda>outp. arr_set outp 0 (STBI__BYTECAST a))
     else
       ebind (rget near 1) (\<lambda>b.
       ebind (arr_set outp 0 (STBI__BYTECAST a)) (\<lambda>outp.
       ebind (arr_set outp 1 (stbi__div4 (a * 3 + b + 2))) (\<lambda>outp.
       ebind (efold (h_2_step near) [1..<nat (w - 1)] outp) (\<lambda>outp.
       let i = max 1 (w - 1) in
       ebind (rget near (w - 2)) (\<lambda>c. ebind (rget near (w - 1)) (\<lambda>d.
       ebind (arr_set outp (i * 2) (stbi__div4 (c * 3 + d + 2))) (\<lambda>outp.
       arr_set outp (i * 2 + 1) (STBI__BYTECAST d)))))))))"

definition hv_2_step ::
    "stbi_uc list \<Rightarrow> stbi_uc list \<Rightarrow> nat \<Rightarrow> int \<times> stbi_uc list \<Rightarrow> (int \<times> stbi_uc list) res" where
  "hv_2_step near far i st =
     (case st of (t0, outp) \<Rightarrow>
        ebind (rget near (int i)) (\<lambda>a. ebind (rget far (int i)) (\<lambda>b.
        let t1 = 3 * a + b in
        ebind (arr_set outp (int i * 2 - 1) (stbi__div16 (3 * t0 + t1 + 8))) (\<lambda>outp.
        ebind (arr_set outp (int i * 2) (stbi__div16 (3 * t1 + t0 + 8))) (\<lambda>outp.
        Inr (t1, outp))))))"

definition stbi__resample_row_hv_2 ::
    "stbi_uc list \<Rightarrow> stbi_uc list \<Rightarrow> stbi_uc list \<Rightarrow> int \<Rightarrow> int \<Rightarrow> stbi_uc list res" where
  "stbi__resample_row_hv_2 outp near far w hs =
     ebind (rget near 0) (\<lambda>a. ebind (rget far 0) (\<lambda>b.
     let t1 = 3 * a + b in
     if w = 1 then ebind (arr_set outp 1 (stbi__div4 (t1 + 2))) (\<lambda>outp. arr_set outp 0 (stbi__div4 (t1 + 2)))
     else
       ebind (arr_set outp 0 (stbi__div4 (t1 + 2))) (\<lambda>outp.
       ebind (efold (hv_2_step near far) [1..<nat w] (t1, outp)) (\<lambda>(t1, outp).
       arr_set outp (w * 2 - 1) (stbi__div4 (t1 + 2))))))"

definition stbi__resample_row_generic ::
    "stbi_uc list \<Rightarrow> stbi_uc list \<Rightarrow> stbi_uc list \<Rightarrow> int \<Rightarrow> int \<Rightarrow> stbi_uc list res" where
  "stbi__resample_row_generic outp near far w hs =
     efold (\<lambda>i outp. efold (\<lambda>j outp.
       ebind (arr_get near (int i)) (\<lambda>b. arr_set outp (int i * hs + int j) b)) [0..<nat hs] outp) [0..<nat w] outp"

datatype resample_row_func = Row_1 | Row_v_2 | Row_h_2 | Row_hv_2 | Row_generic

text \<open>A call through the function pointer: the line buffer afterwards, and the row that the result
  points to (the line buffer, or \<open>in_near\<close> itself).\<close>

definition call_resample ::
    "resample_row_func \<Rightarrow> stbi_uc list \<Rightarrow> stbi_uc list \<Rightarrow> stbi_uc list \<Rightarrow> int \<Rightarrow> int \<Rightarrow> (stbi_uc list \<times> stbi_uc list) res" where
  "call_resample f outp near far w hs =
     (if f = Row_1 then ebind (resample_row_1 outp near far w hs) (\<lambda>row. Inr (outp, row))
      else
        ebind ((case f of Row_v_2 \<Rightarrow> stbi__resample_row_v_2 | Row_h_2 \<Rightarrow> stbi__resample_row_h_2
                | Row_hv_2 \<Rightarrow> stbi__resample_row_hv_2 | _ \<Rightarrow> stbi__resample_row_generic) outp near far w hs) (\<lambda>outp.
        Inr (outp, outp)))"

record stbi__resample =
  resample :: resample_row_func
  line0 :: int
  line1 :: int
  hs :: int
  vs :: int
  w_lores :: int
  ystep :: int
  ypos :: int

section \<open>Colours\<close>

definition stbi__float2fixed :: "int \<Rightarrow> int" where
  "stbi__float2fixed n = (n * 4096 + 50000) div 100000 * 256"

definition ycc_clamp :: "int \<Rightarrow> int" where
  "ycc_clamp r = (if uint (u32cast r) > 255 then if r < 0 then 0 else 255 else r)"

text \<open>The masked product of \<open>g\<close> is unsigned, which makes the whole sum unsigned.\<close>

definition ycc_pixel :: "stbi_uc \<Rightarrow> stbi_uc \<Rightarrow> stbi_uc \<Rightarrow> stbi_uc list" where
  "ycc_pixel y pcb pcr =
     (let y_fixed = uint y * 2 ^ 20 + 2 ^ 19;
          cr = uint pcr - 128;
          cb = uint pcb - 128;
          r = y_fixed + cr * stbi__float2fixed 140200;
          g = int_of_u32 (u32cast (y_fixed + cr * - stbi__float2fixed 71414) +
                (u32cast (cb * - stbi__float2fixed 34414) AND 0xffff0000));
          b = y_fixed + cb * stbi__float2fixed 177200
      in map (\<lambda>v. STBI__BYTECAST (ycc_clamp (drop_bit 20 v))) [r, g, b] @ [255])"

text \<open>Stores \<open>out[0] = \<dots>; out[1] = \<dots>\<close> for each pixel of a row.\<close>

definition put_row ::
    "int \<Rightarrow> nat \<Rightarrow> nat \<Rightarrow> (nat \<Rightarrow> stbi_uc list \<Rightarrow> stbi_uc list res) \<Rightarrow> stbi_uc list \<Rightarrow> stbi_uc list res" where
  "put_row base step count px outp =
     efold (\<lambda>i outp. ebind (px i outp) (\<lambda>vals. store_from outp (base + int (i * step)) vals)) [0..<count] outp"

definition stbi__YCbCr_to_RGB_row ::
    "stbi_uc list \<Rightarrow> int \<Rightarrow> stbi_uc list \<Rightarrow> stbi_uc list \<Rightarrow> stbi_uc list \<Rightarrow> nat \<Rightarrow> nat \<Rightarrow> stbi_uc list res" where
  "stbi__YCbCr_to_RGB_row outp base y pcb pcr count step =
     put_row base step count (\<lambda>i _.
       ebind (arr_get y (int i)) (\<lambda>y. ebind (arr_get pcb (int i)) (\<lambda>cb. ebind (arr_get pcr (int i)) (\<lambda>cr.
       Inr (ycc_pixel y cb cr))))) outp"

definition stbi__blinn_8x8 :: "stbi_uc \<Rightarrow> stbi_uc \<Rightarrow> stbi_uc" where
  "stbi__blinn_8x8 x y = (let t = uint x * uint y + 128 in STBI__BYTECAST (drop_bit 8 (t + drop_bit 8 t)))"

section \<open>Loading an image\<close>

text \<open>\<open>coutput[k][i]\<close>\<close>

definition cget :: "stbi_uc list list \<Rightarrow> nat \<Rightarrow> nat \<Rightarrow> stbi_uc res" where
  "cget co k i = ebind (arr_get co (int k)) (\<lambda>row. arr_get row (int i))"

definition cmyk_rgb :: "stbi_uc list list \<Rightarrow> nat \<Rightarrow> stbi_uc list res" where
  "cmyk_rgb co i =
     ebind (cget co 3 i) (\<lambda>m. ebind (cget co 0 i) (\<lambda>a. ebind (cget co 1 i) (\<lambda>b. ebind (cget co 2 i) (\<lambda>c.
     Inr (map (\<lambda>v. stbi__blinn_8x8 v m) [a, b, c])))))"

definition ycc_row :: "stbi_uc list list \<Rightarrow> int \<Rightarrow> nat \<Rightarrow> nat \<Rightarrow> stbi_uc list \<Rightarrow> stbi_uc list res" where
  "ycc_row co base n x outp =
     ebind (arr_get co 0) (\<lambda>y. ebind (arr_get co 1) (\<lambda>cb. ebind (arr_get co 2) (\<lambda>cr.
     stbi__YCbCr_to_RGB_row outp base y cb cr x n)))"

text \<open>One row of the output: \<open>co\<close> are the upsampled rows of the components, \<open>base\<close> is the offset
  of the row in \<open>outp\<close>.\<close>

definition color_row ::
    "int \<Rightarrow> int \<Rightarrow> bool \<Rightarrow> nat \<Rightarrow> nat \<Rightarrow> stbi_uc list list \<Rightarrow> int \<Rightarrow> stbi_uc list \<Rightarrow> stbi_uc list res" where
  "color_row imgn app14 is_rgb n x co base outp =
     (if imgn = 3 then
        if is_rgb then
          put_row base n x (\<lambda>i _. ebind (cget co 0 i) (\<lambda>a. ebind (cget co 1 i) (\<lambda>b. ebind (cget co 2 i) (\<lambda>c.
            Inr [a, b, c, 255])))) outp
        else ycc_row co base n x outp
      else if imgn = 4 then
        if app14 = 0 then put_row base n x (\<lambda>i _. ebind (cmyk_rgb co i) (\<lambda>v. Inr (v @ [255]))) outp
        else if app14 = 2 then
          ebind (ycc_row co base n x outp) (\<lambda>outp.
          put_row base n x (\<lambda>i outp.
            ebind (cget co 3 i) (\<lambda>m.
            let o0 = base + int (i * n) in
            ebind (arr_get outp o0) (\<lambda>a. ebind (arr_get outp (o0 + 1)) (\<lambda>b. ebind (arr_get outp (o0 + 2)) (\<lambda>c.
            Inr (map (\<lambda>v. stbi__blinn_8x8 (255 - v) m) [a, b, c])))))) outp)
        else ycc_row co base n x outp
      else put_row base n x (\<lambda>i _. ebind (cget co 0 i) (\<lambda>y. Inr [y, y, y, 255])) outp)"

definition grey_row ::
    "int \<Rightarrow> int \<Rightarrow> bool \<Rightarrow> nat \<Rightarrow> nat \<Rightarrow> stbi_uc list list \<Rightarrow> int \<Rightarrow> stbi_uc list \<Rightarrow> stbi_uc list res" where
  "grey_row imgn app14 is_rgb n x co base outp =
     (if is_rgb then
        put_row base n x (\<lambda>i _. ebind (cget co 0 i) (\<lambda>a. ebind (cget co 1 i) (\<lambda>b. ebind (cget co 2 i) (\<lambda>c.
          Inr (if n = 1 then [stbi__compute_y (uint a) (uint b) (uint c)]
               else [stbi__compute_y (uint a) (uint b) (uint c), 255]))))) outp
      else if imgn = 4 \<and> app14 = 0 then
        put_row base n x (\<lambda>i _. ebind (cmyk_rgb co i) (\<lambda>v.
          Inr [stbi__compute_y (uint (v ! 0)) (uint (v ! 1)) (uint (v ! 2)), 255])) outp
      else if imgn = 4 \<and> app14 = 2 then
        put_row base n x (\<lambda>i _. ebind (cget co 0 i) (\<lambda>a. ebind (cget co 3 i) (\<lambda>m.
          Inr [stbi__blinn_8x8 (255 - a) m, 255]))) outp
      else put_row base n x (\<lambda>i _. ebind (cget co 0 i) (\<lambda>y. Inr (if n = 1 then [y] else [y, 255]))) outp)"

text \<open>The line buffer and the resampler of component \<open>k\<close>.\<close>

definition resample_setup :: "nat \<Rightarrow> ('u stbi__jpeg, stbi__resample) step" where
  "resample_setup k =
     sbind (sget id) (\<lambda>z.
     let x = uint (img_x (jpeg_s z)) in
     sbind (upd_comp (int k) (\<lambda>c. c\<lparr>linebuf := Some (replicate (nat (x + 3)) 0)\<rparr>)) (\<lambda>_.
     sbind (jcomp (int k)) (\<lambda>c.
     if comp_h c = 0 \<or> comp_v c = 0 then sfail Undefined
     else
       let h = img_h_max z div comp_h c; v = img_v_max z div comp_v c in
       if h = 0 then sfail Undefined
       else
         sret \<lparr>resample = (if h = 1 \<and> v = 1 then Row_1 else if h = 1 \<and> v = 2 then Row_v_2
                 else if h = 2 \<and> v = 1 then Row_h_2 else if h = 2 \<and> v = 2 then Row_hv_2 else Row_generic),
               line0 = 0, line1 = 0, hs = h, vs = v, w_lores = (x + h - 1) div h,
               ystep = drop_bit 1 v, ypos = 0\<rparr>)))"

text \<open>The next row of component \<open>k\<close>, and its resampler moved on.\<close>

definition resample_advance :: "stbi__jpeg_comp \<Rightarrow> stbi__resample \<Rightarrow> stbi__resample" where
  "resample_advance c r =
     (if ystep r + 1 \<ge> vs r
      then r\<lparr>ystep := 0, line0 := line1 r, ypos := ypos r + 1,
             line1 := (if ypos r + 1 < comp_y c then line1 r + comp_w2 c else line1 r)\<rparr>
      else r\<lparr>ystep := ystep r + 1\<rparr>)"

definition resample_next :: "nat \<Rightarrow> stbi__resample \<Rightarrow> ('u stbi__jpeg, stbi_uc list \<times> stbi__resample) step" where
  "resample_next k r =
     sbind (jcomp (int k)) (\<lambda>c.
     case (comp_data c, linebuf c) of
       (Some plane, Some lb) \<Rightarrow>
         let y_bot = (ystep r \<ge> drop_bit 1 (vs r));
             near = drop (nat (if y_bot then line1 r else line0 r)) plane;
             far = drop (nat (if y_bot then line0 r else line1 r)) plane
         in
         sbind (slift (call_resample (resample r) lb near far (w_lores r) (hs r))) (\<lambda>(lb, row).
         sbind (upd_comp (int k) (\<lambda>c. c\<lparr>linebuf := Some lb\<rparr>)) (\<lambda>_.
         sret (row, resample_advance c r)))
     | _ \<Rightarrow> sfail Undefined)"

definition output_row ::
    "bool \<Rightarrow> nat \<Rightarrow> nat \<Rightarrow> stbi__resample list \<times> stbi_uc list \<Rightarrow> ('u stbi__jpeg, stbi__resample list \<times> stbi_uc list) step" where
  "output_row is_rgb n j st =
     (case st of (rs, outp) \<Rightarrow>
        sbind (sfold (\<lambda>k (co, rs'). sbind (resample_next k (rs ! k)) (\<lambda>(row, r). sret (co @ [row], rs' @ [r])))
          [0..<length rs] ([], [])) (\<lambda>(co, rs).
        sbind (sget id) (\<lambda>z.
        let s = jpeg_s z; x = unat (img_x s); base = int (n * x * j) in
        sbind (slift ((if n \<ge> 3 then color_row else grey_row)
          (img_n s) (app14_color_transform z) is_rgb n x co base outp)) (\<lambda>outp.
        sret (rs, outp)))))"

definition stbi__cleanup_jpeg :: "('u stbi__jpeg, unit) step" where
  "stbi__cleanup_jpeg = sbind (sget (\<lambda>j. nat (img_n (jpeg_s j)))) stbi__free_jpeg_components"

definition load_jpeg_image :: "int \<Rightarrow> ('u stbi__jpeg, loaded) step" where
  "load_jpeg_image req_comp =
     sbind (jctx (smodify (\<lambda>s. s\<lparr>img_n := 0\<rparr>))) (\<lambda>_.
     if req_comp < 0 \<or> req_comp > 4 then sfail (Failure ''bad req_comp'')
     else
       sbind stbi__decode_jpeg_image (\<lambda>_.
       sbind (sget id) (\<lambda>z.
       let s = jpeg_s z;
           imgn = img_n s;
           n = (if req_comp \<noteq> 0 then req_comp else if imgn \<ge> 3 then 3 else 1);
           is_rgb = (imgn = 3 \<and> (jrgb z = 3 \<or> app14_color_transform z = 0 \<and> \<not> jfif z));
           decode_n = (if imgn = 3 \<and> n < 3 \<and> \<not> is_rgb then 1 else imgn)
       in
       if decode_n \<le> 0 then sfail Silent
       else
         sbind (sfold (\<lambda>k rs. sbind (resample_setup k) (\<lambda>r. sret (rs @ [r]))) [0..<nat decode_n] []) (\<lambda>rs.
         case stbi__malloc_mad3 n (uint (img_x s)) (uint (img_y s)) 1 of
           None \<Rightarrow> sfail (Failure ''outofmem'')
         | Some sz \<Rightarrow>
             sbind (sfold (output_row is_rgb (nat n)) [0..<unat (img_y s)] (rs, replicate sz 0)) (\<lambda>(_, outp).
             sbind stbi__cleanup_jpeg (\<lambda>_.
             sret \<lparr>ld_data = Pixels8 (take (nat n * unat (img_x s) * unat (img_y s)) outp),
                   ld_x = unat (img_x s), ld_y = unat (img_y s),
                   ld_comp = (if imgn \<ge> 3 then 3 else 1)\<rparr>))))))"

definition jpeg_run :: "nat \<Rightarrow> ('u stbi__jpeg, 'a) step \<Rightarrow> ('u stbi__context, 'a) step" where
  "jpeg_run fuel m s = (case m (jpeg_zero fuel s) of (r, z) \<Rightarrow> (r, jpeg_s z))"

definition stbi__jpeg_load :: "nat \<Rightarrow> int \<Rightarrow> ('u stbi__context, loaded) step" where
  "stbi__jpeg_load fuel req_comp = jpeg_run fuel (load_jpeg_image req_comp)"

definition stbi__jpeg_test :: "nat \<Rightarrow> 'u stbi__context \<Rightarrow> bool res \<times> 'u stbi__context" where
  "stbi__jpeg_test fuel =
     sbind (stry (jpeg_run fuel (stbi__decode_jpeg_header STBI__SCAN_type))) (\<lambda>r.
     sbind (smodify stbi__rewind) (\<lambda>_. sret r))"

definition stbi__jpeg_info_raw :: "('u stbi__jpeg, uint32 \<times> uint32 \<times> int) step" where
  "stbi__jpeg_info_raw z =
     (case stbi__decode_jpeg_header STBI__SCAN_header z of
        (Inl e, z) \<Rightarrow> (Inl e, z\<lparr>jpeg_s := stbi__rewind (jpeg_s z)\<rparr>)
      | (Inr _, z) \<Rightarrow>
          (Inr (img_x (jpeg_s z), img_y (jpeg_s z), if img_n (jpeg_s z) \<ge> 3 then 3 else 1), z))"

definition stbi__jpeg_info :: "nat \<Rightarrow> ('u stbi__context, uint32 \<times> uint32 \<times> int) step" where
  "stbi__jpeg_info fuel = jpeg_run fuel stbi__jpeg_info_raw"

end
