(* ===== verification/Stbi_Bmp.thy ===== *)
theory Stbi_Bmp
  imports Stbi_Png
begin

text \<open>
  The BMP decoder of \<open>src/stb_image.h\<close> (lines 5343-5732 and 7335-7355): the header in its five
  sizes, palettes, packed pixels described by colour masks, and the bottom-up row order. The
  palette entries that the file does not set are zero in the model (uninitialised in C).
\<close>

section \<open>Bit tricks\<close>

definition stbi__high_bit :: "uint32 \<Rightarrow> int" where
  "stbi__high_bit z =
     (if z = 0 then -1
      else
        let (n, z) = (if z \<ge> 0x10000 then (16, drop_bit 16 z) else (0, z));
            (n, z) = (if z \<ge> 0x100 then (n + 8, drop_bit 8 z) else (n, z));
            (n, z) = (if z \<ge> 0x10 then (n + 4, drop_bit 4 z) else (n, z));
            (n, z) = (if z \<ge> 4 then (n + 2, drop_bit 2 z) else (n, z))
        in if z \<ge> 2 then n + 1 else n)"

definition stbi__bitcount :: "uint32 \<Rightarrow> int" where
  "stbi__bitcount a =
     (let a = (a AND 0x55555555) + (drop_bit 1 a AND 0x55555555);
          a = (a AND 0x33333333) + (drop_bit 2 a AND 0x33333333);
          a = (a + drop_bit 4 a) AND 0x0f0f0f0f;
          a = a + drop_bit 8 a;
          a = a + drop_bit 16 a
      in uint (a AND 0xff))"

definition mul_table :: "int list" where
  "mul_table = [0, 0xff, 0x55, 0x49, 0x11, 0x21, 0x41, 0x81, 0x01]"

definition shift_table :: "nat list" where
  "shift_table = [0, 0, 0, 1, 0, 2, 4, 6, 0]"

text \<open>Extraction of a colour of \<open>bits\<close> bits, spread over the range of a byte. A shift by the width
  or more is undefined, as are the failures of the two assertions.\<close>

definition stbi__shiftsigned :: "uint32 \<Rightarrow> int \<Rightarrow> int \<Rightarrow> int res" where
  "stbi__shiftsigned v shift bits =
     (if shift \<le> -32 \<or> shift \<ge> 32 then Inl Undefined
      else
        let v = (if shift < 0 then push_bit (nat (- shift)) v else drop_bit (nat shift) v) in
        if \<not> v < 256 \<or> \<not> (0 \<le> bits \<and> bits \<le> 8) then Inl Undefined
        else
          let v = drop_bit (nat (8 - bits)) v in
          ebind (arr_get mul_table bits) (\<lambda>m.
          ebind (arr_get shift_table bits) (\<lambda>sh.
          Inr (drop_bit sh (int_of_u32 (v * word_of_int m))))))"

section \<open>The header\<close>

record stbi__bmp_data =
  bpp :: int
  bmp_offset :: int
  hsz :: int
  mr :: uint32
  mg :: uint32
  mb :: uint32
  ma :: uint32
  all_a :: uint32
  extra_read :: int

definition bmp_data_start :: stbi__bmp_data where
  "bmp_data_start = \<lparr>bpp = 0, bmp_offset = 0, hsz = 0, mr = 0, mg = 0, mb = 0, ma = 0, all_a = 255, extra_read = 14\<rparr>"

definition stbi__bmp_test_raw :: "('u stbi__context, bool) step" where
  "stbi__bmp_test_raw =
     sbind rd8 (\<lambda>b. if b \<noteq> 66 then sret False else
     sbind rd8 (\<lambda>m. if m \<noteq> 77 then sret False else
     sbind rd32le (\<lambda>_. sbind rd16le (\<lambda>_. sbind rd16le (\<lambda>_. sbind rd32le (\<lambda>_.
     sbind rd32le (\<lambda>sz. sret (sz = 12 \<or> sz = 40 \<or> sz = 56 \<or> sz = 108 \<or> sz = 124))))))))"

definition stbi__bmp_test :: "('u stbi__context, bool) step" where
  "stbi__bmp_test = sbind stbi__bmp_test_raw (\<lambda>r. sbind (smodify stbi__rewind) (\<lambda>_. sret r))"

text \<open>The callers either know that \<open>compress\<close> is 0 or drop the result of the function.\<close>

definition stbi__bmp_set_mask_defaults :: "stbi__bmp_data \<Rightarrow> int \<Rightarrow> stbi__bmp_data" where
  "stbi__bmp_set_mask_defaults info compress =
     (if compress = 3 then info
      else if compress = 0 then
        if bpp info = 16 then info\<lparr>mr := push_bit 10 31, mg := push_bit 5 31, mb := 31\<rparr>
        else if bpp info = 32 then
          info\<lparr>mr := push_bit 16 0xff, mg := push_bit 8 0xff, mb := 0xff, ma := push_bit 24 0xff, all_a := 0\<rparr>
        else info\<lparr>mr := 0, mg := 0, mb := 0, ma := 0\<rparr>
      else info)"

definition bmp_masks40 :: "stbi__bmp_data \<Rightarrow> int \<Rightarrow> ('u stbi__context, stbi__bmp_data) step" where
  "bmp_masks40 info compress =
     sbind (if hsz info = 56 then discard 4 rd32le else sret ()) (\<lambda>_.
     if bpp info = 16 \<or> bpp info = 32 then
       if compress = 0 then sret (stbi__bmp_set_mask_defaults info compress)
       else if compress = 3 then
         sbind rd32le (\<lambda>r. sbind rd32le (\<lambda>g. sbind rd32le (\<lambda>b.
         if r = g \<and> g = b then sfail (Failure ''bad BMP'')
         else sret (info\<lparr>mr := r, mg := g, mb := b, extra_read := extra_read info + 12\<rparr>))))
       else sfail (Failure ''bad BMP'')
     else sret info)"

definition bmp_masks108 :: "stbi__bmp_data \<Rightarrow> int \<Rightarrow> ('u stbi__context, stbi__bmp_data) step" where
  "bmp_masks108 info compress =
     sbind rd32le (\<lambda>r. sbind rd32le (\<lambda>g. sbind rd32le (\<lambda>b. sbind rd32le (\<lambda>a.
     let info = info\<lparr>mr := r, mg := g, mb := b, ma := a\<rparr>;
         info = (if compress \<noteq> 3 then stbi__bmp_set_mask_defaults info compress else info)
     in
     sbind (discard 13 rd32le) (\<lambda>_.
     sbind (if hsz info = 124 then discard 4 rd32le else sret ()) (\<lambda>_.
     sret info))))))"

definition bmp_compression :: "stbi__bmp_data \<Rightarrow> ('u stbi__context, stbi__bmp_data) step" where
  "bmp_compression info =
     sbind rd32le (\<lambda>c.
     let compress = int_of_u32 c in
     if compress = 1 \<or> compress = 2 then sfail (Failure ''BMP RLE'')
     else if compress \<ge> 4 then sfail (Failure ''BMP JPEG/PNG'')
     else if compress = 3 \<and> bpp info \<noteq> 16 \<and> bpp info \<noteq> 32 then sfail (Failure ''bad BMP'')
     else
       sbind (discard 5 rd32le) (\<lambda>_.
       if hsz info = 40 \<or> hsz info = 56 then bmp_masks40 info compress else bmp_masks108 info compress))"

definition stbi__bmp_parse_header :: "('u stbi__context, stbi__bmp_data) step" where
  "stbi__bmp_parse_header =
     sbind rd8 (\<lambda>b. if b \<noteq> 66 then sfail (Failure ''not BMP'') else
     sbind rd8 (\<lambda>m. if m \<noteq> 77 then sfail (Failure ''not BMP'') else
     sbind rd32le (\<lambda>_. sbind rd16le (\<lambda>_. sbind rd16le (\<lambda>_.
     sbind rd32le (\<lambda>off. sbind rd32le (\<lambda>h.
     let info = bmp_data_start\<lparr>bmp_offset := int_of_u32 off, hsz := int_of_u32 h\<rparr> in
     if bmp_offset info < 0 then sfail (Failure ''bad BMP'')
     else if hsz info \<noteq> 12 \<and> hsz info \<noteq> 40 \<and> hsz info \<noteq> 56 \<and> hsz info \<noteq> 108 \<and> hsz info \<noteq> 124
     then sfail (Failure ''unknown BMP'')
     else
       sbind (if hsz info = 12 then sbind rd16le (\<lambda>v. sret (u32cast v)) else rd32le) (\<lambda>x.
       sbind (smodify (\<lambda>s. s\<lparr>img_x := x\<rparr>)) (\<lambda>_.
       sbind (if hsz info = 12 then sbind rd16le (\<lambda>v. sret (u32cast v)) else rd32le) (\<lambda>y.
       sbind (smodify (\<lambda>s. s\<lparr>img_y := y\<rparr>)) (\<lambda>_.
       sbind rd16le (\<lambda>planes.
       if planes \<noteq> 1 then sfail (Failure ''bad BMP'')
       else
         sbind rd16le (\<lambda>b.
         let info = info\<lparr>bpp := b\<rparr> in
         if hsz info \<noteq> 12 then bmp_compression info else sret info)))))))))))))"

section \<open>Pixels\<close>

text \<open>\<open>out[z++] = v\<close> for each of \<open>vals\<close>.\<close>

definition put_seq :: "stbi_uc list \<Rightarrow> nat \<times> stbi_uc list \<Rightarrow> (nat \<times> stbi_uc list) res" where
  "put_seq vals st = (case st of (z, pix) \<Rightarrow>
     ebind (store_from pix (int z) vals) (\<lambda>pix. Inr (z + length vals, pix)))"

definition bmp_palette :: "stbi__bmp_data \<Rightarrow> int \<Rightarrow> ('u stbi__context, stbi_uc list list) step" where
  "bmp_palette info psize =
     sfold (\<lambda>i pal.
       sbind rd8 (\<lambda>b. sbind rd8 (\<lambda>g. sbind rd8 (\<lambda>r.
       sbind (if hsz info \<noteq> 12 then rd8 else sret 0) (\<lambda>_.
       slift (arr_set pal (int i) [r, g, b, 255]))))))
       [0..<nat psize] (replicate 256 [0, 0, 0, 0])"

definition pal_pixel :: "stbi_uc list list \<Rightarrow> int \<Rightarrow> int \<Rightarrow> nat \<times> stbi_uc list \<Rightarrow> (nat \<times> stbi_uc list) res" where
  "pal_pixel pal target v st =
     ebind (arr_get pal v) (\<lambda>p. put_seq (take 3 p @ (if target = 4 then [255] else [])) st)"

text \<open>One pixel of a 1-bit row: \<open>v\<close> is the byte being consumed, \<open>bit_offset\<close> the position in it.\<close>

definition bmp_bit_step ::
    "stbi_uc list list \<Rightarrow> int \<Rightarrow> nat \<Rightarrow> nat \<Rightarrow> nat \<times> int \<times> nat \<times> stbi_uc list \<Rightarrow>
     ('u stbi__context, nat \<times> int \<times> nat \<times> stbi_uc list) step" where
  "bmp_bit_step pal target x i st =
     (case st of (bit_offset, v, zo) \<Rightarrow>
        sbind (slift (pal_pixel pal target (drop_bit bit_offset v AND 1) zo)) (\<lambda>zo.
        if i + 1 = x then sret (bit_offset, v, zo)
        else if bit_offset = 0 then sbind rd8 (\<lambda>v. sret (7, uint v, zo))
        else sret (bit_offset - 1, v, zo)))"

definition bmp_row1 ::
    "stbi_uc list list \<Rightarrow> int \<Rightarrow> nat \<Rightarrow> nat \<times> stbi_uc list \<Rightarrow> ('u stbi__context, nat \<times> stbi_uc list) step" where
  "bmp_row1 pal target x zo =
     sbind rd8 (\<lambda>v.
     sbind (sfold (bmp_bit_step pal target x) [0..<x] (7, uint v, zo)) (\<lambda>(_, _, zo). sret zo))"

text \<open>Two pixels of a 4- or 8-bit row, or one at its end.\<close>

definition bmp_pair_step ::
    "stbi__bmp_data \<Rightarrow> stbi_uc list list \<Rightarrow> int \<Rightarrow> nat \<Rightarrow> nat \<Rightarrow> nat \<times> stbi_uc list \<Rightarrow>
     ('u stbi__context, nat \<times> stbi_uc list) step" where
  "bmp_pair_step info pal target x k zo =
     sbind rd8 (\<lambda>b.
     let (v, v2) = (if bpp info = 4 then (drop_bit 4 (uint b), uint b AND 15) else (uint b, 0)) in
     sbind (slift (pal_pixel pal target v zo)) (\<lambda>zo.
     if 2 * k + 1 = x then sret zo
     else
       sbind (if bpp info = 8 then sbind rd8 (\<lambda>b. sret (uint b)) else sret v2) (\<lambda>v.
       slift (pal_pixel pal target v zo))))"

definition bmp_row48 ::
    "stbi__bmp_data \<Rightarrow> stbi_uc list list \<Rightarrow> int \<Rightarrow> nat \<Rightarrow> nat \<times> stbi_uc list \<Rightarrow>
     ('u stbi__context, nat \<times> stbi_uc list) step" where
  "bmp_row48 info pal target x zo = sfold (bmp_pair_step info pal target x) [0..<(x + 1) div 2] zo"

text \<open>The rows of the image, each followed by its padding \<open>(-width) & 3\<close>.\<close>

definition bmp_pad :: "int \<Rightarrow> int" where
  "bmp_pad width = (- width) AND 3"

definition bmp_indexed :: "stbi__bmp_data \<Rightarrow> int \<Rightarrow> int \<Rightarrow> nat \<Rightarrow> nat \<Rightarrow> stbi_uc list \<Rightarrow> ('u stbi__context, stbi_uc list) step" where
  "bmp_indexed info psize target x y pix =
     (if psize = 0 \<or> psize > 256 then sfail (Failure ''invalid'')
      else
        sbind (bmp_palette info psize) (\<lambda>pal.
        sbind (skip_bytes (bmp_offset info - extra_read info - hsz info - psize * (if hsz info = 12 then 3 else 4))) (\<lambda>_.
        if bpp info \<noteq> 1 \<and> bpp info \<noteq> 4 \<and> bpp info \<noteq> 8 then sfail (Failure ''bad bpp'')
        else
          let width = (if bpp info = 1 then (x + 7) div 8 else if bpp info = 4 then (x + 1) div 2 else x);
              row = (if bpp info = 1 then bmp_row1 pal target x else bmp_row48 info pal target x)
          in
          sbind (sfold (\<lambda>_ zo. sbind (row zo) (\<lambda>zo. sbind (skip_bytes (bmp_pad (int width))) (\<lambda>_. sret zo)))
            [0..<y] (0, pix)) (\<lambda>(_, pix). sret pix))))"

text \<open>\<open>easy\<close> formats: 24 bits, or 32 bits in the usual layout.\<close>

definition bmp_easy_step ::
    "int \<Rightarrow> int \<Rightarrow> nat \<Rightarrow> uint32 \<times> nat \<times> stbi_uc list \<Rightarrow> ('u stbi__context, uint32 \<times> nat \<times> stbi_uc list) step" where
  "bmp_easy_step easy target i st =
     (case st of (aa, zo) \<Rightarrow>
        sbind rd8 (\<lambda>b. sbind rd8 (\<lambda>g. sbind rd8 (\<lambda>r.
        sbind (if easy = 2 then rd8 else sret 255) (\<lambda>a.
        sbind (slift (put_seq ([r, g, b] @ (if target = 4 then [a] else [])) zo)) (\<lambda>zo.
        sret (aa OR ucast a, zo)))))))"

record bmp_shifts =
  sh_r :: "int \<times> int"
  sh_g :: "int \<times> int"
  sh_b :: "int \<times> int"
  sh_a :: "int \<times> int"

definition bmp_shift :: "uint32 \<Rightarrow> int \<times> int" where
  "bmp_shift m = (stbi__high_bit m - 7, stbi__bitcount m)"

definition bmp_color :: "uint32 \<Rightarrow> uint32 \<Rightarrow> int \<times> int \<Rightarrow> int res" where
  "bmp_color v m sc = stbi__shiftsigned (v AND m) (fst sc) (snd sc)"

definition bmp_mask_step ::
    "stbi__bmp_data \<Rightarrow> bmp_shifts \<Rightarrow> int \<Rightarrow> nat \<Rightarrow> uint32 \<times> nat \<times> stbi_uc list \<Rightarrow>
     ('u stbi__context, uint32 \<times> nat \<times> stbi_uc list) step" where
  "bmp_mask_step info sh target i st =
     (case st of (aa, zo) \<Rightarrow>
        sbind (if bpp info = 16 then sbind rd16le (\<lambda>v. sret (u32cast v)) else rd32le) (\<lambda>v.
        sbind (slift (bmp_color v (mr info) (sh_r sh))) (\<lambda>r.
        sbind (slift (bmp_color v (mg info) (sh_g sh))) (\<lambda>g.
        sbind (slift (bmp_color v (mb info) (sh_b sh))) (\<lambda>b.
        sbind (if ma info \<noteq> 0 then slift (bmp_color v (ma info) (sh_a sh)) else sret 255) (\<lambda>a.
        sbind (slift (put_seq (map STBI__BYTECAST ([r, g, b] @ (if target = 4 then [a] else []))) zo)) (\<lambda>zo.
        sret (aa OR u32cast a, zo))))))))"

definition bmp_direct ::
    "stbi__bmp_data \<Rightarrow> int \<Rightarrow> nat \<Rightarrow> nat \<Rightarrow> stbi_uc list \<Rightarrow> ('u stbi__context, uint32 \<times> stbi_uc list) step" where
  "bmp_direct info target x y pix =
     sbind (skip_bytes (bmp_offset info - extra_read info - hsz info)) (\<lambda>_.
     let width = (if bpp info = 24 then 3 * x else if bpp info = 16 then 2 * x else 0);
         easy = (if bpp info = 24 then 1
                 else if bpp info = 32 \<and> mb info = 0xff \<and> mg info = 0xff00 \<and> mr info = 0x00ff0000 \<and> ma info = 0xff000000
                 then 2 else 0);
         sh = \<lparr>sh_r = bmp_shift (mr info), sh_g = bmp_shift (mg info), sh_b = bmp_shift (mb info), sh_a = bmp_shift (ma info)\<rparr>
     in
     if easy = 0 \<and> (mr info = 0 \<or> mg info = 0 \<or> mb info = 0) then sfail (Failure ''bad masks'')
     else if easy = 0 \<and> (snd (sh_r sh) > 8 \<or> snd (sh_g sh) > 8 \<or> snd (sh_b sh) > 8 \<or> snd (sh_a sh) > 8)
     then sfail (Failure ''bad masks'')
     else
       sbind (sfold (\<lambda>_ st.
         sbind (sfold (if easy \<noteq> 0 then bmp_easy_step easy target else bmp_mask_step info sh target) [0..<x] st) (\<lambda>st.
         sbind (skip_bytes (bmp_pad (int width))) (\<lambda>_. sret st))) [0..<y] (all_a info, 0, pix)) (\<lambda>(aa, _, pix).
       sret (aa, pix)))"

section \<open>Loading\<close>

text \<open>The size of the palette that the header leaves room for.\<close>

definition bmp_psize :: "stbi__bmp_data \<Rightarrow> int" where
  "bmp_psize info =
     (if hsz info = 12 then if bpp info < 24 then (bmp_offset info - extra_read info - 24) sdiv 3 else 0
      else if bpp info < 16 then drop_bit 2 (bmp_offset info - extra_read info - hsz info) else 0)"

definition bmp_goto_pixels :: "stbi__bmp_data \<Rightarrow> ('u stbi__context, unit) step" where
  "bmp_goto_pixels info =
     sbind (sget (\<lambda>s. callback_already_read s + (int (img_buffer s) - int (img_buffer_original s)))) (\<lambda>n.
     if n \<le> 0 \<or> n > 1024 then sfail (Failure ''bad header'')
     else if bmp_offset info < n \<or> bmp_offset info - n > 1024 then sfail (Failure ''bad offset'')
     else skip_bytes (bmp_offset info - n))"

text \<open>Every fourth byte, from the last one down, becomes 255.\<close>

definition opaque :: "nat \<Rightarrow> stbi_uc list \<Rightarrow> stbi_uc list res" where
  "opaque n pix = efold (\<lambda>k pix. arr_set pix (int (4 * k + 3)) 255) (rev [0..<n]) pix"

definition flip_rows :: "nat \<Rightarrow> nat \<Rightarrow> stbi_uc list \<Rightarrow> stbi_uc list res" where
  "flip_rows row y pix = efold (\<lambda>j pix. swap_elems (j * row) ((y - 1 - j) * row) row pix) [0..<y div 2] pix"

definition bmp_components :: "stbi__bmp_data \<Rightarrow> int" where
  "bmp_components info = (if bpp info = 24 \<and> ma info = 0xff000000 then 3 else if ma info \<noteq> 0 then 4 else 3)"

definition bmp_finish :: "int \<Rightarrow> int \<Rightarrow> bool \<Rightarrow> uint32 \<Rightarrow> stbi_uc list \<Rightarrow> ('u stbi__context, loaded) step" where
  "bmp_finish target req_comp flip aa pix =
     sbind (sget id) (\<lambda>s.
     let x = unat (img_x s); y = unat (img_y s) in
     sbind (slift (if target = 4 \<and> aa = 0 then opaque (x * y) pix else Inr pix)) (\<lambda>pix.
     sbind (slift (if flip then flip_rows (x * nat target) y pix else Inr pix)) (\<lambda>pix.
     sbind (slift (if req_comp \<noteq> 0 \<and> req_comp \<noteq> target
                   then stbi__convert_format pix target req_comp (img_x s) (img_y s) else Inr pix)) (\<lambda>pix.
     sret \<lparr>ld_data = Pixels8 pix, ld_x = x, ld_y = y, ld_comp = img_n s\<rparr>))))"

text \<open>\<open>abs\<close> of the least \<open>int\<close> is undefined.\<close>

definition stbi__bmp_load :: "int \<Rightarrow> ('u stbi__context, loaded) step" where
  "stbi__bmp_load req_comp =
     sbind stbi__bmp_parse_header (\<lambda>info.
     sbind (sget (\<lambda>s. int_of_u32 (img_y s))) (\<lambda>h.
     if h = INT_MIN then sfail Undefined
     else
       sbind (smodify (\<lambda>s. s\<lparr>img_y := u32cast (abs h)\<rparr>)) (\<lambda>_.
       sbind (sget id) (\<lambda>s.
       if unat (img_y s) > STBI_MAX_DIMENSIONS then sfail (Failure ''too large'')
       else if unat (img_x s) > STBI_MAX_DIMENSIONS then sfail (Failure ''too large'')
       else
         let psize = bmp_psize info in
         sbind (if psize = 0 then bmp_goto_pixels info else sret ()) (\<lambda>_.
         sbind (smodify (\<lambda>s. s\<lparr>img_n := bmp_components info\<rparr>)) (\<lambda>_.
         let target = (if req_comp \<noteq> 0 \<and> req_comp \<ge> 3 then req_comp else bmp_components info) in
         case stbi__malloc_mad3 target (uint (img_x s)) (uint (img_y s)) 0 of
           None \<Rightarrow> sfail (Failure ''too large'')
         | Some sz \<Rightarrow>
             let x = unat (img_x s); y = unat (img_y s); pix = replicate sz 0 in
             sbind (if bpp info < 16
                    then sbind (bmp_indexed info psize target x y pix) (\<lambda>pix. sret (all_a info, pix))
                    else bmp_direct info target x y pix) (\<lambda>(aa, pix).
             bmp_finish target req_comp (h > 0) aa pix)))))))"

definition stbi__bmp_info :: "('u stbi__context, uint32 \<times> uint32 \<times> int) step" where
  "stbi__bmp_info s =
     (case stbi__bmp_parse_header s of
        (Inl e, s) \<Rightarrow> (Inl e, stbi__rewind s)
      | (Inr info, s) \<Rightarrow> (Inr (img_x s, img_y s, bmp_components info), s))"

end
