(* ===== verification/Stbi_Tga.thy ===== *)
theory Stbi_Tga
  imports Stbi_Bmp
begin

text \<open>
  The TGA decoder of \<open>src/stb_image.h\<close> (lines 5735-6074): true-colour, grey and colour-mapped
  images, raw or run-length encoded, stored in either vertical order.
\<close>

section \<open>The header\<close>

text \<open>\<open>stbi__tga_get_comp\<close> returns the number of components, 0 on error, and the flag \<open>is_rgb16\<close>.\<close>

definition stbi__tga_get_comp :: "int \<Rightarrow> bool \<Rightarrow> nat \<times> bool" where
  "stbi__tga_get_comp bits_per_pixel is_grey =
     (if bits_per_pixel = 8 then (1, False)
      else if bits_per_pixel = 16 \<and> is_grey then (2, False)
      else if bits_per_pixel = 16 \<or> bits_per_pixel = 15 then (3, True)
      else if bits_per_pixel = 24 then (3, False)
      else if bits_per_pixel = 32 then (4, False)
      else (0, False))"

text \<open>The part of the header before the size: the number of bits of a palette entry, 0 without a
  palette.\<close>

definition tga_colormap :: "('u stbi__context, int \<times> int) step" where
  "tga_colormap =
     sbind rd8i (\<lambda>_. sbind rd8i (\<lambda>ctype.
     if ctype > 1 then sfail Silent
     else sbind rd8i (\<lambda>itype.
     if ctype = 1 then
       if itype \<noteq> 1 \<and> itype \<noteq> 9 then sfail Silent
       else
         sbind (skip_bytes 4) (\<lambda>_. sbind rd8i (\<lambda>sz.
         if sz \<notin> {8, 15, 16, 24, 32} then sfail Silent
         else sbind (skip_bytes 4) (\<lambda>_. sret (itype, sz))))
     else if itype \<notin> {2, 3, 10, 11} then sfail Silent
     else sbind (skip_bytes 9) (\<lambda>_. sret (itype, 0)))))"

definition tga_info_body :: "('u stbi__context, int \<times> int \<times> int) step" where
  "tga_info_body =
     sbind tga_colormap (\<lambda>(itype, cbpp).
     sbind rd16le (\<lambda>w. if w < 1 then sfail Silent else
     sbind rd16le (\<lambda>h. if h < 1 then sfail Silent else
     sbind rd8i (\<lambda>bits. sbind rd8i (\<lambda>_.
     if cbpp \<noteq> 0 \<and> bits \<noteq> 8 \<and> bits \<noteq> 16 then sfail Silent
     else
       let c = fst (if cbpp \<noteq> 0 then stbi__tga_get_comp cbpp False
                    else stbi__tga_get_comp bits (itype = 3 \<or> itype = 11))
       in if c = 0 then sfail Silent else sret (w, h, int c))))))"

definition stbi__tga_info :: "('u stbi__context, int \<times> int \<times> int) step" where
  "stbi__tga_info s =
     (case tga_info_body s of (Inl e, s) \<Rightarrow> (Inl e, stbi__rewind s) | (Inr r, s) \<Rightarrow> (Inr r, s))"

definition tga_test_body :: "('u stbi__context, unit) step" where
  "tga_test_body =
     sbind tga_colormap (\<lambda>(itype, cbpp).
     sbind rd16le (\<lambda>w. if w < 1 then sfail Silent else
     sbind rd16le (\<lambda>h. if h < 1 then sfail Silent else
     sbind rd8i (\<lambda>sz.
     if cbpp \<noteq> 0 \<and> sz \<noteq> 8 \<and> sz \<noteq> 16 then sfail Silent
     else if sz \<notin> {8, 15, 16, 24, 32} then sfail Silent
     else sret ()))))"

definition stbi__tga_test :: "('u stbi__context, bool) step" where
  "stbi__tga_test = sbind (stry tga_test_body) (\<lambda>r. sbind (smodify stbi__rewind) (\<lambda>_. sret r))"

record tga_header =
  tga_offset :: int
  tga_indexed :: bool
  tga_image_type :: int
  tga_is_RLE :: bool
  tga_palette_start :: int
  tga_palette_len :: int
  tga_palette_bits :: int
  tga_width :: int
  tga_height :: int
  tga_bits_per_pixel :: int
  tga_inverted :: bool
  tga_comp :: nat
  tga_rgb16 :: bool

definition tga_read_header :: "('u stbi__context, tga_header) step" where
  "tga_read_header =
     sbind rd8i (\<lambda>offs. sbind rd8i (\<lambda>indexed. sbind rd8i (\<lambda>itype.
     sbind rd16le (\<lambda>pstart. sbind rd16le (\<lambda>plen. sbind rd8i (\<lambda>pbits.
     sbind rd16le (\<lambda>_. sbind rd16le (\<lambda>_.
     sbind rd16le (\<lambda>w. sbind rd16le (\<lambda>h. sbind rd8i (\<lambda>bits. sbind rd8i (\<lambda>inv.
     if h > int STBI_MAX_DIMENSIONS then sfail (Failure ''too large'')
     else if w > int STBI_MAX_DIMENSIONS then sfail (Failure ''too large'')
     else
       let rle = (itype \<ge> 8);
           itype = (if rle then itype - 8 else itype);
           (c, rgb16) = (if indexed \<noteq> 0 then stbi__tga_get_comp pbits False
                         else stbi__tga_get_comp bits (itype = 3))
       in
       if c = 0 then sfail (Failure ''bad format'')
       else
         sret \<lparr>tga_offset = offs, tga_indexed = (indexed \<noteq> 0), tga_image_type = itype, tga_is_RLE = rle,
               tga_palette_start = pstart, tga_palette_len = plen, tga_palette_bits = pbits,
               tga_width = w, tga_height = h, tga_bits_per_pixel = bits,
               tga_inverted = (1 - (drop_bit 5 inv AND 1) \<noteq> 0), tga_comp = c, tga_rgb16 = rgb16\<rparr>))))))))))))"

section \<open>Pixels\<close>

definition stbi__tga_read_rgb16 :: "('u stbi__context, stbi_uc list) step" where
  "stbi__tga_read_rgb16 =
     sbind rd16le (\<lambda>px.
     sret (map (\<lambda>c. STBI__BYTECAST (c * 255 div 31)) [drop_bit 10 px AND 31, drop_bit 5 px AND 31, px AND 31]))"

text \<open>The raw rows of an uncompressed true-colour image; what the file does not hold stays as it
  was.\<close>

definition tga_raw_row :: "tga_header \<Rightarrow> nat \<Rightarrow> stbi_uc list \<Rightarrow> ('u stbi__context, stbi_uc list) step" where
  "tga_raw_row h i pix =
     (let n = nat (tga_width h) * tga_comp h;
          row = (if tga_inverted h then nat (tga_height h) - i - 1 else i)
      in
      sbind (stot (\<lambda>s. getn_stored s n)) (\<lambda>bs. slift (store_from pix (int (row * n)) bs)))"

definition tga_palette :: "tga_header \<Rightarrow> ('u stbi__context, stbi_uc list) step" where
  "tga_palette h =
     (if tga_palette_len h = 0 then sfail (Failure ''bad palette'')
      else
        sbind (skip_bytes (tga_palette_start h)) (\<lambda>_.
        case stbi__malloc_mad2 (tga_palette_len h) (int (tga_comp h)) 0 of
          None \<Rightarrow> sfail (Failure ''outofmem'')
        | Some sz \<Rightarrow>
            if tga_rgb16 h then
              if tga_comp h \<noteq> 3 then sfail Undefined
              else
                sfold (\<lambda>i pal. sbind stbi__tga_read_rgb16 (\<lambda>px. slift (store_from pal (int (i * tga_comp h)) px)))
                  [0..<nat (tga_palette_len h)] (replicate sz 0)
            else
              sbind (stot (\<lambda>s. stbi__getn s (nat (tga_palette_len h) * tga_comp h))) (\<lambda>r.
              case r of None \<Rightarrow> sfail (Failure ''bad palette'') | Some bs \<Rightarrow> sret bs)))"

text \<open>The next pixel of the stream.\<close>

definition tga_read_pixel :: "tga_header \<Rightarrow> stbi_uc list \<Rightarrow> ('u stbi__context, stbi_uc list) step" where
  "tga_read_pixel h pal =
     (if tga_indexed h then
        sbind (if tga_bits_per_pixel h = 8 then rd8i else rd16le) (\<lambda>idx.
        let idx = (if idx \<ge> tga_palette_len h then 0 else idx) * int (tga_comp h) in
        sfold (\<lambda>j px. slift (ebind (arr_get pal (idx + int j)) (\<lambda>b. Inr (px @ [b])))) [0..<tga_comp h] [])
      else if tga_rgb16 h then
        if tga_comp h \<noteq> 3 then sfail Undefined else stbi__tga_read_rgb16
      else sfold (\<lambda>j px. sbind rd8 (\<lambda>b. sret (px @ [b]))) [0..<tga_comp h] [])"

text \<open>The state of the loop over the pixels: \<open>RLE_count\<close>, \<open>RLE_repeating\<close>, \<open>read_next_pixel\<close> and the
  first \<open>tga_comp\<close> bytes of \<open>raw_data\<close>.\<close>

record tga_rle =
  RLE_count :: int
  RLE_repeating :: bool
  read_next_pixel :: bool
  raw_data :: "stbi_uc list"

definition tga_next_packet :: "tga_header \<Rightarrow> tga_rle \<Rightarrow> ('u stbi__context, tga_rle) step" where
  "tga_next_packet h st =
     (if tga_is_RLE h then
        if RLE_count st = 0 then
          sbind rd8i (\<lambda>cmd.
          sret (st\<lparr>RLE_count := 1 + (cmd AND 127), RLE_repeating := (drop_bit 7 cmd \<noteq> 0), read_next_pixel := True\<rparr>))
        else if \<not> RLE_repeating st then sret (st\<lparr>read_next_pixel := True\<rparr>)
        else sret st
      else sret (st\<lparr>read_next_pixel := True\<rparr>))"

definition tga_pixel_step ::
    "tga_header \<Rightarrow> stbi_uc list \<Rightarrow> nat \<Rightarrow> tga_rle \<times> stbi_uc list \<Rightarrow> ('u stbi__context, tga_rle \<times> stbi_uc list) step" where
  "tga_pixel_step h pal i sp =
     (case sp of (st, pix) \<Rightarrow>
        sbind (tga_next_packet h st) (\<lambda>st.
        sbind (if read_next_pixel st
               then sbind (tga_read_pixel h pal) (\<lambda>px. sret (st\<lparr>raw_data := px, read_next_pixel := False\<rparr>))
               else sret st) (\<lambda>st.
        sbind (slift (store_from pix (int (i * tga_comp h)) (raw_data st))) (\<lambda>pix.
        sret (st\<lparr>RLE_count := RLE_count st - 1\<rparr>, pix)))))"

text \<open>The vertical flip, here over \<open>j * 2 < tga_height\<close>.\<close>

definition tga_flip :: "tga_header \<Rightarrow> stbi_uc list \<Rightarrow> stbi_uc list res" where
  "tga_flip h pix =
     (let row = nat (tga_width h) * tga_comp h; y = nat (tga_height h)
      in efold (\<lambda>j pix. swap_elems (j * row) ((y - 1 - j) * row) row pix) [0..<(y + 1) div 2] pix)"

definition tga_swap_rgb :: "tga_header \<Rightarrow> stbi_uc list \<Rightarrow> stbi_uc list res" where
  "tga_swap_rgb h pix =
     efold (\<lambda>i pix. swap_elems (i * tga_comp h) (i * tga_comp h + 2) 1 pix)
       [0..<nat (tga_width h) * nat (tga_height h)] pix"

definition tga_pixels :: "tga_header \<Rightarrow> stbi_uc list \<Rightarrow> ('u stbi__context, stbi_uc list) step" where
  "tga_pixels h pix =
     (if \<not> tga_indexed h \<and> \<not> tga_is_RLE h \<and> \<not> tga_rgb16 h
      then sfold (tga_raw_row h) [0..<nat (tga_height h)] pix
      else
        sbind (if tga_indexed h then tga_palette h else sret []) (\<lambda>pal.
        sbind (sfold (tga_pixel_step h pal) [0..<nat (tga_width h) * nat (tga_height h)]
          (\<lparr>RLE_count = 0, RLE_repeating = False, read_next_pixel = True, raw_data = replicate (tga_comp h) 0\<rparr>, pix))
          (\<lambda>(_, pix).
        slift (if tga_inverted h then tga_flip h pix else Inr pix))))"

definition stbi__tga_load :: "int \<Rightarrow> ('u stbi__context, loaded) step" where
  "stbi__tga_load req_comp =
     sbind tga_read_header (\<lambda>h.
     case stbi__malloc_mad3 (tga_width h) (tga_height h) (int (tga_comp h)) 0 of
       None \<Rightarrow> sfail (Failure ''too large'')
     | Some sz \<Rightarrow>
         sbind (skip_bytes (tga_offset h)) (\<lambda>_.
         sbind (tga_pixels h (replicate sz 0)) (\<lambda>pix.
         sbind (slift (if tga_comp h \<ge> 3 \<and> \<not> tga_rgb16 h then tga_swap_rgb h pix else Inr pix)) (\<lambda>pix.
         sbind (slift (if req_comp \<noteq> 0 \<and> req_comp \<noteq> int (tga_comp h)
                       then stbi__convert_format pix (int (tga_comp h)) req_comp (u32cast (tga_width h)) (u32cast (tga_height h))
                       else Inr pix)) (\<lambda>pix.
         sret \<lparr>ld_data = Pixels8 pix, ld_x = nat (tga_width h), ld_y = nat (tga_height h), ld_comp = int (tga_comp h)\<rparr>)))))"

end
