(* ===== verification/Stbi_Pnm.thy ===== *)
theory Stbi_Pnm
  imports Stbi_Png
begin

text \<open>
  The binary PGM and PPM decoder of \<open>src/stb_image.h\<close> (lines 7481-7629). The header loops read to
  the end of the input at most; over callbacks that never report the end they need not return, so
  they take fuel. A \<open>char\<close> is its byte here: the characters compared are all below 128, except in
  \<open>*c > '7'\<close>, where the sign of \<open>char\<close> matters.
\<close>

definition stbi__pnm_isspace :: "stbi_uc \<Rightarrow> bool" where
  "stbi__pnm_isspace c \<longleftrightarrow> c = 32 \<or> c = 9 \<or> c = 10 \<or> c = 11 \<or> c = 12 \<or> c = 13"

definition stbi__pnm_isdigit :: "stbi_uc \<Rightarrow> bool" where
  "stbi__pnm_isdigit c \<longleftrightarrow> 48 \<le> c \<and> c \<le> 57"

text \<open>\<open>while (!stbi__at_eof(s) && p(c)) c = stbi__get8(s)\<close>\<close>

fun pnm_while :: "nat \<Rightarrow> (stbi_uc \<Rightarrow> bool) \<Rightarrow> stbi_uc \<Rightarrow> ('u stbi__context, stbi_uc) step" where
  "pnm_while 0 p c = sfail NoReturn"
| "pnm_while (Suc n) p c =
     sbind (sget stbi__at_eof) (\<lambda>eof.
     if \<not> eof \<and> p c then sbind rd8 (pnm_while n p) else sret c)"

fun skip_whitespace :: "nat \<Rightarrow> nat \<Rightarrow> stbi_uc \<Rightarrow> ('u stbi__context, stbi_uc) step" where
  "skip_whitespace fuel 0 c = sfail NoReturn"
| "skip_whitespace fuel (Suc n) c =
     sbind (pnm_while fuel stbi__pnm_isspace c) (\<lambda>c.
     sbind (sget stbi__at_eof) (\<lambda>eof.
     if eof \<or> c \<noteq> 35 then sret c
     else sbind (pnm_while fuel (\<lambda>c. c \<noteq> 10 \<and> c \<noteq> 13) c) (skip_whitespace fuel n)))"

definition stbi__pnm_skip_whitespace :: "nat \<Rightarrow> stbi_uc \<Rightarrow> ('u stbi__context, stbi_uc) step" where
  "stbi__pnm_skip_whitespace fuel c = skip_whitespace fuel fuel c"

text \<open>\<open>stbi__pnm_getinteger\<close> returns the value and the character after it; an overflow returns 0
  (the value of \<open>stbi__err\<close>). A value beyond \<open>INT_MAX\<close> would be undefined behaviour.\<close>

fun getinteger :: "nat \<Rightarrow> int \<Rightarrow> stbi_uc \<Rightarrow> ('u stbi__context, int \<times> stbi_uc) step" where
  "getinteger 0 val c = sfail NoReturn"
| "getinteger (Suc n) val c =
     sbind (sget stbi__at_eof) (\<lambda>eof.
     if \<not> eof \<and> stbi__pnm_isdigit c then
       let val = val * 10 + (uint c - 48) in
       if val > INT_MAX then sfail Undefined
       else sbind rd8 (\<lambda>c.
       if val > 214748364 \<or> val = 214748364 \<and> sint c > 55 then sret (0, c)
       else getinteger n val c)
     else sret (val, c))"

definition stbi__pnm_getinteger :: "nat \<Rightarrow> stbi_uc \<Rightarrow> ('u stbi__context, int \<times> stbi_uc) step" where
  "stbi__pnm_getinteger fuel c = getinteger fuel 0 c"

definition stbi__pnm_test :: "('u stbi__context, bool) step" where
  "stbi__pnm_test =
     sbind rd8 (\<lambda>p. sbind rd8 (\<lambda>t.
     if p \<noteq> 80 \<or> t \<noteq> 53 \<and> t \<noteq> 54 then sbind (smodify stbi__rewind) (\<lambda>_. sret False) else sret True))"

text \<open>\<open>stbi__pnm_info\<close> returns the bits per channel with the size and the number of components.\<close>

definition stbi__pnm_info :: "nat \<Rightarrow> ('u stbi__context, int \<times> int \<times> int \<times> int) step" where
  "stbi__pnm_info fuel =
     sbind (smodify stbi__rewind) (\<lambda>_.
     sbind rd8 (\<lambda>p. sbind rd8 (\<lambda>t.
     if p \<noteq> 80 \<or> t \<noteq> 53 \<and> t \<noteq> 54 then sbind (smodify stbi__rewind) (\<lambda>_. sfail Silent)
     else
       let n = (if t = 54 then 3 else 1) in
       sbind rd8 (\<lambda>c.
       sbind (stbi__pnm_skip_whitespace fuel c) (\<lambda>c.
       sbind (stbi__pnm_getinteger fuel c) (\<lambda>(x, c).
       if x = 0 then sfail (Failure ''invalid width'')
       else
         sbind (stbi__pnm_skip_whitespace fuel c) (\<lambda>c.
         sbind (stbi__pnm_getinteger fuel c) (\<lambda>(y, c).
         if y = 0 then sfail (Failure ''invalid width'')
         else
           sbind (stbi__pnm_skip_whitespace fuel c) (\<lambda>c.
           sbind (stbi__pnm_getinteger fuel c) (\<lambda>(maxv, c).
           if maxv > 65535 then sfail (Failure ''max value > 65535'')
           else sret (if maxv > 255 then 16 else 8, x, y, n)))))))))))"

text \<open>The bytes of a 16-bit image are taken as they are stored, so a sample is read in the byte
  order of the machine (\<open>samples_of\<close>, little endian).\<close>

definition stbi__pnm_load :: "nat \<Rightarrow> int \<Rightarrow> ('u stbi__context, loaded) step" where
  "stbi__pnm_load fuel req_comp =
     sbind (stbi__pnm_info fuel) (\<lambda>(bits, x, y, n).
     sbind (smodify (\<lambda>s. s\<lparr>img_x := u32cast x, img_y := u32cast y, img_n := n\<rparr>)) (\<lambda>_.
     if y > int STBI_MAX_DIMENSIONS then sfail (Failure ''too large'')
     else if x > int STBI_MAX_DIMENSIONS then sfail (Failure ''too large'')
     else
       case stbi__malloc_mad4 n x y (bits div 8) 0 of
         None \<Rightarrow> sfail (Failure ''too large'')
       | Some sz \<Rightarrow>
           sbind (stot (\<lambda>s. stbi__getn s (nat (n * x * y * (bits div 8))))) (\<lambda>r.
           case r of None \<Rightarrow> sfail (Failure ''bad PNM'')
           | Some bs \<Rightarrow>
               sbind (slift (
                 if bits = 16 then
                   ebind (if req_comp \<noteq> 0 \<and> req_comp \<noteq> n
                          then stbi__convert_format16 (samples_of bs) n req_comp (u32cast x) (u32cast y)
                          else Inr (samples_of bs)) (\<lambda>d. Inr (Pixels16 d))
                 else
                   ebind (if req_comp \<noteq> 0 \<and> req_comp \<noteq> n
                          then stbi__convert_format bs n req_comp (u32cast x) (u32cast y)
                          else Inr bs) (\<lambda>d. Inr (Pixels8 d)))) (\<lambda>d.
               sret \<lparr>ld_data = d, ld_x = nat x, ld_y = nat y, ld_comp = n\<rparr>))))"

definition stbi__pnm_is16 :: "nat \<Rightarrow> ('u stbi__context, bool) step" where
  "stbi__pnm_is16 fuel s =
     (case stbi__pnm_info fuel s of
        (Inl e, s) \<Rightarrow> (if regular e then Inr False else Inl e, s)
      | (Inr (bits, _), s) \<Rightarrow> (Inr (bits = 16), s))"

end
