(* ===== verification/Stbi_Float.thy ===== *)
theory Stbi_Float
  imports Complex_Main Stbi_Prelude
begin

text \<open>
  The \<open>float\<close> arithmetic the sources use: IEEE 754 single precision with rounding to the nearest,
  ties to even. A finite number is the rational it stands for; the sign of a zero is dropped, since
  nothing in the sources depends on it. Conversions to integer types truncate and are
  undefined when the result does not fit.
\<close>

datatype f32 = Fin rat | PInf | NInf | NaN

section \<open>Rounding\<close>

function log2i :: "int \<Rightarrow> int" where
  "log2i n = (if n \<le> 1 then 0 else 1 + log2i (n div 2))"
  by pat_completeness auto
termination
  by (relation "measure nat") auto

declare log2i.simps [simp del]

definition pow2 :: "int \<Rightarrow> rat" where
  "pow2 e = (if e \<ge> 0 then 2 ^ nat e else 1 / 2 ^ nat (- e))"

text \<open>The exponent \<open>e\<close> with \<open>2 ^ e \<le> q < 2 ^ (e + 1)\<close>, for positive \<open>q\<close>.\<close>

definition ilog2 :: "rat \<Rightarrow> int" where
  "ilog2 q =
     (case quotient_of q of (n, d) \<Rightarrow>
        let e = log2i n - log2i d in if q < pow2 e then e - 1 else e)"

definition round_even :: "rat \<Rightarrow> int" where
  "round_even q =
     (let f = \<lfloor>q\<rfloor>; d = q - of_int f
      in if d < 1 / 2 then f else if d > 1 / 2 then f + 1 else if even f then f else f + 1)"

definition f32_round :: "rat \<Rightarrow> f32" where
  "f32_round q =
     (if q = 0 then Fin 0
      else
        let e = max (-149) (ilog2 \<bar>q\<bar> - 23);
            v = of_int (round_even (q / pow2 e)) * pow2 e
        in if v \<ge> pow2 128 then PInf else if v \<le> - pow2 128 then NInf else Fin v)"

definition f32_of_int :: "int \<Rightarrow> f32" where
  "f32_of_int i = f32_round (of_int i)"

section \<open>Operations\<close>

fun f32_neg :: "f32 \<Rightarrow> f32" where
  "f32_neg (Fin a) = Fin (- a)"
| "f32_neg PInf = NInf"
| "f32_neg NInf = PInf"
| "f32_neg NaN = NaN"

fun f32_add :: "f32 \<Rightarrow> f32 \<Rightarrow> f32" where
  "f32_add (Fin a) (Fin b) = f32_round (a + b)"
| "f32_add NaN _ = NaN"
| "f32_add _ NaN = NaN"
| "f32_add PInf NInf = NaN"
| "f32_add NInf PInf = NaN"
| "f32_add PInf _ = PInf"
| "f32_add _ PInf = PInf"
| "f32_add NInf _ = NInf"
| "f32_add _ NInf = NInf"

definition f32_sub :: "f32 \<Rightarrow> f32 \<Rightarrow> f32" where
  "f32_sub a b = f32_add a (f32_neg b)"

fun f32_sign :: "f32 \<Rightarrow> int" where
  "f32_sign (Fin a) = (if a > 0 then 1 else if a < 0 then -1 else 0)"
| "f32_sign PInf = 1"
| "f32_sign NInf = -1"
| "f32_sign NaN = 0"

definition f32_inf :: "int \<Rightarrow> f32" where
  "f32_inf s = (if s > 0 then PInf else if s < 0 then NInf else NaN)"

fun f32_mul :: "f32 \<Rightarrow> f32 \<Rightarrow> f32" where
  "f32_mul (Fin a) (Fin b) = f32_round (a * b)"
| "f32_mul NaN _ = NaN"
| "f32_mul _ NaN = NaN"
| "f32_mul a b = f32_inf (f32_sign a * f32_sign b)"

text \<open>A zero divisor is taken to be positive.\<close>

fun f32_div :: "f32 \<Rightarrow> f32 \<Rightarrow> f32" where
  "f32_div (Fin a) (Fin b) = (if b = 0 then f32_inf (f32_sign (Fin a)) else f32_round (a / b))"
| "f32_div NaN _ = NaN"
| "f32_div _ NaN = NaN"
| "f32_div (Fin a) _ = Fin 0"
| "f32_div a (Fin b) = f32_inf (f32_sign a * (if b < 0 then -1 else 1))"
| "f32_div _ _ = NaN"

text \<open>\<open>a < b\<close>; a comparison with a NaN is false.\<close>

fun f32_less :: "f32 \<Rightarrow> f32 \<Rightarrow> bool" where
  "f32_less (Fin a) (Fin b) = (a < b)"
| "f32_less NaN _ = False"
| "f32_less _ NaN = False"
| "f32_less NInf b = (b \<noteq> NInf)"
| "f32_less _ PInf = True"
| "f32_less _ _ = False"

definition f32_ge :: "f32 \<Rightarrow> f32 \<Rightarrow> bool" where
  "f32_ge a b \<longleftrightarrow> a \<noteq> NaN \<and> b \<noteq> NaN \<and> \<not> f32_less a b"

text \<open>The conversion to an integer type with the values from \<open>lo\<close> to \<open>hi\<close>.\<close>

definition trunc :: "rat \<Rightarrow> int" where
  "trunc q = (if q \<ge> 0 then \<lfloor>q\<rfloor> else \<lceil>q\<rceil>)"

definition f32_to_int :: "int \<Rightarrow> int \<Rightarrow> f32 \<Rightarrow> int res" where
  "f32_to_int lo hi x =
     (case x of
        Fin q \<Rightarrow> if lo \<le> trunc q \<and> trunc q \<le> hi then Inr (trunc q) else Inl Undefined
      | _ \<Rightarrow> Inl Undefined)"

section \<open>Rounding is monotone on what matters here\<close>

lemma round_even_bounds: "of_int (round_even q) - q \<le> 1 / 2" "q - of_int (round_even q) \<le> 1 / 2"
  unfolding round_even_def Let_def by (auto simp: field_simps) linarith+

lemma round_even_mono: "p \<le> q \<Longrightarrow> round_even p \<le> round_even q"
proof (cases "\<lfloor>p\<rfloor> = \<lfloor>q\<rfloor>")
  case True
  assume "p \<le> q"
  with True show ?thesis unfolding round_even_def Let_def by auto
next
  case False
  assume "p \<le> q"
  then have "\<lfloor>p\<rfloor> < \<lfloor>q\<rfloor>" using False floor_mono [of p q] by simp
  then show ?thesis unfolding round_even_def Let_def by auto
qed

lemma round_even_int [simp]: "round_even (of_int i) = i"
  by (simp add: round_even_def)

section \<open>Small integers and the unit interval\<close>

lemma log2i_nonneg: "0 \<le> log2i n"
  by (induction n rule: log2i.induct) (subst log2i.simps, simp)

lemma log2i_mono: "m \<le> n \<Longrightarrow> log2i m \<le> log2i n"
proof (induction m arbitrary: n rule: log2i.induct)
  case (1 m)
  show ?case
  proof (cases "m \<le> 1")
    case True
    then show ?thesis using log2i_nonneg by (subst log2i.simps) simp
  next
    case False
    then have "m div 2 \<le> n div 2" using 1(2) by (intro zdiv_mono1) simp_all
    then show ?thesis
      using 1(1) [OF False, of "n div 2"] False 1(2) by (subst (1 2) log2i.simps) simp
  qed
qed

lemma log2i_less: "n < 2 ^ Suc k \<Longrightarrow> log2i n \<le> int k"
proof (induction k arbitrary: n)
  case (Suc k)
  then have "n div 2 < 2 ^ Suc k" by simp
  then show ?case using Suc.IH [of "n div 2"] by (subst log2i.simps) simp
qed (subst log2i.simps, simp)

lemma pow2_pos [simp]: "0 < pow2 e"
  by (simp add: pow2_def)

lemma pow2_nonneg [simp]: "0 \<le> pow2 e"
  by (rule less_imp_le [OF pow2_pos])

lemma ilog2_le_diff: "ilog2 q \<le> log2i (fst (quotient_of q)) - log2i (snd (quotient_of q))"
  by (simp add: ilog2_def Let_def split: prod.split)

lemma ilog2_int: "\<bar>i\<bar> < 2 ^ 24 \<Longrightarrow> ilog2 (of_int \<bar>i\<bar>) \<le> 23"
  using ilog2_le_diff [of "of_int \<bar>i\<bar>"] log2i_less [of "\<bar>i\<bar>" 23] log2i_nonneg [of 1]
  by (simp add: quotient_of_int del: of_int_abs)

lemma ilog2_unit:
  assumes "0 < q" "q \<le> 1"
  shows "ilog2 q \<le> 0"
proof (cases "quotient_of q")
  case (Pair n d)
  have d: "0 < d" using quotient_of_denom_pos [OF Pair] .
  have "q = of_int n / of_int d" using quotient_of_div [OF Pair] .
  then have "n \<le> d" using assms(2) d by (simp add: divide_le_eq)
  then show ?thesis using ilog2_le_diff [of q] log2i_mono [of n d] by (simp add: Pair)
qed

lemma scaled_int:
  assumes "e \<le> 0"
  shows "of_int i / pow2 e = of_int (i * 2 ^ nat (- e))" "pow2 e * of_int (2 ^ nat (- e)) = 1"
  using assms by (auto simp: pow2_def)

lemma pow2_128: "pow2 128 = of_int (2 ^ 128)"
  by (simp add: pow2_def)

lemma f32_round_int:
  assumes "\<bar>i\<bar> < 2 ^ 24"
  shows "f32_round (of_int i) = Fin (of_int i)"
proof -
  define e where "e = max (- 149) (ilog2 \<bar>of_int i\<bar> - 23)"
  have e: "e \<le> 0" using ilog2_int [OF assms] by (simp add: e_def)
  have "of_int (round_even (of_int i / pow2 e)) * pow2 e = (of_int i :: rat)"
    unfolding scaled_int(1) [OF e] round_even_int using scaled_int(2) [OF e] by (simp add: mult.assoc mult.commute)
  moreover have "(of_int i :: rat) < pow2 128" "- pow2 128 < (of_int i :: rat)"
    unfolding pow2_128 of_int_minus [symmetric] of_int_less_iff using assms by simp_all
  ultimately show ?thesis
    by (cases "i = 0") (simp_all add: f32_round_def Let_def flip: e_def)
qed

lemma f32_of_int_small: "\<bar>i\<bar> < 2 ^ 24 \<Longrightarrow> f32_of_int i = Fin (of_int i)"
  by (simp add: f32_of_int_def f32_round_int)

lemma f32_round_unit:
  assumes "0 \<le> q" "q \<le> 1"
  shows "\<exists>v. f32_round q = Fin v \<and> 0 \<le> v \<and> v \<le> 1"
proof (cases "q = 0")
  case False
  define e where "e = max (- 149) (ilog2 \<bar>q\<bar> - 23)"
  define v where "v = of_int (round_even (q / pow2 e)) * pow2 e"
  have e: "e \<le> 0" using ilog2_unit [of q] assms False by (simp add: e_def)
  have "0 \<le> round_even (q / pow2 e)"
    using round_even_mono [of 0 "q / pow2 e"] round_even_int [of 0] assms(1) by simp
  then have v0: "0 \<le> v" by (simp add: v_def)
  have "q / pow2 e \<le> of_int 1 / pow2 e" using assms(2) by (intro divide_right_mono) simp_all
  then have "round_even (q / pow2 e) \<le> 2 ^ nat (- e)"
    unfolding scaled_int(1) [OF e] mult_1
    by (metis round_even_int round_even_mono)
  then have "(of_int (round_even (q / pow2 e)) :: rat) \<le> of_int (2 ^ nat (- e))" by (simp only: of_int_le_iff)
  then have "v \<le> of_int (2 ^ nat (- e)) * pow2 e" unfolding v_def by (intro mult_right_mono) simp_all
  then have v1: "v \<le> 1" using scaled_int(2) [OF e] by (simp add: mult.commute)
  have "v < pow2 128" "- pow2 128 < v" using v0 v1 pow2_pos [of 128] by (simp_all add: pow2_def)
  then have "f32_round q = Fin v" using False by (simp add: f32_round_def Let_def flip: e_def v_def)
  with v0 v1 show ?thesis by simp
qed (simp add: f32_round_def)

end
