(* ===== verification/Stbi_Psd.thy ===== *)
theory Stbi_Psd
  imports Stbi_Png Stbi_Float
begin

text \<open>
  The Photoshop decoder of \<open>src/stb_image.h\<close> (lines 6077-6329 and 7357-7417). It reads the channels
  one after the other into an image of four components per pixel. The run-length loop has fuel: a
  source that delivers nothing but no-ops would keep it running.
\<close>

definition stbi__psd_test :: "('u stbi__context, bool) step" where
  "stbi__psd_test =
     sbind rd32be (\<lambda>v. sbind (smodify stbi__rewind) (\<lambda>_. sret (v = 0x38425053)))"

section \<open>Run-length data\<close>

text \<open>\<open>*p = v; p += 4\<close> for \<open>len\<close> values from pixel \<open>count\<close> on, each delivered by \<open>m\<close>.\<close>

definition psd_put :: "nat \<Rightarrow> nat \<Rightarrow> nat \<Rightarrow> ('u stbi__context, 'a) step \<Rightarrow> 'a list \<Rightarrow> ('u stbi__context, 'a list) step" where
  "psd_put channel count len m outp =
     sfold (\<lambda>i outp. sbind m (\<lambda>v. slift (arr_set outp (int (4 * (count + i) + channel)) v))) [0..<len] outp"

fun psd_rle :: "nat \<Rightarrow> nat \<Rightarrow> nat \<Rightarrow> nat \<Rightarrow> stbi_uc list \<Rightarrow> ('u stbi__context, stbi_uc list) step" where
  "psd_rle 0 channel pixelCount count outp = sfail NoReturn"
| "psd_rle (Suc fuel) channel pixelCount count outp =
     (if pixelCount \<le> count then sret outp
      else
        sbind rd8 (\<lambda>b.
        let len = unat b; nleft = pixelCount - count in
        if len = 128 then psd_rle fuel channel pixelCount count outp
        else if len < 128 then
          if len + 1 > nleft then sfail Silent
          else
            sbind (psd_put channel count (len + 1) rd8 outp)
              (psd_rle fuel channel pixelCount (count + (len + 1)))
        else
          if 257 - len > nleft then sfail Silent
          else
            sbind rd8 (\<lambda>val.
            sbind (psd_put channel count (257 - len) (sret val) outp)
              (psd_rle fuel channel pixelCount (count + (257 - len))))))"

definition stbi__psd_decode_rle :: "nat \<Rightarrow> nat \<Rightarrow> nat \<Rightarrow> stbi_uc list \<Rightarrow> ('u stbi__context, stbi_uc list) step" where
  "stbi__psd_decode_rle fuel channel pixelCount outp = psd_rle fuel channel pixelCount 0 outp"

section \<open>The header\<close>

record psd_header =
  channelCount :: int
  psd_w :: int
  psd_h :: int
  bitdepth :: int
  compression :: int

definition psd_read_header :: "('u stbi__context, psd_header) step" where
  "psd_read_header =
     sbind rd32be (\<lambda>sig.
     if sig \<noteq> 0x38425053 then sfail (Failure ''not PSD'')
     else sbind rd16be (\<lambda>ver.
     if ver \<noteq> 1 then sfail (Failure ''wrong version'')
     else
       sbind (skip_bytes 6) (\<lambda>_.
       sbind rd16be (\<lambda>cc.
       if cc < 0 \<or> cc > 16 then sfail (Failure ''wrong channel count'')
       else
         sbind rd32be (\<lambda>h. sbind rd32be (\<lambda>w.
         if int_of_u32 h > int STBI_MAX_DIMENSIONS then sfail (Failure ''too large'')
         else if int_of_u32 w > int STBI_MAX_DIMENSIONS then sfail (Failure ''too large'')
         else
           sbind rd16be (\<lambda>depth.
           if depth \<noteq> 8 \<and> depth \<noteq> 16 then sfail (Failure ''unsupported bit depth'')
           else
             sbind rd16be (\<lambda>mode.
             if mode \<noteq> 3 then sfail (Failure ''wrong color format'')
             else
               sbind (sbind rd32be (\<lambda>n. skip_bytes (int_of_u32 n))) (\<lambda>_.
               sbind (sbind rd32be (\<lambda>n. skip_bytes (int_of_u32 n))) (\<lambda>_.
               sbind (sbind rd32be (\<lambda>n. skip_bytes (int_of_u32 n))) (\<lambda>_.
               sbind rd16be (\<lambda>compr.
               if compr > 1 then sfail (Failure ''bad compression'')
               else if \<not> stbi__mad3sizes_valid 4 (int_of_u32 w) (int_of_u32 h) 0 then sfail (Failure ''too large'')
               else
                 sret \<lparr>channelCount = cc, psd_w = int_of_u32 w, psd_h = int_of_u32 h, bitdepth = depth,
                       compression = compr\<rparr>))))))))))))"

section \<open>Channels\<close>

definition psd_pixels :: "psd_header \<Rightarrow> nat" where
  "psd_pixels h = nat (psd_w h * psd_h h)"

definition psd_compressed :: "nat \<Rightarrow> psd_header \<Rightarrow> stbi_uc list \<Rightarrow> ('u stbi__context, stbi_uc list) step" where
  "psd_compressed fuel h outp =
     sbind (skip_bytes (psd_h h * channelCount h * 2)) (\<lambda>_.
     sfold (\<lambda>channel outp.
       if int channel \<ge> channelCount h
       then psd_put channel 0 (psd_pixels h) (sret (if channel = 3 then 255 else 0)) outp
       else sfail_as (Failure ''corrupt'') (stbi__psd_decode_rle fuel channel (psd_pixels h) outp)) [0..<4] outp)"

text \<open>The loop over the channels of raw data; \<open>full\<close> is the opaque alpha and \<open>m\<close> reads a sample.\<close>

definition psd_raw :: "psd_header \<Rightarrow> 'a \<Rightarrow> 'a \<Rightarrow> ('u stbi__context, 'a) step \<Rightarrow> 'a list \<Rightarrow> ('u stbi__context, 'a list) step" where
  "psd_raw h zero full m outp =
     sfold (\<lambda>channel outp.
       psd_put channel 0 (psd_pixels h)
         (if int channel \<ge> channelCount h then sret (if channel = 3 then full else zero) else m) outp) [0..<4] outp"

definition psd_sample8 :: "psd_header \<Rightarrow> ('u stbi__context, stbi_uc) step" where
  "psd_sample8 h =
     (if bitdepth h = 16 then sbind rd16be (\<lambda>v. sret (STBI__BYTECAST (drop_bit 8 v))) else rd8)"

definition psd_sample16 :: "('u stbi__context, stbi_us) step" where
  "psd_sample16 = sbind rd16be (\<lambda>v. sret (u16cast v))"

section \<open>The white matte\<close>

text \<open>\<open>(T) (v * ra + inv_a)\<close> in single precision, for the largest value \<open>m\<close> of the sample type.\<close>

definition psd_unmatte :: "int \<Rightarrow> int \<Rightarrow> int \<Rightarrow> int res" where
  "psd_unmatte m alpha v =
     (let a = f32_div (f32_of_int alpha) (f32_of_int m);
          ra = f32_div (f32_of_int 1) a;
          inv_a = f32_mul (f32_of_int m) (f32_sub (f32_of_int 1) ra)
      in f32_to_int 0 m (f32_add (f32_mul (f32_of_int v) ra) inv_a))"

definition psd_matte_pixel :: "int \<Rightarrow> 'a::len word list \<Rightarrow> 'a word list res" where
  "psd_matte_pixel m px =
     (let a = uint (px ! 3) in
      if a \<noteq> 0 \<and> a \<noteq> m then
        ebind (psd_unmatte m a (uint (px ! 0))) (\<lambda>r.
        ebind (psd_unmatte m a (uint (px ! 1))) (\<lambda>g.
        ebind (psd_unmatte m a (uint (px ! 2))) (\<lambda>b.
        Inr [word_of_int r, word_of_int g, word_of_int b, px ! 3])))
      else Inr (take 4 px))"

fun psd_matte :: "int \<Rightarrow> nat \<Rightarrow> 'a::len word list \<Rightarrow> 'a word list res" where
  "psd_matte m 0 outp = Inr outp"
| "psd_matte m (Suc n) outp =
     (if length outp < 4 then Inl Undefined
      else ebind (psd_matte_pixel m (take 4 outp)) (\<lambda>p. ebind (psd_matte m n (drop 4 outp)) (\<lambda>r. Inr (p @ r))))"

section \<open>Loading\<close>

definition psd_finish8 :: "psd_header \<Rightarrow> int \<Rightarrow> stbi_uc list \<Rightarrow> pixel_data res" where
  "psd_finish8 h req_comp outp =
     ebind (if channelCount h \<ge> 4 then psd_matte 255 (psd_pixels h) outp else Inr outp) (\<lambda>outp.
     ebind (if req_comp \<noteq> 0 \<and> req_comp \<noteq> 4
            then stbi__convert_format outp 4 req_comp (u32cast (psd_w h)) (u32cast (psd_h h)) else Inr outp) (\<lambda>outp.
     Inr (Pixels8 outp)))"

definition psd_finish16 :: "psd_header \<Rightarrow> int \<Rightarrow> stbi_us list \<Rightarrow> pixel_data res" where
  "psd_finish16 h req_comp outp =
     ebind (if channelCount h \<ge> 4 then psd_matte 65535 (psd_pixels h) outp else Inr outp) (\<lambda>outp.
     ebind (if req_comp \<noteq> 0 \<and> req_comp \<noteq> 4
            then stbi__convert_format16 outp 4 req_comp (u32cast (psd_w h)) (u32cast (psd_h h)) else Inr outp) (\<lambda>outp.
     Inr (Pixels16 outp)))"

definition psd_data :: "nat \<Rightarrow> int \<Rightarrow> int \<Rightarrow> psd_header \<Rightarrow> ('u stbi__context, pixel_data) step" where
  "psd_data fuel req_comp bpc h =
     (if compression h = 0 \<and> bitdepth h = 16 \<and> bpc = 16 then
        case stbi__malloc_mad3 8 (psd_w h) (psd_h h) 0 of
          None \<Rightarrow> sfail (Failure ''outofmem'')
        | Some _ \<Rightarrow>
            sbind (psd_raw h 0 65535 psd_sample16 (replicate (4 * psd_pixels h) 0)) (\<lambda>outp.
            slift (psd_finish16 h req_comp outp))
      else
        sbind (if compression h \<noteq> 0 then psd_compressed fuel h (replicate (4 * psd_pixels h) 0)
               else psd_raw h 0 255 (psd_sample8 h) (replicate (4 * psd_pixels h) 0)) (\<lambda>outp.
        slift (psd_finish8 h req_comp outp)))"

definition stbi__psd_load :: "nat \<Rightarrow> int \<Rightarrow> int \<Rightarrow> ('u stbi__context, loaded) step" where
  "stbi__psd_load fuel req_comp bpc =
     sbind psd_read_header (\<lambda>h.
     sbind (psd_data fuel req_comp bpc h) (\<lambda>d.
     sret \<lparr>ld_data = d, ld_x = nat (psd_w h), ld_y = nat (psd_h h), ld_comp = 4\<rparr>))"

section \<open>Size and depth\<close>

text \<open>Each failed test rewinds the context and returns 0.\<close>

definition psd_rewind :: "('u stbi__context, 'a) step" where
  "psd_rewind = sbind (smodify stbi__rewind) (\<lambda>_. sfail Silent)"

definition psd_info_head :: "('u stbi__context, unit) step" where
  "psd_info_head =
     sbind rd32be (\<lambda>sig.
     if sig \<noteq> 0x38425053 then psd_rewind
     else sbind rd16be (\<lambda>ver.
     if ver \<noteq> 1 then psd_rewind
     else
       sbind (skip_bytes 6) (\<lambda>_.
       sbind rd16be (\<lambda>cc.
       if cc < 0 \<or> cc > 16 then psd_rewind else sret ()))))"

definition stbi__psd_info :: "('u stbi__context, int \<times> int \<times> int) step" where
  "stbi__psd_info =
     sbind psd_info_head (\<lambda>_.
     sbind rd32be (\<lambda>y. sbind rd32be (\<lambda>x.
     sbind rd16be (\<lambda>depth.
     if depth \<noteq> 8 \<and> depth \<noteq> 16 then psd_rewind
     else sbind rd16be (\<lambda>mode.
     if mode \<noteq> 3 then psd_rewind
     else sret (int_of_u32 x, int_of_u32 y, 4))))))"

definition stbi__psd_is16 :: "('u stbi__context, unit) step" where
  "stbi__psd_is16 =
     sbind psd_info_head (\<lambda>_.
     sbind rd32be (\<lambda>_. sbind rd32be (\<lambda>_.
     sbind rd16be (\<lambda>depth. if depth \<noteq> 16 then psd_rewind else sret ()))))"

end
