(* ===== verification/Stbi_Pic.thy ===== *)
theory Stbi_Pic
  imports Stbi_Png
begin

text \<open>
  The Softimage PIC decoder of \<open>src/stb_image.h\<close> (lines 6331-6554 and 7419-7477). A pixel has four
  bytes; each packet describes which of them its data sets and how the data is compressed. The
  loops over the runs of a scanline have fuel: runs of length 0 make no progress in the image.
\<close>

definition stbi__pic_is4 :: "stbi_uc list \<Rightarrow> ('u stbi__context, unit) step" where
  "stbi__pic_is4 str = sfold (\<lambda>c _. sbind rd8 (\<lambda>b. sguard (b = c) Silent)) str ()"

definition pic_magic :: "stbi_uc list" where
  "pic_magic = [0x53, 0x80, 0xF6, 0x34]"

definition stbi__pic_test_core :: "('u stbi__context, unit) step" where
  "stbi__pic_test_core =
     sbind (stbi__pic_is4 pic_magic) (\<lambda>_.
     sbind (discard 84 rd8) (\<lambda>_.
     stbi__pic_is4 (map (\<lambda>c. word_of_nat (of_char c)) ''PICT'')))"

definition stbi__pic_test :: "('u stbi__context, bool) step" where
  "stbi__pic_test =
     sbind (stry stbi__pic_test_core) (\<lambda>r. sbind (smodify stbi__rewind) (\<lambda>_. sret r))"

section \<open>Packets\<close>

record stbi__pic_packet =
  pkt_size :: stbi_uc
  pkt_type :: stbi_uc
  pkt_channel :: stbi_uc

text \<open>\<open>channel & mask\<close> for the mask of byte \<open>i\<close> of a pixel.\<close>

definition pic_has :: "stbi_uc \<Rightarrow> nat \<Rightarrow> bool" where
  "pic_has channel i \<longleftrightarrow> channel AND drop_bit i 0x80 \<noteq> 0"

definition stbi__readval :: "stbi_uc \<Rightarrow> stbi_uc list \<Rightarrow> ('u stbi__context, stbi_uc list) step" where
  "stbi__readval channel dest =
     sfold (\<lambda>i dest.
       if pic_has channel i then
         sbind (sget stbi__at_eof) (\<lambda>eof.
         if eof then sfail (Failure ''bad file'')
         else sbind rd8 (\<lambda>b. slift (arr_set dest (int i) b)))
       else sret dest) [0..<4] dest"

definition stbi__copyval :: "stbi_uc \<Rightarrow> stbi_uc list \<Rightarrow> stbi_uc list \<Rightarrow> stbi_uc list res" where
  "stbi__copyval channel dest src =
     efold (\<lambda>i dest.
       if pic_has channel i then ebind (arr_get src (int i)) (\<lambda>v. arr_set dest (int i) v) else Inr dest)
       [0..<4] dest"

text \<open>The list of packets: \<open>slots\<close> entries of the array \<open>packets\<close> are free. The result has the union of
  the channels. The two callers differ in how they fail.\<close>

fun pic_packets ::
    "failure \<Rightarrow> (failure \<Rightarrow> ('u stbi__context, stbi__pic_packet list \<times> stbi_uc) step) \<Rightarrow> nat \<Rightarrow> stbi__pic_packet list \<Rightarrow> stbi_uc \<Rightarrow>
     ('u stbi__context, stbi__pic_packet list \<times> stbi_uc) step" where
  "pic_packets many bad 0 ps act = sfail many"
| "pic_packets many bad (Suc slots) ps act =
     sbind rd8 (\<lambda>chained. sbind rd8 (\<lambda>sz. sbind rd8 (\<lambda>ty. sbind rd8 (\<lambda>ch.
     sbind (sget stbi__at_eof) (\<lambda>eof.
     let ps = ps @ [\<lparr>pkt_size = sz, pkt_type = ty, pkt_channel = ch\<rparr>]; act = act OR ch in
     if eof then bad (Failure ''bad file'')
     else if sz \<noteq> 8 then bad (Failure ''bad format'')
     else if chained \<noteq> 0 then pic_packets many bad slots ps act
     else sret (ps, act))))))"

definition pic_comp :: "stbi_uc \<Rightarrow> int" where
  "pic_comp act = (if act AND 0x10 \<noteq> 0 then 4 else 3)"

section \<open>Scanlines\<close>

text \<open>The four bytes at \<open>dest\<close>, an offset into the image, and their replacement.\<close>

definition pic_get :: "stbi_uc list \<Rightarrow> nat \<Rightarrow> stbi_uc list res" where
  "pic_get img dest = (if dest + 4 \<le> length img then Inr (take 4 (drop dest img)) else Inl Undefined)"

definition pic_put :: "stbi_uc list \<Rightarrow> nat \<Rightarrow> stbi_uc list \<Rightarrow> stbi_uc list res" where
  "pic_put img dest px = store_from img (int dest) px"

definition pic_read_pixels ::
    "stbi_uc \<Rightarrow> nat \<Rightarrow> nat \<Rightarrow> stbi_uc list \<Rightarrow> ('u stbi__context, stbi_uc list) step" where
  "pic_read_pixels channel dest n img =
     sfold (\<lambda>i img.
       sbind (slift (pic_get img (dest + 4 * i))) (\<lambda>px.
       sbind (stbi__readval channel px) (\<lambda>px.
       slift (pic_put img (dest + 4 * i) px)))) [0..<n] img"

definition pic_copy_pixels ::
    "stbi_uc \<Rightarrow> stbi_uc list \<Rightarrow> nat \<Rightarrow> nat \<Rightarrow> stbi_uc list \<Rightarrow> stbi_uc list res" where
  "pic_copy_pixels channel value dest n img =
     efold (\<lambda>i img.
       ebind (pic_get img (dest + 4 * i)) (\<lambda>px.
       ebind (stbi__copyval channel px value) (\<lambda>px.
       pic_put img (dest + 4 * i) px))) [0..<n] img"

definition pic_repeat ::
    "stbi_uc \<Rightarrow> nat \<Rightarrow> nat \<Rightarrow> stbi_uc list \<Rightarrow> ('u stbi__context, stbi_uc list) step" where
  "pic_repeat channel dest n img =
     sbind (stbi__readval channel (replicate 4 0)) (\<lambda>value.
     slift (pic_copy_pixels channel value dest n img))"

fun pic_pure_rle :: "nat \<Rightarrow> stbi_uc \<Rightarrow> nat \<Rightarrow> nat \<Rightarrow> stbi_uc list \<Rightarrow> ('u stbi__context, stbi_uc list) step" where
  "pic_pure_rle 0 channel dest left img = sfail NoReturn"
| "pic_pure_rle (Suc fuel) channel dest left img =
     (if left = 0 then sret img
      else
        sbind rd8 (\<lambda>b.
        sbind (sget stbi__at_eof) (\<lambda>eof.
        if eof then sfail (Failure ''bad file'')
        else
          let count = min (unat b) left in
          sbind (pic_repeat channel dest count img)
            (pic_pure_rle fuel channel (dest + 4 * count) (left - count)))))"

fun pic_mixed_rle :: "nat \<Rightarrow> stbi_uc \<Rightarrow> nat \<Rightarrow> nat \<Rightarrow> stbi_uc list \<Rightarrow> ('u stbi__context, stbi_uc list) step" where
  "pic_mixed_rle 0 channel dest left img = sfail NoReturn"
| "pic_mixed_rle (Suc fuel) channel dest left img =
     (if left = 0 then sret img
      else
        sbind rd8 (\<lambda>b.
        sbind (sget stbi__at_eof) (\<lambda>eof.
        if eof then sfail (Failure ''bad file'')
        else if b \<ge> 128 then
          sbind (if b = 128 then rd16be else sret (uint b - 127)) (\<lambda>count.
          if count > int left then sfail (Failure ''bad file'')
          else
            sbind (pic_repeat channel dest (nat count) img)
              (pic_mixed_rle fuel channel (dest + 4 * nat count) (left - nat count)))
        else
          let count = unat b + 1 in
          if count > left then sfail (Failure ''bad file'')
          else
            sbind (pic_read_pixels channel dest count img)
              (pic_mixed_rle fuel channel (dest + 4 * count) (left - count)))))"

definition pic_packet_row ::
    "nat \<Rightarrow> nat \<Rightarrow> nat \<Rightarrow> stbi__pic_packet \<Rightarrow> stbi_uc list \<Rightarrow> ('u stbi__context, stbi_uc list) step" where
  "pic_packet_row fuel width y pkt img =
     (let dest = y * width * 4; channel = pkt_channel pkt in
      if pkt_type pkt = 0 then pic_read_pixels channel dest width img
      else if pkt_type pkt = 1 then pic_pure_rle fuel channel dest width img
      else if pkt_type pkt = 2 then pic_mixed_rle fuel channel dest width img
      else sfail (Failure ''bad format''))"

definition pic_rows ::
    "nat \<Rightarrow> nat \<Rightarrow> nat \<Rightarrow> stbi__pic_packet list \<Rightarrow> stbi_uc list \<Rightarrow> ('u stbi__context, stbi_uc list) step" where
  "pic_rows fuel width height ps img =
     sfold (\<lambda>y img. sfold (pic_packet_row fuel width y) ps img) [0..<height] img"

section \<open>Loading\<close>

text \<open>\<open>stbi__pic_load_core\<close>: the number of components, when it was determined, and the image, or the
  failure.\<close>

definition stbi__pic_load_core ::
    "nat \<Rightarrow> nat \<Rightarrow> nat \<Rightarrow> stbi_uc list \<Rightarrow> ('u stbi__context, int option \<times> stbi_uc list res) step" where
  "stbi__pic_load_core fuel width height img =
     sbind (sattempt (pic_packets (Failure ''bad format'') sfail 10 [] 0)) (\<lambda>r.
     case r of
       Inl e \<Rightarrow> sret (None, Inl e)
     | Inr (ps, act) \<Rightarrow>
         sbind (sattempt (pic_rows fuel width height ps img)) (\<lambda>img. sret (Some (pic_comp act), img)))"

text \<open>After a failure of the core, \<open>result\<close> is \<open>NULL\<close> and is converted all the same; \<open>NULL\<close> is the
  empty list here. When the core failed before it set \<open>*comp\<close>, \<open>req_comp == 0\<close> makes the code use the value that the
  caller left there.\<close>

definition stbi__pic_load :: "nat \<Rightarrow> int \<Rightarrow> ('u stbi__context, loaded) step" where
  "stbi__pic_load fuel req_comp =
     sbind (discard 92 rd8) (\<lambda>_.
     sbind rd16be (\<lambda>x. sbind rd16be (\<lambda>y.
     if y > int STBI_MAX_DIMENSIONS then sfail (Failure ''too large'')
     else if x > int STBI_MAX_DIMENSIONS then sfail (Failure ''too large'')
     else
       sbind (sget stbi__at_eof) (\<lambda>eof.
       if eof then sfail (Failure ''bad file'')
       else if \<not> stbi__mad3sizes_valid x y 4 0 then sfail (Failure ''too large'')
       else
         sbind rd32be (\<lambda>_. sbind rd16be (\<lambda>_. sbind rd16be (\<lambda>_.
         case stbi__malloc_mad3 x y 4 0 of
           None \<Rightarrow> sfail (Failure ''outofmem'')
         | Some sz \<Rightarrow>
             sbind (stbi__pic_load_core fuel (nat x) (nat y) (replicate sz 0xff)) (\<lambda>(comp, r).
             sbind (if req_comp = 0 then case comp of None \<Rightarrow> sfail Undefined | Some c \<Rightarrow> sret c
                    else sret req_comp) (\<lambda>req_comp.
             sbind (slift (case r of
                 Inl e \<Rightarrow> if req_comp = 4 then Inl e else stbi__convert_format [] 4 req_comp (u32cast x) (u32cast y)
               | Inr img \<Rightarrow> stbi__convert_format img 4 req_comp (u32cast x) (u32cast y))) (\<lambda>img.
             sret \<lparr>ld_data = Pixels8 img, ld_x = nat x, ld_y = nat y,
                   ld_comp = (case comp of None \<Rightarrow> 0 | Some c \<Rightarrow> c)\<rparr>))))))))))"

definition pic_rewind :: "failure \<Rightarrow> ('u stbi__context, 'a) step" where
  "pic_rewind e = sbind (smodify stbi__rewind) (\<lambda>_. sfail Silent)"

definition stbi__pic_info :: "('u stbi__context, int \<times> int \<times> int) step" where
  "stbi__pic_info =
     sbind (stry (stbi__pic_is4 pic_magic)) (\<lambda>ok.
     if \<not> ok then pic_rewind Silent
     else
       sbind (skip_bytes 88) (\<lambda>_.
       sbind rd16be (\<lambda>x. sbind rd16be (\<lambda>y.
       sbind (sget stbi__at_eof) (\<lambda>eof.
       if eof then pic_rewind Silent
       else if x \<noteq> 0 \<and> 2 ^ 28 div x < y then pic_rewind Silent
       else
         sbind (skip_bytes 8) (\<lambda>_.
         sbind (pic_packets Silent pic_rewind 10 [] 0) (\<lambda>(_, act).
         sret (x, y, pic_comp act))))))))"

end
