(* ===== verification/Stbi_Gif.thy ===== *)
theory Stbi_Gif
  imports Stbi_Png
begin

text \<open>
  The GIF decoder of \<open>src/stb_image.h\<close> (lines 6547-7041): header, colour tables, LZW raster,
  interlacing, disposal of the previous frame, single images and animations. The record \<open>stbi__gif\<close>
  holds the context and the C struct of the same name. Loops that a source can keep running
  have fuel; so has the recursion of \<open>stbi__out_gif_code\<close> along the prefixes of a code.
\<close>

section \<open>State\<close>

record stbi__gif_lzw =
  lzw_prefix :: int
  lzw_first :: stbi_uc
  lzw_suffix :: stbi_uc

text \<open>\<open>gif_local\<close> says whether \<open>color_table\<close> points to \<open>lpal\<close> or to \<open>pal\<close>.\<close>

record 'u stbi__gif =
  gif_s :: "'u stbi__context"
  gif_w :: int
  gif_h :: int
  gif_out :: "stbi_uc list option"
  gif_background :: "stbi_uc list"
  gif_history :: "stbi_uc list"
  gif_flags :: int
  bgindex :: int
  gif_ratio :: int
  transparent :: int
  eflags :: int
  gif_pal :: "stbi_uc list"
  gif_lpal :: "stbi_uc list"
  gif_codes :: "stbi__gif_lzw list"
  gif_local :: bool
  gif_parse :: int
  gif_step :: int
  lflags :: int
  start_x :: int
  start_y :: int
  max_x :: int
  max_y :: int
  cur_x :: int
  cur_y :: int
  line_size :: int
  gif_delay :: int

definition gif_zero :: "'u stbi__context \<Rightarrow> 'u stbi__gif" where
  "gif_zero s =
     \<lparr>gif_s = s, gif_w = 0, gif_h = 0, gif_out = None, gif_background = [], gif_history = [], gif_flags = 0,
      bgindex = 0, gif_ratio = 0, transparent = 0, eflags = 0, gif_pal = replicate 1024 0,
      gif_lpal = replicate 1024 0,
      gif_codes = replicate 8192 \<lparr>lzw_prefix = 0, lzw_first = 0, lzw_suffix = 0\<rparr>,
      gif_local = False, gif_parse = 0, gif_step = 0, lflags = 0, start_x = 0, start_y = 0, max_x = 0,
      max_y = 0, cur_x = 0, cur_y = 0, line_size = 0, gif_delay = 0\<rparr>"

definition gctx :: "('u stbi__context, 'a) step \<Rightarrow> ('u stbi__gif, 'a) step" where
  "gctx m = son gif_s (\<lambda>s g. g\<lparr>gif_s := s\<rparr>) m"

section \<open>Header\<close>

text \<open>The tests are connected by \<open>||\<close>: the first that fails ends the reading.\<close>

definition gif_expect :: "failure \<Rightarrow> stbi_uc list \<Rightarrow> ('u stbi__context, unit) step" where
  "gif_expect e cs = sfold (\<lambda>c _. sbind rd8 (\<lambda>b. sguard (b = c) e)) cs ()"

definition gif_signature :: "failure \<Rightarrow> ('u stbi__context, unit) step" where
  "gif_signature e =
     sbind (gif_expect e [0x47, 0x49, 0x46, 0x38]) (\<lambda>_.
     sbind rd8 (\<lambda>v. if v \<noteq> 0x37 \<and> v \<noteq> 0x39 then sfail e else gif_expect e [0x61]))"

definition stbi__gif_test_raw :: "('u stbi__context, bool) step" where
  "stbi__gif_test_raw = stry (gif_signature Silent)"

definition stbi__gif_test :: "('u stbi__context, bool) step" where
  "stbi__gif_test = sbind stbi__gif_test_raw (\<lambda>r. sbind (smodify stbi__rewind) (\<lambda>_. sret r))"

definition stbi__gif_parse_colortable :: "stbi_uc list \<Rightarrow> nat \<Rightarrow> int \<Rightarrow> ('u stbi__context, stbi_uc list) step" where
  "stbi__gif_parse_colortable pal num_entries trn =
     sfold (\<lambda>i pal.
       sbind rd8 (\<lambda>r. sbind rd8 (\<lambda>g. sbind rd8 (\<lambda>b.
       slift (store_from pal (int (4 * i)) [b, g, r, if trn = int i then 0 else 255])))))
       [0..<num_entries] pal"

definition stbi__gif_header :: "bool \<Rightarrow> ('u stbi__gif, unit) step" where
  "stbi__gif_header is_info =
     sbind (gctx (gif_signature (Failure ''not GIF''))) (\<lambda>_.
     sbind (gctx rd16le) (\<lambda>w. sbind (gctx rd16le) (\<lambda>h.
     sbind (gctx rd8i) (\<lambda>fl. sbind (gctx rd8i) (\<lambda>bg. sbind (gctx rd8i) (\<lambda>ra.
     sbind (smodify (\<lambda>g. g\<lparr>gif_w := w, gif_h := h, gif_flags := fl, bgindex := bg, gif_ratio := ra,
       transparent := -1\<rparr>)) (\<lambda>_.
     if w > int STBI_MAX_DIMENSIONS then sfail (Failure ''too large'')
     else if h > int STBI_MAX_DIMENSIONS then sfail (Failure ''too large'')
     else if is_info then sret ()
     else if fl AND 0x80 \<noteq> 0 then
       sbind (sget gif_pal) (\<lambda>pal.
       sbind (gctx (stbi__gif_parse_colortable pal (nat (push_bit (nat (fl AND 7)) 2)) (-1))) (\<lambda>pal.
       smodify (\<lambda>g. g\<lparr>gif_pal := pal\<rparr>)))
     else sret ())))))))"

section \<open>Writing pixels\<close>

definition gif_color_table :: "'u stbi__gif \<Rightarrow> stbi_uc list" where
  "gif_color_table g = (if gif_local g then gif_lpal g else gif_pal g)"

text \<open>\<open>while (g->cur_y >= g->max_y && g->parse > 0) \<dots>\<close>. The position in the image is an \<open>int\<close>: a value beyond
  \<open>INT_MAX\<close> is undefined behaviour.\<close>

fun gif_next_pass :: "nat \<Rightarrow> 'u stbi__gif \<Rightarrow> 'u stbi__gif res" where
  "gif_next_pass 0 g = Inr g"
| "gif_next_pass (Suc p) g =
     (if cur_y g \<ge> max_y g then
        let st = 2 ^ Suc p * line_size g in
        if start_y g + st div 2 > INT_MAX then Inl Undefined
        else gif_next_pass p (g\<lparr>gif_step := st, cur_y := start_y g + st div 2, gif_parse := int p\<rparr>)
      else Inr g)"

definition gif_advance :: "'u stbi__gif \<Rightarrow> 'u stbi__gif res" where
  "gif_advance g =
     (let g = g\<lparr>cur_x := cur_x g + 4\<rparr> in
      if cur_x g \<ge> max_x g then
        if cur_y g + gif_step g > INT_MAX then Inl Undefined
        else gif_next_pass (nat (gif_parse g)) (g\<lparr>cur_x := start_x g, cur_y := cur_y g + gif_step g\<rparr>)
      else Inr g)"

definition gif_emit :: "stbi_uc \<Rightarrow> 'u stbi__gif \<Rightarrow> 'u stbi__gif res" where
  "gif_emit suffix g =
     (if cur_y g \<ge> max_y g then Inr g
      else
        let idx = cur_x g + cur_y g; ct = gif_color_table g; c = uint suffix * 4 in
        ebind (arr_set (gif_history g) (idx sdiv 4) 1) (\<lambda>hist.
        ebind (arr_get ct (c + 3)) (\<lambda>c3.
        ebind (if c3 > 128
               then ebind (arr_get ct (c + 2)) (\<lambda>c2. ebind (arr_get ct (c + 1)) (\<lambda>c1. ebind (arr_get ct c) (\<lambda>c0.
                    case gif_out g of None \<Rightarrow> Inl Undefined
                    | Some p \<Rightarrow> ebind (store_from p idx [c2, c1, c0, c3]) (\<lambda>p. Inr (g\<lparr>gif_out := Some p\<rparr>)))))
               else Inr g) (\<lambda>g.
        gif_advance (g\<lparr>gif_history := hist\<rparr>)))))"

fun stbi__out_gif_code :: "nat \<Rightarrow> int \<Rightarrow> 'u stbi__gif \<Rightarrow> 'u stbi__gif res" where
  "stbi__out_gif_code 0 code g = Inl NoReturn"
| "stbi__out_gif_code (Suc fuel) code g =
     ebind (arr_get (gif_codes g) code) (\<lambda>c.
     ebind (if lzw_prefix c \<ge> 0 then stbi__out_gif_code fuel (lzw_prefix c) g else Inr g) (\<lambda>g.
     gif_emit (lzw_suffix c) g))"

section \<open>The raster\<close>

text \<open>The local variables of \<open>stbi__process_gif_raster\<close>; \<open>codemask\<close> is \<open>2 ^ codesize - 1\<close>.\<close>

record gif_raster =
  r_codesize :: nat
  r_avail :: int
  r_oldcode :: int
  r_bits :: int
  r_valid :: int
  r_first :: bool
  r_len :: int

definition gif_skip_len :: "int \<Rightarrow> ('u stbi__gif, unit) step" where
  "gif_skip_len n = gctx (skip_bytes n)"

fun gif_skip_blocks :: "nat \<Rightarrow> ('u stbi__gif, unit) step" where
  "gif_skip_blocks 0 = sfail NoReturn"
| "gif_skip_blocks (Suc fuel) =
     sbind (gctx rd8i) (\<lambda>len.
     if len > 0 then sbind (gif_skip_len len) (\<lambda>_. gif_skip_blocks fuel) else sret ())"

definition gif_init_codes :: "nat \<Rightarrow> stbi__gif_lzw list \<Rightarrow> stbi__gif_lzw list res" where
  "gif_init_codes clear codes =
     efold (\<lambda>i codes. arr_set codes (int i) \<lparr>lzw_prefix = -1, lzw_first = word_of_nat i, lzw_suffix = word_of_nat i\<rparr>)
       [0..<clear] codes"

text \<open>The new entry of the table for the code before and this one.\<close>

definition gif_add_code :: "int \<Rightarrow> gif_raster \<Rightarrow> 'u stbi__gif \<Rightarrow> (gif_raster \<times> 'u stbi__gif) res" where
  "gif_add_code code r g =
     (if r_oldcode r \<ge> 0 then
        let slot = r_avail r; r = r\<lparr>r_avail := r_avail r + 1\<rparr> in
        if r_avail r > 8192 then Inl (Failure ''too many codes'')
        else
          ebind (arr_get (gif_codes g) (r_oldcode r)) (\<lambda>old.
          ebind (arr_get (gif_codes g) slot) (\<lambda>p.
          let p = p\<lparr>lzw_prefix := shortcast (r_oldcode r), lzw_first := lzw_first old\<rparr> in
          ebind (arr_set (gif_codes g) slot p) (\<lambda>codes.
          ebind (if code = r_avail r then Inr (lzw_first p) else ebind (arr_get codes code) (\<lambda>c. Inr (lzw_first c))) (\<lambda>suf.
          ebind (arr_set codes slot (p\<lparr>lzw_suffix := suf\<rparr>)) (\<lambda>codes.
          Inr (r, g\<lparr>gif_codes := codes\<rparr>))))))
      else if code = r_avail r then Inl (Failure ''illegal code in raster'')
      else Inr (r, g))"

definition gif_code_step :: "int \<Rightarrow> gif_raster \<Rightarrow> 'u stbi__gif \<Rightarrow> (gif_raster \<times> 'u stbi__gif) res" where
  "gif_code_step code r g =
     (if r_first r then Inl (Failure ''no clear code'')
      else
        ebind (gif_add_code code r g) (\<lambda>(r, g).
        ebind (stbi__out_gif_code 8193 code g) (\<lambda>g.
        let r = (if r_avail r AND (2 ^ r_codesize r - 1) = 0 \<and> r_avail r \<le> 0x0FFF
                 then r\<lparr>r_codesize := r_codesize r + 1\<rparr> else r) in
        Inr (r\<lparr>r_oldcode := code\<rparr>, g))))"

text \<open>A round of the loop: a byte is read, or a code is processed; \<open>None\<close> is the end of the raster.\<close>

definition gif_read_bits :: "gif_raster \<Rightarrow> ('u stbi__gif, gif_raster option) step" where
  "gif_read_bits r =
     sbind (if r_len r = 0 then gctx rd8i else sret (r_len r)) (\<lambda>len.
     if len = 0 then sret None
     else
       sbind (gctx rd8i) (\<lambda>b.
       if r_valid r < 0 \<or> r_valid r \<ge> 24 then sfail Undefined
       else
         sret (Some (r\<lparr>r_len := len - 1, r_bits := r_bits r OR push_bit (nat (r_valid r)) b,
                       r_valid := r_valid r + 8\<rparr>))))"

definition gif_take_code :: "nat \<Rightarrow> nat \<Rightarrow> gif_raster \<Rightarrow> ('u stbi__gif, gif_raster option) step" where
  "gif_take_code fuel lzw_cs r =
     (let code = r_bits r AND (2 ^ r_codesize r - 1);
          r = r\<lparr>r_bits := drop_bit (r_codesize r) (r_bits r), r_valid := r_valid r - int (r_codesize r)\<rparr>;
          clear = 2 ^ lzw_cs
      in
      if code = clear then
        sret (Some (r\<lparr>r_codesize := lzw_cs + 1, r_avail := clear + 2, r_oldcode := -1, r_first := False\<rparr>))
      else if code = clear + 1 then
        sbind (gif_skip_len (r_len r)) (\<lambda>_. sbind (gif_skip_blocks fuel) (\<lambda>_. sret None))
      else if code \<le> r_avail r then
        (\<lambda>g. case gif_code_step code r g of
           Inl e \<Rightarrow> (Inl e, g)
         | Inr (r, g) \<Rightarrow> (Inr (Some r), g))
      else sfail (Failure ''illegal code in raster''))"

fun gif_raster_loop :: "nat \<Rightarrow> nat \<Rightarrow> nat \<Rightarrow> gif_raster \<Rightarrow> ('u stbi__gif, unit) step" where
  "gif_raster_loop 0 fuel lzw_cs r = sfail NoReturn"
| "gif_raster_loop (Suc n) fuel lzw_cs r =
     sbind (if r_valid r < int (r_codesize r) then gif_read_bits r else gif_take_code fuel lzw_cs r) (\<lambda>os.
     case os of None \<Rightarrow> sret () | Some r \<Rightarrow> gif_raster_loop n fuel lzw_cs r)"

definition gif_raster_start :: "nat \<Rightarrow> gif_raster" where
  "gif_raster_start lzw_cs =
     \<lparr>r_codesize = lzw_cs + 1, r_avail = 2 ^ lzw_cs + 2, r_oldcode = -1, r_bits = 0, r_valid = 0,
      r_first = True, r_len = 0\<rparr>"

definition stbi__process_gif_raster :: "nat \<Rightarrow> ('u stbi__gif, unit) step" where
  "stbi__process_gif_raster fuel =
     sbind (gctx rd8) (\<lambda>b.
     let lzw_cs = unat b in
     if lzw_cs > 12 then sfail Silent
     else
       sbind (sget gif_codes) (\<lambda>codes.
       sbind (slift (gif_init_codes (2 ^ lzw_cs) codes)) (\<lambda>codes.
       sbind (smodify (\<lambda>g. g\<lparr>gif_codes := codes\<rparr>)) (\<lambda>_.
       gif_raster_loop fuel fuel lzw_cs (gif_raster_start lzw_cs)))))"

section \<open>Frames\<close>

text \<open>\<open>if (g->history[pi]) memcpy(&g->out[pi * 4], &src[pi * 4], 4)\<close> for all pixels, where \<open>src\<close> points
  \<open>off\<close> bytes into the array \<open>mem\<close>.\<close>

definition gif_restore :: "nat \<Rightarrow> stbi_uc list \<Rightarrow> int \<Rightarrow> stbi_uc list \<Rightarrow> stbi_uc list \<Rightarrow> stbi_uc list res" where
  "gif_restore pcount mem off hist outp =
     efold (\<lambda>pi outp.
       ebind (arr_get hist (int pi)) (\<lambda>h.
       if h \<noteq> 0 then
         efold (\<lambda>k outp. ebind (arr_get mem (off + int (4 * pi + k))) (\<lambda>v. arr_set outp (int (4 * pi + k)) v)) [0..<4] outp
       else Inr outp)) [0..<pcount] outp"

definition gif_pcount :: "'u stbi__gif \<Rightarrow> nat" where
  "gif_pcount g = nat (gif_w g * gif_h g)"

definition gif_first_frame :: "('u stbi__gif, unit) step" where
  "gif_first_frame =
     sbind (stbi__gif_header False) (\<lambda>_.
     sbind (sget id) (\<lambda>g.
     if \<not> stbi__mad3sizes_valid 4 (gif_w g) (gif_h g) 0 then sfail (Failure ''too large'')
     else
       smodify (\<lambda>g. g\<lparr>gif_out := Some (replicate (4 * gif_pcount g) 0),
         gif_background := replicate (4 * gif_pcount g) 0, gif_history := replicate (gif_pcount g) 0\<rparr>)))"

definition gif_dispose :: "(stbi_uc list \<times> int) option \<Rightarrow> stbi_uc list \<Rightarrow> 'u stbi__gif \<Rightarrow> stbi_uc list res" where
  "gif_dispose two_back outp g =
     (let d = drop_bit 2 (eflags g AND 0x1C);
          d = (if d = 3 \<and> two_back = None then 2 else d)
      in
      if d = 3 then
        case two_back of None \<Rightarrow> Inr outp
        | Some (mem, off) \<Rightarrow> gif_restore (gif_pcount g) mem off (gif_history g) outp
      else if d = 2 then gif_restore (gif_pcount g) (gif_background g) 0 (gif_history g) outp
      else Inr outp)"

text \<open>The result says whether this is the first frame.\<close>

definition gif_begin_frame :: "(stbi_uc list \<times> int) option \<Rightarrow> ('u stbi__gif, bool) step" where
  "gif_begin_frame two_back =
     sbind (sget id) (\<lambda>g.
     sbind (case gif_out g of
         None \<Rightarrow> sbind gif_first_frame (\<lambda>_. sret True)
       | Some outp \<Rightarrow>
           sbind (slift (gif_dispose two_back outp g)) (\<lambda>outp.
           sbind (smodify (\<lambda>g. g\<lparr>gif_out := Some outp, gif_background := outp\<rparr>)) (\<lambda>_. sret False))) (\<lambda>fst.
     sbind (smodify (\<lambda>g. g\<lparr>gif_history := replicate (gif_pcount g) 0\<rparr>)) (\<lambda>_. sret fst)))"

text \<open>Pixels of the first frame that were not drawn get the background colour.\<close>

definition gif_fill_background :: "('u stbi__gif, unit) step" where
  "gif_fill_background =
     sbind (sget id) (\<lambda>g.
     case gif_out g of None \<Rightarrow> sfail Undefined
     | Some outp \<Rightarrow>
         sbind (sfold (\<lambda>pi outp.
             sbind (slift (arr_get (gif_history g) (int pi))) (\<lambda>h.
             if h = 0 then
               sbind (sget gif_pal) (\<lambda>pal.
               sbind (slift (arr_set pal (bgindex g * 4 + 3) 255)) (\<lambda>pal.
               sbind (smodify (\<lambda>g. g\<lparr>gif_pal := pal\<rparr>)) (\<lambda>_.
               slift (efold (\<lambda>k outp. ebind (arr_get pal (bgindex g * 4 + int k)) (\<lambda>v. arr_set outp (int (4 * pi + k)) v))
                 [0..<4] outp))))
             else sret outp)) [0..<gif_pcount g] outp) (\<lambda>outp.
         smodify (\<lambda>g. g\<lparr>gif_out := Some outp\<rparr>)))"

definition gif_geometry :: "int \<Rightarrow> int \<Rightarrow> int \<Rightarrow> int \<Rightarrow> 'u stbi__gif \<Rightarrow> 'u stbi__gif" where
  "gif_geometry x y w h g =
     (let ls = gif_w g * 4; sx = x * 4; sy = y * ls; my = sy + h * ls
      in g\<lparr>line_size := ls, start_x := sx, start_y := sy, max_x := sx + w * 4, max_y := my,
           cur_x := sx, cur_y := (if w = 0 then my else sy)\<rparr>)"

definition gif_interlace :: "int \<Rightarrow> 'u stbi__gif \<Rightarrow> 'u stbi__gif" where
  "gif_interlace fl g =
     (if fl AND 0x40 \<noteq> 0 then g\<lparr>lflags := fl, gif_step := 8 * line_size g, gif_parse := 3\<rparr>
      else g\<lparr>lflags := fl, gif_step := line_size g, gif_parse := 0\<rparr>)"

definition gif_choose_table :: "('u stbi__gif, unit) step" where
  "gif_choose_table =
     sbind (sget id) (\<lambda>g.
     if lflags g AND 0x80 \<noteq> 0 then
       sbind (gctx (stbi__gif_parse_colortable (gif_lpal g) (nat (push_bit (nat (lflags g AND 7)) 2))
         (if eflags g AND 1 \<noteq> 0 then transparent g else -1))) (\<lambda>pal.
       smodify (\<lambda>g. g\<lparr>gif_lpal := pal, gif_local := True\<rparr>))
     else if gif_flags g AND 0x80 \<noteq> 0 then smodify (\<lambda>g. g\<lparr>gif_local := False\<rparr>)
     else sfail (Failure ''missing color table''))"

definition gif_image :: "nat \<Rightarrow> bool \<Rightarrow> ('u stbi__gif, unit) step" where
  "gif_image fuel first_frame =
     sbind (gctx rd16le) (\<lambda>x. sbind (gctx rd16le) (\<lambda>y. sbind (gctx rd16le) (\<lambda>w. sbind (gctx rd16le) (\<lambda>h.
     sbind (sget id) (\<lambda>g.
     if x + w > gif_w g \<or> y + h > gif_h g then sfail (Failure ''bad Image Descriptor'')
     else
       sbind (smodify (gif_geometry x y w h)) (\<lambda>_.
       sbind (gctx rd8i) (\<lambda>fl.
       sbind (smodify (gif_interlace fl)) (\<lambda>_.
       sbind gif_choose_table (\<lambda>_.
       sbind (stbi__process_gif_raster fuel) (\<lambda>_.
       swhen (first_frame \<and> bgindex g > 0) gif_fill_background))))))))))"

text \<open>\<open>g->pal[transparent][3] = v\<close>\<close>

definition gif_set_alpha :: "int \<Rightarrow> stbi_uc \<Rightarrow> ('u stbi__gif, unit) step" where
  "gif_set_alpha i v =
     sbind (sget gif_pal) (\<lambda>pal.
     sbind (slift (arr_set pal (i * 4 + 3) v)) (\<lambda>pal.
     smodify (\<lambda>g. g\<lparr>gif_pal := pal\<rparr>)))"

definition gif_control :: "('u stbi__gif, unit) step" where
  "gif_control =
     sbind (gctx rd8i) (\<lambda>ef. sbind (gctx rd16le) (\<lambda>dl.
     sbind (smodify (\<lambda>g. g\<lparr>eflags := ef, gif_delay := 10 * dl\<rparr>)) (\<lambda>_.
     sbind (sget transparent) (\<lambda>t.
     sbind (swhen (t \<ge> 0) (gif_set_alpha t 255)) (\<lambda>_.
     if ef AND 1 \<noteq> 0 then
       sbind (gctx rd8i) (\<lambda>t.
       sbind (smodify (\<lambda>g. g\<lparr>transparent := t\<rparr>)) (\<lambda>_.
       swhen (t \<ge> 0) (gif_set_alpha t 0)))
     else sbind (gif_skip_len 1) (\<lambda>_. smodify (\<lambda>g. g\<lparr>transparent := -1\<rparr>)))))))"

definition gif_extension :: "nat \<Rightarrow> ('u stbi__gif, unit) step" where
  "gif_extension fuel =
     sbind (gctx rd8) (\<lambda>ext.
     if ext = 0xF9 then
       sbind (gctx rd8i) (\<lambda>len.
       if len = 4 then sbind gif_control (\<lambda>_. gif_skip_blocks fuel)
       else gif_skip_len len)
     else gif_skip_blocks fuel)"

text \<open>The loop over the blocks of a frame: \<open>True\<close> when an image was decoded, \<open>False\<close> at the end of
  the stream.\<close>

fun gif_blocks :: "nat \<Rightarrow> nat \<Rightarrow> bool \<Rightarrow> ('u stbi__gif, bool) step" where
  "gif_blocks 0 fuel first_frame = sfail NoReturn"
| "gif_blocks (Suc n) fuel first_frame =
     sbind (gctx rd8) (\<lambda>tag.
     if tag = 0x2C then sbind (gif_image fuel first_frame) (\<lambda>_. sret True)
     else if tag = 0x21 then sbind (gif_extension fuel) (\<lambda>_. gif_blocks n fuel first_frame)
     else if tag = 0x3B then sret False
     else sfail (Failure ''unknown code''))"

definition stbi__gif_load_next :: "nat \<Rightarrow> (stbi_uc list \<times> int) option \<Rightarrow> ('u stbi__gif, bool) step" where
  "stbi__gif_load_next fuel two_back =
     sbind (gif_begin_frame two_back) (gif_blocks fuel fuel)"

section \<open>Entry points\<close>

definition gif_run :: "('u stbi__gif, 'a) step \<Rightarrow> ('u stbi__context, 'a) step" where
  "gif_run m s = (case m (gif_zero s) of (r, g) \<Rightarrow> (r, gif_s g))"

definition gif_do_load :: "nat \<Rightarrow> int \<Rightarrow> ('u stbi__gif, loaded) step" where
  "gif_do_load fuel req_comp =
     sbind (stbi__gif_load_next fuel None) (\<lambda>u.
     if \<not> u then sfail Silent
     else
       sbind (sget id) (\<lambda>g.
       case gif_out g of None \<Rightarrow> sfail Undefined
       | Some outp \<Rightarrow>
           sbind (slift (if req_comp \<noteq> 0 \<and> req_comp \<noteq> 4
                         then stbi__convert_format outp 4 req_comp (u32cast (gif_w g)) (u32cast (gif_h g))
                         else Inr outp)) (\<lambda>outp.
           sret \<lparr>ld_data = Pixels8 outp, ld_x = nat (gif_w g), ld_y = nat (gif_h g), ld_comp = 4\<rparr>)))"

definition stbi__gif_load :: "nat \<Rightarrow> int \<Rightarrow> ('u stbi__context, loaded) step" where
  "stbi__gif_load fuel req_comp = gif_run (gif_do_load fuel req_comp)"

definition stbi__gif_info_raw :: "('u stbi__context, int \<times> int \<times> int) step" where
  "stbi__gif_info_raw s =
     (case stbi__gif_header True (gif_zero s) of
        (Inl e, g) \<Rightarrow> (Inl e, stbi__rewind (gif_s g))
      | (Inr _, g) \<Rightarrow> (Inr (gif_w g, gif_h g, 4), gif_s g))"

definition stbi__gif_info :: "('u stbi__context, int \<times> int \<times> int) step" where
  "stbi__gif_info = stbi__gif_info_raw"

section \<open>Animations\<close>

text \<open>The frames collected so far in \<open>outp\<close> (\<open>None\<close> for \<open>NULL\<close>) with their delays. \<open>two_back\<close> is
  \<open>out - 2 * stride\<close>, a pointer before the start of \<open>out\<close>. A frame that fails to load ends the animation like
  its end does. The sizes are \<open>int\<close> products.\<close>

fun gif_frames :: "nat \<Rightarrow> nat \<Rightarrow> nat \<Rightarrow> stbi_uc list option \<Rightarrow> int list \<Rightarrow> (stbi_uc list \<times> int) option \<Rightarrow>
    ('u stbi__gif, nat \<times> stbi_uc list option \<times> int list) step" where
  "gif_frames 0 fuel layers outp delays two_back = sfail NoReturn"
| "gif_frames (Suc n) fuel layers outp delays two_back =
     sbind (sattempt (stbi__gif_load_next fuel two_back)) (\<lambda>u.
     if u \<noteq> Inr True then sret (layers, outp, delays)
     else
       sbind (sget id) (\<lambda>g.
       let layers = layers + 1; stride = gif_w g * gif_h g * 4 in
       if int layers * stride > INT_MAX then sfail Undefined
       else
         case gif_out g of None \<Rightarrow> sfail Undefined
         | Some u \<Rightarrow>
             let outp = (case outp of None \<Rightarrow> u | Some os \<Rightarrow> os @ u) in
             gif_frames n fuel layers (Some outp) (delays @ [gif_delay g])
               (if layers \<ge> 2 then Some (outp, - 2 * stride) else two_back)))"

record gif_animation =
  anim_data :: "stbi_uc list"
  anim_x :: int
  anim_y :: int
  anim_z :: nat
  anim_delays :: "int list"

definition gif_do_main :: "nat \<Rightarrow> int \<Rightarrow> ('u stbi__gif, gif_animation) step" where
  "gif_do_main fuel req_comp =
     sbind (gif_frames fuel fuel 0 None [] None) (\<lambda>(layers, outp, delays).
     sbind (sget id) (\<lambda>g.
     sbind (slift (if req_comp \<noteq> 0 \<and> req_comp \<noteq> 4
              then stbi__convert_format (case outp of None \<Rightarrow> [] | Some os \<Rightarrow> os) 4 req_comp
                     (u32cast (int layers * gif_w g)) (u32cast (gif_h g))
              else case outp of None \<Rightarrow> Inl Silent | Some os \<Rightarrow> Inr os)) (\<lambda>d.
     sret \<lparr>anim_data = d, anim_x = gif_w g, anim_y = gif_h g, anim_z = layers, anim_delays = delays\<rparr>)))"

definition stbi__load_gif_main :: "nat \<Rightarrow> int \<Rightarrow> ('u stbi__context, gif_animation) step" where
  "stbi__load_gif_main fuel req_comp =
     sbind stbi__gif_test (\<lambda>t.
     if t then gif_run (gif_do_main fuel req_comp) else sfail (Failure ''not GIF''))"

end
