(* ===== verification/Stbi_Hdr.thy ===== *)
theory Stbi_Hdr
  imports Stbi_Png Stbi_Float
begin

text \<open>
  The Radiance decoder of \<open>src/stb_image.h\<close> (lines 7043-7333) and the conversion of its samples to
  bytes (1879-1906, 1570-1584). \<open>pow\<close> of the C library is a parameter of the conversion. The
  loops that read lines have fuel.
\<close>

section \<open>Tests and tokens\<close>

definition ascii :: "string \<Rightarrow> stbi_uc list" where
  "ascii cs = map (\<lambda>c. word_of_nat (of_char c)) cs"

definition stbi__hdr_test_core :: "stbi_uc list \<Rightarrow> ('u stbi__context, unit) step" where
  "stbi__hdr_test_core signature =
     sbind (sfold (\<lambda>c _. sbind rd8 (\<lambda>b. sguard (b = c) Silent)) signature ()) (\<lambda>_. smodify stbi__rewind)"

definition stbi__hdr_test :: "('u stbi__context, bool) step" where
  "stbi__hdr_test =
     sbind (stry (stbi__hdr_test_core (ascii ''#?RADIANCE'' @ [10]))) (\<lambda>r.
     sbind (smodify stbi__rewind) (\<lambda>_.
     if r then sret True
     else
       sbind (stry (stbi__hdr_test_core (ascii ''#?RGBE'' @ [10]))) (\<lambda>r.
       sbind (smodify stbi__rewind) (\<lambda>_. sret r))))"

definition STBI__HDR_BUFLEN :: nat where "STBI__HDR_BUFLEN = 1024"

fun hdr_flush :: "nat \<Rightarrow> ('u stbi__context, unit) step" where
  "hdr_flush 0 = sfail NoReturn"
| "hdr_flush (Suc fuel) =
     sbind (sget stbi__at_eof) (\<lambda>eof.
     if eof then sret () else sbind rd8 (\<lambda>c. if c \<noteq> 10 then hdr_flush fuel else sret ()))"

text \<open>The loop of \<open>stbi__hdr_gettoken\<close>: \<open>buf\<close> are the characters stored so far.\<close>

fun hdr_token :: "nat \<Rightarrow> stbi_uc list \<Rightarrow> stbi_uc \<Rightarrow> ('u stbi__context, stbi_uc list) step" where
  "hdr_token 0 buf c = sfail NoReturn"
| "hdr_token (Suc fuel) buf c =
     sbind (sget stbi__at_eof) (\<lambda>eof.
     if \<not> eof \<and> c \<noteq> 10 then
       let buf = buf @ [c] in
       if length buf = STBI__HDR_BUFLEN - 1 then sbind (hdr_flush fuel) (\<lambda>_. sret buf)
       else sbind rd8 (hdr_token fuel buf)
     else sret buf)"

text \<open>The string in the buffer ends at the first zero byte.\<close>

definition stbi__hdr_gettoken :: "nat \<Rightarrow> ('u stbi__context, stbi_uc list) step" where
  "stbi__hdr_gettoken fuel = sbind rd8 (\<lambda>c. sbind (hdr_token fuel [] c) (\<lambda>buf. sret (takeWhile (\<lambda>b. b \<noteq> 0) buf)))"

text \<open>The lines up to an empty one; whether the format line was among them.\<close>

fun hdr_lines :: "nat \<Rightarrow> nat \<Rightarrow> bool \<Rightarrow> ('u stbi__context, bool) step" where
  "hdr_lines 0 fuel valid = sfail NoReturn"
| "hdr_lines (Suc n) fuel valid =
     sbind (stbi__hdr_gettoken fuel) (\<lambda>token.
     if token = [] then sret valid
     else hdr_lines n fuel (valid \<or> token = ascii ''FORMAT=32-bit_rle_rgbe''))"

section \<open>Numbers\<close>

definition c_isspace :: "stbi_uc \<Rightarrow> bool" where
  "c_isspace c \<longleftrightarrow> c = 32 \<or> 9 \<le> c \<and> c \<le> 13"

definition c_isdigit :: "stbi_uc \<Rightarrow> bool" where
  "c_isdigit c \<longleftrightarrow> 48 \<le> c \<and> c \<le> 57"

definition digits_value :: "stbi_uc list \<Rightarrow> int" where
  "digits_value ds = foldl (\<lambda>v d. v * 10 + (uint d - 48)) 0 ds"

text \<open>\<open>strtol(s, &end, 10)\<close> with 64-bit \<open>long\<close>: the value, clamped to the type, and what is left; without
  digits nothing is consumed.\<close>

definition strtol :: "stbi_uc list \<Rightarrow> int \<times> stbi_uc list" where
  "strtol s =
     (let t = dropWhile c_isspace s;
          neg = (t \<noteq> [] \<and> hd t = 45);
          t = (if t \<noteq> [] \<and> (hd t = 45 \<or> hd t = 43) then tl t else t);
          ds = takeWhile c_isdigit t;
          v = digits_value ds
      in if ds = [] then (0, s)
         else (max (- (2 ^ 63)) (min (2 ^ 63 - 1) (if neg then - v else v)), drop (length ds) t))"

definition intcast :: "int \<Rightarrow> int" where
  "intcast v = sint (word_of_int v :: uint32)"

text \<open>The line \<open>-Y height +X width\<close>.\<close>

definition hdr_size :: "stbi_uc list \<Rightarrow> (int \<times> int) option" where
  "hdr_size token =
     (if take 3 token \<noteq> ascii ''-Y '' then None
      else
        case strtol (drop 3 token) of (h, rest) \<Rightarrow>
          let rest = dropWhile (\<lambda>c. c = 32) rest in
          if take 3 rest \<noteq> ascii ''+X '' then None
          else Some (intcast h, intcast (fst (strtol (drop 3 rest)))))"

definition hdr_header :: "nat \<Rightarrow> ('u stbi__context, int \<times> int) step" where
  "hdr_header fuel =
     sbind (hdr_lines fuel fuel False) (\<lambda>valid.
     if \<not> valid then sfail (Failure ''unsupported format'')
     else
       sbind (stbi__hdr_gettoken fuel) (\<lambda>token.
       case hdr_size token of None \<Rightarrow> sfail (Failure ''unsupported data layout'') | Some hw \<Rightarrow> sret hw))"

section \<open>Pixels\<close>

text \<open>The floats \<open>stbi__hdr_convert\<close> stores at \<open>output\<close>, from \<open>output[0]\<close> on.\<close>

definition stbi__hdr_convert :: "stbi_uc list \<Rightarrow> int \<Rightarrow> f32 list" where
  "stbi__hdr_convert input req_comp =
     (if input ! 3 \<noteq> 0 then
        let f1 = Fin (pow2 (uint (input ! 3) - 136));
            v = (\<lambda>k. f32_mul (f32_of_int (uint (input ! k))) f1)
        in if req_comp \<le> 2
           then f32_div (f32_mul (f32_of_int (uint (input ! 0) + uint (input ! 1) + uint (input ! 2))) f1) (f32_of_int 3) #
                (if req_comp = 2 then [f32_of_int 1] else [])
           else [v 0, v 1, v 2] @ (if req_comp = 4 then [f32_of_int 1] else [])
      else if req_comp = 4 then [Fin 0, Fin 0, Fin 0, f32_of_int 1]
      else if req_comp = 3 then [Fin 0, Fin 0, Fin 0]
      else if req_comp = 2 then [Fin 0, f32_of_int 1]
      else if req_comp = 1 then [Fin 0]
      else [])"

definition hdr_put :: "int \<Rightarrow> nat \<Rightarrow> stbi_uc list \<Rightarrow> f32 list \<Rightarrow> f32 list res" where
  "hdr_put req_comp i rgbe dat = store_from dat (int i * req_comp) (stbi__hdr_convert rgbe req_comp)"

text \<open>Flat data from pixel \<open>from\<close> on. The result of \<open>stbi__getn\<close> is not looked at: what a short read
  did not store is undetermined in C and zero here.\<close>

definition hdr_flat :: "int \<Rightarrow> nat \<Rightarrow> nat \<Rightarrow> f32 list \<Rightarrow> ('u stbi__context, f32 list) step" where
  "hdr_flat req_comp from n dat =
     sfold (\<lambda>i dat.
       sbind (stot (\<lambda>s. getn_stored s 4)) (\<lambda>bs.
       slift (hdr_put req_comp i (bs @ replicate (4 - length bs) 0) dat))) [from..<n] dat"

text \<open>One component of a run-length encoded scanline, from position \<open>i\<close> on.\<close>

function hdr_rle :: "nat \<Rightarrow> nat \<Rightarrow> nat \<Rightarrow> stbi_uc list \<Rightarrow> ('u stbi__context, stbi_uc list) step" where
  "hdr_rle width k i line =
     (if width \<le> i then sret line
      else
        sbind rd8 (\<lambda>b.
        if b > 128 then
          sbind rd8 (\<lambda>value.
          let count = unat (b - 128) in
          if count = 0 \<or> count > width - i then sfail (Failure ''corrupt'')
          else
            sbind (slift (efold (\<lambda>z line. arr_set line (int ((i + z) * 4 + k)) value) [0..<count] line))
              (hdr_rle width k (i + count)))
        else
          let count = unat b in
          if count = 0 \<or> count > width - i then sfail (Failure ''corrupt'')
          else
            sbind (sfold (\<lambda>z line. sbind rd8 (\<lambda>v. slift (arr_set line (int ((i + z) * 4 + k)) v))) [0..<count] line)
              (hdr_rle width k (i + count))))"
  by pat_completeness auto
termination
  by (relation "measure (\<lambda>(width, k, i, line). width - i)") auto

declare hdr_rle.simps [simp del]

text \<open>The scanlines from row \<open>j\<close> on; a scanline that is not run-length encoded makes the decoder start
  over with flat data.\<close>

fun hdr_scanlines :: "nat \<Rightarrow> int \<Rightarrow> nat \<Rightarrow> nat \<Rightarrow> nat \<Rightarrow> stbi_uc list \<Rightarrow> f32 list \<Rightarrow> ('u stbi__context, f32 list) step" where
  "hdr_scanlines 0 req_comp width height j line dat = sret dat"
| "hdr_scanlines (Suc rows) req_comp width height j line dat =
     sbind rd8 (\<lambda>c1. sbind rd8 (\<lambda>c2. sbind rd8 (\<lambda>len.
     if c1 \<noteq> 2 \<or> c2 \<noteq> 2 \<or> len AND 0x80 \<noteq> 0 then
       sbind rd8 (\<lambda>e.
       sbind (slift (hdr_put req_comp 0 [c1, c2, len, e] dat))
         (hdr_flat req_comp 1 (width * height)))
     else
       sbind rd8 (\<lambda>lo.
       if push_bit 8 (uint len) OR uint lo \<noteq> int width then sfail (Failure ''invalid decoded scanline length'')
       else
         sbind (sfold (\<lambda>k. hdr_rle width k 0) [0..<4] line) (\<lambda>line.
         sbind (slift (efold (\<lambda>i. hdr_put req_comp (j * width + i) (take 4 (drop (4 * i) line))) [0..<width] dat)) (\<lambda>dat.
         hdr_scanlines rows req_comp width height (j + 1) line dat))))))"

record hdr_loaded =
  hdr_data :: "f32 list"
  hdr_x :: int
  hdr_y :: int

definition stbi__hdr_load :: "nat \<Rightarrow> int \<Rightarrow> ('u stbi__context, hdr_loaded) step" where
  "stbi__hdr_load fuel req_comp =
     sbind (stbi__hdr_gettoken fuel) (\<lambda>token.
     if token \<noteq> ascii ''#?RADIANCE'' \<and> token \<noteq> ascii ''#?RGBE'' then sfail (Failure ''not HDR'')
     else
       sbind (hdr_header fuel) (\<lambda>(height, width).
       if height > int STBI_MAX_DIMENSIONS then sfail (Failure ''too large'')
       else if width > int STBI_MAX_DIMENSIONS then sfail (Failure ''too large'')
       else
         let req_comp = (if req_comp = 0 then 3 else req_comp) in
         if \<not> stbi__mad4sizes_valid width height req_comp 4 0 then sfail (Failure ''too large'')
         else
           let w = nat width; h = nat height; dat = replicate (nat (width * height * req_comp)) (Fin 0) in
           sbind (if width < 8 \<or> width \<ge> 32768 then hdr_flat req_comp 0 (w * h) dat
                  else hdr_scanlines h req_comp w h 0 (replicate (4 * w) 0) dat) (\<lambda>dat.
           sret \<lparr>hdr_data = dat, hdr_x = width, hdr_y = height\<rparr>)))"

definition hdr_rewind :: "('u stbi__context, 'a) step" where
  "hdr_rewind = sbind (smodify stbi__rewind) (\<lambda>_. sfail Silent)"

text \<open>\<open>stbi__hdr_info\<close> reads the header again after a test that rewound the context, the signature line as the
  first line.\<close>

definition stbi__hdr_info :: "nat \<Rightarrow> ('u stbi__context, int \<times> int \<times> int) step" where
  "stbi__hdr_info fuel =
     sbind stbi__hdr_test (\<lambda>t.
     if \<not> t then hdr_rewind
     else
       sbind (sattempt (hdr_header fuel)) (\<lambda>r.
       case r of Inl _ \<Rightarrow> hdr_rewind | Inr (height, width) \<Rightarrow> sret (width, height, 3)))"

section \<open>Conversion to bytes\<close>

text \<open>\<open>powf x y\<close> is \<open>(float) pow(x, y)\<close>. The two settings are \<open>stbi__h2l_gamma_i\<close> and
  \<open>stbi__h2l_scale_i\<close>.\<close>

record hdr_settings =
  h2l_gamma_i :: f32
  h2l_scale_i :: f32

definition hdr_settings_start :: hdr_settings where
  "hdr_settings_start = \<lparr>h2l_gamma_i = f32_div (f32_of_int 1) (f32_round (22 / 10)), h2l_scale_i = f32_of_int 1\<rparr>"

definition stbi_hdr_to_ldr_gamma :: "f32 \<Rightarrow> hdr_settings \<Rightarrow> hdr_settings" where
  "stbi_hdr_to_ldr_gamma gamma c = c\<lparr>h2l_gamma_i := f32_div (f32_of_int 1) gamma\<rparr>"

definition stbi_hdr_to_ldr_scale :: "f32 \<Rightarrow> hdr_settings \<Rightarrow> hdr_settings" where
  "stbi_hdr_to_ldr_scale scale c = c\<lparr>h2l_scale_i := f32_div (f32_of_int 1) scale\<rparr>"

text \<open>\<open>z = v * 255 + 0.5f\<close>, clamped and converted.\<close>

definition hdr_byte :: "f32 \<Rightarrow> stbi_uc res" where
  "hdr_byte v =
     (let z = f32_add (f32_mul v (f32_of_int 255)) (Fin (1 / 2));
          z = (if f32_less z (Fin 0) then Fin 0 else z);
          z = (if f32_less (Fin 255) z then Fin 255 else z)
      in ebind (f32_to_int INT_MIN INT_MAX z) (\<lambda>i. Inr (STBI__BYTECAST i)))"

definition hdr_pixel :: "(f32 \<Rightarrow> f32 \<Rightarrow> f32) \<Rightarrow> hdr_settings \<Rightarrow> nat \<Rightarrow> f32 list \<Rightarrow> stbi_uc list res" where
  "hdr_pixel powf cfg nc px =
     (let n = (if odd nc then nc else nc - 1) in
      efold (\<lambda>k outp.
        ebind (arr_get px (int k)) (\<lambda>v.
        ebind (hdr_byte (if k < n then powf (f32_mul v (h2l_scale_i cfg)) (h2l_gamma_i cfg) else v)) (\<lambda>b.
        Inr (outp @ [b])))) [0..<nc] [])"

definition stbi__hdr_to_ldr ::
    "(f32 \<Rightarrow> f32 \<Rightarrow> f32) \<Rightarrow> hdr_settings \<Rightarrow> f32 list \<Rightarrow> int \<Rightarrow> int \<Rightarrow> int \<Rightarrow> stbi_uc list res" where
  "stbi__hdr_to_ldr powf cfg dat x y nc =
     (case stbi__malloc_mad3 x y nc 0 of
        None \<Rightarrow> Inl (Failure ''outofmem'')
      | Some _ \<Rightarrow>
          efold (\<lambda>i outp.
            ebind (hdr_pixel powf cfg (nat nc) (take (nat nc) (drop (i * nat nc) dat))) (\<lambda>px.
            Inr (outp @ px))) [0..<nat (x * y)] [])"

end
