(* ===== verification/Stbi_Load.thy ===== *)
theory Stbi_Load
  imports Stbi_Png_Load Stbi_Jpeg_Output Stbi_Bmp Stbi_Tga Stbi_Pnm Stbi_Psd Stbi_Pic Stbi_Gif Stbi_Hdr
begin

text \<open>
  The dispatcher of \<open>src/stb_image.h\<close> (lines 1137-1188, 7632-7688), the work on the loaded image
  (1259-1321, 1857-1880) and the entry points for users of the library (1366-1570, 7691-7760). \<open>env\<close> has the
  settings of the process, the C library's \<open>pow\<close> on floats, and the fuel for the loops of the
  decoders. A pointer that came back as \<open>NULL\<close> is a failure here.
\<close>

section \<open>Environment\<close>

record stbi_env =
  env_cfg :: stbi__config
  env_h2l :: hdr_settings
  l2h_gamma :: f32
  l2h_scale :: f32
  env_pow :: "f32 \<Rightarrow> f32 \<Rightarrow> f32"
  env_fuel :: nat

definition stbi_ldr_to_hdr_gamma :: "f32 \<Rightarrow> stbi_env \<Rightarrow> stbi_env" where
  "stbi_ldr_to_hdr_gamma gamma env = env\<lparr>l2h_gamma := gamma\<rparr>"

definition stbi_ldr_to_hdr_scale :: "f32 \<Rightarrow> stbi_env \<Rightarrow> stbi_env" where
  "stbi_ldr_to_hdr_scale scale env = env\<lparr>l2h_scale := scale\<rparr>"

definition flip_on_load :: "stbi_env \<Rightarrow> bool" where
  "flip_on_load env = stbi__flag_value (vertically_flip_on_load (env_cfg env))"

section \<open>The dispatcher\<close>

text \<open>\<open>stbi__load_main\<close>: the tests in the order of the source, each with its loader. \<open>bpc\<close> is the sample
  width the caller prefers, which only the PSD loader looks at.\<close>

definition load_hdr :: "stbi_env \<Rightarrow> int \<Rightarrow> ('u stbi__context, loaded) step" where
  "load_hdr env req_comp =
     sbind (stbi__hdr_load (env_fuel env) req_comp) (\<lambda>hdr.
     sbind (slift (stbi__hdr_to_ldr (env_pow env) (env_h2l env) (hdr_data hdr) (hdr_x hdr) (hdr_y hdr)
              (if req_comp \<noteq> 0 then req_comp else 3))) (\<lambda>d.
     sret \<lparr>ld_data = Pixels8 d, ld_x = nat (hdr_x hdr), ld_y = nat (hdr_y hdr), ld_comp = 3\<rparr>))"

fun try_formats :: "(('u stbi__context, bool) step \<times> ('u stbi__context, 'a) step) list \<Rightarrow> ('u stbi__context, 'a) step" where
  "try_formats [] = sfail (Failure ''unknown image type'')"
| "try_formats ((test, load) # fs) = sbind test (\<lambda>t. if t then load else try_formats fs)"

definition stbi__load_main :: "stbi_env \<Rightarrow> int \<Rightarrow> int \<Rightarrow> ('u stbi__context, loaded) step" where
  "stbi__load_main env req_comp bpc =
     (let fuel = env_fuel env in
      try_formats
        [(stot stbi__png_test, stbi__png_load fuel (env_cfg env) req_comp),
         (stbi__bmp_test, stbi__bmp_load req_comp),
         (stbi__gif_test, stbi__gif_load fuel req_comp),
         (stbi__psd_test, stbi__psd_load fuel req_comp bpc),
         (stbi__pic_test, stbi__pic_load fuel req_comp),
         (stbi__jpeg_test fuel, stbi__jpeg_load fuel req_comp),
         (stbi__pnm_test, stbi__pnm_load fuel req_comp),
         (stbi__hdr_test, load_hdr env req_comp),
         (stbi__tga_test, stbi__tga_load req_comp)])"

section \<open>Work on the loaded image\<close>

text \<open>\<open>channels\<close> of the result: those asked for, or those of the file.\<close>

definition channels_of :: "int \<Rightarrow> loaded \<Rightarrow> int" where
  "channels_of req_comp r = (if req_comp = 0 then ld_comp r else req_comp)"

text \<open>The flip as the callers use it: the image has to have the rows it is said to have.\<close>

definition flip_image :: "'b list \<Rightarrow> nat \<Rightarrow> nat \<Rightarrow> int \<Rightarrow> 'b list res" where
  "flip_image img w h bytes_per_pixel =
     (if h < 2 then Inr img
      else if length img < w * h * nat bytes_per_pixel then Inl Undefined
      else Inr (stbi__vertical_flip img w h (nat bytes_per_pixel)))"

text \<open>The bytes of 16-bit samples in memory, low byte first.\<close>

definition sample_bytes :: "stbi_us list \<Rightarrow> stbi_uc list" where
  "sample_bytes d = concat (map (\<lambda>v. [ucast v, ucast (drop_bit 8 v)]) d)"

definition stbi__load_and_postprocess_8bit :: "stbi_env \<Rightarrow> int \<Rightarrow> ('u stbi__context, loaded) step" where
  "stbi__load_and_postprocess_8bit env req_comp =
     sbind (stbi__load_main env req_comp 8) (\<lambda>r.
     sbind (slift (case ld_data r of
         Pixels8 d \<Rightarrow> Inr d
       | Pixels16 d \<Rightarrow> stbi__convert_16_to_8 d (int (ld_x r)) (int (ld_y r)) (channels_of req_comp r))) (\<lambda>d.
     sbind (slift (if flip_on_load env then flip_image d (ld_x r) (ld_y r) (channels_of req_comp r) else Inr d)) (\<lambda>d.
     sret (r\<lparr>ld_data := Pixels8 d\<rparr>))))"

definition stbi__load_and_postprocess_16bit :: "stbi_env \<Rightarrow> int \<Rightarrow> ('u stbi__context, loaded) step" where
  "stbi__load_and_postprocess_16bit env req_comp =
     sbind (stbi__load_main env req_comp 16) (\<lambda>r.
     sbind (slift (case ld_data r of
         Pixels16 d \<Rightarrow> Inr d
       | Pixels8 d \<Rightarrow> stbi__convert_8_to_16 d (int (ld_x r)) (int (ld_y r)) (channels_of req_comp r))) (\<lambda>d.
     sbind (slift (if flip_on_load env
         then ebind (flip_image (sample_bytes d) (ld_x r) (ld_y r) (channels_of req_comp r * 2)) (\<lambda>bs. Inr (samples_of bs))
         else Inr d)) (\<lambda>d.
     sret (r\<lparr>ld_data := Pixels16 d\<rparr>))))"

section \<open>Images of floats\<close>

record float_image =
  fl_data :: "f32 list"
  fl_x :: nat
  fl_y :: nat
  fl_comp :: int

text \<open>The four bytes of a float, which the flip moves as they are.\<close>

definition float_bytes :: "f32 list \<Rightarrow> (f32 \<times> nat) list" where
  "float_bytes d = concat (map (\<lambda>v. map (Pair v) [0..<4]) d)"

definition bytes_floats :: "(f32 \<times> nat) list \<Rightarrow> f32 list" where
  "bytes_floats bs = map (\<lambda>i. fst (bs ! (4 * i))) [0..<length bs div 4]"

definition stbi__float_postprocess :: "stbi_env \<Rightarrow> int \<Rightarrow> float_image \<Rightarrow> float_image res" where
  "stbi__float_postprocess env req_comp r =
     (if flip_on_load env then
        ebind (flip_image (float_bytes (fl_data r)) (fl_x r) (fl_y r)
          ((if req_comp \<noteq> 0 then req_comp else fl_comp r) * 4)) (\<lambda>bs.
        Inr (r\<lparr>fl_data := bytes_floats bs\<rparr>))
      else Inr r)"

definition ldr_sample :: "stbi_env \<Rightarrow> nat \<Rightarrow> nat \<Rightarrow> stbi_uc \<Rightarrow> f32" where
  "ldr_sample env n k v =
     (let q = f32_div (f32_of_int (uint v)) (f32_of_int 255)
      in if k < n then f32_mul (env_pow env q (l2h_gamma env)) (l2h_scale env) else q)"

definition stbi__ldr_to_hdr :: "stbi_env \<Rightarrow> stbi_uc list \<Rightarrow> nat \<Rightarrow> nat \<Rightarrow> int \<Rightarrow> f32 list res" where
  "stbi__ldr_to_hdr env dat x y nc =
     (case stbi__malloc_mad4 (int x) (int y) nc 4 0 of
        None \<Rightarrow> Inl (Failure ''outofmem'')
      | Some _ \<Rightarrow>
          let c = nat nc; n = (if odd c then c else c - 1) in
          if length dat < x * y * c then Inl Undefined
          else Inr (map (\<lambda>j. ldr_sample env n (j mod c) (dat ! j)) [0..<x * y * c]))"

definition stbi__loadf_main :: "stbi_env \<Rightarrow> int \<Rightarrow> ('u stbi__context, float_image) step" where
  "stbi__loadf_main env req_comp =
     sbind stbi__hdr_test (\<lambda>t.
     if t then
       sbind (stbi__hdr_load (env_fuel env) req_comp) (\<lambda>h.
       slift (stbi__float_postprocess env req_comp
         \<lparr>fl_data = hdr_data h, fl_x = nat (hdr_x h), fl_y = nat (hdr_y h), fl_comp = 3\<rparr>))
     else
       sbind (sfail_as (Failure ''unknown image type'') (stbi__load_and_postprocess_8bit env req_comp)) (\<lambda>r.
       case ld_data r of
         Pixels16 _ \<Rightarrow> sfail Undefined
       | Pixels8 d \<Rightarrow>
           sbind (slift (stbi__ldr_to_hdr env d (ld_x r) (ld_y r) (channels_of req_comp r))) (\<lambda>f.
           sret \<lparr>fl_data = f, fl_x = ld_x r, fl_y = ld_y r, fl_comp = ld_comp r\<rparr>)))"

section \<open>Size and depth of an image\<close>

definition sorelse :: "('s, 'a) step \<Rightarrow> ('s, 'a) step \<Rightarrow> ('s, 'a) step" where
  "sorelse m n = sbind (sattempt m) (\<lambda>r. case r of Inr x \<Rightarrow> sret x | Inl _ \<Rightarrow> n)"

definition size_ints :: "('u stbi__context, uint32 \<times> uint32 \<times> int) step \<Rightarrow> ('u stbi__context, int \<times> int \<times> int) step" where
  "size_ints m = sbind m (\<lambda>(x, y, n). sret (int_of_u32 x, int_of_u32 y, n))"

definition stbi__info_main :: "stbi_env \<Rightarrow> ('u stbi__context, int \<times> int \<times> int) step" where
  "stbi__info_main env =
     (let fuel = env_fuel env in
      foldr sorelse
        [size_ints (stbi__jpeg_info fuel), size_ints (stbi__png_info fuel (env_cfg env)), stbi__gif_info,
         size_ints stbi__bmp_info, stbi__psd_info, stbi__pic_info,
         sbind (stbi__pnm_info fuel) (\<lambda>(_, x, y, n). sret (x, y, n)), stbi__hdr_info fuel, stbi__tga_info]
        (sfail (Failure ''unknown image type'')))"

definition stbi__is_16_main :: "stbi_env \<Rightarrow> ('u stbi__context, bool) step" where
  "stbi__is_16_main env =
     (let fuel = env_fuel env in
      sbind (stbi__png_is16 fuel (env_cfg env)) (\<lambda>b. if b then sret True else
      sbind (stry stbi__psd_is16) (\<lambda>b. if b then sret True else
      stbi__pnm_is16 fuel)))"

section \<open>Entry points\<close>

text \<open>On memory: \<open>s\<close> is the context before it is set up.\<close>

definition stbi_load_from_memory :: "stbi_env \<Rightarrow> 'u stbi__context \<Rightarrow> stbi_uc list \<Rightarrow> int \<Rightarrow> loaded res" where
  "stbi_load_from_memory env s data req_comp =
     fst (stbi__load_and_postprocess_8bit env req_comp (stbi__start_mem s data))"

definition stbi_load_16_from_memory :: "stbi_env \<Rightarrow> 'u stbi__context \<Rightarrow> stbi_uc list \<Rightarrow> int \<Rightarrow> loaded res" where
  "stbi_load_16_from_memory env s data req_comp =
     fst (stbi__load_and_postprocess_16bit env req_comp (stbi__start_mem s data))"

definition stbi_loadf_from_memory :: "stbi_env \<Rightarrow> 'u stbi__context \<Rightarrow> stbi_uc list \<Rightarrow> int \<Rightarrow> float_image res" where
  "stbi_loadf_from_memory env s data req_comp = fst (stbi__loadf_main env req_comp (stbi__start_mem s data))"

definition stbi_info_from_memory :: "stbi_env \<Rightarrow> 'u stbi__context \<Rightarrow> stbi_uc list \<Rightarrow> (int \<times> int \<times> int) res" where
  "stbi_info_from_memory env s data = fst (stbi__info_main env (stbi__start_mem s data))"

definition stbi_is_16_bit_from_memory :: "stbi_env \<Rightarrow> 'u stbi__context \<Rightarrow> stbi_uc list \<Rightarrow> bool res" where
  "stbi_is_16_bit_from_memory env s data = fst (stbi__is_16_main env (stbi__start_mem s data))"

definition stbi_is_hdr_from_memory :: "'u stbi__context \<Rightarrow> stbi_uc list \<Rightarrow> bool res" where
  "stbi_is_hdr_from_memory s data = fst (stbi__hdr_test (stbi__start_mem s data))"

text \<open>The flip of an animation takes the number of components of the file, 4, also when the frames were
  converted to another number, and runs on a result that is \<open>NULL\<close>.\<close>

definition stbi_load_gif_from_memory :: "stbi_env \<Rightarrow> 'u stbi__context \<Rightarrow> stbi_uc list \<Rightarrow> int \<Rightarrow> gif_animation res" where
  "stbi_load_gif_from_memory env s data req_comp =
     (case fst (stbi__load_gif_main (env_fuel env) req_comp (stbi__start_mem s data)) of
        Inl e \<Rightarrow> if flip_on_load env then Inl Undefined else Inl e
      | Inr a \<Rightarrow>
          if flip_on_load env then
            let w = nat (anim_x a); h = nat (anim_y a) in
            if length (anim_data a) < w * h * anim_z a * 4 then Inl Undefined
            else Inr (a\<lparr>anim_data := stbi__vertical_flip_slices (anim_data a) w h (anim_z a) 4\<rparr>)
          else Inr a)"

text \<open>On callbacks: \<open>buf\<close> is the contents of the buffer in the context.\<close>

definition stbi_load_from_callbacks ::
    "stbi_env \<Rightarrow> 'u stbi__context \<Rightarrow> 'u stbi_io_callbacks \<Rightarrow> 'u \<Rightarrow> stbi_uc list \<Rightarrow> int \<Rightarrow> loaded res" where
  "stbi_load_from_callbacks env s clbk user buf req_comp =
     fst (stbi__load_and_postprocess_8bit env req_comp (stbi__start_callbacks s clbk user buf))"

definition stbi_load_16_from_callbacks ::
    "stbi_env \<Rightarrow> 'u stbi__context \<Rightarrow> 'u stbi_io_callbacks \<Rightarrow> 'u \<Rightarrow> stbi_uc list \<Rightarrow> int \<Rightarrow> loaded res" where
  "stbi_load_16_from_callbacks env s clbk user buf req_comp =
     fst (stbi__load_and_postprocess_16bit env req_comp (stbi__start_callbacks s clbk user buf))"

definition stbi_loadf_from_callbacks ::
    "stbi_env \<Rightarrow> 'u stbi__context \<Rightarrow> 'u stbi_io_callbacks \<Rightarrow> 'u \<Rightarrow> stbi_uc list \<Rightarrow> int \<Rightarrow> float_image res" where
  "stbi_loadf_from_callbacks env s clbk user buf req_comp =
     fst (stbi__loadf_main env req_comp (stbi__start_callbacks s clbk user buf))"

definition stbi_info_from_callbacks ::
    "stbi_env \<Rightarrow> 'u stbi__context \<Rightarrow> 'u stbi_io_callbacks \<Rightarrow> 'u \<Rightarrow> stbi_uc list \<Rightarrow> (int \<times> int \<times> int) res" where
  "stbi_info_from_callbacks env s c user buf = fst (stbi__info_main env (stbi__start_callbacks s c user buf))"

definition stbi_is_16_bit_from_callbacks ::
    "stbi_env \<Rightarrow> 'u stbi__context \<Rightarrow> 'u stbi_io_callbacks \<Rightarrow> 'u \<Rightarrow> stbi_uc list \<Rightarrow> bool res" where
  "stbi_is_16_bit_from_callbacks env s c user buf = fst (stbi__is_16_main env (stbi__start_callbacks s c user buf))"

definition stbi_is_hdr_from_callbacks ::
    "'u stbi__context \<Rightarrow> 'u stbi_io_callbacks \<Rightarrow> 'u \<Rightarrow> stbi_uc list \<Rightarrow> bool res" where
  "stbi_is_hdr_from_callbacks s clbk user buf = fst (stbi__hdr_test (stbi__start_callbacks s clbk user buf))"

text \<open>On files: after a success the bytes left in the buffer go back to the file; the queries seek
  back to where they started.\<close>

definition unget_buffer :: "'a res \<Rightarrow> FILE stbi__context \<Rightarrow> FILE" where
  "unget_buffer r s =
     (case r of
        Inl _ \<Rightarrow> io_user_data s
      | Inr _ \<Rightarrow> (io_user_data s)\<lparr>fpos := fpos (io_user_data s) - (img_buffer_end s - img_buffer s), feof := False\<rparr>)"

definition stbi_load_from_file ::
    "stbi_env \<Rightarrow> FILE stbi__context \<Rightarrow> FILE \<Rightarrow> stbi_uc list \<Rightarrow> int \<Rightarrow> loaded res \<times> FILE" where
  "stbi_load_from_file env s f buf req_comp =
     (case stbi__load_and_postprocess_8bit env req_comp (stbi__start_file s f buf) of (r, s) \<Rightarrow> (r, unget_buffer r s))"

definition stbi_load_from_file_16 ::
    "stbi_env \<Rightarrow> FILE stbi__context \<Rightarrow> FILE \<Rightarrow> stbi_uc list \<Rightarrow> int \<Rightarrow> loaded res \<times> FILE" where
  "stbi_load_from_file_16 env s f buf req_comp =
     (case stbi__load_and_postprocess_16bit env req_comp (stbi__start_file s f buf) of (r, s) \<Rightarrow> (r, unget_buffer r s))"

definition stbi_loadf_from_file ::
    "stbi_env \<Rightarrow> FILE stbi__context \<Rightarrow> FILE \<Rightarrow> stbi_uc list \<Rightarrow> int \<Rightarrow> float_image res \<times> FILE" where
  "stbi_loadf_from_file env s f buf req_comp =
     (case stbi__loadf_main env req_comp (stbi__start_file s f buf) of (r, s) \<Rightarrow> (r, io_user_data s))"

definition query_file ::
    "(FILE stbi__context, 'a) step \<Rightarrow> FILE stbi__context \<Rightarrow> FILE \<Rightarrow> stbi_uc list \<Rightarrow> 'a res \<times> FILE" where
  "query_file m s f buf =
     (case m (stbi__start_file s f buf) of (r, s) \<Rightarrow> (r, (io_user_data s)\<lparr>fpos := fpos f, feof := False\<rparr>))"

definition stbi_info_from_file ::
    "stbi_env \<Rightarrow> FILE stbi__context \<Rightarrow> FILE \<Rightarrow> stbi_uc list \<Rightarrow> (int \<times> int \<times> int) res \<times> FILE" where
  "stbi_info_from_file env = query_file (stbi__info_main env)"

definition stbi_is_16_bit_from_file ::
    "stbi_env \<Rightarrow> FILE stbi__context \<Rightarrow> FILE \<Rightarrow> stbi_uc list \<Rightarrow> bool res \<times> FILE" where
  "stbi_is_16_bit_from_file env = query_file (stbi__is_16_main env)"

definition stbi_is_hdr_from_file ::
    "FILE stbi__context \<Rightarrow> FILE \<Rightarrow> stbi_uc list \<Rightarrow> bool res \<times> FILE" where
  "stbi_is_hdr_from_file = query_file stbi__hdr_test"

text \<open>By name: \<open>opened\<close> is what \<open>fopen(filename, "rb")\<close> returned.\<close>

definition on_opened :: "FILE option \<Rightarrow> (FILE \<Rightarrow> 'a res \<times> FILE) \<Rightarrow> 'a res" where
  "on_opened opened m = (case opened of None \<Rightarrow> Inl (Failure ''can't fopen'') | Some f \<Rightarrow> fst (m f))"

definition stbi_load :: "stbi_env \<Rightarrow> FILE stbi__context \<Rightarrow> FILE option \<Rightarrow> stbi_uc list \<Rightarrow> int \<Rightarrow> loaded res" where
  "stbi_load env s opened buf req_comp = on_opened opened (\<lambda>f. stbi_load_from_file env s f buf req_comp)"

definition stbi_load_16 :: "stbi_env \<Rightarrow> FILE stbi__context \<Rightarrow> FILE option \<Rightarrow> stbi_uc list \<Rightarrow> int \<Rightarrow> loaded res" where
  "stbi_load_16 env s opened buf req_comp = on_opened opened (\<lambda>f. stbi_load_from_file_16 env s f buf req_comp)"

definition stbi_loadf :: "stbi_env \<Rightarrow> FILE stbi__context \<Rightarrow> FILE option \<Rightarrow> stbi_uc list \<Rightarrow> int \<Rightarrow> float_image res" where
  "stbi_loadf env s opened buf req_comp = on_opened opened (\<lambda>f. stbi_loadf_from_file env s f buf req_comp)"

definition stbi_info :: "stbi_env \<Rightarrow> FILE stbi__context \<Rightarrow> FILE option \<Rightarrow> stbi_uc list \<Rightarrow> (int \<times> int \<times> int) res" where
  "stbi_info env s opened buf = on_opened opened (\<lambda>f. stbi_info_from_file env s f buf)"

definition stbi_is_16_bit :: "stbi_env \<Rightarrow> FILE stbi__context \<Rightarrow> FILE option \<Rightarrow> stbi_uc list \<Rightarrow> bool res" where
  "stbi_is_16_bit env s opened buf = on_opened opened (\<lambda>f. stbi_is_16_bit_from_file env s f buf)"

definition stbi_is_hdr :: "FILE stbi__context \<Rightarrow> FILE option \<Rightarrow> stbi_uc list \<Rightarrow> bool res" where
  "stbi_is_hdr s opened buf =
     (case opened of None \<Rightarrow> Inr False | Some f \<Rightarrow> fst (stbi_is_hdr_from_file s f buf))"

end
