(* ===== verification/Stbi_Load_Png.thy ===== *)
theory Stbi_Load_Png
  imports Stbi_Load
begin

text \<open>
  The library on PNG pictures in memory: the dispatcher recognises the signature, and the work after
  the decoder, which may reduce 16-bit samples and turn the rows upside down, stays within the image the
  decoder returned.
\<close>

section \<open>Recognising a signature\<close>

lemma expect_mem:
  assumes "drop k data = cs @ rest"
  shows "sfold (\<lambda>c u. sbind (stot stbi__get8) (\<lambda>b. sguard (b = c) e)) cs () ((stbi__start_mem s data)\<lparr>img_buffer := k\<rparr>) =
    (Inr (), (stbi__start_mem s data)\<lparr>img_buffer := k + length cs\<rparr>)"
  using assms
proof (induction cs arbitrary: k)
  case (Cons c cs)
  then have k: "k < length data" "data ! k = c" "drop (Suc k) data = cs @ rest"
    by (auto simp: nth_via_drop intro: ccontr) (metis append_Cons drop_Suc list.sel(3) tl_drop)
  then have "stbi__get8 ((stbi__start_mem s data)\<lparr>img_buffer := k\<rparr>) = (c, (stbi__start_mem s data)\<lparr>img_buffer := Suc k\<rparr>)"
    by (simp add: stbi__get8_def stbi__start_mem_def)
  then show ?case
    using Cons.IH [OF k(3)] by (simp add: sbind_def stot_def sguard_def)
qed (simp add: sret_def)

lemma rewind_mem [simp]: "stbi__rewind ((stbi__start_mem s data)\<lparr>img_buffer := k\<rparr>) = stbi__start_mem s data"
  by (simp add: stbi__rewind_def stbi__start_mem_def)

lemma length_png_sig [simp]: "length png_sig = 8"
  by (simp add: png_sig_def)

lemma png_test_mem:
  assumes "take 8 data = png_sig"
  shows "stbi__png_test (stbi__start_mem s data) = (True, stbi__start_mem s data)"
proof -
  have "drop 0 data = png_sig @ drop 8 data" using assms append_take_drop_id [of 8 data] by simp
  moreover have "(stbi__start_mem s data)\<lparr>img_buffer := 0\<rparr> = stbi__start_mem s data"
    by (simp add: stbi__start_mem_def)
  ultimately show ?thesis
    using expect_mem [of 0 data png_sig "drop 8 data" "Failure ''bad png sig''" s]
    by (simp add: stbi__png_test_def stbi__check_png_header_def)
qed

lemma load_main_png:
  assumes "take 8 data = png_sig"
  shows "stbi__load_main env req bpc (stbi__start_mem s data) =
    stbi__png_load (env_fuel env) (env_cfg env) req (stbi__start_mem s data)"
  using png_test_mem [OF assms, of s] by (simp add: stbi__load_main_def Let_def sbind_def stot_def)

section \<open>The image after the decoder\<close>

lemma ensures_casesI:
  assumes "ensures m P" and "\<And>e. regular e \<Longrightarrow> F e" and "\<And>x. P x \<Longrightarrow> Q x"
  shows "case m of Inl e \<Rightarrow> F e | Inr x \<Rightarrow> Q x"
  using assms by (cases m) simp_all

definition pixels8_ok :: "int \<Rightarrow> loaded \<Rightarrow> bool" where
  "pixels8_ok req r \<longleftrightarrow> 0 < ld_x r \<and> 0 < ld_y r \<and>
     (\<exists>d. ld_data r = Pixels8 d \<and> length d = ld_x r * ld_y r * nat (channels_of req r))"

lemma ensures_convert_samples:
  assumes "length d = w * h * nat ch" and "length d < 2 ^ 31" and "0 < ch"
  shows "ensures (convert_samples f 1 d (int w) (int h) ch) (\<lambda>r. length r = length d)"
proof -
  have len: "int w * int h * ch = int (length d)" using assms(1,3) by simp
  have "int w * int h \<le> int w * int h * ch" using mult_left_mono [of 1 ch "int w * int h"] assms(3) by simp
  then have "int w * int h \<le> int (length d)" by (simp only: len)
  moreover have "int (length d) < 2 ^ 31" using assms(2) by simp
  moreover have "- (2 ^ 31) \<le> int w * int h" by (rule order_trans [of _ 0]) simp_all
  ultimately show ?thesis
    unfolding convert_samples_def Let_def len by (simp add: c_limits)
qed

lemma ensures_flip_image:
  assumes "length d = w * h * nat ch"
  shows "ensures (flip_image d w h ch) (\<lambda>r. length r = length d)"
  using assms length_vertical_flip [of d h w "nat ch"] by (simp add: flip_image_def ac_simps)

lemma ensures_8bit:
  assumes "loaded_ok req r" and "req \<in> {0..4}"
  shows "ensures (ebind (case ld_data r of Pixels8 d \<Rightarrow> Inr d
       | Pixels16 d \<Rightarrow> stbi__convert_16_to_8 d (int (ld_x r)) (int (ld_y r)) (channels_of req r)) (\<lambda>d.
     ebind (if flip_on_load env then flip_image d (ld_x r) (ld_y r) (channels_of req r) else Inr d) (\<lambda>d.
     Inr (r\<lparr>ld_data := Pixels8 d\<rparr>)))) (pixels8_ok req)"
proof -
  let ?n = "ld_x r * ld_y r * nat (channels_of req r)"
  have ch: "0 < channels_of req r" using assms by (auto simp: loaded_ok_def channels_of_def)
  have "ensures (case ld_data r of Pixels8 d \<Rightarrow> Inr d
       | Pixels16 d \<Rightarrow> stbi__convert_16_to_8 d (int (ld_x r)) (int (ld_y r)) (channels_of req r)) (\<lambda>d. length d = ?n)"
  proof (cases "ld_data r")
    case (Pixels16 d)
    with assms(1) have "length d = ?n" "length d < 2 ^ 31" by (auto simp: loaded_ok_def channels_of_def)
    with Pixels16 ensures_convert_samples [OF this ch] show ?thesis
      by (simp add: stbi__convert_16_to_8_def)
  qed (use assms(1) in \<open>simp add: loaded_ok_def channels_of_def\<close>)
  moreover have "ensures (if flip_on_load env then flip_image d (ld_x r) (ld_y r) (channels_of req r) else Inr d) (\<lambda>d. length d = ?n)"
    if "length d = ?n" for d :: "stbi_uc list"
    using ensures_flip_image [of d "ld_x r" "ld_y r" "channels_of req r"] that by simp
  moreover have "pixels8_ok req (r\<lparr>ld_data := Pixels8 d\<rparr>)" if "length d = ?n" for d
    using that assms(1) by (auto simp: pixels8_ok_def loaded_ok_def channels_of_def)
  ultimately show ?thesis
    by (intro ensures_bind) (assumption, assumption, simp)
qed

lemma postprocess_8bit_fst:
  "fst (stbi__load_and_postprocess_8bit env req s) =
     ebind (fst (stbi__load_main env req 8 s)) (\<lambda>r.
     ebind (case ld_data r of Pixels8 d \<Rightarrow> Inr d
       | Pixels16 d \<Rightarrow> stbi__convert_16_to_8 d (int (ld_x r)) (int (ld_y r)) (channels_of req r)) (\<lambda>d.
     ebind (if flip_on_load env then flip_image d (ld_x r) (ld_y r) (channels_of req r) else Inr d) (\<lambda>d.
     Inr (r\<lparr>ld_data := Pixels8 d\<rparr>))))"
  by (simp add: stbi__load_and_postprocess_8bit_def sbind_def slift_def sret_def ebind_def split: prod.split sum.split)

lemma load_from_memory_png_cases:
  assumes "take 8 data = png_sig" and "length data < env_fuel env"
  shows "(case stbi_load_from_memory env s data req_comp of
      Inl e \<Rightarrow> e \<noteq> NoReturn \<and>
        (e = Undefined \<longrightarrow> png_wraps (env_fuel env) (env_cfg env) req_comp (stbi__start_mem s data))
    | Inr r \<Rightarrow> pixels8_ok req_comp r)"
proof (cases "req_comp \<in> {0..4}")
  case True
  have load: "case fst (stbi__png_load (env_fuel env) (env_cfg env) req_comp (stbi__start_mem s data)) of
      Inl e \<Rightarrow> e \<noteq> NoReturn \<and>
        (e = Undefined \<longrightarrow> png_wraps (env_fuel env) (env_cfg env) req_comp (stbi__start_mem s data))
    | Inr r \<Rightarrow> loaded_ok req_comp r"
    using assms(2) by (intro mem.png_load_outcome) simp_all
  show ?thesis
  proof (cases "fst (stbi__png_load (env_fuel env) (env_cfg env) req_comp (stbi__start_mem s data))")
    case (Inl e)
    then show ?thesis
      using load unfolding stbi_load_from_memory_def postprocess_8bit_fst load_main_png [OF assms(1)] by simp
  next
    case (Inr r)
    then have "loaded_ok req_comp r" using load by simp
    from ensures_8bit [OF this True, of env] show ?thesis
      unfolding stbi_load_from_memory_def postprocess_8bit_fst load_main_png [OF assms(1)] Inr ebind_simps
      by (elim ensures_casesI) (simp_all add: regular_def)
  qed
next
  case False
  then have "fst (stbi__png_load (env_fuel env) (env_cfg env) req_comp (stbi__start_mem s data)) = Inl (Failure ''bad req_comp'')"
    by (auto simp: stbi__png_load_def png_run_def stbi__do_png_def sfail_def)
  then show ?thesis
    unfolding stbi_load_from_memory_def postprocess_8bit_fst load_main_png [OF assms(1)] by simp
qed

section \<open>Properties\<close>

text \<open>C2. The public entry point on PNG pictures: for every block of bytes that starts with the PNG signature,
  \<open>stbi_load_from_memory\<close> returns, whatever the settings; when it succeeds the picture has 8-bit samples, exactly
  width times height times the number of components; and it leaves its buffers in no case but the one of
  \<open>png_wraps\<close>.\<close>

theorem load_from_memory_png:
  assumes "take 8 data = png_sig" and "length data < env_fuel env"
  shows "(case stbi_load_from_memory env s data req_comp of
      Inl e \<Rightarrow> e \<noteq> NoReturn \<and>
        (e = Undefined \<longrightarrow> png_wraps (env_fuel env) (env_cfg env) req_comp (stbi__start_mem s data))
    | Inr r \<Rightarrow> pixels8_ok req_comp r)"
  using assms by (rule load_from_memory_png_cases)

theorem load_from_memory_png_witness:
  "(case stbi_load_from_memory \<lparr>env_cfg = stbi__config_start, env_h2l = hdr_settings_start, l2h_gamma = Fin 2,
        l2h_scale = Fin 1, env_pow = (\<lambda>x y. x), env_fuel = 10\<rparr> (undefined :: unit stbi__context) png_sig 3 of
      Inl e \<Rightarrow> e \<noteq> NoReturn \<and> (e = Undefined \<longrightarrow> png_wraps 10 stbi__config_start 3
        (stbi__start_mem (undefined :: unit stbi__context) png_sig))
    | Inr r \<Rightarrow> pixels8_ok 3 r)"
  using load_from_memory_png [of png_sig "\<lparr>env_cfg = stbi__config_start, env_h2l = hdr_settings_start, l2h_gamma = Fin 2,
        l2h_scale = Fin 1, env_pow = (\<lambda>x y. x), env_fuel = 10\<rparr>" 3 "undefined :: unit stbi__context",
      unfolded stbi_env.select_convs]
  by (simp add: length_png_sig)

end
