(* ===== verification/Stbi_Zlib_Store.thy ===== *)
theory Stbi_Zlib_Store
  imports Stbi_Zlib_Safe
begin

text \<open>
  Round trip with stored blocks: \<open>zlib_store\<close> writes a zlib stream of stored blocks, and the decoder
  returns the bytes that were stored, through as many blocks as there are and through as many
  enlargements of the output buffer as they need.
\<close>

definition word4 :: "stbi_uc \<Rightarrow> stbi_uc \<Rightarrow> stbi_uc \<Rightarrow> stbi_uc \<Rightarrow> uint32" where
  "word4 b0 b1 b2 b3 = ucast b0 OR push_bit 8 (ucast b1) OR push_bit 16 (ucast b2) OR push_bit 24 (ucast b3)"

lemma bit_word4:
  "bit (word4 b0 b1 b2 b3) i \<longleftrightarrow> i < 32 \<and>
     (if i < 8 then bit b0 i else if i < 16 then bit b1 (i - 8) else if i < 24 then bit b2 (i - 16) else bit b3 (i - 24))"
  using bit_imp_le_length [of b0 i] bit_imp_le_length [of b1 "i - 8"] bit_imp_le_length [of b2 "i - 16"]
    bit_imp_le_length [of b3 "i - 24"]
  unfolding word4_def by (auto simp: bit_simps)

lemma mask_255: "(255 :: uint32) = mask 8"
  by (simp add: mask_eq_exp_minus_1)

lemma word4_drop: "drop_bit 8 (word4 b0 b1 b2 b3) = word4 b1 b2 b3 0"
  by (rule bit_word_eqI) (auto simp: bit_simps bit_word4)

lemma word4_first: "ucast (word4 b0 b1 b2 b3 AND 255) = b0"
  unfolding mask_255 by (rule bit_word_eqI) (simp add: bit_simps bit_word4)

lemma word4_zero [simp]: "word4 0 0 0 0 = 0"
  by (simp add: word4_def)

lemma fill_bits_four:
  assumes "zbuffer a = b0 # b1 # b2 # b3 # bs" "num_bits a = 0" "code_buffer a = 0"
  shows "stbi__fill_bits a = Inr (a\<lparr>zbuffer := bs, num_bits := 32, code_buffer := word4 b0 b1 b2 b3\<rparr>)"
proof -
  have st: "stbi__fill_bits c = (if num_bits c \<le> 16 then stbi__fill_bits (d c bs) else Inr (d c bs)) \<and> zbits_ok (d c bs)"
    if "zbits_ok c" "num_bits c \<le> 24" "zbuffer c = b # bs"
      "d = (\<lambda>c bs. c\<lparr>zbuffer := bs, code_buffer := code_buffer c OR push_bit (nat (num_bits c)) (ucast b), num_bits := num_bits c + 8\<rparr>)"
    for c b bs d
    using fill_bits_step(3) [OF that(1,2), of b "c\<lparr>zbuffer := bs\<rparr>"] zget8_stream(1) [OF that(1,2), of b "c\<lparr>zbuffer := bs\<rparr>"] that(3)
    by (simp add: stbi__zget8_def that(4))
  have "zbits_ok a" using assms by (simp add: zbits_ok_def)
  note s1 = st [OF this _ assms(1) refl]
  note s2 = st [OF conjunct2 [OF s1] _ _ refl]
  note s3 = st [OF conjunct2 [OF s2] _ _ refl]
  note s4 = st [OF conjunct2 [OF s3] _ _ refl]
  show ?thesis
    using s1 s2 s3 s4 assms by (simp add: word4_def or.assoc)
qed

text \<open>The header byte of a stored block leaves the type bits and the padding zero.\<close>

lemma word4_header:
  assumes "f = of_bool fin"
  shows "word4 f b1 b2 b3 AND 1 = of_bool fin" "drop_bit 1 (word4 f b1 b2 b3) AND 3 = 0"
proof -
  have f: "bit f i \<longleftrightarrow> fin \<and> i = 0" for i
    unfolding assms by (cases fin) (simp_all add: bit_1_iff)
  have m: "(3 :: uint32) = mask 2" by (simp add: mask_eq_exp_minus_1)
  show "word4 f b1 b2 b3 AND 1 = of_bool fin"
    by (auto intro!: bit_word_eqI simp: bit_simps bit_word4 f)
  show "drop_bit 1 (word4 f b1 b2 b3) AND 3 = 0"
    unfolding m by (auto intro!: bit_word_eqI simp: bit_simps bit_word4 f)
qed

lemma stored_block:
  assumes "zbuffer a = of_bool fin # b1 # b2 # b3 # b4 # bs" "num_bits a = 0" "code_buffer a = 0"
  shows "zlib_block a =
    (let len = uint b2 * 256 + uint b1; nlen = uint b4 * 256 + uint b3 in
     if nlen \<noteq> (len XOR 0xffff) then Inl (Failure ''zlib corrupt'')
     else ebind (copy_stored (nat len) (a\<lparr>zbuffer := bs\<rparr>)) (\<lambda>a. Inr (fin, a)))"
proof -
  define w where "w = word4 (of_bool fin) b1 b2 b3"
  define c where "c n x = a\<lparr>zbuffer := b4 # bs, num_bits := n, code_buffer := x\<rparr>" for n x
  have r1: "stbi__zreceive a 1 = Inr (of_bool fin, c 31 (drop_bit 1 w))"
    using fill_bits_four [OF assms] word4_header(1) [of _ fin b1 b2 b3] assms(2)
    by (simp add: stbi__zreceive_def w_def c_def)
  have r2: "stbi__zreceive (c 31 (drop_bit 1 w)) 2 = Inr (0, c 29 (drop_bit 3 w))"
    using word4_header(2) [of _ fin b1 b2 b3] by (simp add: stbi__zreceive_def c_def w_def)
  have "stbi__zreceive (c 29 (drop_bit 3 w)) 5 = Inr (drop_bit 3 w AND 31, c 24 (drop_bit 8 w))"
    by (simp add: stbi__zreceive_def c_def)
  moreover have "(29 :: int) AND 7 = 5" by simp
  ultimately have al: "align_byte (c 29 (drop_bit 3 w)) = Inr (c 24 (word4 b1 b2 b3 0))"
    by (simp add: align_byte_def c_def w_def word4_drop)
  have dr: "drain_header [] (c 24 (word4 b1 b2 b3 0)) = Inr ([b1, b2, b3], c 0 0)"
    by (simp add: drain_header.simps c_def word4_first word4_drop)
  have fl: "fill_header [b1, b2, b3] (c 0 0) = ([b1, b2, b3, b4], a\<lparr>zbuffer := bs\<rparr>)"
    using assms by (simp add: fill_header.simps stbi__zget8_def c_def)
  have "num_bits (c 0 0) = 0" by (simp add: c_def)
  with r1 r2 al dr fl show ?thesis
    by (simp add: zlib_block_def stbi__parse_uncompressed_block_def Let_def)
qed


lemma grow_limit_ok:
  assumes "2 ^ (33 - fuel) \<le> limit" "limit \<le> UINT_MAX" "fuel \<le> 33" "cur + n \<le> 2 ^ 31"
  shows "\<exists>l. grow_limit fuel cur n limit = Inr l"
proof -
  have "grow_limit fuel cur n limit \<noteq> Inl (Failure r)" for r
    using assms(4) by (induction fuel cur n limit rule: grow_limit.induct) (auto simp: UINT_MAX_def)
  moreover have "grow_limit fuel cur n limit \<noteq> Inl Silent"
    by (induction fuel cur n limit rule: grow_limit.induct) auto
  moreover note ensures_grow_limit [OF assms(1-3), of cur n]
  ultimately show ?thesis
    by (cases "grow_limit fuel cur n limit") (simp, metis failure.exhaust regular_simps(3,4), simp)
qed

definition zroom :: "nat \<Rightarrow> stbi__zbuf \<Rightarrow> bool" where
  "zroom n a \<longleftrightarrow> length (zout a) + n \<le> (if z_expandable a then 2 ^ 31 else unat (zlimit a))"

lemma zexpand_ok:
  assumes "zok a" "zroom n a" "unat (zlimit a) < length (zout a) + n"
  shows "\<exists>b. stbi__zexpand a n = Inr b"
proof -
  from assms have e: "z_expandable a" "length (zout a) + n \<le> 2 ^ 31" by (auto simp: zroom_def split: if_splits)
  have "unat (zlimit a) < 2 ^ LENGTH(32)" by (rule unsigned_less)
  then have "unat (zlimit a) \<le> UINT_MAX" by (simp add: UINT_MAX_def)
  then obtain l where "grow_limit 33 (length (zout a)) n (unat (zlimit a)) = Inr l"
    using grow_limit_ok [of 33 "unat (zlimit a)" "length (zout a)" n] assms(1) e(2) by (auto simp: zok_def)
  with e show ?thesis by (simp add: stbi__zexpand_def Let_def UINT_MAX_def)
qed

lemma copy_stored_ok:
  assumes "zok a" "zroom n a" "n \<le> length (zbuffer a)"
  shows "\<exists>b. copy_stored n a = Inr b \<and> zok b \<and> zout b = zout a @ take n (zbuffer a) \<and> zbuffer b = drop n (zbuffer a) \<and>
    num_bits b = num_bits a \<and> code_buffer b = code_buffer a \<and> z_expandable b = z_expandable a \<and>
    (z_expandable a \<or> zlimit b = zlimit a)"
proof -
  have ex: "\<exists>c. (if length (zout a) + n > unat (zlimit a) then stbi__zexpand a n else Inr a) = Inr c"
    using zexpand_ok [OF assms(1,2)] by auto
  then obtain c where c: "(if length (zout a) + n > unat (zlimit a) then stbi__zexpand a n else Inr a) = Inr c" ..
  then have fr: "zbuffer c = zbuffer a" "zout c = zout a" "num_bits c = num_bits a" "code_buffer c = code_buffer a"
      "z_expandable c = z_expandable a" "z_expandable a \<or> zlimit c = zlimit a"
    by (auto split: if_splits simp: stbi__zexpand_def Let_def ebind_eq_Inr)
  have eq: "copy_stored n a = Inr (c\<lparr>zout := zout c @ take n (zbuffer c), zbuffer := drop n (zbuffer c)\<rparr>)"
    using assms(3) c unfolding copy_stored_def by simp
  with ensures_Inr [OF ensures_copy_stored [OF assms(1)] eq] fr show ?thesis by auto
qed

text \<open>The stored form of a list of chunks, the last one final.\<close>

definition le16 :: "nat \<Rightarrow> stbi_uc list" where
  "le16 n = [word_of_nat n, word_of_nat (n div 256)]"

definition stored_chunk :: "bool \<Rightarrow> stbi_uc list \<Rightarrow> stbi_uc list" where
  "stored_chunk fin c = of_bool fin # le16 (length c) @ le16 (65535 - length c) @ c"

fun stored_chunks :: "stbi_uc list list \<Rightarrow> stbi_uc list" where
  "stored_chunks [] = []"
| "stored_chunks (c # cs) = stored_chunk (cs = []) c @ stored_chunks cs"

lemma stored_chunk_block:
  assumes "zok a" "zroom (length c) a" "length c \<le> 65535"
    and "zbuffer a = stored_chunk fin c @ rest" "num_bits a = 0" "code_buffer a = 0"
  shows "\<exists>b. zlib_block a = Inr (fin, b) \<and> zok b \<and> zout b = zout a @ c \<and> zbuffer b = rest \<and>
    num_bits b = 0 \<and> code_buffer b = 0 \<and> z_expandable b = z_expandable a \<and> (z_expandable a \<or> zlimit b = zlimit a)"
proof -
  define len where "len = length c"
  have v: "uint (word_of_nat (n div 256) :: stbi_uc) * 256 + uint (word_of_nat n :: stbi_uc) = int n" if "n \<le> 65535" for n
  proof -
    have "uint (word_of_nat (n div 256) :: stbi_uc) = int (n div 256)" "uint (word_of_nat n :: stbi_uc) = int (n mod 256)"
      using that by (simp_all add: unsigned_of_nat take_bit_eq_mod zmod_int)
    moreover have "int (n div 256) * 256 + int (n mod 256) = int n"
      using div_mult_mod_eq [of n 256] by linarith
    ultimately show ?thesis by (simp only:)
  qed
  have x: "(int len XOR 65535) = 65535 - int len"
  proof -
    have t: "take_bit 16 (int len) = int len" using assms(3) by (simp add: take_bit_int_eq_self len_def)
    have "take_bit 16 (int len) XOR mask 16 = take_bit 16 (NOT (int len))"
      by (rule bit_eqI) (auto simp: bit_simps)
    then have "int len XOR mask 16 = mask 16 - int len"
      by (simp only: t take_bit_not_eq_mask_diff)
    then show ?thesis by (simp add: mask_eq_exp_minus_1)
  qed
  have "zok (a\<lparr>zbuffer := c @ rest\<rparr>)" "zroom len (a\<lparr>zbuffer := c @ rest\<rparr>)"
    using assms(1,2) by (auto simp: zok_def zbits_ok_def zroom_def len_def)
  from copy_stored_ok [OF this] obtain b where
    b: "copy_stored len (a\<lparr>zbuffer := c @ rest\<rparr>) = Inr b" "zok b" "zout b = zout a @ c" "zbuffer b = rest"
      "num_bits b = 0" "code_buffer b = 0" "z_expandable b = z_expandable a" "z_expandable a \<or> zlimit b = zlimit a"
    using assms(5,6) by (auto simp: len_def)
  have buf: "zbuffer a = of_bool fin # word_of_nat len # word_of_nat (len div 256) #
      word_of_nat (65535 - len) # word_of_nat ((65535 - len) div 256) # c @ rest"
    by (simp add: assms(4) stored_chunk_def le16_def len_def del: of_nat_diff)
  have "nat (int len) = len" "int (65535 - len) = 65535 - int len" "len \<le> 65535" "65535 - len \<le> 65535"
    using assms(3) by (simp_all add: len_def)
  have "zlib_block a = Inr (fin, b)"
    unfolding stored_block [OF buf assms(5,6)] Let_def
    using \<open>nat (int len) = len\<close> \<open>int (65535 - len) = 65535 - int len\<close>
    by (simp only: v [OF \<open>len \<le> 65535\<close>] v [OF \<open>65535 - len \<le> 65535\<close>] x b(1) ebind_simps if_False simp_thms)
  with b show ?thesis by blast
qed

lemma stored_chunks_blocks:
  assumes "cs \<noteq> []" "zok a" "zroom (length (concat cs)) a" "\<forall>c \<in> set cs. length c \<le> 65535"
    and "zbuffer a = stored_chunks cs @ rest" "num_bits a = 0" "code_buffer a = 0"
  shows "\<exists>b. zlib_blocks a = Inr b \<and> zout b = zout a @ concat cs \<and> zbuffer b = rest"
  using assms
proof (induction cs arbitrary: a)
  case (Cons c cs)
  have "zroom (length c) a" using Cons.prems(3) by (auto simp: zroom_def split: if_splits)
  with Cons.prems obtain b where
    b: "zlib_block a = Inr (cs = [], b)" "zok b" "zout b = zout a @ c" "zbuffer b = stored_chunks cs @ rest"
      "num_bits b = 0" "code_buffer b = 0" "z_expandable b = z_expandable a" "z_expandable a \<or> zlimit b = zlimit a"
    using stored_chunk_block [of a c "cs = []" "stored_chunks cs @ rest"] by auto
  show ?case
  proof (cases "cs = []")
    case True
    with b show ?thesis by (subst zlib_blocks.simps) simp
  next
    case False
    have "zroom (length (concat cs)) b" using Cons.prems(3) b by (auto simp: zroom_def split: if_splits)
    with Cons.IH [OF False b(2)] b Cons.prems False show ?thesis
      by (subst zlib_blocks.simps) simp
  qed
qed simp

definition zlib_store :: "stbi_uc list list \<Rightarrow> stbi_uc list" where
  "zlib_store cs = [0x78, 0x01] @ stored_chunks cs"

lemma zlib_stored:
  assumes "cs \<noteq> []" and "\<forall>c \<in> set cs. length c \<le> 65535"
    and "0 < olen" and "olen < 2 ^ 32" and "length (concat cs) \<le> (if exp then 2 ^ 31 else olen)"
  shows "\<exists>b. stbi__do_zlib (zlib_store cs @ checksum) olen exp True = Inr b \<and> zout b = concat cs"
proof -
  define a where "a = \<lparr>zbuffer = stored_chunks cs @ checksum, num_bits = 0, hit_zeof_once = False, code_buffer = 0,
    zout = [], zlimit = word_of_nat olen, z_expandable = exp, z_length = zhuffman_uninit, z_distance = zhuffman_uninit\<rparr>"
  have u: "unat (word_of_nat olen :: uint32) = olen" using assms(4) by (simp add: unat_of_nat)
  have "zok a" using shape_uninit assms(3) u by (simp add: zok_def zbits_ok_def a_def)
  moreover have "zroom (length (concat cs)) a" using assms(5) u by (simp add: zroom_def a_def split: if_splits)
  ultimately obtain b where "zlib_blocks a = Inr b" "zout b = concat cs"
    using stored_chunks_blocks [OF assms(1) _ _ assms(2), of a checksum] by (auto simp: a_def)
  moreover have "stored_chunks cs @ checksum \<noteq> []" using assms(1) by (cases cs) (auto simp: stored_chunk_def)
  ultimately show ?thesis
    by (simp add: stbi__do_zlib_def stbi__parse_zlib_def stbi__parse_zlib_header_def stbi__zget8_def
        stbi__zeof_def zlib_store_def a_def)
qed

section \<open>Properties\<close>

text \<open>C17. Round trip through stored blocks: for any chunks of at most 65535 bytes, \<open>stbi__do_zlib\<close>
  applied to their stored zlib stream, followed by any checksum bytes, returns exactly the bytes of
  the chunks. The output buffer may start at any positive size; a fixed buffer must be large enough,
  a growing one is enlarged up to \<open>2 ^ 31\<close> bytes.\<close>

theorem zlib_stored_roundtrip:
  assumes "cs \<noteq> []" and "\<forall>c \<in> set cs. length c \<le> 65535"
    and "0 < olen" and "olen < 2 ^ 32" and "length (concat cs) \<le> (if exp then 2 ^ 31 else olen)"
  shows "\<exists>b. stbi__do_zlib (zlib_store cs @ checksum) olen exp True = Inr b \<and> zout b = concat cs"
  using assms by (rule zlib_stored)

theorem zlib_stored_roundtrip_witness:
  "\<exists>b. stbi__do_zlib (zlib_store [[1, 2, 3], [4]] @ [0, 0, 0, 0]) 2 True True = Inr b \<and>
     zout b = concat [[1, 2, 3], [4]]"
  by (rule zlib_stored_roundtrip) simp_all

text \<open>C18. A match copies as LZ77 does: \<open>put_match\<close> refuses a distance beyond the start of the output,
  and otherwise appends \<open>len\<close> bytes, each of which is the byte \<open>dist\<close> positions before it, also when
  the copy overlaps itself (\<open>len > dist\<close>), whichever of the two copying loops runs and whether or
  not the output buffer has to grow.\<close>

theorem put_match_lz77:
  assumes "zok a" and "0 \<le> len" and "0 < dist" and "zroom (nat len) a"
  shows "if int (length (zout a)) < dist then put_match len dist a = Inl (Failure ''bad dist'')
    else \<exists>b. put_match len dist a = Inr (False, b) \<and> zout b = lz_extend (nat dist) (nat len) (zout a)"
proof (cases "int (length (zout a)) < dist")
  case True
  then show ?thesis by (simp add: put_match_def)
next
  case False
  obtain d where d: "dist = int d" "0 < d" using assms(3) by (metis pos_int_cases)
  have room: "len > int (unat (zlimit a)) - int (length (zout a)) \<longleftrightarrow> unat (zlimit a) < length (zout a) + nat len"
    using assms(2) by linarith
  obtain c where c: "(if unat (zlimit a) < length (zout a) + nat len then stbi__zexpand a (nat len) else Inr a) = Inr c"
    using zexpand_ok [OF assms(1,4)] by fastforce
  then have "zok c \<and> zout c = zout a \<and> length (zout c) + nat len \<le> unat (zlimit c)"
    using assms(1) ensures_Inr [OF ensures_zexpand [of a "nat len"], of c] by (auto split: if_splits)
  then have cz: "zok c" "length (zout c) + nat len \<le> unat (zlimit c)" "zout c = zout a" "d \<le> length (zout c)"
    using False d(1) by auto
  with copy_eq [OF cz(1,2) d(2) cz(4)]
  show ?thesis
    using False c unfolding put_match_def room d(1) by simp
qed

theorem put_match_lz77_witness:
  "\<exists>b. put_match 5 2 \<lparr>zbuffer = [], num_bits = 0, hit_zeof_once = False, code_buffer = 0, zout = [97, 98],
     zlimit = 4, z_expandable = True, z_length = zhuffman_uninit, z_distance = zhuffman_uninit\<rparr> = Inr (False, b) \<and>
     zout b = [97, 98, 97, 98, 97, 98, 97]"
proof -
  have "lz_extend (nat 2) (nat 5) [97, 98] = [97, 98, 97, 98, 97, 98, 97 :: stbi_uc]"
    by code_simp
  then show ?thesis
    using put_match_lz77 [of "\<lparr>zbuffer = [], num_bits = 0, hit_zeof_once = False, code_buffer = 0, zout = [97, 98],
       zlimit = 4, z_expandable = True, z_length = zhuffman_uninit, z_distance = zhuffman_uninit\<rparr>" 5 2]
    by (simp add: zok_def zbits_ok_def shape_uninit zroom_def)
qed

end
