(* ===== verification/Stbi_Png_Roundtrip.thy ===== *)
theory Stbi_Png_Roundtrip
  imports Stbi_Load_Png Stbi_Zlib_Store
begin

text \<open>
  The PNG round trip through the public entry point: every picture with 8-bit samples, filtered row by row with
  any filters, stored in a zlib stream without compression and cut into any \<open>IDAT\<close> chunks, comes back from
  \<open>stbi_load_from_memory\<close> byte for byte.
\<close>

section \<open>The encoder\<close>

definition be32 :: "uint32 \<Rightarrow> stbi_uc list" where
  "be32 v = [ucast (drop_bit 24 v), ucast (drop_bit 16 v), ucast (drop_bit 8 v), ucast v]"

text \<open>A chunk: length, type, data and the checksum, which the decoder does not look at.\<close>

definition encode_chunk :: "(stbi_uc list \<Rightarrow> uint32) \<Rightarrow> uint32 \<Rightarrow> stbi_uc list \<Rightarrow> stbi_uc list" where
  "encode_chunk crc ty data = be32 (word_of_nat (length data)) @ be32 ty @ data @ be32 (crc (be32 ty @ data))"

definition png_ctype :: "nat \<Rightarrow> stbi_uc" where
  "png_ctype n = (if n = 1 then 0 else if n = 2 then 4 else if n = 3 then 2 else 6)"

definition png_file :: "(stbi_uc list \<Rightarrow> uint32) \<Rightarrow> nat \<Rightarrow> nat \<Rightarrow> nat \<Rightarrow> stbi_uc list list \<Rightarrow> stbi_uc list" where
  "png_file crc n w h pieces =
     png_sig @
     encode_chunk crc (STBI__PNG_TYPE CHR ''I'' CHR ''H'' CHR ''D'' CHR ''R'')
       (be32 (word_of_nat w) @ be32 (word_of_nat h) @ [8, png_ctype n, 0, 0, 0]) @
     concat (map (encode_chunk crc (STBI__PNG_TYPE CHR ''I'' CHR ''D'' CHR ''A'' CHR ''T'')) pieces) @
     encode_chunk crc (STBI__PNG_TYPE CHR ''I'' CHR ''E'' CHR ''N'' CHR ''D'') []"

section \<open>Exact reads from memory\<close>

lemma be32_value:
  "push_bit 16 (u32cast (uint (ucast (drop_bit 24 v) :: stbi_uc) * 256 + uint (ucast (drop_bit 16 v) :: stbi_uc))) +
   u32cast (uint (ucast (drop_bit 8 v) :: stbi_uc) * 256 + uint (ucast v :: stbi_uc)) = v" for v :: uint32
proof -
  define V where "V = uint v"
  have V: "0 \<le> V" "V < 4294967296" using uint_bounds32 [of v] by (simp_all add: V_def)
  have byte: "uint (ucast (drop_bit k v) :: stbi_uc) = V div 2 ^ k mod 256" "uint (ucast v :: stbi_uc) = V mod 256" for k
    by (simp_all add: unsigned_ucast_eq unsigned_drop_bit_eq drop_bit_int_def take_bit_eq_mod V flip: V_def)
  have val: "push_bit 16 (u32cast a) + u32cast b = word_of_int (a * 65536 + b)" for a b
    by (simp add: u32cast_def push_bit_eq_mult)
  have total: "(V div 2 ^ 24 mod 256 * 256 + V div 2 ^ 16 mod 256) * 65536 + (V div 2 ^ 8 mod 256 * 256 + V mod 256) = V"
  proof -
    define p q r where "p = V div 256" and "q = p div 256" and "r = q div 256"
    have eqs: "V div 2 ^ 8 = p" "V div 2 ^ 16 = q" "V div 2 ^ 24 = r"
      by (simp_all add: p_def q_def r_def flip: zdiv_zmult2_eq)
    have r: "r mod 256 = r" using V by (simp add: p_def q_def r_def flip: zdiv_zmult2_eq)
    have "V = 256 * p + V mod 256" "p = 256 * q + p mod 256" "q = 256 * r + q mod 256"
      by (simp_all add: p_def q_def r_def)
    then have "V = 256 * (256 * (256 * r + q mod 256) + p mod 256) + V mod 256" by simp
    then show ?thesis unfolding eqs r by (simp add: algebra_simps)
  qed
  show ?thesis unfolding byte val total by (simp add: V_def)
qed

definition be32_of :: "stbi_uc list \<Rightarrow> uint32" where
  "be32_of bs = push_bit 16 (u32cast (uint (bs ! 0) * 256 + uint (bs ! 1))) + u32cast (uint (bs ! 2) * 256 + uint (bs ! 3))"

lemma length_be32 [simp]: "length (be32 v) = 4"
  by (simp add: be32_def)

lemma be32_of_append [simp]: "be32_of (be32 v @ bs) = v"
  using be32_value [of v] by (simp add: be32_of_def be32_def)

text \<open>Reading from memory only moves the position, so the runs of the decoder can be computed.\<close>

definition adv :: "nat \<Rightarrow> 'u stbi__context \<Rightarrow> 'u stbi__context" where
  "adv k s = s\<lparr>img_buffer := img_buffer s + k\<rparr>"

lemma adv_simps [simp]:
  "stream (adv k s) = drop k (stream s)" "mem_ctx (adv k s) = mem_ctx s" "adv k (adv l s) = adv (k + l) s"
  "img_x (adv k s) = img_x s" "img_y (adv k s) = img_y s" "img_n (adv k s) = img_n s"
  "adv k (s\<lparr>img_x := x\<rparr>) = (adv k s)\<lparr>img_x := x\<rparr>" "adv k (s\<lparr>img_y := x\<rparr>) = (adv k s)\<lparr>img_y := x\<rparr>"
  "adv k (s\<lparr>img_n := i\<rparr>) = (adv k s)\<lparr>img_n := i\<rparr>"
  by (simp_all add: adv_def stream_def mem_ctx_def drop_take add.commute)

lemma stream_img [simp]:
  "stream (s\<lparr>img_x := x\<rparr>) = stream s" "stream (s\<lparr>img_y := x\<rparr>) = stream s" "stream (s\<lparr>img_n := i\<rparr>) = stream s"
  "stream (s\<lparr>img_out_n := i\<rparr>) = stream s"
  by (simp_all add: stream_def)

lemma get8_run: "mem_ctx s \<Longrightarrow> stream s \<noteq> [] \<Longrightarrow> stbi__get8 s = (hd (stream s), adv 1 s)"
  using get8_mem_Cons [of s "hd (stream s)" "tl (stream s)"] by (simp add: adv_def)

lemma get32_run:
  assumes "mem_ctx s" and "4 \<le> length (stream s)"
  shows "stbi__get32be s = (be32_of (stream s), adv 4 s)"
proof -
  obtain a b c d r where "stream s = a # b # c # d # r"
    using assms(2) by (auto simp: numeral_eq_Suc Suc_le_length_iff)
  then show ?thesis
    using assms(1) by (simp add: stbi__get32be_def stbi__get16be_def get8_run be32_of_def numeral_eq_Suc)
qed

lemma png_runs:
  "mem_ctx (png_s z) \<Longrightarrow> stream (png_s z) \<noteq> [] \<Longrightarrow>
     on_ctx stbi__get8 z = (Inr (hd (stream (png_s z))), z\<lparr>png_s := adv 1 (png_s z)\<rparr>)"
  "mem_ctx (png_s z) \<Longrightarrow> 4 \<le> length (stream (png_s z)) \<Longrightarrow>
     on_ctx stbi__get32be z = (Inr (be32_of (stream (png_s z))), z\<lparr>png_s := adv 4 (png_s z)\<rparr>)"
  by (simp_all add: on_ctx_def son_def stot_def get8_run get32_run)

section \<open>The header\<close>

text \<open>The decoder after \<open>IHDR\<close>, with the bytes of the \<open>IDAT\<close> chunks so far.\<close>

definition idat_bytes :: "'u stbi__png \<Rightarrow> stbi_uc list" where
  "idat_bytes z = (case idata z of None \<Rightarrow> [] | Some d \<Rightarrow> d)"

definition png_at :: "nat \<Rightarrow> nat \<Rightarrow> nat \<Rightarrow> stbi_uc list \<Rightarrow> stbi_uc list \<Rightarrow> 'u stbi__png \<Rightarrow> bool" where
  "png_at n w h d rest z \<longleftrightarrow> \<not> png_first z \<and> depth z = 8 \<and> interlace z = 0 \<and> pal_img_n z = 0 \<and> \<not> has_trans z \<and>
     \<not> is_iphone z \<and> png_data z \<and> idat_bytes z = d \<and> mem_ctx (png_s z) \<and> stream (png_s z) = rest \<and>
     img_x (png_s z) = word_of_nat w \<and> img_y (png_s z) = word_of_nat h \<and> img_n (png_s z) = int n"

definition png_size :: "nat \<Rightarrow> nat \<Rightarrow> nat \<Rightarrow> bool" where
  "png_size n w h \<longleftrightarrow> n \<in> {1, 2, 3, 4} \<and> 0 < w \<and> w \<le> 2 ^ 24 \<and> 0 < h \<and> h \<le> 2 ^ 24 \<and> w * h * n \<le> 2 ^ 30"

lemma png_size_words:
  assumes "png_size n w h"
  shows "unat (word_of_nat w :: uint32) = w" "unat (word_of_nat h :: uint32) = h"
  using assms by (simp_all add: png_size_def unat_of_nat)

lemma same_img_fields: "same_img t s \<Longrightarrow> img_x t = img_x s \<and> img_y t = img_y s \<and> img_n t = img_n s"
  by (simp add: same_img_def)

lemma wp_encoded_IHDR:
  assumes "png_size n w h" and "mem_ctx s"
    and "stream s = be32 (word_of_nat w) @ be32 (word_of_nat h) @ [8, png_ctype n, 0, 0, 0] @ rest"
    and "chunk_length c = 13"
  shows "wp (png_IHDR c) (\<lambda>fin z. \<not> fin \<and> png_at n w h [] rest z) (\<lambda>_. False) (png_start s)"
proof -
  have nz: "word_of_nat w \<noteq> (0 :: uint32)" "word_of_nat h \<noteq> (0 :: uint32)"
    using png_size_words [OF assms(1)] assms(1) by (auto simp: png_size_def)
  have "n * (h * w) \<le> 2 ^ 30" using assms(1) by (simp add: png_size_def ac_simps)
  then have limit: "\<not> 2 ^ 30 div w div n < h"
    using assms(1) by (auto simp: png_size_def not_less less_eq_div_iff_mult_less_eq ac_simps simp flip: div_mult2_eq)
  have dims: "\<not> STBI_MAX_DIMENSIONS < w" "\<not> STBI_MAX_DIMENSIONS < h" using assms(1) by (auto simp: png_size_def STBI_MAX_DIMENSIONS_def)
  have ct: "uint (png_ctype n) \<le> 6" "png_ctype n \<noteq> 3" "uint (png_ctype n) AND 1 = 0"
    "(if uint (png_ctype n) AND 2 \<noteq> 0 then 3 else 1) + (if uint (png_ctype n) AND 4 \<noteq> 0 then 1 else 0) = int n"
    using assms(1) by (auto simp: png_ctype_def png_size_def)
  have "\<exists>z. png_IHDR c (png_start s) = (Inr False, z) \<and> png_at n w h [] rest z"
    unfolding png_IHDR_def png_IHDR_components_def upd_ctx_def Let_def
    using nz ct limit
    by (simp add: sbind_def sget_def sguard_def smodify_def sret_def png_start_def png_runs assms(2-4) dims
        png_size_words [OF assms(1)] png_at_def png_data_def idat_bytes_def)
  then show ?thesis by (auto simp: wp_def)
qed

section \<open>The data chunks\<close>

lemma getn_run:
  assumes "mem_ctx s" and "k < length (stream s)"
  shows "stbi__getn s k = (Some (take k (stream s)), adv k s)"
  using assms by (auto simp: stbi__getn_def getn_buffered_def mem_ctx_def stream_def adv_def)

lemma grow_idata_run:
  assumes "0 < limit" and "unat need < 2 ^ 31"
  shows "\<exists>l. grow_idata 33 need limit = Inr l \<and> need \<le> l"
proof -
  have "grow_idata k need l = Inl e \<Longrightarrow> e = NoReturn" for k l e
    by (induction k need l rule: grow_idata.induct) (auto split: if_splits)
  moreover have "1 \<le> unat limit" using assms(1) by (simp add: unat_gt_0 Suc_le_eq)
  then have "ensures (grow_idata (Suc 32) need limit) (\<lambda>l. need \<le> l)"
    using assms by (intro ensures_grow_idata) (auto simp: Suc_le_eq)
  moreover have "33 = Suc 32" by simp
  ultimately show ?thesis by (metis ensures_iff sum.exhaust)
qed

lemma room_run:
  assumes "png_data z" and "unat need = ioff z + unat len" and "ioff z + unat len < 2 ^ 31"
  shows "\<exists>l i. png_IDAT_room need len z = (Inr (), z\<lparr>idata_limit := l, idata := i\<rparr>) \<and> need \<le> l \<and>
    (case i of None \<Rightarrow> idat_bytes z = [] \<and> need = 0 \<and> l = 0 | Some d \<Rightarrow> d = idat_bytes z \<and> 0 < l)"
proof (cases "idata_limit z < need")
  case True
  let ?limit = "if idata_limit z = 0 then if 4096 < len then len else 4096 else idata_limit z"
  have "0 < ?limit" by (auto simp: word_less_nat_alt unat_gt_0)
  then obtain l where l: "grow_idata 33 need ?limit = Inr l" "need \<le> l"
    using grow_idata_run [of ?limit need] assms by auto
  moreover have "0 < l" using True l(2) by (simp add: word_less_nat_alt word_le_nat_alt)
  ultimately show ?thesis
    using True by (auto simp: png_IDAT_room_def sbind_def sget_def slift_def smodify_def Let_def idat_bytes_def
        intro!: exI [of _ l] exI [of _ "Some (idat_bytes z)"] split del: if_split)
next
  case False
  then have "need \<le> idata_limit z" by simp
  moreover have "idata z = None \<Longrightarrow> need = 0 \<and> idata_limit z = 0" using assms(1) False by (auto simp: png_data_def word_gt_0)
  moreover have "idata z = Some d \<Longrightarrow> 0 < idata_limit z" for d using assms(1) by (simp add: png_data_def)
  ultimately show ?thesis
    using False by (auto simp: png_IDAT_room_def sbind_def sget_def sret_def idat_bytes_def
      intro!: exI [of _ "idata_limit z"] exI [of _ "idata z"] split: option.splits)
qed

lemma run_encoded_IDAT:
  assumes "png_at n w h d (piece @ rest) z" and "rest \<noteq> []" and "length piece \<le> 2 ^ 30" and "length d + length piece < 2 ^ 31"
    and "chunk_length c = word_of_nat (length piece)"
  shows "\<exists>z'. png_IDAT STBI__SCAN_load c z = (Inr False, z') \<and> png_at n w h (d @ piece) rest z'"
proof -
  have z: "\<not> png_first z" "pal_img_n z = 0" "png_data z" "mem_ctx (png_s z)" "stream (png_s z) = piece @ rest" "idat_bytes z = d"
    using assms(1) by (simp_all add: png_at_def)
  have off: "ioff z = length d" using z(6) by (auto simp: ioff_def idat_bytes_def split: option.splits)
  let ?len = "word_of_nat (length piece) :: uint32" and ?off = "word_of_nat (length d) :: uint32"
  have len: "unat ?len = length piece" "unat ?off = length d" using assms(3,4) by (simp_all add: unat_of_nat)
  have sum: "unat (?off + ?len) = length d + length piece" using len assms(4) by (subst unat_add_lem [THEN iffD1]) simp_all
  have guards: "\<not> 2 ^ 30 < ?len" "\<not> sint (?off + ?len) < sint ?off"
    using len assms(3,4) sum by (simp_all add: word_less_nat_alt sint_small32)
  obtain l i where r: "png_IDAT_room (?off + ?len) ?len z = (Inr (), z\<lparr>idata_limit := l, idata := i\<rparr>)" "?off + ?len \<le> l"
      "case i of None \<Rightarrow> idat_bytes z = [] \<and> ?off + ?len = 0 \<and> l = 0 | Some d \<Rightarrow> d = idat_bytes z \<and> 0 < l"
    using room_run [OF z(3), of "?off + ?len" ?len] len sum off assms(4) by auto
  have fits: "length d + length piece \<le> unat l" using r(2) sum by (simp add: word_le_nat_alt)
  have "k < length (stream (png_s z)) \<Longrightarrow> k = length piece \<Longrightarrow>
      on_ctx (\<lambda>s. stbi__getn s k) (z\<lparr>idata_limit := l, idata := i\<rparr>) = (Inr (Some piece), z\<lparr>idata_limit := l, idata := i, png_s := adv k (png_s z)\<rparr>)" for k
    using z(4,5) by (simp add: on_ctx_def son_def stot_def getn_run)
  then have getn: "on_ctx (\<lambda>s. stbi__getn s (length piece)) (z\<lparr>idata_limit := l, idata := i\<rparr>) =
      (Inr (Some piece), z\<lparr>idata_limit := l, idata := i, png_s := adv (length piece) (png_s z)\<rparr>)"
    using z(5) assms(2) by simp
  let ?z = "z\<lparr>idata_limit := l, idata := i, png_s := adv (length piece) (png_s z), idata := map_option (\<lambda>d. d @ piece) i\<rparr>"
  have "png_IDAT STBI__SCAN_load c z = (Inr False, ?z)"
    unfolding png_IDAT_def Let_def
    using z(1,2) guards fits
    by (simp add: sbind_def sget_def sguard_def smodify_def sret_def off assms(5) r(1) len getn)
  moreover have "png_at n w h (d @ piece) rest ?z"
  proof (cases i)
    case None
    then have "d = []" "piece = []" using r(3) z(6) sum by auto
    then show ?thesis using None assms(1) r(3) by (simp add: png_at_def png_data_def idat_bytes_def)
  next
    case (Some d')
    then show ?thesis using assms(1,4) r(3) z(6) fits by (simp add: png_at_def png_data_def idat_bytes_def)
  qed
  ultimately show ?thesis by blast
qed

section \<open>The loop over the chunks\<close>

lemma chunk_header_run:
  assumes "mem_ctx s" and "stream s = encode_chunk crc ty data @ rest"
  shows "stbi__get_chunk_header s = (\<lparr>chunk_length = word_of_nat (length data), chunk_type = ty\<rparr>, adv 8 s)"
    and "drop 8 (stream s) = data @ be32 (crc (be32 ty @ data)) @ rest"
  using assms by (simp_all add: stbi__get_chunk_header_def get32_run encode_chunk_def)

lemma png_at_adv: "png_at n w h d rest z \<Longrightarrow> png_at n w h d (drop k rest) (z\<lparr>png_s := adv k (png_s z)\<rparr>)"
  by (cases "idata z") (simp_all add: png_at_def png_data_def idat_bytes_def)

lemma png_chunks_step:
  assumes "png_at n w h d (encode_chunk crc ty data @ rest) z"
  shows "png_chunks (Suc fuel) cfg scan req z =
    sbind (png_chunk cfg scan req \<lparr>chunk_length = word_of_nat (length data), chunk_type = ty\<rparr>) (\<lambda>fin.
     if fin then sret () else sbind (on_ctx stbi__get32be) (\<lambda>_. png_chunks fuel cfg scan req))
     (z\<lparr>png_s := adv 8 (png_s z)\<rparr>)"
    and "png_at n w h d (data @ be32 (crc (be32 ty @ data)) @ rest) (z\<lparr>png_s := adv 8 (png_s z)\<rparr>)"
proof -
  have z: "mem_ctx (png_s z)" "stream (png_s z) = encode_chunk crc ty data @ rest" using assms by (simp_all add: png_at_def)
  note hd = chunk_header_run [OF z]
  show "png_chunks (Suc fuel) cfg scan req z =
    sbind (png_chunk cfg scan req \<lparr>chunk_length = word_of_nat (length data), chunk_type = ty\<rparr>) (\<lambda>fin.
     if fin then sret () else sbind (on_ctx stbi__get32be) (\<lambda>_. png_chunks fuel cfg scan req))
     (z\<lparr>png_s := adv 8 (png_s z)\<rparr>)"
    unfolding png_chunks.simps by (subst sbind_def) (simp add: on_ctx_def son_def stot_def hd(1))
  show "png_at n w h d (data @ be32 (crc (be32 ty @ data)) @ rest) (z\<lparr>png_s := adv 8 (png_s z)\<rparr>)"
    using png_at_adv [OF assms, of 8] hd(2) z(2) by simp
qed

lemma run_encoded_IDATs:
  assumes "png_at n w h d (concat (map (encode_chunk crc (STBI__PNG_TYPE CHR ''I'' CHR ''D'' CHR ''A'' CHR ''T'')) pieces) @ tail) z"
    and "tail \<noteq> []" and "\<forall>p \<in> set pieces. length p \<le> 2 ^ 30" and "length d + length (concat pieces) < 2 ^ 31"
  shows "\<exists>z'. png_chunks (length pieces + fuel) cfg STBI__SCAN_load req z = png_chunks fuel cfg STBI__SCAN_load req z' \<and>
    png_at n w h (d @ concat pieces) tail z'"
  using assms
proof (induction pieces arbitrary: d z)
  case Nil
  then show ?case by auto
next
  case (Cons p pieces)
  let ?ty = "STBI__PNG_TYPE CHR ''I'' CHR ''D'' CHR ''A'' CHR ''T''"
  let ?more = "concat (map (encode_chunk crc ?ty) pieces) @ tail" and ?c = "\<lparr>chunk_length = word_of_nat (length p), chunk_type = ?ty\<rparr>"
  have z: "png_at n w h d (encode_chunk crc ?ty p @ ?more) z" using Cons.prems(1) by simp
  note step = png_chunks_step [OF z]
  have type: "png_chunk cfg STBI__SCAN_load req ?c = png_IDAT STBI__SCAN_load ?c" for cfg req
    by (simp add: png_chunk_def STBI__PNG_TYPE_def)
  obtain z1 where z1: "png_IDAT STBI__SCAN_load ?c (z\<lparr>png_s := adv 8 (png_s z)\<rparr>) = (Inr False, z1)"
      "png_at n w h (d @ p) (be32 (crc (be32 ?ty @ p)) @ ?more) z1"
    using run_encoded_IDAT [OF step(2), of ?c] Cons.prems(3,4) by (auto simp: be32_def)
  have crc: "on_ctx stbi__get32be z1 = (Inr (crc (be32 ?ty @ p)), z1\<lparr>png_s := adv 4 (png_s z1)\<rparr>)"
    using z1(2) by (simp add: png_at_def png_runs)
  have "png_at n w h (d @ p) ?more (z1\<lparr>png_s := adv 4 (png_s z1)\<rparr>)"
    using png_at_adv [OF z1(2), of 4] by simp
  from Cons.IH [OF this] Cons.prems obtain z2 where
    z2: "png_chunks (length pieces + fuel) cfg STBI__SCAN_load req (z1\<lparr>png_s := adv 4 (png_s z1)\<rparr>) = png_chunks fuel cfg STBI__SCAN_load req z2"
      "png_at n w h ((d @ p) @ concat pieces) tail z2" by auto
  have "png_chunks (length (p # pieces) + fuel) cfg STBI__SCAN_load req z = png_chunks fuel cfg STBI__SCAN_load req z2"
    unfolding list.size add_Suc add_0_right add_Suc_right Nat.add_0 One_nat_def
    by (simp only: add_Suc step(1) type) (simp add: sbind_def z1(1) crc z2(1))
  with z2(2) show ?case by auto
qed

section \<open>The end\<close>

lemma raw_len_value:
  assumes "png_size n w h"
  shows "sint ((word_of_nat w * u32cast 8 + 7) div 8 * word_of_nat h * u32cast (int n) + word_of_nat h :: uint32) = int (w * h * n + h)"
proof -
  have n: "1 \<le> n" "n \<le> 4" and w: "w \<le> 2 ^ 24" and h: "h \<le> 2 ^ 24" and whn: "w * h * n \<le> 2 ^ 30" using assms by (auto simp: png_size_def)
  have "word_of_nat w * u32cast 8 + 7 = (word_of_nat (w * 8 + 7) :: uint32)" by (simp add: u32cast_def)
  moreover have "unat (word_of_nat (w * 8 + 7) :: uint32) = w * 8 + 7" using w by (simp only: unat_of_nat) simp
  ultimately have "unat ((word_of_nat w * u32cast 8 + 7) div 8 :: uint32) = (w * 8 + 7) div 8" by (simp add: unat_div)
  also have "(w * 8 + 7) div 8 = w" by simp
  finally have "(word_of_nat w * u32cast 8 + 7) div 8 = (word_of_nat w :: uint32)"
    by (metis of_nat_unat ucast_id)
  then have "(word_of_nat w * u32cast 8 + 7) div 8 * word_of_nat h * u32cast (int n) + word_of_nat h = (word_of_nat (w * h * n + h) :: uint32)"
    by (simp add: u32cast_def)
  moreover have "unat (word_of_nat (w * h * n + h) :: uint32) = w * h * n + h"
    using whn h by (simp only: unat_of_nat) simp
  ultimately show ?thesis using whn h by (subst sint_small32) simp_all
qed

text \<open>The rows of a picture with their filters.\<close>

definition png_rows_ok :: "nat \<Rightarrow> nat \<Rightarrow> (nat \<times> stbi_uc list) list \<Rightarrow> bool" where
  "png_rows_ok n w rows \<longleftrightarrow> (\<forall>(f, row) \<in> set rows. f < 5 \<and> length row = n * w)"

lemma image_run:
  assumes "png_size n w (length rows)" and "png_rows_ok n w rows"
  shows "stbi__create_png_image n w (length rows) (filter_rows n (replicate (n * w) 0) rows) n 8 col False = Inr (concat (map snd rows))"
proof -
  have n: "n \<in> {1, 2, 3, 4}" "0 < w" "w \<le> 2 ^ 24" "0 < length rows" "w * length rows * n \<le> 2 ^ 30" using assms(1) by (auto simp: png_size_def)
  have fmt: "png_format n n 8" using n(1) by (simp add: png_format_def)
  have width: "png_width_bytes n w 8 = n * w" by (simp add: png_width_bytes_def)
  have b: "png_bytes 8 = 1" by (simp add: png_bytes_def)
  have nw: "n * w \<le> 2 ^ 26" using mult_le_mono [of n 4 w "2 ^ 24"] n(1,3) by auto
  have "w * length rows * 1 \<le> w * length rows * n" using n(1) by (intro mult_le_mono2) auto
  then have wr: "w * length rows \<le> 2 ^ 30" using n(5) by linarith
  have fits: "png_fits n n 8 w (length rows)"
    unfolding png_fits_def width b Let_def using nw wr n(5) by (simp add: INT_MAX_def ac_simps flip: of_nat_mult)
  have rows: "f < 5 \<and> length row = png_width_bytes n w 8 \<and> expand_row n n w 8 col row = Inr row" if "(f, row) \<in> set rows" for f row
  proof -
    have "f < 5" "length row = n * w" using assms(2) that by (auto simp: png_rows_ok_def)
    then show ?thesis using expand_row_spec [OF fmt, of row w col] width by (simp add: png_row_def)
  qed
  have bpp: "(if 8 < (8 :: nat) then 1 else n * png_bytes 8) = n" by (simp add: b)
  show ?thesis
    using image_raw_filtered [where E = "\<lambda>row. row", OF fmt n(2) rows fits, of "[]"] unfolding width bpp
    by (simp add: stbi__create_png_image_def comp_def)
qed

lemma run_encoded_IEND:
  assumes "png_size n w (length rows)" and "png_rows_ok n w rows"
    and "png_at n w (length rows) (zlib_store cs @ checksum) (encode_chunk crc (STBI__PNG_TYPE CHR ''I'' CHR ''E'' CHR ''N'' CHR ''D'') []) z"
    and "concat cs = filter_rows n (replicate (n * w) 0) rows" and "\<forall>c \<in> set cs. length c \<le> 65535"
  shows "\<exists>z'. png_chunks (Suc fuel) cfg STBI__SCAN_load 0 z = (Inr (), z') \<and> out z' = concat (map snd rows) \<and> depth z' = 8 \<and>
    img_x (png_s z') = word_of_nat w \<and> img_y (png_s z') = word_of_nat (length rows) \<and> img_n (png_s z') = int n \<and> img_out_n (png_s z') = int n"
proof -
  let ?ty = "STBI__PNG_TYPE CHR ''I'' CHR ''E'' CHR ''N'' CHR ''D''" and ?z = "z\<lparr>png_s := adv 8 (png_s z)\<rparr>"
  let ?c = "\<lparr>chunk_length = word_of_nat (length ([] :: stbi_uc list)), chunk_type = ?ty\<rparr>"
  have z: "png_at n w (length rows) (zlib_store cs @ checksum) (encode_chunk crc ?ty [] @ []) z" using assms(3) by simp
  note step = png_chunks_step [OF z]
  have type: "png_chunk cfg STBI__SCAN_load 0 ?c = png_IEND cfg STBI__SCAN_load 0"
    by (simp add: png_chunk_def STBI__PNG_TYPE_def)
  have "length (filter_rows n (replicate (n * w) 0) rows) = length rows * (n * w + 1)"
    using assms(2) by (intro filter_rows_length) (auto simp: png_rows_ok_def)
  moreover have "length rows * (n * w + 1) \<le> 2 ^ 31" and rpos: "0 < length rows" and lr: "length rows \<le> 2 ^ 24" and whn: "w * length rows * n \<le> 2 ^ 30"
    using assms(1) by (auto simp: png_size_def algebra_simps)
  ultimately have len: "length (concat cs) \<le> 2 ^ 31" "cs \<noteq> []" using assms(4) by auto
  obtain b where b: "stbi__do_zlib (zlib_store cs @ checksum) (w * length rows * n + length rows) True True = Inr b" "zout b = concat cs"
    using zlib_stored [OF len(2) assms(5), of "w * length rows * n + length rows" True checksum] len(1) rpos lr whn by auto
  have raw: "stbi_zlib_decode_malloc_guesssize_headerflag (zlib_store cs @ checksum) (int (w * length rows * n + length rows)) True = Inr (concat cs)"
    unfolding stbi_zlib_decode_malloc_guesssize_headerflag_def nat_int using b by (simp del: of_nat_add of_nat_mult)
  have f: "\<not> png_first ?z" "depth ?z = 8" "interlace ?z = 0" "pal_img_n ?z = 0" "\<not> has_trans ?z" "\<not> is_iphone ?z" "mem_ctx (png_s ?z)"
      "img_x (png_s ?z) = word_of_nat w" "img_y (png_s ?z) = word_of_nat (length rows)" "img_n (png_s ?z) = int n"
      "idata ?z = Some (zlib_store cs @ checksum)" "stream (png_s ?z) = be32 (crc (be32 ?ty))"
    using step(2) by (auto simp: png_at_def idat_bytes_def zlib_store_def split: option.splits)
  define zi where "zi = ?z"
  note f = f [folded zi_def]
  let ?z1 = "zi\<lparr>expanded := concat cs, idata := None, png_s := (png_s zi)\<lparr>img_out_n := int n\<rparr>\<rparr>"
  have finish: "png_finish cfg 0 ?z1 = (Inr (), ?z1\<lparr>out := concat (map snd rows)\<rparr>)"
    unfolding png_finish_def Let_def
    using image_run [OF assms(1,2), of "color zi"] assms(4) f
    by (simp add: sbind_def sget_def slift_def smodify_def sret_def png_size_words [OF assms(1)])
  have "png_IEND cfg STBI__SCAN_load 0 zi = (Inr True, ?z1\<lparr>out := concat (map snd rows), png_s := adv 4 (png_s ?z1)\<rparr>)"
    unfolding png_IEND_def Let_def
    using f raw finish
    by (simp add: sbind_def sget_def sguard_def slift_def smodify_def sret_def upd_ctx_def raw_len_value [OF assms(1)] png_runs)
  then show ?thesis
    using f unfolding step(1) type zi_def [symmetric] by (simp add: sbind_def sret_def adv_def)
qed

section \<open>The file\<close>

lemma sig_run:
  "stbi__check_png_header (stbi__start_mem s (png_sig @ rest)) = (Inr (), adv 8 (stbi__start_mem s (png_sig @ rest)))"
proof -
  have eq: "(stbi__start_mem s (png_sig @ rest))\<lparr>img_buffer := 0\<rparr> = stbi__start_mem s (png_sig @ rest)"
    and start: "img_buffer (stbi__start_mem s (png_sig @ rest)) = 0"
    by (simp_all add: stbi__start_mem_def)
  show ?thesis
    using expect_mem [of 0 "png_sig @ rest" png_sig rest "Failure ''bad png sig''" s, unfolded eq]
    by (simp add: stbi__check_png_header_def adv_def start)
qed

lemma png_load_encoded:
  assumes "png_size n w (length rows)" and "png_rows_ok n w rows"
    and "concat cs = filter_rows n (replicate (n * w) 0) rows" and "\<forall>c \<in> set cs. length c \<le> 65535"
    and "concat pieces = zlib_store cs @ checksum" and "\<forall>p \<in> set pieces. length p \<le> 2 ^ 30" and "length (concat pieces) < 2 ^ 31"
    and "length pieces + 2 \<le> fuel"
  shows "fst (stbi__png_load fuel cfg 0 (stbi__start_mem s (png_file crc n w (length rows) pieces))) =
    Inr \<lparr>ld_data = Pixels8 (concat (map snd rows)), ld_x = w, ld_y = length rows, ld_comp = int n\<rparr>"
proof -
  let ?IEND = "encode_chunk crc (STBI__PNG_TYPE CHR ''I'' CHR ''E'' CHR ''N'' CHR ''D'') []"
  let ?IDATs = "concat (map (encode_chunk crc (STBI__PNG_TYPE CHR ''I'' CHR ''D'' CHR ''A'' CHR ''T'')) pieces)"
  let ?ty = "STBI__PNG_TYPE CHR ''I'' CHR ''H'' CHR ''D'' CHR ''R''"
  let ?ihdr = "be32 (word_of_nat w) @ be32 (word_of_nat (length rows)) @ [8, png_ctype n, 0, 0, 0]"
  define pf where "pf = png_file crc n w (length rows) pieces"
  obtain f where f: "fuel = Suc (length pieces + Suc f)"
    using assms(8) by (auto simp: le_iff_add)
  define s1 where "s1 = adv 8 (stbi__start_mem s pf)"
  have fl: "pf = png_sig @ encode_chunk crc ?ty ?ihdr @ ?IDATs @ ?IEND" by (simp add: pf_def png_file_def)
  have s1: "mem_ctx s1" "stream s1 = encode_chunk crc ?ty ?ihdr @ ?IDATs @ ?IEND" by (simp_all add: s1_def fl)
  let ?c = "\<lparr>chunk_length = 13, chunk_type = ?ty\<rparr>"
  have head: "stbi__get_chunk_header s1 = (?c, adv 8 s1)" "stream (adv 8 s1) = ?ihdr @ be32 (crc (be32 ?ty @ ?ihdr)) @ ?IDATs @ ?IEND"
    using chunk_header_run [OF s1] by simp_all
  obtain z1 where z1: "png_IHDR ?c (png_start (adv 8 s1)) = (Inr False, z1)"
      "png_at n w (length rows) [] (be32 (crc (be32 ?ty @ ?ihdr)) @ ?IDATs @ ?IEND) z1"
    using wp_encoded_IHDR [OF assms(1), of "adv 8 s1" "be32 (crc (be32 ?ty @ ?ihdr)) @ ?IDATs @ ?IEND" ?c] s1(1) head(2)
    by (auto simp: wp_def split: prod.splits sum.splits)
  have crc: "on_ctx stbi__get32be z1 = (Inr (crc (be32 ?ty @ ?ihdr)), z1\<lparr>png_s := adv 4 (png_s z1)\<rparr>)"
    using z1(2) by (simp add: png_at_def png_runs)
  have "png_at n w (length rows) [] (?IDATs @ ?IEND) (z1\<lparr>png_s := adv 4 (png_s z1)\<rparr>)"
    using png_at_adv [OF z1(2), of 4] by simp
  from run_encoded_IDATs [OF this, of "Suc f" cfg 0] obtain z2 where
    z2: "png_chunks (length pieces + Suc f) cfg STBI__SCAN_load 0 (z1\<lparr>png_s := adv 4 (png_s z1)\<rparr>) = png_chunks (Suc f) cfg STBI__SCAN_load 0 z2"
      "png_at n w (length rows) (zlib_store cs @ checksum) ?IEND z2"
    using assms(5-7) by (auto simp: encode_chunk_def be32_def)
  from run_encoded_IEND [OF assms(1,2) z2(2) assms(3,4), of f cfg] obtain z3 where
    z3: "png_chunks (Suc f) cfg STBI__SCAN_load 0 z2 = (Inr (), z3)" "out z3 = concat (map snd rows)" "depth z3 = 8"
      "img_x (png_s z3) = word_of_nat w" "img_y (png_s z3) = word_of_nat (length rows)" "img_n (png_s z3) = int n" "img_out_n (png_s z3) = int n"
    by auto
  have type: "png_chunk cfg STBI__SCAN_load 0 ?c (png_start (adv 8 s1)) = (Inr False, z1)"
    using z1(1) by (simp add: png_chunk_def STBI__PNG_TYPE_def)
  have next_chunk: "on_ctx stbi__get_chunk_header (png_start s1) = (Inr ?c, png_start (adv 8 s1))"
    by (simp add: on_ctx_def son_def stot_def head(1) png_start_def)
  have "png_chunks fuel cfg STBI__SCAN_load 0 (png_start s1) = (Inr (), z3)"
    unfolding f by (subst png_chunks.simps) (simp add: sbind_def next_chunk type crc z2(1) z3(1) del: png_chunks.simps add_Suc_right)
  moreover have "stbi__check_png_header (stbi__start_mem s pf) = (Inr (), s1)"
    unfolding s1_def fl by (rule sig_run)
  ultimately have "stbi__parse_png_file fuel cfg STBI__SCAN_load 0 (png_start (stbi__start_mem s pf)) = (Inr (), z3)"
    by (simp add: stbi__parse_png_file_def sbind_def son_def png_start_def)
  then show ?thesis
    unfolding pf_def [symmetric] stbi__png_load_def png_run_def stbi__do_png_def Let_def
    by (simp add: sbind_def sget_def sret_def z3 png_size_words [OF assms(1)])
qed

section \<open>Properties\<close>

text \<open>C5. The PNG round trip through the public entry point: take a picture of \<open>n\<close> components with 8 bits each, filter its rows with
  any of the five filters, store the scanlines in a zlib stream of stored blocks, and cut the stream into any \<open>IDAT\<close> chunks, with any
  checksums. \<open>stbi_load_from_memory\<close> returns the picture: its size, its number of components and every sample, when no flip is set.\<close>

theorem png_roundtrip:
  assumes "png_size n w (length rows)" and "png_rows_ok n w rows"
    and "concat cs = filter_rows n (replicate (n * w) 0) rows" and "\<forall>c \<in> set cs. length c \<le> 65535"
    and "concat pieces = zlib_store cs @ checksum" and "\<forall>p \<in> set pieces. length p \<le> 2 ^ 30" and "length (concat pieces) < 2 ^ 31"
    and "length pieces + 2 \<le> env_fuel env" and "\<not> flip_on_load env"
  shows "stbi_load_from_memory env s (png_file crc n w (length rows) pieces) 0 =
    Inr \<lparr>ld_data = Pixels8 (concat (map snd rows)), ld_x = w, ld_y = length rows, ld_comp = int n\<rparr>"
proof -
  have "take 8 (png_file crc n w (length rows) pieces) = png_sig" by (simp add: png_file_def)
  then show ?thesis
    unfolding stbi_load_from_memory_def postprocess_8bit_fst
    using png_load_encoded [OF assms(1-8), of "env_cfg env" s crc] assms(9) by (simp add: load_main_png)
qed

theorem png_roundtrip_witness:
  "stbi_load_from_memory \<lparr>env_cfg = stbi__config_start, env_h2l = hdr_settings_start, l2h_gamma = Fin 2,
      l2h_scale = Fin 1, env_pow = (\<lambda>x y. x), env_fuel = 10\<rparr> (undefined :: unit stbi__context)
      (png_file (\<lambda>_. 0) 3 2 1 [zlib_store [filter_rows 3 (replicate 6 0) [(1, [10, 20, 30, 40, 50, 60])]], []]) 0 =
    Inr \<lparr>ld_data = Pixels8 [10, 20, 30, 40, 50, 60], ld_x = 2, ld_y = 1, ld_comp = 3\<rparr>"
  using png_roundtrip [of 3 2 "[(1, [10, 20, 30, 40, 50, 60])]" "[filter_rows 3 (replicate 6 0) [(1, [10, 20, 30, 40, 50, 60])]]"
    "[zlib_store [filter_rows 3 (replicate 6 0) [(1, [10, 20, 30, 40, 50, 60])]], []]" "[]"
    "\<lparr>env_cfg = stbi__config_start, env_h2l = hdr_settings_start, l2h_gamma = Fin 2,
      l2h_scale = Fin 1, env_pow = (\<lambda>x y. x), env_fuel = 10\<rparr>" "undefined :: unit stbi__context" "\<lambda>_. 0"]
  by (simp add: png_size_def png_rows_ok_def zlib_store_def stored_chunk_def le16_def flip_on_load_def stbi__config_start_def stbi__flag_value_def)

end
