(* ===== verification/Stbi_Pnm_Load.thy ===== *)
theory Stbi_Pnm_Load
  imports Stbi_Load_Png
begin

text \<open>
  The PNM decoder on memory: it is safe on all bytes, and it returns the picture that the simplest
  encoder writes. The interface \<open>whole_source\<close> adds to \<open>byte_source\<close> what a block of memory offers beyond a
  stream: the end is known, and the reader can go back to the start.
\<close>

section \<open>Sources with a known end\<close>

locale whole_source = byte_source ok left
  for ok :: "'u stbi__context \<Rightarrow> bool" and left :: "'u stbi__context \<Rightarrow> nat" +
  assumes at_eof_iff: "ok s \<Longrightarrow> stbi__at_eof s \<longleftrightarrow> left s = 0"
    and rewind_ok: "ok s \<Longrightarrow> ok (stbi__rewind s)"
    and getn_enough: "ok s \<Longrightarrow> fst (stbi__getn s k) = Some bs \<Longrightarrow> k \<le> left s"
begin

lemma wp_getn_enough:
  assumes "ok s" and "\<And>t. after s t \<Longrightarrow> Q None t"
    and "\<And>bs t. after s t \<Longrightarrow> length bs = k \<Longrightarrow> k \<le> left s \<Longrightarrow> Q (Some bs) t"
  shows "wp (stot (\<lambda>s. stbi__getn s k)) Q E s"
proof -
  have "wp (stot (\<lambda>s. stbi__getn s k)) (\<lambda>r t. after s t \<and> (\<forall>bs. r = Some bs \<longrightarrow> length bs = k)) E s"
    by (rule wp_getn [OF assms(1)]) simp
  moreover have "wp (stot (\<lambda>s. stbi__getn s k)) (\<lambda>r t. \<forall>bs. r = Some bs \<longrightarrow> k \<le> left s) E s"
    using getn_enough [OF assms(1), of k] by (cases "stbi__getn s k") (auto simp: wp_stot)
  ultimately have "wp (stot (\<lambda>s. stbi__getn s k))
      (\<lambda>r t. after s t \<and> (\<forall>bs. r = Some bs \<longrightarrow> length bs = k \<and> k \<le> left s)) E s"
    by (simp add: wp_stot split: prod.splits)
  then show ?thesis by (rule wp_mono) (use assms(2,3) in \<open>auto split: option.splits\<close>, metis option.exhaust)
qed

section \<open>The header\<close>

lemma wp_pnm_while:
  assumes "ok s" and "left s < fuel"
  shows "wp (pnm_while fuel p c) (\<lambda>d t. after s t \<and> (left t = 0 \<or> \<not> p d) \<and> (p c \<longrightarrow> left s \<noteq> 0 \<longrightarrow> left t < left s)) E s"
  using assms
proof (induction fuel arbitrary: c s)
  case (Suc fuel)
  show ?case
  proof (cases "left s \<noteq> 0 \<and> p c")
    case True
    then show ?thesis
      unfolding pnm_while.simps rd8_def
      by (intro wp_intros wp_get8) (use Suc in \<open>auto simp: at_eof_iff after_def
          intro!: wp_mono [OF Suc.IH] intro: same_img_trans\<close>)
  next
    case False
    then show ?thesis using Suc.prems by (auto simp: wp_simps at_eof_iff)
  qed
qed simp

lemma wp_skip_whitespace:
  assumes "ok s" and "left s < fuel" and "left s < n"
  shows "wp (skip_whitespace fuel n c) (\<lambda>_. after s) E s"
  using assms
proof (induction n arbitrary: c s)
  case (Suc n)
  have round: "wp (sbind (pnm_while fuel (\<lambda>c. c \<noteq> 10 \<and> c \<noteq> 13) 35) (skip_whitespace fuel n)) (\<lambda>_. after s) E t"
    if "after s t" "left t \<noteq> 0" for t
  proof (rule wp_sbindI, rule wp_mono, rule wp_pnm_while)
    show "ok t" "left t < fuel" using that Suc.prems by (auto simp: after_def)
    fix d :: stbi_uc and u assume u: "after t u \<and> (left u = 0 \<or> \<not> (d \<noteq> 10 \<and> d \<noteq> 13)) \<and>
      ((35 :: stbi_uc) \<noteq> 10 \<and> (35 :: stbi_uc) \<noteq> 13 \<longrightarrow> left t \<noteq> 0 \<longrightarrow> left u < left t)"
    then have "after s u" "left u < n" using that Suc.prems(3) by (auto intro: after_trans dest: afterD)
    then show "wp (skip_whitespace fuel n d) (\<lambda>_. after s) E u"
      by (intro wp_mono [OF Suc.IH]) (use Suc.prems(2) that(1) in \<open>auto intro: after_trans dest: afterD\<close>)
  qed
  show ?case
    unfolding skip_whitespace.simps
  proof (rule wp_sbindI, rule wp_mono, rule wp_pnm_while)
    fix d t assume "after s t \<and> (left t = 0 \<or> \<not> stbi__pnm_isspace d) \<and> (stbi__pnm_isspace c \<longrightarrow> left s \<noteq> 0 \<longrightarrow> left t < left s)"
    then have t: "after s t" by blast
    show "wp (sbind (sget stbi__at_eof) (\<lambda>eof. if eof \<or> d \<noteq> 35 then sret d
        else sbind (pnm_while fuel (\<lambda>c. c \<noteq> 10 \<and> c \<noteq> 13) d) (skip_whitespace fuel n))) (\<lambda>_. after s) E t"
      by (rule wp_sbindI, rule wp_basicI, rule wp_ifI)
        (use t round [OF t] in \<open>auto intro!: wp_basicI simp: at_eof_iff [OF afterD(1) [OF t]]\<close>)
  qed (use Suc.prems in auto)
qed simp

lemma wp_getinteger:
  assumes "ok s" and "left s < fuel" and "0 \<le> val" and "val \<le> 214748364" and "val = 214748364 \<longrightarrow> sint c \<le> 55"
  shows "wp (getinteger fuel val c) (\<lambda>(v, _) t. after s t \<and> 0 \<le> v \<and> v \<le> INT_MAX) E s"
  using assms
proof (induction fuel arbitrary: val c s)
  case (Suc fuel)
  show ?case
  proof (cases "left s \<noteq> 0 \<and> stbi__pnm_isdigit c")
    case True
    then have c: "48 \<le> uint c" "uint c \<le> 57" by (simp_all add: stbi__pnm_isdigit_def word_le_def)
    then have "sint c = uint c" by (simp add: sint_uint signed_take_bit_int_eq_self)
    then have le: "val * 10 + (uint c - 48) \<le> INT_MAX" "0 \<le> val * 10 + (uint c - 48)"
      using c Suc.prems(3-5) by (auto simp: INT_MAX_def)
    then show ?thesis
      unfolding getinteger.simps rd8_def Let_def
      by (intro wp_intros wp_get8) (use Suc.prems True in \<open>auto simp: at_eof_iff INT_MAX_def dest: afterD
          intro!: wp_mono [OF Suc.IH] intro: after_trans\<close>)
  next
    case False
    then show ?thesis using Suc.prems by (auto simp: wp_simps at_eof_iff INT_MAX_def)
  qed
qed simp

lemma wp_pnm_info:
  assumes "ok (stbi__rewind s)" and "left (stbi__rewind s) < fuel"
  shows "wp (stbi__pnm_info fuel) (\<lambda>(bits, x, y, n) t. ok t \<and> left t \<le> left (stbi__rewind s) \<and> bits \<in> {8, 16} \<and>
    0 < x \<and> x \<le> INT_MAX \<and> 0 < y \<and> y \<le> INT_MAX \<and> n \<in> {1, 3}) ok s"
proof -
  let ?r = "stbi__rewind s"
  have ws: "wp (sbind (stbi__pnm_skip_whitespace fuel c) f) Q E t"
    if "after ?r t" "\<And>d u. after ?r u \<Longrightarrow> wp (f d) Q E u" for c t f E and Q :: "int \<times> int \<times> int \<times> int \<Rightarrow> _"
    unfolding stbi__pnm_skip_whitespace_def
    by (rule wp_sbindI, rule wp_mono [OF wp_skip_whitespace]) (use that assms in \<open>auto dest: afterD intro: after_trans\<close>)
  have int: "wp (sbind (stbi__pnm_getinteger fuel c) (case_prod f)) Q E t"
    if "after ?r t" "\<And>v d u. after ?r u \<Longrightarrow> 0 \<le> v \<Longrightarrow> v \<le> INT_MAX \<Longrightarrow> wp (f v d) Q E u"
    for c t f E and Q :: "int \<times> int \<times> int \<times> int \<Rightarrow> _"
    unfolding stbi__pnm_getinteger_def
    by (rule wp_sbindI, rule wp_mono [OF wp_getinteger]) (use that assms in \<open>auto dest: afterD intro: after_trans\<close>)
  have byte: "wp (sbind (stot stbi__get8) f) Q E t"
    if "after ?r t" "\<And>d u. after ?r u \<Longrightarrow> wp (f d) Q E u" for t f E and Q :: "int \<times> int \<times> int \<times> int \<Rightarrow> _"
    by (rule wp_sbindI, rule wp_get8) (use that in \<open>auto dest: afterD intro: after_trans\<close>)
  have start: "after ?r ?r" using assms by simp
  show ?thesis
    unfolding stbi__pnm_info_def rd8_def Let_def
    by (rule wp_sbindI, rule wp_basicI, rule byte, rule start, rule byte, assumption, rule wp_ifI)
      (use assms in \<open>auto intro!: ws int byte wp_basicI wp_ifI wp_sbind_smodify rewind_ok dest: afterD\<close>)
qed

lemma wp_pnm_load:
  assumes "ok (stbi__rewind s)" and "left (stbi__rewind s) < fuel" and "left (stbi__rewind s) < 2 ^ 30" and "req \<in> {0..4}"
  shows "wp (stbi__pnm_load fuel req) (\<lambda>r _. loaded_ok req r) (\<lambda>_. True) s"
proof -
  have conv: "ensures (if bits = 16
        then ebind (if req \<noteq> 0 \<and> req \<noteq> n then stbi__convert_format16 (samples_of bs) n req (u32cast x) (u32cast y)
                    else Inr (samples_of bs)) (\<lambda>d. Inr (Pixels16 d))
        else ebind (if req \<noteq> 0 \<and> req \<noteq> n then stbi__convert_format bs n req (u32cast x) (u32cast y) else Inr bs)
                    (\<lambda>d. Inr (Pixels8 d)))
      (\<lambda>d. loaded_ok req \<lparr>ld_data = d, ld_x = nat x, ld_y = nat y, ld_comp = n\<rparr>)"
    if "bits \<in> {8, 16}" "n \<in> {1, 3}" "0 < x" "x \<le> int STBI_MAX_DIMENSIONS" "0 < y" "y \<le> int STBI_MAX_DIMENSIONS"
      "length bs = nat (n * x * y * (bits div 8))" "length bs < 2 ^ 30" for bits n x y bs
  proof -
    define w h k where "w = nat x" and "h = nat y" and "k = nat n"
    have whk: "x = int w" "y = int h" "n = int k" "0 < w" "0 < h" "w \<le> 2 ^ 24" "h \<le> 2 ^ 24" "k = 1 \<or> k = 3"
      using that(2-6) by (auto simp: w_def h_def k_def STBI_MAX_DIMENSIONS_def)
    have u: "unat (u32cast (int w)) = w" "unat (u32cast (int h)) = h"
      using whk(6,7) by (simp_all add: u32cast_def unat_of_nat)
    have k: "1 \<le> k" "k \<le> 4" and h: "unat (u32cast (int h)) < 2 ^ 31" using whk(7,8) u(2) by auto
    have len: "length bs = h * w * k * nat (bits div 8)"
      using that(1,7) by (auto simp: whk(1-3) nat_mult_distrib ac_simps)
    show ?thesis
    proof (cases "bits = 16")
      case True
      then have l16: "length (samples_of bs) = h * w * k" using len by (simp add: length_samples_of)
      define a where "a = h * w * k"
      have small: "a < 2 ^ 29" using that(8) len True by (simp flip: a_def)
      have "nat req \<le> 4 * k" using assms(4) k(1) by auto
      then have "nat req * (h * w) \<le> 4 * a"
        unfolding a_def using mult_le_mono1 [of "nat req" "4 * k" "h * w"] by (simp only: ac_simps)
      then have fits: "fits16 (nat req) (u32cast (int w)) (u32cast (int h))"
        using small unfolding fits16_def u by (simp add: ac_simps)
      have "h * w * nat (if req = 0 then int k else req) \<le> h * w * (4 * k)"
        using assms(4) k(1) by (intro mult_le_mono2) auto
      also have "\<dots> = 4 * a" by (simp add: a_def)
      finally have "h * w * nat (if req = 0 then int k else req) < 2 ^ 31" using small by simp
      with ensures_to_components16 [OF k assms(4) _ h fits, of "samples_of bs"] l16 True whk(4,5,8) show ?thesis
        unfolding whk(1-3) u by (auto elim!: ensures_bind simp: loaded_ok_def ac_simps)
    next
      case False
      then have "bits = 8" using that(1) by simp
      with ensures_to_components [OF k assms(4) _ h, of bs "u32cast (int w)"] len whk(4,5,8) show ?thesis
        unfolding whk(1-3) u by (auto elim!: ensures_bind simp: loaded_ok_def ac_simps)
    qed
  qed
  note conv = wp_sbindI [OF wp_slift [OF ensures_mono [OF conv]]]
  show ?thesis
    unfolding stbi__pnm_load_def
    apply (rule wp_sbindI, rule wp_mono [OF wp_pnm_info [OF assms(1,2)]], clarify)
    apply (rule wp_sbind_smodify wp_ifI wp_basicI)+
    apply (rule regular_simps TrueI | rule wp_ifI wp_basicI wp_optionI)+
    apply (rule wp_sbindI, rule wp_getn_enough)
    subgoal by simp
    subgoal by (simp add: wp_basic)
    subgoal unfolding option.case by (rule conv) (use assms(3) in \<open>auto simp: wp_basic\<close>)
    by simp
qed

end

interpretation mem: whole_source mem_ctx "\<lambda>s. length (stream s)"
proof unfold_locales
  fix s :: "'a stbi__context" and k and bs assume s: "mem_ctx s"
  show "stbi__at_eof s \<longleftrightarrow> length (stream s) = 0"
    using s by (auto simp: stbi__at_eof_def mem_ctx_def stream_def)
  show "mem_ctx (stbi__rewind s)" using s by (rule mem_rewind)
  show "fst (stbi__getn s k) = Some bs \<Longrightarrow> k \<le> length (stream s)"
    using s by (auto simp: stbi__getn_def getn_buffered_def mem_ctx_def mem_stream split: if_splits)
qed

section \<open>The simplest encoder\<close>

text \<open>A binary PGM or PPM file with one white-space character after each item of the header, and no
  comments. \<open>dec\<close> writes a number in decimal.\<close>

fun dec :: "nat \<Rightarrow> stbi_uc list" where
  "dec n = (if n < 10 then [] else dec (n div 10)) @ [48 + word_of_nat (n mod 10)]"

declare dec.simps [simp del]

definition pnm_encode :: "nat \<Rightarrow> nat \<Rightarrow> nat \<Rightarrow> stbi_uc list \<Rightarrow> stbi_uc list" where
  "pnm_encode n w h px =
     [80, if n = 3 then 54 else 53, 10] @ dec w @ [32] @ dec h @ [10] @ dec 255 @ [10] @ px"

text \<open>The number that a string of digits adds to.\<close>

definition num :: "int \<Rightarrow> stbi_uc list \<Rightarrow> int" where
  "num val ds = foldl (\<lambda>v d. v * 10 + (uint d - 48)) val ds"

lemma num_simps [simp]:
  "num val [] = val" "num val (d # ds) = num (val * 10 + (uint d - 48)) ds" "num val (ds @ es) = num (num val ds) es"
  by (simp_all add: num_def)

lemma digit_byte:
  assumes "k < 10"
  shows "stbi__pnm_isdigit (48 + word_of_nat k)" and "uint (48 + word_of_nat k :: stbi_uc) = 48 + int k"
proof -
  have "k \<in> {0..<10}" using assms by simp
  then have "k \<in> set [0..<10]" by (simp only: set_upt)
  then show "stbi__pnm_isdigit (48 + word_of_nat k)" and "uint (48 + word_of_nat k :: stbi_uc) = 48 + int k"
    by (auto simp: upt_rec stbi__pnm_isdigit_def)
qed

lemma digits_dec: "list_all stbi__pnm_isdigit (dec n)"
  by (induction n rule: dec.induct) (subst dec.simps, auto simp: digit_byte)

lemma num_dec: "num 0 (dec n) = int n"
proof (induction n rule: dec.induct)
  case (1 n)
  then show ?case
    by (subst dec.simps) (auto simp: digit_byte zdiv_int zmod_int)
qed

lemma dec_not_Nil [simp]: "dec n \<noteq> []"
  by (subst dec.simps) simp

lemma num_mono: "0 \<le> val \<Longrightarrow> list_all stbi__pnm_isdigit ds \<Longrightarrow> val \<le> num val ds"
proof (induction ds arbitrary: val)
  case (Cons d ds)
  then have "48 \<le> uint d" by (simp add: stbi__pnm_isdigit_def word_le_def)
  with Cons have "val * 10 + (uint d - 48) \<le> num (val * 10 + (uint d - 48)) ds" by simp
  with \<open>48 \<le> uint d\<close> Cons.prems(1) show ?case by simp
qed simp

lemma wp_rd8_mem:
  assumes "mem_ctx s" and "stream s = b # bs" and "\<And>t. mem_ctx t \<Longrightarrow> stream t = bs \<Longrightarrow> Q b t"
  shows "wp rd8 Q E s"
  using get8_mem_Cons [OF assms(1,2)] assms(3) by (simp add: rd8_def wp_stot)

lemma wp_getinteger_digits:
  assumes "mem_ctx s" and "c # stream s = ds @ d # rest" and "list_all stbi__pnm_isdigit ds" and "\<not> stbi__pnm_isdigit d"
    and "0 \<le> val" and "num val ds \<le> int STBI_MAX_DIMENSIONS" and "length ds < fuel"
  shows "wp (getinteger fuel val c) (\<lambda>r t. r = (num val ds, d) \<and> mem_ctx t \<and> stream t = rest) E s"
  using assms
proof (induction ds arbitrary: fuel val c s)
  case Nil
  then obtain n where "fuel = Suc n" by (cases fuel) auto
  then show ?case using Nil by (simp add: wp_simps)
next
  case (Cons e ds)
  then obtain n where n: "fuel = Suc n" by (cases fuel) auto
  have e: "c = e" "stream s = ds @ d # rest" "stbi__pnm_isdigit c" using Cons.prems(2,3) by auto
  then have c: "48 \<le> uint c" by (simp add: stbi__pnm_isdigit_def word_le_def)
  let ?v = "val * 10 + (uint c - 48)"
  have v: "0 \<le> ?v" "?v \<le> 2 ^ 24"
    using c Cons.prems(3,5,6) num_mono [of ?v ds] e(1) by (auto simp: STBI_MAX_DIMENSIONS_def)
  have eof: "\<not> stbi__at_eof s" using mem.at_eof_iff [OF Cons.prems(1)] e(2) by simp
  obtain b bs where b: "stream s = b # bs" "b # bs = ds @ d # rest" using e(2) by (cases "stream s") auto
  show ?case
    unfolding n getinteger.simps
    by (rule wp_sbindI, rule wp_basicI)
      (use eof e v b Cons.prems in \<open>auto simp: n INT_MAX_def Let_def intro!: wp_sbindI wp_rd8_mem [OF Cons.prems(1) b(1)] Cons.IH\<close>)
qed

lemma wp_skip_one_space:
  assumes "mem_ctx s" and "stream s = d # rest" and "stbi__pnm_isspace c" and "stbi__pnm_isdigit d" and "rest \<noteq> []" and "1 < fuel"
  shows "wp (stbi__pnm_skip_whitespace fuel c) (\<lambda>r t. r = d \<and> mem_ctx t \<and> stream t = rest) E s"
proof -
  obtain n where n: "fuel = Suc (Suc n)" using assms(6) by (intro that [of "fuel - 2"]) simp
  have d: "\<not> stbi__pnm_isspace d" "d \<noteq> 35" using assms(4) by (auto simp: stbi__pnm_isdigit_def stbi__pnm_isspace_def)
  have "\<not> stbi__at_eof s" using mem.at_eof_iff [OF assms(1)] assms(2) by simp
  then have "wp (pnm_while fuel stbi__pnm_isspace c) (\<lambda>r t. r = d \<and> mem_ctx t \<and> stream t = rest) E s"
    unfolding n pnm_while.simps using assms(3) d(1)
    by (intro wp_sbindI wp_ifI wp_basicI wp_rd8_mem [OF assms(1,2)]) simp_all
  then have w: "wp (pnm_while fuel stbi__pnm_isspace c) (\<lambda>r t. r \<noteq> 35 \<and> r = d \<and> mem_ctx t \<and> stream t = rest) E s"
    by (rule wp_mono) (use d(2) in simp_all)
  have "wp (skip_whitespace fuel (Suc m) c) (\<lambda>r t. r = d \<and> mem_ctx t \<and> stream t = rest) E s" for m
    unfolding skip_whitespace.simps by (rule wp_sbindI, rule wp_mono [OF w]) (simp_all add: wp_simps)
  then show ?thesis unfolding stbi__pnm_skip_whitespace_def using n by (metis (no_types))
qed

text \<open>The test of the dispatcher and the decoder on an encoded picture.\<close>

lemma wp_pnm_info_encoded:
  assumes "n \<in> {1, 3}" and "0 < w" "w \<le> STBI_MAX_DIMENSIONS" "0 < h" "h \<le> STBI_MAX_DIMENSIONS" and "px \<noteq> []"
    and "length (pnm_encode n w h px) < fuel"
  shows "wp (stbi__pnm_info fuel) (\<lambda>r t. r = (8, int w, int h, int n) \<and> mem_ctx t \<and> stream t = px) (\<lambda>_. False)
    (stbi__start_mem s (pnm_encode n w h px))"
proof -
  have ws: "wp (sbind (stbi__pnm_skip_whitespace fuel c) (\<lambda>c. sbind (stbi__pnm_getinteger fuel c) (case_prod f))) Q E t"
    if "mem_ctx t" "stream t = dec k @ d # rest" "stbi__pnm_isspace c" "stbi__pnm_isspace d" "rest \<noteq> []"
      "k \<le> STBI_MAX_DIMENSIONS" "length (dec k) < fuel" "\<And>u. mem_ctx u \<Longrightarrow> stream u = rest \<Longrightarrow> wp (f (int k) d) Q E u"
    for c t f E k d rest and Q :: "int \<times> int \<times> int \<times> int \<Rightarrow> _"
  proof -
    obtain a as where a: "dec k = a # as" by (cases "dec k") auto
    then have ds: "stbi__pnm_isdigit a" "list_all stbi__pnm_isdigit (a # as)" using digits_dec [of k] by auto
    have d: "\<not> stbi__pnm_isdigit d" using that(4) by (auto simp: stbi__pnm_isdigit_def stbi__pnm_isspace_def)
    show ?thesis
      by (rule wp_sbindI, rule wp_mono [OF wp_skip_one_space [OF that(1), where E = E and d = a and rest = "as @ d # rest"]])
        (use that a ds d num_dec [of k] in \<open>auto simp: stbi__pnm_getinteger_def intro!: wp_sbindI
           wp_mono [OF wp_getinteger_digits [where ds = "dec k" and d = d and rest = rest and E = E]]\<close>)
  qed
  have start: "stbi__rewind (stbi__start_mem s data) = stbi__start_mem s data" for data
    by (simp add: stbi__rewind_def stbi__start_mem_def)
  have len: "length (dec w) < fuel" "length (dec h) < fuel" "length (dec 255) < fuel"
    using assms(7) by (simp_all add: pnm_encode_def)
  have nums: "255 \<le> STBI_MAX_DIMENSIONS" "stbi__pnm_isspace 10" "stbi__pnm_isspace 32"
    by (simp_all add: STBI_MAX_DIMENSIONS_def stbi__pnm_isspace_def)
  define b :: stbi_uc where "b = (if n = 3 then 54 else 53)"
  have b: "(if b = 54 then 3 else 1) = int n" "b = 53 \<or> b = 54" using assms(1) by (auto simp: b_def)
  show ?thesis
    unfolding stbi__pnm_info_def
    apply (rule wp_sbind_smodify)
    apply (rule wp_sbindI, rule wp_rd8_mem, simp add: start, simp add: start pnm_encode_def flip: b_def)
    apply (rule wp_sbindI, rule wp_rd8_mem, assumption, assumption)
    apply (simp only: Let_def b(1), rule wp_ifI, use b(2) in simp)
    apply (rule wp_sbindI, rule wp_rd8_mem, assumption, assumption)
    apply (rule ws [of _ w 32], assumption, assumption)
    apply (use nums len assms(2-) in simp_all)
    apply (rule ws [of _ h 10], assumption, assumption)
    apply (use nums len assms(2-) in simp_all)
    apply (rule ws [of _ 255 10], assumption, assumption)
    apply (use nums len assms(2-) in \<open>auto simp: wp_simps\<close>)
    done
qed

lemma getn_mem_all:
  assumes "mem_ctx s" and "stream s = bs" and "bs \<noteq> []"
  shows "fst (stbi__getn s (length bs)) = Some bs"
  using assms by (auto simp: stbi__getn_def getn_buffered_def mem_ctx_def mem_stream)

lemma pnm_load_encoded:
  assumes "n \<in> {1, 3}" and "0 < w" "w \<le> STBI_MAX_DIMENSIONS" "0 < h" "h \<le> STBI_MAX_DIMENSIONS"
    and "length px = w * h * n" and "length px < 2 ^ 31" and "length (pnm_encode n w h px) < fuel"
  shows "fst (stbi__pnm_load fuel 0 (stbi__start_mem s (pnm_encode n w h px))) =
    Inr \<lparr>ld_data = Pixels8 px, ld_x = w, ld_y = h, ld_comp = int n\<rparr>"
proof -
  have "px \<noteq> []" using assms(1,2,4,6) by auto
  have m: "stbi__malloc_mad4 (int n) (int w) (int h) (8 div 8) 0 = Some (n * w * h)"
  proof -
    have le: "int n * int w * int h \<le> INT_MAX" using assms(6,7) by (simp add: INT_MAX_def ac_simps flip: of_nat_mult)
    moreover have "int n * int w \<le> int n * int w * int h" using mult_left_mono [of 1 "int h" "int n * int w"] assms(4) by simp
    ultimately show ?thesis by (auto simp: stbi__malloc_mad4_def size_checks nat_mult_distrib)
  qed
  have "wp (stbi__pnm_load fuel 0) (\<lambda>r _. r = \<lparr>ld_data = Pixels8 px, ld_x = w, ld_y = h, ld_comp = int n\<rparr>) (\<lambda>_. False)
    (stbi__start_mem s (pnm_encode n w h px))"
    unfolding stbi__pnm_load_def
  proof (rule wp_sbindI, rule wp_mono [OF wp_pnm_info_encoded [OF assms(1-5) \<open>px \<noteq> []\<close> assms(8)]], clarify,
      rule wp_sbind_smodify, goal_cases)
    case (1 _ _ _ _ t)
    let ?t = "t\<lparr>img_x := u32cast (int w), img_y := u32cast (int h), img_n := int n\<rparr>"
    have "fst (stbi__getn ?t (length px)) = Some px"
      using 1 \<open>px \<noteq> []\<close> by (intro getn_mem_all) (simp_all add: stream_def)
    then obtain u where u: "stbi__getn ?t (length px) = (Some px, u)" by (cases "stbi__getn ?t (length px)") simp
    have len: "nat (int n * int w * int h * (8 div 8)) = length px"
      using assms(6) by (simp add: nat_mult_distrib)
    show ?case
      unfolding m len using assms(3,5) 1 u by (simp add: wp_simps wp_stot)
  qed simp
  then show ?thesis by (auto simp: wp_def split: prod.splits sum.splits)
qed

section \<open>The dispatcher on a PNM file\<close>

lemma get8_first:
  "stbi__get8 (stbi__start_mem s (b # bs)) = (b, (stbi__start_mem s (b # bs))\<lparr>img_buffer := 1\<rparr>)"
  by (simp add: stbi__get8_def stbi__start_mem_def)

lemmas run_simps = sbind_def stot_def sguard_def sret_def sfail_def smodify_def stry_def

lemma P_not_png: "stot stbi__png_test (stbi__start_mem s (80 # bs)) = (Inr False, stbi__start_mem s (80 # bs))"
  by (simp add: run_simps stbi__png_test_def stbi__check_png_header_def png_sig_def get8_first)

lemma P_not_bmp: "stbi__bmp_test (stbi__start_mem s (80 # bs)) = (Inr False, stbi__start_mem s (80 # bs))"
  by (simp add: run_simps stbi__bmp_test_def stbi__bmp_test_raw_def rd8_def get8_first)

lemma P_not_gif: "stbi__gif_test (stbi__start_mem s (80 # bs)) = (Inr False, stbi__start_mem s (80 # bs))"
  by (simp add: run_simps stbi__gif_test_def stbi__gif_test_raw_def gif_signature_def gif_expect_def rd8_def get8_first)

lemma P_not_pic: "stbi__pic_test (stbi__start_mem s (80 # bs)) = (Inr False, stbi__start_mem s (80 # bs))"
  by (simp add: run_simps stbi__pic_test_def stbi__pic_test_core_def stbi__pic_is4_def pic_magic_def rd8_def get8_first)

lemma P_not_jpeg: "stbi__jpeg_test fuel (stbi__start_mem s (80 # bs)) = (Inr False, stbi__start_mem s (80 # bs))"
  by (simp add: run_simps stbi__jpeg_test_def jpeg_run_def stbi__decode_jpeg_header_def stbi__get_marker_def sget_def
      jctx_def son_def jpeg_zero_def get8_first STBI__MARKER_none_def)

lemma get8_at:
  "stbi__get8 ((stbi__start_mem s d)\<lparr>img_buffer := k\<rparr>) =
     (if k < length d then d ! k else 0, (stbi__start_mem s d)\<lparr>img_buffer := if k < length d then Suc k else k\<rparr>)"
  by (auto simp: stbi__get8_def stbi__start_mem_def)

lemma P_not_psd: "stbi__psd_test (stbi__start_mem s (80 # bs)) = (Inr False, stbi__start_mem s (80 # bs))"
proof -
  let ?at = "\<lambda>k. (stbi__start_mem s (80 # bs))\<lparr>img_buffer := k\<rparr>"
  have "\<exists>(a :: stbi_uc) k. stbi__get8 (?at k0) = (a, ?at k)" for k0
    by (auto simp: get8_at)
  then obtain a b c k1 k2 k3 where g: "stbi__get8 (?at 1) = (a :: stbi_uc, ?at k1)"
      "stbi__get8 (?at k1) = (b :: stbi_uc, ?at k2)" "stbi__get8 (?at k2) = (c :: stbi_uc, ?at k3)"
    by metis
  let ?v = "push_bit 16 (u32cast (80 * 256 + uint a)) + u32cast (uint b * 256 + uint c)"
  have "stbi__get32be (stbi__start_mem s (80 # bs)) = (?v, ?at k3)"
    by (simp add: stbi__get32be_def stbi__get16be_def get8_first g [unfolded One_nat_def])
  moreover have "?v \<noteq> 0x38425053"
  proof
    assume "?v = 0x38425053"
    then have "uint ?v = 0x38425053" by simp
    moreover have "uint ?v = (80 * 256 + uint a) * 65536 + (uint b * 256 + uint c)"
      using uint_bounds8 [of a] uint_bounds8 [of b] uint_bounds8 [of c]
      by (simp add: u32cast_def uint_word_ariths push_bit_eq_mult uint_word_of_int uint_up_ucast is_up)
    ultimately show False
      using uint_bounds8 [of a] uint_bounds8 [of b] uint_bounds8 [of c] by simp
  qed
  ultimately show ?thesis
    by (simp add: run_simps stbi__psd_test_def rd32be_def)
qed

text \<open>A block that starts with \<open>P5\<close> or \<open>P6\<close> goes to the PNM decoder.\<close>

lemma load_main_pnm:
  assumes "t \<in> {53, 54}"
  shows "fst (stbi__load_main env req bpc (stbi__start_mem s (80 # t # bs))) =
    fst (stbi__pnm_load (env_fuel env) req (stbi__start_mem s (80 # t # bs)))"
proof -
  let ?s = "stbi__start_mem s (80 # t # bs)"
  have start: "stbi__rewind ?s = ?s" by (simp add: stbi__rewind_def stbi__start_mem_def)
  have test: "stbi__pnm_test ?s = (Inr True, ?s\<lparr>img_buffer := 2\<rparr>)"
    using assms by (auto simp: run_simps stbi__pnm_test_def rd8_def get8_first get8_at [where k = "Suc 0"])
  have "stbi__pnm_info (env_fuel env) (?s\<lparr>img_buffer := 2\<rparr>) = stbi__pnm_info (env_fuel env) ?s"
    by (simp add: stbi__pnm_info_def sbind_def smodify_def start)
  then have "stbi__pnm_load (env_fuel env) req (?s\<lparr>img_buffer := 2\<rparr>) = stbi__pnm_load (env_fuel env) req ?s"
    by (simp add: stbi__pnm_load_def sbind_def)
  with test show ?thesis
    by (simp add: stbi__load_main_def Let_def sbind_def P_not_png P_not_bmp P_not_gif P_not_psd P_not_pic P_not_jpeg)
qed

section \<open>Properties\<close>

text \<open>C6. The PNM decoder behind the public entry point is safe: for every block of fewer than \<open>2\<^sup>3\<^sup>0\<close> bytes that starts
  with \<open>P5\<close> or \<open>P6\<close>, \<open>stbi_load_from_memory\<close> passes the block by the tests of the six formats before it and returns,
  within as many rounds of its loops as there are bytes; it never leaves a buffer, no number of the header overflows,
  and a picture that it returns has 8-bit samples, exactly width times height times components.\<close>

theorem load_from_memory_pnm:
  assumes "t \<in> {53, 54}" and "length bs + 2 < env_fuel env" and "length bs + 2 < 2 ^ 30" and "req_comp \<in> {0..4}"
  shows "ensures (stbi_load_from_memory env s (80 # t # bs) req_comp) (pixels8_ok req_comp)"
proof -
  have "ensures (fst (stbi__pnm_load (env_fuel env) req_comp (stbi__start_mem s (80 # t # bs)))) (loaded_ok req_comp)"
  proof (rule wp_ensures, rule mem.wp_pnm_load)
    have "stbi__rewind (stbi__start_mem s (80 # t # bs)) = stbi__start_mem s (80 # t # bs)"
      by (simp add: stbi__rewind_def stbi__start_mem_def)
    then show "mem_ctx (stbi__rewind (stbi__start_mem s (80 # t # bs)))"
        "length (stream (stbi__rewind (stbi__start_mem s (80 # t # bs)))) < env_fuel env"
        "length (stream (stbi__rewind (stbi__start_mem s (80 # t # bs)))) < 2 ^ 30"
      using assms by simp_all
  qed (rule assms(4))
  then show ?thesis
    unfolding stbi_load_from_memory_def postprocess_8bit_fst load_main_pnm [OF assms(1)]
    by (rule ensures_bind) (rule ensures_8bit [OF _ assms(4)])
qed

theorem load_from_memory_pnm_witness:
  "ensures (stbi_load_from_memory \<lparr>env_cfg = stbi__config_start, env_h2l = hdr_settings_start, l2h_gamma = Fin 2,
      l2h_scale = Fin 1, env_pow = (\<lambda>x y. x), env_fuel = 20\<rparr> (undefined :: unit stbi__context)
      [80, 53, 10, 49, 32, 49, 10, 57, 10, 7] 4) (pixels8_ok 4)"
  by (rule load_from_memory_pnm) simp_all

text \<open>C7. The PNM round trip through the public entry point: a picture of 1 or 3 components, written as a PGM or PPM file
  by \<open>pnm_encode\<close> (decimal sizes, largest value 255), is returned by \<open>stbi_load_from_memory\<close> with its size, its number of
  components and every sample, when no flip is set.\<close>

theorem pnm_roundtrip:
  assumes "n \<in> {1, 3}" and "0 < w" "w \<le> STBI_MAX_DIMENSIONS" "0 < h" "h \<le> STBI_MAX_DIMENSIONS"
    and "length px = w * h * n" and "length px < 2 ^ 31"
    and "length (pnm_encode n w h px) < env_fuel env" and "\<not> flip_on_load env"
  shows "stbi_load_from_memory env s (pnm_encode n w h px) 0 =
    Inr \<lparr>ld_data = Pixels8 px, ld_x = w, ld_y = h, ld_comp = int n\<rparr>"
proof -
  obtain t rest where t: "pnm_encode n w h px = 80 # t # rest" "t \<in> {53, 54}"
    by (cases "n = 3") (auto simp: pnm_encode_def)
  show ?thesis
    unfolding stbi_load_from_memory_def postprocess_8bit_fst t(1) load_main_pnm [OF t(2)]
    unfolding t(1) [symmetric] pnm_load_encoded [OF assms(1-8)] using assms(9) by simp
qed

theorem pnm_roundtrip_witness:
  "stbi_load_from_memory \<lparr>env_cfg = stbi__config_start, env_h2l = hdr_settings_start, l2h_gamma = Fin 2,
      l2h_scale = Fin 1, env_pow = (\<lambda>x y. x), env_fuel = 40\<rparr> (undefined :: unit stbi__context) (pnm_encode 3 2 1 [1, 2, 3, 4, 5, 6]) 0 =
    Inr \<lparr>ld_data = Pixels8 [1, 2, 3, 4, 5, 6], ld_x = 2, ld_y = 1, ld_comp = int 3\<rparr>"
  by (rule pnm_roundtrip) (simp_all add: STBI_MAX_DIMENSIONS_def pnm_encode_def dec.simps flip_on_load_def stbi__config_start_def
      stbi__flag_value_def)

end
