(* ===== verification/Stbi_Gif_Safe.thy ===== *)
theory Stbi_Gif_Safe
  imports Stbi_Load_Png
begin

text \<open>
  The GIF decoder is safe on every source of bytes: the LZW table is acyclic and within its 8192 entries,
  pixels are written inside the image only, and every loop ends with the input. The one exception is the
  position of the next row of an interlaced image, which is an \<open>int\<close> and overflows when the image has nearly
  \<open>2\<^sup>3\<^sup>1\<close> bytes; \<open>gif_room\<close> says that it does not.
\<close>

text \<open>The size that the header of a GIF file announces: two little-endian numbers after the six bytes of the
  signature.\<close>

definition after_byte :: "'u stbi__context \<Rightarrow> 'u stbi__context" where
  "after_byte s = snd (stbi__get8 s)"

definition gif_extent :: "'u stbi__context \<Rightarrow> int \<times> int" where
  "gif_extent s =
     (let t = (after_byte ^^ 6) s
      in (fst (stbi__get16le t), fst (stbi__get16le (snd (stbi__get16le t)))))"

section \<open>Writing pixels\<close>

definition gif_room :: "int \<Rightarrow> int \<Rightarrow> bool" where
  "gif_room w h \<longleftrightarrow> 0 \<le> w \<and> 0 \<le> h \<and> 4 * w * h + 28 * w \<le> INT_MAX"

text \<open>The buffers and tables of a decoder that has read its header.\<close>

definition gif_frame :: "'u stbi__gif \<Rightarrow> bool" where
  "gif_frame g \<longleftrightarrow> gif_room (gif_w g) (gif_h g) \<and>
     (\<exists>p. gif_out g = Some p \<and> length p = 4 * gif_pcount g) \<and> length (gif_background g) = 4 * gif_pcount g \<and>
     length (gif_history g) = gif_pcount g \<and> length (gif_pal g) = 1024 \<and> length (gif_lpal g) = 1024"

text \<open>The position of the next pixel: the start of a pixel of the frame's rectangle, or below the rectangle.\<close>

definition gif_cursor :: "'u stbi__gif \<Rightarrow> bool" where
  "gif_cursor g \<longleftrightarrow> line_size g = 4 * gif_w g \<and> 4 dvd start_x g \<and> 4 dvd max_x g \<and> 0 \<le> start_x g \<and> max_x g \<le> line_size g \<and>
     0 \<le> start_y g \<and> line_size g dvd start_y g \<and> max_y g \<le> gif_h g * line_size g \<and>
     gif_parse g \<in> {0..3} \<and> line_size g dvd gif_step g \<and> 0 \<le> gif_step g \<and> gif_step g \<le> 8 * line_size g \<and>
     (cur_y g < max_y g \<longrightarrow> start_y g \<le> cur_y g \<and> line_size g dvd cur_y g \<and> start_x g \<le> cur_x g \<and>
        4 dvd cur_x g \<and> cur_x g < max_x g)"

text \<open>What writing a pixel changes.\<close>

definition gif_draws :: "'u stbi__gif \<Rightarrow> 'u stbi__gif \<Rightarrow> bool" where
  "gif_draws g g' \<longleftrightarrow> gif_frame g' \<and> gif_cursor g' \<and> gif_s g' = gif_s g \<and> gif_codes g' = gif_codes g \<and>
     gif_w g' = gif_w g \<and> gif_h g' = gif_h g \<and> bgindex g' = bgindex g"

lemma next_row_below:
  assumes "(l :: int) dvd y" and "y < h * l" and "0 < l"
  shows "y + l \<le> h * l"
proof -
  obtain r where r: "y = l * r" using assms(1) by blast
  then have "r < h" using assms(2,3) by (simp add: mult.commute mult_less_cancel_right)
  then have "(r + 1) * l \<le> h * l" using assms(3) by (intro mult_right_mono) auto
  then show ?thesis by (simp add: r algebra_simps)
qed

lemma gif_row_room:
  assumes "gif_cursor g" and "gif_frame g" and "line_size g dvd y" and "y < max_y g" and "0 < line_size g"
    and "k \<le> 8"
  shows "y + k * line_size g \<le> INT_MAX"
proof -
  have "y < gif_h g * line_size g" and l: "line_size g = 4 * gif_w g" and room: "gif_h g * line_size g + 7 * line_size g \<le> INT_MAX"
    using assms(1,2,4) by (auto simp: gif_cursor_def gif_frame_def gif_room_def ac_simps)
  then have "y + line_size g \<le> gif_h g * line_size g" using assms(3,5) by (intro next_row_below)
  moreover have "k * line_size g \<le> 8 * line_size g" using assms(5,6) by (intro mult_right_mono) auto
  ultimately show ?thesis using room by linarith
qed

lemma gif_frame_moves [simp]:
  "gif_frame (g\<lparr>gif_step := a\<rparr>) = gif_frame g" "gif_frame (g\<lparr>cur_x := b\<rparr>) = gif_frame g"
  "gif_frame (g\<lparr>cur_y := b\<rparr>) = gif_frame g" "gif_frame (g\<lparr>gif_parse := b\<rparr>) = gif_frame g"
  "gif_frame (g\<lparr>gif_s := s\<rparr>) = gif_frame g" "gif_frame (g\<lparr>gif_codes := cs\<rparr>) = gif_frame g"
  "gif_frame (g\<lparr>gif_local := c\<rparr>) = gif_frame g"
  by (simp_all add: gif_frame_def gif_pcount_def)

lemma gif_cursor_updates [simp]:
  "gif_cursor (g\<lparr>gif_out := a\<rparr>) = gif_cursor g" "gif_cursor (g\<lparr>gif_history := b\<rparr>) = gif_cursor g"
  "gif_cursor (g\<lparr>gif_s := s\<rparr>) = gif_cursor g" "gif_cursor (g\<lparr>gif_codes := cs\<rparr>) = gif_cursor g"
  by (simp_all add: gif_cursor_def)

lemma ensures_next_pass:
  assumes "gif_cursor g" and "gif_frame g" and "start_x g < max_x g" and "cur_x g = start_x g" and "p \<le> 3"
    and "start_y g < max_y g"
  shows "ensures (gif_next_pass p g) (gif_draws g)"
  using assms
proof (induction p arbitrary: g)
  case (Suc p)
  show ?case
  proof (cases "max_y g \<le> cur_y g")
    case True
    let ?st = "2 ^ Suc p * line_size g"
    let ?g = "g\<lparr>gif_step := ?st, cur_y := start_y g + ?st div 2, gif_parse := int p\<rparr>"
    have l: "0 < line_size g" "line_size g dvd start_y g" "0 \<le> start_y g"
      using Suc.prems(1,3) by (auto simp: gif_cursor_def)
    have p: "p = 0 \<or> p = 1 \<or> p = 2" using Suc.prems(5) by auto
    have "start_y g + 2 ^ p * line_size g \<le> INT_MAX"
      using p by (intro gif_row_room [OF Suc.prems(1,2) l(2) Suc.prems(6) l(1)]) auto
    moreover have "gif_cursor ?g"
      using Suc.prems(1,3,4) l p by (auto simp: gif_cursor_def)
    then have "ensures (gif_next_pass p ?g) (gif_draws ?g)"
      using Suc.prems by (intro Suc.IH) simp_all
    moreover have "gif_draws ?g = gif_draws g" by (simp add: gif_draws_def fun_eq_iff)
    ultimately show ?thesis using True by (simp add: Let_def)
  qed (use Suc.prems in \<open>simp add: gif_draws_def\<close>)
qed (simp add: gif_draws_def)

lemma ensures_advance:
  assumes "gif_cursor g" and "gif_frame g" and "cur_y g < max_y g"
  shows "ensures (gif_advance g) (gif_draws g)"
proof -
  have c: "line_size g dvd cur_y g" "0 < line_size g" "start_x g < max_x g" "start_y g < max_y g" "start_y g \<le> cur_y g"
      "4 dvd cur_x g" "cur_x g < max_x g" "4 dvd max_x g" "line_size g dvd gif_step g" "0 \<le> gif_step g" "gif_step g \<le> 8 * line_size g"
    using assms(1,3) by (auto simp: gif_cursor_def)
  show ?thesis
  proof (cases "max_x g \<le> cur_x g + 4")
    case True
    let ?g = "g\<lparr>cur_x := start_x g, cur_y := cur_y g + gif_step g\<rparr>"
    have "cur_y g + gif_step g \<le> cur_y g + 8 * line_size g" using c(11) by simp
    also have "\<dots> \<le> INT_MAX" by (intro gif_row_room assms c) simp
    finally have fits: "cur_y g + gif_step g \<le> INT_MAX" .
    have "gif_cursor ?g" using assms(1) c by (auto simp: gif_cursor_def)
    moreover have "nat (gif_parse g) \<le> 3" using assms(1) by (auto simp: gif_cursor_def)
    ultimately have "ensures (gif_next_pass (nat (gif_parse g)) ?g) (gif_draws ?g)"
      using assms(2) c(3,4) by (intro ensures_next_pass) simp_all
    moreover have "gif_draws ?g = gif_draws g" by (simp add: gif_draws_def fun_eq_iff)
    ultimately show ?thesis using True fits by (simp add: gif_advance_def Let_def)
  next
    case False
    then have "cur_x g + 4 < max_x g" by simp
    then have "gif_cursor (g\<lparr>cur_x := cur_x g + 4\<rparr>)" using assms(1,3) by (auto simp: gif_cursor_def)
    with False assms(2) show ?thesis by (simp add: gif_advance_def gif_draws_def)
  qed
qed

lemma gif_pixel_inside:
  assumes "gif_cursor g" and "gif_frame g" and "cur_y g < max_y g"
  shows "0 \<le> cur_x g + cur_y g" and "cur_x g + cur_y g + 4 \<le> int (4 * gif_pcount g)" and "4 dvd cur_x g + cur_y g"
proof -
  have c: "line_size g dvd cur_y g" "0 < line_size g" "0 \<le> cur_y g" "0 \<le> cur_x g" "4 dvd cur_x g" "cur_x g < max_x g"
      "4 dvd max_x g" "max_x g \<le> line_size g" "line_size g = 4 * gif_w g" "cur_y g < gif_h g * line_size g"
    using assms(1,3) by (auto simp: gif_cursor_def)
  show "0 \<le> cur_x g + cur_y g" using c by simp
  show "4 dvd cur_x g + cur_y g" using c(1,5) unfolding c(9) by (auto intro: dvd_add dest: dvd_mult_left)
  have "cur_x g + 4 \<le> max_x g" using c(5-7) by presburger
  moreover have "cur_y g + line_size g \<le> gif_h g * line_size g" using c by (intro next_row_below)
  moreover have "int (4 * gif_pcount g) = gif_h g * line_size g"
    using assms(2) c(9) by (auto simp: gif_pcount_def gif_frame_def gif_room_def)
  ultimately show "cur_x g + cur_y g + 4 \<le> int (4 * gif_pcount g)" using c(8) by linarith
qed

lemma ensures_emit:
  assumes "gif_cursor g" and "gif_frame g"
  shows "ensures (gif_emit suffix g) (gif_draws g)"
proof (cases "cur_y g < max_y g")
  case True
  note px = gif_pixel_inside [OF assms True]
  obtain p where p: "gif_out g = Some p" "length p = 4 * gif_pcount g" "length (gif_history g) = gif_pcount g"
      "length (gif_color_table g) = 1024"
    using assms(2) by (auto simp: gif_frame_def gif_color_table_def)
  have b: "0 \<le> uint suffix" "uint suffix \<le> 255" using uint_bounds8 [of suffix] by simp_all
  have draw: "ensures (gif_advance (g\<lparr>gif_out := Some q, gif_history := hist\<rparr>)) (gif_draws g)"
    if "length q = length p" "length hist = length (gif_history g)" for q hist
  proof -
    let ?g = "g\<lparr>gif_out := Some q, gif_history := hist\<rparr>"
    have "gif_frame ?g" using assms(2) that p by (simp add: gif_frame_def gif_pcount_def)
    moreover have "gif_cursor ?g" using assms(1) by simp
    ultimately have "ensures (gif_advance ?g) (gif_draws ?g)" using True by (intro ensures_advance) simp_all
    moreover have "gif_draws ?g = gif_draws g" by (simp add: gif_draws_def fun_eq_iff)
    ultimately show ?thesis by simp
  qed
  have idx: "0 \<le> (cur_x g + cur_y g) sdiv 4" "(cur_x g + cur_y g) sdiv 4 < int (length (gif_history g))"
    using px p(3) by (auto simp: signed_divide_int_def sgn_if)
  have "g = g\<lparr>gif_out := Some p\<rparr>" using p(1) by simp
  then have skip: "ensures (gif_advance (g\<lparr>gif_history := hist\<rparr>)) (gif_draws g)" if "length hist = length (gif_history g)" for hist
    using draw [of p hist] that by simp
  show ?thesis
    unfolding gif_emit_def Let_def using True b idx p(4) px
    by (auto simp: p(1,2) ebind_assoc intro!: skip draw ensures_bind [OF ensures_store_from])
qed (use assms in \<open>simp add: gif_emit_def gif_draws_def\<close>)

section \<open>The LZW table\<close>

text \<open>Every entry continues an entry before it, so the chains of prefixes end.\<close>

definition gif_table :: "stbi__gif_lzw list \<Rightarrow> bool" where
  "gif_table cs \<longleftrightarrow> length cs = 8192 \<and> (\<forall>i < 8192. lzw_prefix (cs ! i) < int i)"

lemma gif_draws_trans: "gif_draws g g' \<Longrightarrow> gif_draws g' g'' \<Longrightarrow> gif_draws g g''"
  by (simp add: gif_draws_def)

lemma ensures_out_code:
  assumes "gif_table (gif_codes g)" and "gif_cursor g" and "gif_frame g" and "0 \<le> code" and "code < 8192" and "code < int fuel"
  shows "ensures (stbi__out_gif_code fuel code g) (gif_draws g)"
  using assms
proof (induction fuel arbitrary: code)
  case (Suc fuel)
  let ?c = "gif_codes g ! nat code"
  have len: "length (gif_codes g) = 8192" using Suc.prems(1) by (simp add: gif_table_def)
  then have c: "arr_get (gif_codes g) code = Inr ?c" using Suc.prems(4,5) by simp
  have pre: "lzw_prefix ?c < code"
    using Suc.prems(1,4,5) by (auto simp: gif_table_def dest: spec [of _ "nat code"])
  have "ensures (if lzw_prefix ?c \<ge> 0 then stbi__out_gif_code fuel (lzw_prefix ?c) g else Inr g) (gif_draws g)"
    using Suc.prems pre by (intro ensures_if Suc.IH) (simp_all add: gif_draws_def)
  then show ?case
    unfolding stbi__out_gif_code.simps c ebind_simps
    by (rule ensures_bind) (auto simp: gif_draws_def intro!: ensures_mono [OF ensures_emit])
qed simp

text \<open>Between images an entry may also refer to itself, at index 0, as in a table of zeros.\<close>

definition gif_loose_table :: "stbi__gif_lzw list \<Rightarrow> bool" where
  "gif_loose_table cs \<longleftrightarrow> length cs = 8192 \<and> (\<forall>i < 8192. lzw_prefix (cs ! i) < max 1 (int i))"

lemma gif_table_loose: "gif_table cs \<Longrightarrow> gif_loose_table cs"
  by (fastforce simp: gif_table_def gif_loose_table_def)

lemma ensures_init_codes:
  assumes "gif_loose_table cs" and "0 < n" and "n \<le> 8192"
  shows "ensures (gif_init_codes n cs) gif_table"
proof -
  have "ensures (gif_init_codes n cs) (\<lambda>cs. gif_loose_table cs \<and> (\<forall>i < n. lzw_prefix (cs ! i) = -1))"
    unfolding gif_init_codes_def
    by (rule ensures_efold_upt [where P = "\<lambda>n cs. gif_loose_table cs \<and> (\<forall>i < n. lzw_prefix (cs ! i) = -1)"])
      (use assms in \<open>auto simp: gif_loose_table_def nth_list_update less_Suc_eq\<close>)
  then show ?thesis
    by (rule ensures_mono)
      (use assms(2) in \<open>fastforce simp: gif_table_def gif_loose_table_def max_def split: if_splits\<close>)
qed

section \<open>Codes\<close>

text \<open>The variables of the loop over the codes.\<close>

definition gif_codes_state :: "gif_raster \<Rightarrow> bool" where
  "gif_codes_state r \<longleftrightarrow> 1 \<le> r_codesize r \<and> r_codesize r \<le> 13 \<and> 3 \<le> r_avail r \<and> r_avail r \<le> 8192 \<and>
     -1 \<le> r_oldcode r \<and> r_oldcode r < r_avail r \<and> r_oldcode r < 8192"

lemma shortcast_id: "- 32768 \<le> x \<Longrightarrow> x < 32768 \<Longrightarrow> shortcast x = x"
  by (simp add: shortcast_def sint_sbintrunc' signed_take_bit_int_eq_self)

definition gif_ready :: "'u stbi__gif \<Rightarrow> bool" where
  "gif_ready g \<longleftrightarrow> gif_frame g \<and> gif_cursor g \<and> gif_table (gif_codes g)"

text \<open>What a code changes.\<close>

definition gif_code_done :: "gif_raster \<Rightarrow> 'u stbi__gif \<Rightarrow> gif_raster \<times> 'u stbi__gif \<Rightarrow> bool" where
  "gif_code_done r g x \<longleftrightarrow> (case x of (r', g') \<Rightarrow> gif_codes_state r' \<and> gif_ready g' \<and> gif_s g' = gif_s g \<and>
     gif_w g' = gif_w g \<and> gif_h g' = gif_h g \<and> bgindex g' = bgindex g \<and> r_valid r' = r_valid r \<and> r_len r' = r_len r)"

lemma ensures_add_code:
  assumes "gif_codes_state r" and "gif_ready g" and "0 \<le> code" and "code \<le> r_avail r" and "code < 8192"
  shows "ensures (gif_add_code code r g) (\<lambda>(r', g'). gif_code_done r g (r', g') \<and> code < r_avail r')"
proof (cases "0 \<le> r_oldcode r \<and> r_avail r < 8192")
  case True
  have len: "length (gif_codes g) = 8192" using assms(2) by (simp add: gif_ready_def gif_table_def)
  have old: "shortcast (r_oldcode r) = r_oldcode r" "r_oldcode r < r_avail r"
    using assms(1) True by (auto simp: gif_codes_state_def intro: shortcast_id)
  have tab: "gif_table ((gif_codes g)[nat (r_avail r) := p])" if "lzw_prefix p = r_oldcode r" for p
    using assms(1,2) that old True by (auto simp: gif_ready_def gif_table_def nth_list_update gif_codes_state_def)
  show ?thesis
    unfolding gif_add_code_def Let_def
    using assms True len old by (auto simp: gif_code_done_def gif_codes_state_def gif_ready_def tab intro!: ensures_bind ensures_if)
qed (use assms in \<open>auto simp: gif_add_code_def gif_code_done_def gif_codes_state_def\<close>)

lemma larger_codes:
  assumes "gif_codes_state r" and "r_avail r AND (2 ^ r_codesize r - 1) = 0" and "r_avail r \<le> 0x0FFF"
  shows "r_codesize r + 1 \<le> 13"
proof -
  have "2 ^ r_codesize r dvd r_avail r"
    using assms(2) by (simp add: and_exp_eq_0_iff_not_bit take_bit_eq_0_iff flip: mask_eq_exp_minus_1 take_bit_eq_mask)
  then have "2 ^ r_codesize r \<le> r_avail r" using assms(1) by (intro zdvd_imp_le) (auto simp: gif_codes_state_def)
  also have "\<dots> < 2 ^ 12" using assms(3) by simp
  finally have "r_codesize r < 12" by (rule power_less_imp_less_exp [rotated]) simp
  then show ?thesis by simp
qed

lemma ensures_code_step:
  assumes "gif_codes_state r" and "gif_ready g" and "0 \<le> code" and "code \<le> r_avail r" and "code < 8192"
  shows "ensures (gif_code_step code r g) (gif_code_done r g)"
proof (cases "r_first r")
  case False
  show ?thesis
    unfolding gif_code_step_def if_not_P [OF False]
  proof (rule ensures_bind [OF ensures_add_code [OF assms]], clarify)
    fix r1 g1 assume 1: "gif_code_done r g (r1, g1)" "code < r_avail r1"
    have "ensures (stbi__out_gif_code 8193 code g1) (gif_draws g1)"
      using 1 assms(3,5) by (intro ensures_out_code) (auto simp: gif_code_done_def gif_ready_def)
    then show "ensures (ebind (stbi__out_gif_code 8193 code g1) (\<lambda>g.
        let r = if r_avail r1 AND (2 ^ r_codesize r1 - 1) = 0 \<and> r_avail r1 \<le> 4095 then r1\<lparr>r_codesize := r_codesize r1 + 1\<rparr> else r1
        in Inr (r\<lparr>r_oldcode := code\<rparr>, g))) (gif_code_done r g)"
      by (rule ensures_bind)
        (use 1 assms(3,5) larger_codes [of r1] in \<open>auto simp: gif_code_done_def gif_codes_state_def gif_draws_def gif_ready_def Let_def\<close>)
  qed
qed (simp add: gif_code_step_def)

lemma code_bits:
  assumes "gif_codes_state r"
  shows "0 \<le> r_bits r AND (2 ^ r_codesize r - 1)" and "r_bits r AND (2 ^ r_codesize r - 1) < 8192"
proof -
  have "r_bits r AND (2 ^ r_codesize r - 1) = take_bit (r_codesize r) (r_bits r)"
    by (simp add: take_bit_eq_mask mask_eq_exp_minus_1)
  moreover have "take_bit (r_codesize r) (r_bits r) < 2 ^ r_codesize r" by (rule take_bit_int_less_exp)
  moreover have "(2 :: int) ^ r_codesize r \<le> 8192"
    using power_increasing [of "r_codesize r" 13 "2 :: int"] assms by (simp add: gif_codes_state_def)
  ultimately show "r_bits r AND (2 ^ r_codesize r - 1) < 8192" by linarith
  show "0 \<le> r_bits r AND (2 ^ r_codesize r - 1)" by simp
qed

section \<open>The raster\<close>

definition raster_ok :: "gif_raster \<Rightarrow> bool" where
  "raster_ok r \<longleftrightarrow> gif_codes_state r \<and> 0 \<le> r_valid r \<and> r_valid r < 24 \<and> 0 \<le> r_len r \<and> r_len r \<le> 255"

context byte_source
begin

definition gif_on :: "'u stbi__gif \<Rightarrow> 'u stbi__gif \<Rightarrow> bool" where
  "gif_on g g' \<longleftrightarrow> gif_ready g' \<and> ok (gif_s g') \<and> left (gif_s g') \<le> left (gif_s g) \<and> gif_w g' = gif_w g \<and> gif_h g' = gif_h g \<and> bgindex g' = bgindex g"

lemma gif_on_trans: "gif_on g g' \<Longrightarrow> gif_on g' g'' \<Longrightarrow> gif_on g g''"
  by (simp add: gif_on_def)

lemma gif_ready_s [simp]: "gif_ready (g\<lparr>gif_s := s\<rparr>) = gif_ready g"
  by (simp add: gif_ready_def)

lemma wp_gctx_rd8i:
  assumes "ok (gif_s g)"
    and "\<And>b t. ok t \<Longrightarrow> left t = left (gif_s g) - 1 \<Longrightarrow> 0 \<le> b \<Longrightarrow> b \<le> 255 \<Longrightarrow> (left (gif_s g) = 0 \<Longrightarrow> b = 0) \<Longrightarrow>
      Q b (g\<lparr>gif_s := t\<rparr>)"
  shows "wp (gctx rd8i) Q E g"
  unfolding gctx_def rd8i_def rd8_def
  by (rule wp_sonI, rule wp_sbindI, rule wp_get8 [OF assms(1)])
    (auto simp: wp_basic uint_bounds8 intro!: assms(2) dest: afterD)

text \<open>The bytes of the raster that are still to come, at most: a byte of the input may start a block, whose bytes
  are zeros once the input is exhausted.\<close>

definition raster_left :: "gif_raster \<Rightarrow> 'u stbi__gif \<Rightarrow> nat" where
  "raster_left r g = 256 * left (gif_s g) + nat (r_len r)"

lemma wp_read_bits:
  assumes "gif_ready g" and "ok (gif_s g)" and "raster_ok r" and "r_valid r < int (r_codesize r)"
  shows "wp (gif_read_bits r) (\<lambda>os g'. gif_on g g' \<and> (\<forall>r'. os = Some r' \<longrightarrow> raster_ok r' \<and> r_valid r' = r_valid r + 8 \<and>
    raster_left r' g' < raster_left r g)) E g"
proof -
  have v: "0 \<le> r_valid r" "r_valid r < 13" using assms(3,4) by (auto simp: raster_ok_def gif_codes_state_def)
  let ?Q = "\<lambda>os g'. gif_on g g' \<and> (\<forall>r'. os = Some r' \<longrightarrow> raster_ok r' \<and> r_valid r' = r_valid r + 8 \<and>
    raster_left r' g' < raster_left r g)"
  let ?byte = "\<lambda>len. if len = 0 then sret None else sbind (gctx rd8i) (\<lambda>b.
       if r_valid r < 0 \<or> r_valid r \<ge> 24 then sfail Undefined
       else sret (Some (r\<lparr>r_len := len - 1, r_bits := r_bits r OR push_bit (nat (r_valid r)) b, r_valid := r_valid r + 8\<rparr>)))"
  have byte: "wp (?byte len) ?Q E (g\<lparr>gif_s := t\<rparr>)"
    if "ok t" "left t \<le> left (gif_s g)" "0 \<le> len" "len \<le> 255" "256 * left t + nat len \<le> raster_left r g" for len t
    using that assms(1,3) v
    by (auto simp: wp_basic gif_on_def raster_ok_def gif_codes_state_def raster_left_def intro!: wp_sbindI wp_gctx_rd8i)
  show ?thesis
  proof (cases "r_len r = 0")
    case True
    show ?thesis
      unfolding gif_read_bits_def if_P [OF True]
      by (rule wp_sbindI, rule wp_gctx_rd8i [OF assms(2)], rule byte)
        (auto simp: raster_left_def gr0_conv_Suc split: nat_diff_split)
  next
    case False
    have "g = g\<lparr>gif_s := gif_s g\<rparr>" by simp
    then show ?thesis
      unfolding gif_read_bits_def if_not_P [OF False] using assms(2,3) byte [of "gif_s g" "r_len r"]
      by (intro wp_sbindI wp_basicI) (simp add: raster_left_def raster_ok_def)
  qed
qed

lemma wp_gif_skip:
  assumes "ok (gif_s g)" and "\<And>t. ok t \<Longrightarrow> left t \<le> left (gif_s g) \<Longrightarrow> Q () (g\<lparr>gif_s := t\<rparr>)"
  shows "wp (gif_skip_len n) Q E g"
  unfolding gif_skip_len_def gctx_def skip_bytes_def
  by (rule wp_sonI, rule wp_basicI) (use assms after_skip [of "gif_s g" n] in \<open>auto dest: afterD\<close>)

lemma wp_gif_skip_blocks:
  assumes "ok (gif_s g)" and "left (gif_s g) < fuel"
    and "\<And>t. ok t \<Longrightarrow> left t \<le> left (gif_s g) \<Longrightarrow> Q () (g\<lparr>gif_s := t\<rparr>)"
  shows "wp (gif_skip_blocks fuel) Q E g"
  using assms
proof (induction fuel arbitrary: g)
  case (Suc fuel)
  show ?case
    unfolding gif_skip_blocks.simps
  proof (rule wp_sbindI, rule wp_gctx_rd8i [OF Suc.prems(1)], rule wp_ifI, rule wp_sbindI, rule wp_gif_skip, simp, rule Suc.IH)
    fix b :: int and t u v assume "0 < b" "left (gif_s g) = 0 \<Longrightarrow> b = 0" "left t = left (gif_s g) - 1" "left u \<le> left (gif_s (g\<lparr>gif_s := t\<rparr>))"
    then show "left (gif_s (g\<lparr>gif_s := t, gif_s := u\<rparr>)) < fuel"
      using Suc.prems(2) by (cases "left (gif_s g)") auto
  qed (use Suc.prems in \<open>auto intro!: wp_basicI\<close>)
qed simp

lemma wp_take_code:
  assumes "gif_ready g" and "ok (gif_s g)" and "raster_ok r" and "int (r_codesize r) \<le> r_valid r" and "lzw_cs \<le> 12"
    and "left (gif_s g) < fuel"
  shows "wp (gif_take_code fuel lzw_cs r) (\<lambda>os g'. gif_on g g' \<and> (\<forall>r'. os = Some r' \<longrightarrow> raster_ok r' \<and>
    r_valid r' < r_valid r \<and> raster_left r' g' = raster_left r g)) (\<lambda>_. True) g"
proof -
  let ?code = "r_bits r AND (2 ^ r_codesize r - 1)"
  let ?r = "r\<lparr>r_bits := drop_bit (r_codesize r) (r_bits r), r_valid := r_valid r - int (r_codesize r)\<rparr>"
  let ?Q = "\<lambda>os g'. gif_on g g' \<and> (\<forall>r'. os = Some r' \<longrightarrow> raster_ok r' \<and> r_valid r' < r_valid r \<and> raster_left r' g' = raster_left r g)"
  have cs: "gif_codes_state r" "1 \<le> r_codesize r" and r: "gif_codes_state ?r" "0 \<le> r_valid ?r" "r_valid ?r < 24" "r_valid ?r < r_valid r"
      "0 \<le> r_len r" "r_len r \<le> 255"
    using assms(3,4) by (auto simp: raster_ok_def gif_codes_state_def)
  have "(2 :: int) ^ lzw_cs \<le> 4096" using power_increasing [of lzw_cs 12 "2 :: int"] assms(5) by simp
  then have clear: "gif_codes_state (?r\<lparr>r_codesize := lzw_cs + 1, r_avail := 2 ^ lzw_cs + 2, r_oldcode := -1, r_first := False\<rparr>)"
    using assms(5) by (simp add: gif_codes_state_def) (smt (verit) one_le_power)
  have code: "wp (\<lambda>g. case gif_code_step ?code ?r g of Inl e \<Rightarrow> (Inl e, g) | Inr (r, g) \<Rightarrow> (Inr (Some r), g)) ?Q (\<lambda>_. True) g"
    if "?code \<le> r_avail r"
    using ensures_code_step [OF r(1) assms(1) code_bits(1) [OF cs(1)] _ code_bits(2) [OF cs(1)]] that assms(2) r
    by (cases "gif_code_step ?code ?r g")
      (auto simp: wp_def gif_code_done_def gif_on_def raster_ok_def raster_left_def)
  show ?thesis
    unfolding gif_take_code_def Let_def
    using clear code r assms
    by (auto intro!: wp_ifI wp_basicI wp_sbindI wp_gif_skip wp_gif_skip_blocks simp: gif_on_def raster_ok_def raster_left_def)
qed

lemma wp_raster_loop:
  assumes "gif_ready g" and "ok (gif_s g)" and "raster_ok r" and "lzw_cs \<le> 12" and "left (gif_s g) < fuel"
    and "9 * raster_left r g + nat (r_valid r) < n"
  shows "wp (gif_raster_loop n fuel lzw_cs r) (\<lambda>_. gif_on g) (\<lambda>_. True) g"
  using assms
proof (induction n arbitrary: r g)
  case (Suc n)
  have "wp (if r_valid r < int (r_codesize r) then gif_read_bits r else gif_take_code fuel lzw_cs r)
    (\<lambda>os g'. gif_on g g' \<and> (\<forall>r'. os = Some r' \<longrightarrow> raster_ok r' \<and>
       9 * raster_left r' g' + nat (r_valid r') < 9 * raster_left r g + nat (r_valid r))) (\<lambda>_. True) g"
  proof (rule wp_ifI)
    assume "r_valid r < int (r_codesize r)"
    then show "wp (gif_read_bits r) (\<lambda>os g'. gif_on g g' \<and> (\<forall>r'. os = Some r' \<longrightarrow> raster_ok r' \<and>
       9 * raster_left r' g' + nat (r_valid r') < 9 * raster_left r g + nat (r_valid r))) (\<lambda>_. True) g"
      by (intro wp_mono [OF wp_read_bits [OF Suc.prems(1-3)]]) (use Suc.prems(3) in \<open>auto simp: raster_ok_def\<close>)
  next
    assume "\<not> r_valid r < int (r_codesize r)"
    then show "wp (gif_take_code fuel lzw_cs r) (\<lambda>os g'. gif_on g g' \<and> (\<forall>r'. os = Some r' \<longrightarrow> raster_ok r' \<and>
       9 * raster_left r' g' + nat (r_valid r') < 9 * raster_left r g + nat (r_valid r))) (\<lambda>_. True) g"
      by (intro wp_mono [OF wp_take_code [OF Suc.prems(1-3) _ Suc.prems(4,5)]]) (auto simp: raster_ok_def)
  qed
  then show ?case
    unfolding gif_raster_loop.simps
    by (rule wp_sbindI [OF wp_mono]) 
      (use Suc.prems in \<open>auto intro!: wp_optionI wp_basicI wp_mono [OF Suc.IH] intro: gif_on_trans simp: gif_on_def\<close>)
qed simp

lemma wp_gctx:
  assumes "wp m (\<lambda>x t. Q x (g\<lparr>gif_s := t\<rparr>)) (\<lambda>_. True) (gif_s g)"
  shows "wp (gctx m) Q (\<lambda>_. True) g"
  unfolding gctx_def by (rule wp_sonI) (use assms in simp)

lemma wp_process_raster:
  assumes "gif_frame g" and "gif_cursor g" and "gif_loose_table (gif_codes g)" and "ok (gif_s g)" and "2304 * left (gif_s g) < fuel"
  shows "wp (stbi__process_gif_raster fuel) (\<lambda>_. gif_on g) (\<lambda>_. True) g"
  unfolding stbi__process_gif_raster_def rd8_def
proof (rule wp_sbindI, rule wp_gctx, rule wp_get8 [OF assms(4)], unfold Let_def, rule wp_ifI)
  fix b :: stbi_uc and t assume t: "after (gif_s g) t" and b: "\<not> 12 < unat b"
  let ?g = "g\<lparr>gif_s := t\<rparr>"
  have le: "(2 :: nat) ^ unat b \<le> 2 ^ 12" "(2 :: int) ^ unat b \<le> 2 ^ 12" using b by (auto intro: power_increasing simp del: power_numeral)
  have init: "ensures (gif_init_codes (2 ^ unat b) (gif_codes ?g)) gif_table"
    using le(1) assms(3) by (intro ensures_init_codes) simp_all
  have start: "raster_ok (gif_raster_start (unat b))"
    using le(2) b by (simp add: raster_ok_def gif_codes_state_def gif_raster_start_def) (smt (verit) one_le_power)
  have loop: "wp (gif_raster_loop fuel fuel (unat b) (gif_raster_start (unat b))) (\<lambda>_. gif_on g) (\<lambda>_. True) (?g\<lparr>gif_codes := cs\<rparr>)"
    if "gif_table cs" for cs
    by (rule wp_mono, rule wp_raster_loop)
      (use that assms b start t in \<open>auto simp: gif_on_def gif_ready_def raster_left_def gif_raster_start_def dest: afterD\<close>)
  show "wp (sbind (sget gif_codes) (\<lambda>codes. sbind (slift (gif_init_codes (2 ^ unat b) codes)) (\<lambda>codes.
       sbind (smodify (\<lambda>g. g\<lparr>gif_codes := codes\<rparr>)) (\<lambda>_. gif_raster_loop fuel fuel (unat b) (gif_raster_start (unat b))))))
     (\<lambda>_. gif_on g) (\<lambda>_. True) ?g"
    by (rule wp_sbindI, rule wp_basicI, rule wp_sbindI, rule wp_slift [OF ensures_mono [OF init]])
      (simp_all add: wp_simps loop)
qed (simp add: wp_basic)

section \<open>Blocks\<close>

lemma wp_colortable:
  assumes "ok s" and "length pal = 1024" and "n \<le> 256"
  shows "wp (stbi__gif_parse_colortable pal n trn) (\<lambda>p t. after s t \<and> length p = 1024) (\<lambda>_. True) s"
  unfolding stbi__gif_parse_colortable_def rd8_def
proof (rule wp_sfold)
  fix i and p :: "stbi_uc list" and t assume i: "i \<in> set [0..<n]" and t: "after s t \<and> length p = 1024"
  have store: "ensures (store_from p (int (4 * i)) [b, g, r, a]) (\<lambda>q. length q = 1024)" for b g r a
    by (rule ensures_mono [OF ensures_store_from]) (use i t assms(3) in auto)
  show "wp (sbind (stot stbi__get8) (\<lambda>r. sbind (stot stbi__get8) (\<lambda>g. sbind (stot stbi__get8) (\<lambda>b.
       slift (store_from p (int (4 * i)) [b, g, r, if trn = int i then 0 else 255]))))) (\<lambda>p t. after s t \<and> length p = 1024) (\<lambda>_. True) t"
    by (intro wp_sbindI wp_get8 wp_slift ensures_mono [OF store] TrueI) (use t in \<open>auto dest: afterD\<close>, meson after_trans)
qed (use assms in simp)

text \<open>The state between the blocks of a file.\<close>

definition gif_idle :: "'u stbi__gif \<Rightarrow> bool" where
  "gif_idle g \<longleftrightarrow> gif_frame g \<and> gif_loose_table (gif_codes g) \<and> ok (gif_s g) \<and> bgindex g \<in> {0..255} \<and> transparent g \<in> {-1..255}"

lemma gif_idle_updates [simp]:
  "gif_idle (g\<lparr>eflags := a\<rparr>) = gif_idle g" "gif_idle (g\<lparr>gif_delay := b\<rparr>) = gif_idle g"
  "gif_idle (g\<lparr>lflags := b\<rparr>) = gif_idle g" "gif_idle (g\<lparr>gif_local := c\<rparr>) = gif_idle g"
  by (simp_all add: gif_idle_def gif_frame_def gif_pcount_def)

lemma gif_cursor_start:
  assumes "gif_frame g" and "0 \<le> x" "0 \<le> y" "0 \<le> w" "0 \<le> h" and "x + w \<le> gif_w g" and "y + h \<le> gif_h g"
  shows "gif_cursor (gif_interlace fl (gif_geometry x y w h g))"
proof -
  let ?l = "gif_w g * 4"
  have "0 \<le> ?l" using assms(2,4,6) by simp
  then have "y * ?l + h * ?l \<le> gif_h g * ?l"
    using assms(7) by (metis distrib_right mult_right_mono)
  then show ?thesis
    using assms(2-6) \<open>0 \<le> ?l\<close> by (auto simp: gif_cursor_def gif_interlace_def gif_geometry_def Let_def)
qed

lemma gif_geometry_keeps [simp]:
  "gif_frame (gif_geometry x y w h g) = gif_frame g" "gif_frame (gif_interlace fl g) = gif_frame g"
  "gif_codes (gif_geometry x y w h g) = gif_codes g" "gif_codes (gif_interlace fl g) = gif_codes g"
  "gif_s (gif_geometry x y w h g) = gif_s g" "gif_s (gif_interlace fl g) = gif_s g"
  "gif_w (gif_geometry x y w h g) = gif_w g" "gif_w (gif_interlace fl g) = gif_w g"
  "gif_h (gif_geometry x y w h g) = gif_h g" "gif_h (gif_interlace fl g) = gif_h g"
  "bgindex (gif_geometry x y w h g) = bgindex g" "bgindex (gif_interlace fl g) = bgindex g"
  "(gif_geometry x y w h g)\<lparr>gif_s := t\<rparr> = gif_geometry x y w h (g\<lparr>gif_s := t\<rparr>)"
  by (simp_all add: gif_geometry_def gif_interlace_def gif_frame_def gif_pcount_def Let_def)

lemma push_2_le: "nat (push_bit (nat (x AND 7)) 2) \<le> 256" for x :: int
proof -
  have "x AND 7 \<le> 7" by (rule AND_upper2) simp
  then have "nat (x AND 7) \<le> nat 7" by (rule nat_mono)
  then have "nat (x AND 7) \<le> 7" by simp
  then have "(2 :: int) * 2 ^ nat (x AND 7) \<le> 2 * 2 ^ 7" by (intro mult_left_mono power_increasing) simp_all
  then show ?thesis by (simp add: push_bit_eq_mult ac_simps)
qed

lemma wp_choose_table:
  assumes "gif_frame g" and "ok (gif_s g)"
  shows "wp gif_choose_table (\<lambda>_ g'. gif_frame g' \<and> gif_cursor g' = gif_cursor g \<and> gif_codes g' = gif_codes g \<and> ok (gif_s g') \<and>
    left (gif_s g') \<le> left (gif_s g) \<and> gif_w g' = gif_w g \<and> gif_h g' = gif_h g \<and> bgindex g' = bgindex g) (\<lambda>_. True) g"
proof -
  have pal: "length (gif_lpal g) = 1024" using assms(1) by (simp add: gif_frame_def)
  have frame: "gif_frame (g\<lparr>gif_s := t, gif_lpal := p, gif_local := b\<rparr>)" if "length p = 1024" for t p b
    using assms(1) that by (simp add: gif_frame_def gif_pcount_def)
  show ?thesis
    unfolding gif_choose_table_def
    apply (rule wp_sbindI, rule wp_basicI, rule wp_ifI)
     apply (rule wp_sbindI, rule wp_gctx)
     apply (simp only: id_apply, rule wp_mono [OF wp_colortable [OF assms(2) pal push_2_le]])
      apply (use assms frame in \<open>auto simp: wp_basic gif_cursor_def dest: afterD\<close>)
    done
qed

lemma wp_fill_background:
  assumes "gif_frame g" and "bgindex g \<in> {0..255}"
  shows "wp gif_fill_background (\<lambda>_ g'. gif_frame g' \<and> gif_w g' = gif_w g \<and> gif_h g' = gif_h g) (\<lambda>_. True) g"
proof -
  obtain p where p: "gif_out g = Some p" "length p = 4 * gif_pcount g" "length (gif_history g) = gif_pcount g" "length (gif_pal g) = 1024"
    using assms(1) by (auto simp: gif_frame_def)
  let ?I = "\<lambda>outp g'. length outp = 4 * gif_pcount g \<and> (\<exists>pal. length pal = 1024 \<and> g' = g\<lparr>gif_pal := pal\<rparr>)"
  have copy: "ensures (efold (\<lambda>k outp. ebind (arr_get pal (bgindex g * 4 + int k)) (\<lambda>v. arr_set outp (int (4 * pi + k)) v)) [0..<4] outp)
      (\<lambda>outp. length outp = 4 * gif_pcount g)" if "length outp = 4 * gif_pcount g" "length pal = 1024" "pi < gif_pcount g" for pal pi outp
    by (rule ensures_efold) (use that assms(2) in \<open>auto simp: arr_set_def\<close>)
  have "wp (sfold (\<lambda>pi outp. sbind (slift (arr_get (gif_history g) (int pi))) (\<lambda>h.
             if h = 0 then
               sbind (sget gif_pal) (\<lambda>pal.
               sbind (slift (arr_set pal (bgindex g * 4 + 3) 255)) (\<lambda>pal.
               sbind (smodify (\<lambda>g. g\<lparr>gif_pal := pal\<rparr>)) (\<lambda>_.
               slift (efold (\<lambda>k outp. ebind (arr_get pal (bgindex g * 4 + int k)) (\<lambda>v. arr_set outp (int (4 * pi + k)) v))
                 [0..<4] outp))))
             else sret outp)) [0..<gif_pcount g] p) ?I (\<lambda>_. True) g"
  proof (rule wp_sfold)
    show "?I p g" using p by (auto intro: exI [of _ "gif_pal g"])
  next
    fix i and outp :: "stbi_uc list" and g' assume i: "i \<in> set [0..<gif_pcount g]" and I: "?I outp g'"
    then obtain pal where pal: "length pal = 1024" "g' = g\<lparr>gif_pal := pal\<rparr>" by blast
    have "ensures (efold (\<lambda>k outp. ebind (arr_get (pal[nat (bgindex g * 4 + 3) := 255]) (bgindex g * 4 + int k)) (\<lambda>v. arr_set outp (int (4 * i + k)) v))
                 [0..<4] outp) (\<lambda>outp. ?I outp (g'\<lparr>gif_pal := pal[nat (bgindex g * 4 + 3) := 255]\<rparr>))"
      by (rule ensures_mono [OF copy])
        (use i pal conjunct1 [OF I] in \<open>auto intro!: exI [of _ "pal[nat (bgindex g * 4 + 3) := 255]"]\<close>)
    then show "wp (sbind (slift (arr_get (gif_history g) (int i))) (\<lambda>h.
             if h = 0 then
               sbind (sget gif_pal) (\<lambda>pal.
               sbind (slift (arr_set pal (bgindex g * 4 + 3) 255)) (\<lambda>pal.
               sbind (smodify (\<lambda>g. g\<lparr>gif_pal := pal\<rparr>)) (\<lambda>_.
               slift (efold (\<lambda>k outp. ebind (arr_get pal (bgindex g * 4 + int k)) (\<lambda>v. arr_set outp (int (4 * i + k)) v))
                 [0..<4] outp))))
             else sret outp)) ?I (\<lambda>_. True) g'"
      using i I p pal assms(2) by (auto simp: wp_simps intro!: wp_slift)
  qed
  then show ?thesis
    unfolding gif_fill_background_def
    apply (intro wp_sbindI wp_basicI)
    apply (simp only: id_apply p(1) option.case)
    apply (rule wp_sbindI, erule wp_mono)
     apply (use assms p in \<open>auto simp: wp_basic gif_frame_def gif_pcount_def\<close>)
    done
qed

lemma wp_gctx_rd16:
  assumes "ok (gif_s g)"
    and "\<And>v t. ok t \<Longrightarrow> left t \<le> left (gif_s g) \<Longrightarrow> 0 \<le> v \<Longrightarrow> v < 65536 \<Longrightarrow> Q v (g\<lparr>gif_s := t\<rparr>)"
  shows "wp (gctx rd16le) Q (\<lambda>_. True) g"
  unfolding rd16le_def by (rule wp_gctx, rule wp_get16 [OF assms(1)]) (auto intro!: assms(2) dest: afterD)

lemma wp_gif_image:
  assumes "gif_idle g" and "2304 * left (gif_s g) < fuel"
  shows "wp (gif_image fuel first) (\<lambda>_ g'. gif_frame g' \<and> gif_w g' = gif_w g \<and> gif_h g' = gif_h g) (\<lambda>_. True) g"
proof -
  have i: "gif_frame g" "gif_loose_table (gif_codes g)" "ok (gif_s g)" "bgindex g \<in> {0..255}"
    using assms(1) by (auto simp: gif_idle_def)
  let ?Q = "\<lambda>_ g'. gif_frame g' \<and> gif_w g' = gif_w g \<and> gif_h g' = gif_h g"
  have draw: "wp (sbind gif_choose_table (\<lambda>_. sbind (stbi__process_gif_raster fuel) (\<lambda>_. swhen b gif_fill_background))) ?Q (\<lambda>_. True) g1"
    if "gif_frame g1" "gif_cursor g1" "gif_codes g1 = gif_codes g" "ok (gif_s g1)" "left (gif_s g1) \<le> left (gif_s g)"
      "gif_w g1 = gif_w g" "gif_h g1 = gif_h g" "bgindex g1 = bgindex g" for b g1
  proof (rule wp_sbindI, rule wp_mono [OF wp_choose_table [OF that(1,4)]])
    fix x g2 assume 2: "gif_frame g2 \<and> gif_cursor g2 = gif_cursor g1 \<and> gif_codes g2 = gif_codes g1 \<and> ok (gif_s g2) \<and>
      left (gif_s g2) \<le> left (gif_s g1) \<and> gif_w g2 = gif_w g1 \<and> gif_h g2 = gif_h g1 \<and> bgindex g2 = bgindex g1"
    show "wp (sbind (stbi__process_gif_raster fuel) (\<lambda>_. swhen b gif_fill_background)) ?Q (\<lambda>_. True) g2"
    proof (rule wp_sbindI, rule wp_mono [OF wp_process_raster])
      fix y g3 assume 3: "gif_on g2 g3"
      show "wp (swhen b gif_fill_background) ?Q (\<lambda>_. True) g3"
        by (rule wp_swhenI, rule wp_mono [OF wp_fill_background])
          (use 2 3 that i(4) in \<open>auto simp: gif_on_def gif_ready_def\<close>)
    qed (use 2 that i assms(2) in auto)
  qed simp
  show ?thesis
    unfolding gif_image_def
  proof (intro wp_sbindI wp_gctx_rd16 wp_basicI wp_ifI wp_gctx_rd8i draw)
  qed (use i in \<open>auto intro!: iffD1 [OF wp_sbind draw] gif_cursor_start\<close>)
qed

text \<open>What an extension changes.\<close>

definition gif_idle_on :: "'u stbi__gif \<Rightarrow> 'u stbi__gif \<Rightarrow> bool" where
  "gif_idle_on g g' \<longleftrightarrow> gif_idle g' \<and> left (gif_s g') \<le> left (gif_s g) \<and> gif_w g' = gif_w g \<and> gif_h g' = gif_h g"

lemma gif_idle_s: "gif_idle g \<Longrightarrow> ok t \<Longrightarrow> gif_idle (g\<lparr>gif_s := t\<rparr>)"
  by (simp add: gif_idle_def)

lemma wp_set_alpha:
  assumes "gif_idle g" and "0 \<le> i" and "i \<le> 255"
  shows "wp (gif_set_alpha i v) (\<lambda>_. gif_idle_on g) (\<lambda>_. True) g"
  using assms unfolding gif_set_alpha_def
  by (auto simp: wp_simps gif_idle_on_def gif_idle_def gif_frame_def gif_pcount_def intro!: wp_slift)

lemma wp_gif_control:
  assumes "gif_idle g"
  shows "wp gif_control (\<lambda>_. gif_idle_on g) (\<lambda>_. True) g"
proof -
  have ok: "ok (gif_s g')" "-1 \<le> transparent g'" "transparent g' \<le> 255" if "gif_idle_on g g'" for g'
    using that by (auto simp: gif_idle_on_def gif_idle_def)
  have upd: "gif_idle_on g (g'\<lparr>gif_s := t\<rparr>)" "gif_idle_on g (g'\<lparr>gif_s := t, transparent := i\<rparr>)"
    if "gif_idle_on g g'" "ok t" "left t \<le> left (gif_s g')" "-1 \<le> i" "i \<le> 255" for g' t i
    using that by (auto simp: gif_idle_on_def gif_idle_def gif_frame_def gif_pcount_def)
  have alpha: "wp (gif_set_alpha i v) (\<lambda>_. gif_idle_on g) (\<lambda>_. True) g'" if "gif_idle_on g g'" "0 \<le> i" "i \<le> 255" for g' i v
    by (rule wp_mono [OF wp_set_alpha]) (use that in \<open>auto simp: gif_idle_on_def\<close>)
  let ?rest = "\<lambda>ef. if ef AND 1 \<noteq> 0 then
       sbind (gctx rd8i) (\<lambda>t. sbind (smodify (\<lambda>g. g\<lparr>transparent := t\<rparr>)) (\<lambda>_. swhen (t \<ge> 0) (gif_set_alpha t 0)))
     else sbind (gif_skip_len 1) (\<lambda>_. smodify (\<lambda>g. g\<lparr>transparent := -1\<rparr>))"
  have rest: "wp (?rest ef) (\<lambda>_. gif_idle_on g) (\<lambda>_. True) g'" if "gif_idle_on g g'" for g' and ef :: int
    by (intro wp_ifI wp_sbindI wp_gctx_rd8i wp_gif_skip wp_basicI wp_swhenI alpha upd) (use that ok [OF that] in auto)
  have idle: "gif_idle_on g (g\<lparr>gif_s := t, eflags := ef, gif_delay := dl\<rparr>)" if "ok t" "left t \<le> left (gif_s g)" for t ef dl
    using assms that by (simp add: gif_idle_on_def gif_idle_s)
  have tail: "wp (sbind (sget transparent) (\<lambda>t. sbind (swhen (t \<ge> 0) (gif_set_alpha t 255)) (\<lambda>_. ?rest ef))) (\<lambda>_. gif_idle_on g) (\<lambda>_. True) g'"
    if "gif_idle_on g g'" for g' and ef :: int
  proof (rule wp_sbindI, rule wp_basicI, rule wp_sbindI, rule wp_swhenI)
    assume t: "0 \<le> transparent g'"
    show "wp (gif_set_alpha (transparent g') 255) (\<lambda>_. wp (?rest ef) (\<lambda>_. gif_idle_on g) (\<lambda>_. True)) (\<lambda>_. True) g'"
      by (rule wp_mono [OF alpha [OF that t ok(3) [OF that]]]) (rule rest, assumption, simp)
  qed (rule rest [OF that])
  have "ok (gif_s g)" using assms by (simp add: gif_idle_def)
  then show ?thesis
    unfolding gif_control_def
    by (intro wp_sbindI [of "gctx rd8i"] wp_sbindI [of "gctx rd16le"] wp_gctx_rd8i wp_gctx_rd16 wp_sbind_smodify tail)
      (auto intro!: idle)
qed

lemma wp_gif_extension:
  assumes "gif_idle g" and "left (gif_s g) < fuel"
  shows "wp (gif_extension fuel) (\<lambda>_. gif_idle_on g) (\<lambda>_. True) g"
proof -
  have ok: "ok (gif_s g)" using assms by (simp add: gif_idle_def)
  have blocks: "wp (gif_skip_blocks fuel) (\<lambda>_. gif_idle_on g) (\<lambda>_. True) g'" if "gif_idle_on g g'" for g'
    by (rule wp_gif_skip_blocks) (use that assms in \<open>auto simp: gif_idle_on_def gif_idle_def\<close>)
  have idle: "gif_idle_on g (g\<lparr>gif_s := t\<rparr>)" if "ok t" "left t \<le> left (gif_s g)" for t
    using assms that by (simp add: gif_idle_on_def gif_idle_s)
  have control: "wp gif_control (\<lambda>_. gif_idle_on g) (\<lambda>_. True) g'" if "gif_idle_on g g'" for g'
    by (rule wp_mono [OF wp_gif_control]) (use that in \<open>auto simp: gif_idle_on_def\<close>)
  show ?thesis
    unfolding gif_extension_def rd8_def
    by (rule wp_sbindI, rule wp_gctx, rule wp_get8 [OF ok])
      (use ok in \<open>auto intro!: wp_ifI wp_sbindI wp_gctx_rd8i wp_mono [OF control] blocks idle wp_gif_skip dest: afterD\<close>)
qed

lemma wp_gif_blocks:
  assumes "gif_idle g" and "2304 * left (gif_s g) < fuel" and "left (gif_s g) < n"
  shows "wp (gif_blocks n fuel first) (\<lambda>u g'. gif_frame g' \<and> gif_w g' = gif_w g \<and> gif_h g' = gif_h g) (\<lambda>_. True) g"
  using assms
proof (induction n arbitrary: g)
  case (Suc n)
  have ok: "ok (gif_s g)" and frame: "gif_frame g" using Suc.prems by (simp_all add: gif_idle_def)
  show ?case
    unfolding gif_blocks.simps rd8_def
  proof (rule wp_sbindI, rule wp_gctx, rule wp_get8 [OF ok])
    fix b :: stbi_uc and t assume t: "after (gif_s g) t" "left t = left (gif_s g) - 1" "left (gif_s g) = 0 \<Longrightarrow> b = 0"
    let ?g = "g\<lparr>gif_s := t\<rparr>"
    have idle: "gif_idle ?g" using Suc.prems(1) t(1) by (auto intro: gif_idle_s dest: afterD)
    have less: "left t < left (gif_s g)" if "b \<noteq> 0" using t(2,3) that by (cases "left (gif_s g)") auto
    show "wp (if b = 0x2C then sbind (gif_image fuel first) (\<lambda>_. sret True)
     else if b = 0x21 then sbind (gif_extension fuel) (\<lambda>_. gif_blocks n fuel first)
     else if b = 0x3B then sret False
     else sfail (Failure ''unknown code'')) (\<lambda>u g'. gif_frame g' \<and> gif_w g' = gif_w g \<and> gif_h g' = gif_h g) (\<lambda>_. True) ?g"
      using idle frame t(2) less Suc.prems(2,3)
      by (intro wp_ifI wp_sbindI wp_basicI wp_mono [OF wp_gif_image] wp_mono [OF wp_gif_extension])
        (auto simp: gif_idle_on_def intro!: wp_basicI wp_mono [OF Suc.IH])
  qed
qed simp

section \<open>The first frame\<close>

lemma wp_get8_next:
  assumes "ok s" and "\<And>b. ok (after_byte s) \<Longrightarrow> left (after_byte s) \<le> left s \<Longrightarrow> Q b (after_byte s)"
  shows "wp (stot stbi__get8) Q E s"
  using assms get8_ok [OF assms(1)] get8_left [OF assms(1)] by (cases "stbi__get8 s") (auto simp: wp_stot after_byte_def)

lemma wp_gif_expect:
  assumes "ok s" and "\<And>t. ok t \<Longrightarrow> left t \<le> left s \<Longrightarrow> t = (after_byte ^^ length cs) s \<Longrightarrow> Q () t"
  shows "wp (gif_expect (Failure e) cs) Q (\<lambda>_. True) s"
  using assms unfolding gif_expect_def rd8_def
proof (induction cs arbitrary: s)
  case (Cons c cs)
  have nx: "ok (after_byte s)" "left (after_byte s) \<le> left s"
    using get8_ok [OF Cons.prems(1)] get8_left [OF Cons.prems(1)] by (simp_all add: after_byte_def)
  have "wp (sfold (\<lambda>c _. sbind (stot stbi__get8) (\<lambda>b. sguard (b = c) (Failure e))) cs ()) Q (\<lambda>_. True) (after_byte s)"
    by (rule Cons.IH) (use nx Cons.prems(2) in \<open>auto simp: funpow_swap1\<close>)
  then show ?case
    unfolding sfold.simps
    by (intro wp_sbindI wp_get8_next [OF Cons.prems(1)] wp_sguardI) simp_all
qed (simp add: wp_basic)

lemma wp_gif_signature:
  assumes "ok s" and "\<And>t. ok t \<Longrightarrow> left t \<le> left s \<Longrightarrow> t = (after_byte ^^ 6) s \<Longrightarrow> Q () t"
  shows "wp (gif_signature (Failure e)) Q (\<lambda>_. True) s"
  unfolding gif_signature_def rd8_def
proof (rule wp_sbindI, rule wp_gif_expect [OF assms(1)], rule wp_sbindI, rule wp_get8_next, assumption, rule wp_ifI, simp add: wp_basic,
    rule wp_gif_expect, assumption, rule assms(2), assumption)
qed (auto simp: numeral_eq_Suc)

lemma wp_get16_next:
  assumes "ok s" and "\<And>t v. stbi__get16le s = (v, t) \<Longrightarrow> ok t \<Longrightarrow> left t \<le> left s \<Longrightarrow> 0 \<le> v \<Longrightarrow> v < 65536 \<Longrightarrow> Q v t"
  shows "wp (stot stbi__get16le) Q E s"
proof -
  have "wp (stot stbi__get16le) (\<lambda>v t. after s t \<and> 0 \<le> v \<and> v < 65536) E s" by (rule wp_get16 [OF assms(1)]) simp
  then show ?thesis using assms(2) by (auto simp: wp_stot dest: afterD split: prod.splits)
qed

text \<open>What the header sets.\<close>

definition gif_headed :: "'u stbi__gif \<Rightarrow> 'u stbi__gif \<Rightarrow> bool" where
  "gif_headed g g' \<longleftrightarrow> gif_extent (gif_s g) = (gif_w g', gif_h g') \<and> gif_w g' \<in> {0..<65536} \<and> gif_h g' \<in> {0..<65536} \<and>
     bgindex g' \<in> {0..255} \<and> transparent g' = -1 \<and> length (gif_pal g') = 1024 \<and> gif_lpal g' = gif_lpal g \<and>
     gif_codes g' = gif_codes g \<and> ok (gif_s g') \<and> left (gif_s g') \<le> left (gif_s g)"

lemma wp_gif_header:
  assumes "ok (gif_s g)" and "length (gif_pal g) = 1024"
  shows "wp (stbi__gif_header False) (\<lambda>_. gif_headed g) (\<lambda>_. True) g"
proof -
  have table: "wp (if w > int STBI_MAX_DIMENSIONS then sfail (Failure ''too large'')
     else if h > int STBI_MAX_DIMENSIONS then sfail (Failure ''too large'')
     else if False then sret ()
     else if fl AND 0x80 \<noteq> 0 then
       sbind (sget gif_pal) (\<lambda>pal.
       sbind (gctx (stbi__gif_parse_colortable pal (nat (push_bit (nat (fl AND 7)) 2)) (-1))) (\<lambda>pal.
       smodify (\<lambda>g. g\<lparr>gif_pal := pal\<rparr>)))
     else sret ()) (\<lambda>_. gif_headed g) (\<lambda>_. True) g'" if "gif_headed g g'" for g' and w h fl :: int
    by (intro wp_ifI wp_sbindI wp_basicI wp_gctx wp_mono [OF wp_colortable [OF _ _ push_2_le]])
      (use that in \<open>auto simp: wp_basic gif_headed_def dest: afterD\<close>)
  show ?thesis
    unfolding stbi__gif_header_def rd16le_def
    apply (rule wp_sbindI, rule wp_gctx, rule wp_gif_signature [OF assms(1)])
    apply (rule wp_sbindI, rule wp_gctx, rule wp_get16_next, simp)
    apply (rule wp_sbindI, rule wp_gctx, rule wp_get16_next, simp)
    apply (rule wp_sbindI, rule wp_gctx_rd8i, simp)+
    apply (rule wp_sbind_smodify, rule table)
    apply (use assms in \<open>auto simp: gif_headed_def gif_extent_def\<close>)
    done
qed

lemma wp_gif_begin_frame:
  assumes "ok s" and "case gif_extent s of (w, h) \<Rightarrow> gif_room w h"
  shows "wp (gif_begin_frame None) (\<lambda>_ g. gif_idle g \<and> left (gif_s g) \<le> left s \<and> gif_w g < 65536 \<and> gif_h g < 65536) (\<lambda>_. True) (gif_zero s)"
proof -
  have table: "gif_loose_table (gif_codes (gif_zero s))" by (simp add: gif_loose_table_def gif_zero_def less_max_iff_disj)
  have zero: "gif_s (gif_zero s) = s" "length (gif_pal (gif_zero s)) = 1024" "length (gif_lpal (gif_zero s)) = 1024"
    "gif_out (gif_zero s) = None" by (simp_all add: gif_zero_def)
  have "wp gif_first_frame (\<lambda>_ g. gif_idle g \<and> left (gif_s g) \<le> left s \<and> gif_w g < 65536 \<and> gif_h g < 65536) (\<lambda>_. True) (gif_zero s)"
    unfolding gif_first_frame_def
    by (rule wp_sbindI, rule wp_mono [OF wp_gif_header])
      (use assms table zero in \<open>auto simp: wp_simps gif_headed_def gif_idle_def gif_frame_def gif_pcount_def\<close>)
  then have "wp gif_first_frame (\<lambda>_ g. gif_idle (g\<lparr>gif_history := replicate (gif_pcount g) 0\<rparr>) \<and> left (gif_s g) \<le> left s \<and> gif_w g < 65536 \<and> gif_h g < 65536) (\<lambda>_. True) (gif_zero s)"
    by (rule wp_mono) (auto simp: gif_idle_def gif_frame_def gif_pcount_def)
  then show ?thesis
    unfolding gif_begin_frame_def by (simp add: wp_simps zero(4)) (erule wp_mono; simp add: wp_simps)
qed

end

text \<open>The image that the decoder returns; a GIF file may announce a width or a height of zero.\<close>

definition gif_result_ok :: "int \<Rightarrow> loaded \<Rightarrow> bool" where
  "gif_result_ok req r \<longleftrightarrow> (\<exists>d. ld_data r = Pixels8 d \<and> length d = ld_x r * ld_y r * nat (channels_of req r)) \<and> ld_comp r = 4"

context byte_source
begin

lemma wp_gif_load:
  assumes "ok s" and "2304 * left s < fuel" and "case gif_extent s of (w, h) \<Rightarrow> gif_room w h" and "req \<in> {0..4}"
  shows "wp (stbi__gif_load fuel req) (\<lambda>r _. gif_result_ok req r) (\<lambda>_. True) s"
proof -
  let ?out = "\<lambda>g outp. if req \<noteq> 0 \<and> req \<noteq> 4 then stbi__convert_format outp 4 req (u32cast (gif_w g)) (u32cast (gif_h g)) else Inr outp"
  have conv: "ensures (?out g outp) (\<lambda>d. gif_result_ok req \<lparr>ld_data = Pixels8 d, ld_x = nat (gif_w g), ld_y = nat (gif_h g), ld_comp = 4\<rparr>)"
    if "gif_frame g" "gif_w g < 65536" "gif_h g < 65536" "gif_out g = Some outp" for g outp
  proof -
    define w h where "w = nat (gif_w g)" and "h = nat (gif_h g)"
    have wh: "gif_w g = int w" "gif_h g = int h" "w < 65536" "h < 65536"
      using that(1-3) by (auto simp: w_def h_def gif_frame_def gif_room_def)
    have u: "unat (u32cast (int w)) = w" "unat (u32cast (int h)) = h" using wh(3,4) by (simp_all add: u32cast_def unat_of_nat)
    have len: "length outp = h * w * 4"
      using that(1,4) by (auto simp: gif_frame_def gif_pcount_def wh nat_mult_distrib ac_simps)
    from ensures_to_components [of 4 req outp "u32cast (int h)" "u32cast (int w)"] assms(4) len wh(4) show ?thesis
      unfolding wh u by (auto elim!: ensures_mono simp: gif_result_ok_def channels_of_def u)
  qed
  have next_frame: "wp (stbi__gif_load_next fuel None) (\<lambda>_ g. gif_frame g \<and> gif_w g < 65536 \<and> gif_h g < 65536) (\<lambda>_. True) (gif_zero s)"
    unfolding stbi__gif_load_next_def
    by (rule wp_sbindI, rule wp_mono [OF wp_gif_begin_frame [OF assms(1,3)]], rule wp_mono [OF wp_gif_blocks])
      (use assms(2) in auto)
  have "wp (gif_do_load fuel req) (\<lambda>r _. gif_result_ok req r) (\<lambda>_. True) (gif_zero s)"
    unfolding gif_do_load_def
  proof (rule wp_sbindI, rule wp_mono [OF next_frame])
    fix u g assume g: "gif_frame g \<and> gif_w g < 65536 \<and> gif_h g < 65536"
    then obtain outp where outp: "gif_out g = Some outp" by (auto simp: gif_frame_def)
    show "wp (if \<not> u then sfail Silent else sbind (sget id) (\<lambda>g. case gif_out g of None \<Rightarrow> sfail Undefined
       | Some outp \<Rightarrow> sbind (slift (?out g outp)) (\<lambda>outp.
           sret \<lparr>ld_data = Pixels8 outp, ld_x = nat (gif_w g), ld_y = nat (gif_h g), ld_comp = 4\<rparr>))) (\<lambda>r _. gif_result_ok req r) (\<lambda>_. True) g"
      by (intro wp_ifI wp_sbindI wp_basicI, simp_all only: id_apply outp option.case, simp, intro wp_sbindI wp_slift wp_basicI)
        (use conv [OF _ _ _ outp] g in \<open>simp_all add: wp_basic\<close>)
  qed simp
  then show ?thesis
    unfolding stbi__gif_load_def gif_run_def wp_def by (simp split: prod.splits sum.splits)
qed

end

section \<open>Properties\<close>

lemma gif_extent_eq:
  "gif_extent s =
     (let t = after_byte (after_byte (after_byte (after_byte (after_byte (after_byte s)))))
      in (fst (stbi__get16le t), fst (stbi__get16le (snd (stbi__get16le t)))))"
  by (simp add: gif_extent_def numeral_eq_Suc)

text \<open>C8. The GIF decoder is safe on memory: on every block of bytes whose header announces a size with room for the
  row position of an interlaced image (\<open>gif_room\<close>, \<open>4wh + 28w < 2\<^sup>3\<^sup>1\<close>), \<open>stbi__gif_load\<close> returns within 2304
  rounds of a loop for each byte; the chains of the LZW table end, no code leaves the table, no pixel leaves the image, and an image that
  it returns has exactly width times height times components bytes.\<close>

theorem gif_load_safe:
  assumes "2304 * length data < fuel" and "req_comp \<in> {0..4}"
    and "case gif_extent (stbi__start_mem s data) of (w, h) \<Rightarrow> gif_room w h"
  shows "ensures (fst (stbi__gif_load fuel req_comp (stbi__start_mem s data))) (gif_result_ok req_comp)"
  by (rule wp_ensures, rule mem.wp_gif_load) (use assms in simp_all)

theorem gif_load_safe_witness:
  "ensures (fst (stbi__gif_load 40000 3 (stbi__start_mem (undefined :: unit stbi__context)
     [71, 73, 70, 56, 57, 97, 2, 0, 1, 0, 0, 0, 0, 0x2C]))) (gif_result_ok 3)"
  by (rule gif_load_safe)
    (simp_all add: gif_extent_eq after_byte_def stbi__get16le_def stbi__get8_def stbi__start_mem_def gif_room_def INT_MAX_def)

text \<open>C9. The same on a file that is read through the callbacks of the C library, also on one that ends early.\<close>

theorem gif_load_file_safe:
  assumes "file_ok f" and "buffer_start \<noteq> []" and "2304 * length (file_rest f) < fuel" and "req_comp \<in> {0..4}"
    and "case gif_extent (stbi__start_file s f buffer_start) of (w, h) \<Rightarrow> gif_room w h"
  shows "ensures (fst (stbi__gif_load fuel req_comp (stbi__start_file s f buffer_start))) (gif_result_ok req_comp)"
  using assms stdio.start_source [OF assms(1,2), of s]
  by (intro wp_ensures [OF stdio.src.wp_gif_load]) (simp_all add: stbi__start_file_def)

theorem gif_load_file_safe_witness:
  "ensures (fst (stbi__gif_load 40000 3 (stbi__start_file undefined
     \<lparr>fbytes = [71, 73, 70, 56, 57, 97, 2, 0, 1, 0, 0, 0, 0, 0x2C], fpos = 0, feof = False, ferror = False\<rparr> (replicate 20 0)))) (gif_result_ok 3)"
  by (rule gif_load_file_safe)
    (simp_all add: file_ok_def file_rest_def gif_extent_eq after_byte_def stbi__get16le_def stbi__get8_def gif_room_def INT_MAX_def
      stbi__start_file_def stbi__start_callbacks_def stbi__refill_buffer_def stbi__stdio_callbacks_def stbi__stdio_read_def
      fread_def min_def Let_def)

text \<open>The room is needed: in an interlaced image of 32768 times 16383 pixels, a size that the decoder
  accepts, the position of the row after the last one of the first pass does not fit an \<open>int\<close>.\<close>

lemma gif_interlace_overflow:
  assumes "gif_w g = 32768" and "gif_h g = 16383"
  shows "stbi__mad3sizes_valid 4 (gif_w g) (gif_h g) 0 \<and>
    gif_advance ((gif_interlace 0x40 (gif_geometry 0 0 32768 16383 g))\<lparr>cur_x := 4 * 32767, cur_y := 8 * 2047 * (4 * 32768)\<rparr>) = Inl Undefined"
  using assms by (simp add: mad3sizes_valid_iff INT_MAX_def gif_advance_def gif_interlace_def gif_geometry_def Let_def)

end
