(* ===== verification/Stbi_Jpeg_Facts.thy ===== *)
theory Stbi_Jpeg_Facts
  imports Stbi_Jpeg_Output
begin

text \<open>
  The arithmetic of the JPEG decoder against its specification: the zig-zag order, the receive and extend
  procedures, the shortcut of the inverse transform and the multiplication of samples.
\<close>

section \<open>Zig-zag order\<close>

text \<open>The cells of the anti-diagonal \<open>d\<close> of an 8 by 8 block, upwards when \<open>d\<close> is even and downwards otherwise.\<close>

definition diagonal :: "nat \<Rightarrow> (nat \<times> nat) list" where
  "diagonal d =
     (let cells = filter (\<lambda>(r, c). r < 8 \<and> c < 8) (map (\<lambda>r. (r, d - r)) [0..<d + 1])
      in if even d then rev cells else cells)"

definition zigzag :: "nat list" where
  "zigzag = map (\<lambda>(r, c). 8 * r + c) (concat (map diagonal [0..<15]))"

section \<open>Receive and extend\<close>

text \<open>The procedure EXTEND of the JPEG standard.\<close>

definition extend :: "int \<Rightarrow> nat \<Rightarrow> int" where
  "extend v n = (if v < 2 ^ (n - 1) then v - 2 ^ n + 1 else v)"

lemma bmask_mask: "n \<le> 16 \<Longrightarrow> stbi__bmask ! n = mask n"
proof -
  assume "n \<le> 16"
  then have "n \<in> set [0..<17]" by simp
  then show ?thesis by (auto simp: upt_rec stbi__bmask_def mask_eq_exp_minus_1)
qed

lemma lrot_parts:
  assumes "1 \<le> n" and "n \<le> 16"
  shows "stbi_lrot x n AND NOT (mask n) = push_bit n x" and "stbi_lrot x n AND mask n = drop_bit (32 - n) x"
proof -
  have "n \<in> set [1..<17]" using assms by simp
  then have sh: "nat (- int n AND 31) = 32 - n"
    by (auto simp: upt_rec)
  show "stbi_lrot x n AND NOT (mask n) = push_bit n x"
    unfolding stbi_lrot_def sh by (rule bit_word_eqI) (use assms in \<open>auto simp: bit_simps dest: bit_imp_le_length\<close>)
  show "stbi_lrot x n AND mask n = drop_bit (32 - n) x"
    unfolding stbi_lrot_def sh by (rule bit_word_eqI) (use assms in \<open>auto simp: bit_simps dest: bit_imp_le_length\<close>)
qed

lemma jbias_value: "1 \<le> n \<Longrightarrow> n \<le> 15 \<Longrightarrow> arr_get stbi__jbias (int n) = Inr (1 - 2 ^ n)"
proof -
  assume "1 \<le> n" "n \<le> 15"
  then have "n \<in> set [1..<16]" by simp
  then show ?thesis by (auto simp: upt_rec stbi__jbias_def arr_get_def)
qed

lemma div_less_int: "0 < d \<Longrightarrow> V div d < m \<longleftrightarrow> V < m * d" for V d m :: int
proof
  assume d: "0 < d" and lt: "V div d < m"
  then have "(V div d + 1) * d \<le> m * d" by (intro mult_right_mono) simp_all
  then have "V div d * d + d \<le> m * d" by (simp add: distrib_right)
  then show "V < m * d" using div_mult_mod_eq [of V d] pos_mod_bound [OF d, of V] by linarith
next
  assume d: "0 < d" and lt: "V < m * d"
  show "V div d < m"
  proof (rule ccontr)
    assume "\<not> V div d < m"
    then have "m * d \<le> V div d * d" using d by (intro mult_right_mono) simp_all
    with lt show False using div_mult_mod_eq [of V d] pos_mod_sign [OF d, of V] by linarith
  qed
qed

lemma top_bits:
  fixes x :: uint32
  assumes "1 \<le> n" and "n \<le> 15"
  shows "uint (drop_bit (32 - n) x :: uint32) < 2 ^ n"
    and "uint (drop_bit 31 x) = (if uint (drop_bit (32 - n) x) < 2 ^ (n - 1) then 0 else 1)"
proof -
  define V where "V = uint x"
  have V: "0 \<le> V" "V < 2 ^ 32" using uint_bounds32 [of x] by (simp_all add: V_def)
  have db: "uint (drop_bit k x) = V div 2 ^ k" for k
    using V by (simp add: unsigned_drop_bit_eq drop_bit_int_def take_bit_eq_mod flip: V_def)
  have "(2 :: int) ^ 32 = 2 ^ (32 - n) * 2 ^ n" "(2 :: int) ^ 31 = 2 ^ (32 - n) * 2 ^ (n - 1)"
    using assms by (simp_all flip: power_add)
  moreover have "V div 2 ^ (32 - n) < m \<longleftrightarrow> V < m * 2 ^ (32 - n)" for m
    by (rule div_less_int) simp
  ultimately have lt: "V div 2 ^ (32 - n) < 2 ^ n" and half: "V div 2 ^ (32 - n) < 2 ^ (n - 1) \<longleftrightarrow> V < 2 ^ 31"
    using V(2) by (simp_all add: ac_simps)
  show "uint (drop_bit (32 - n) x) < 2 ^ n" unfolding db by (rule lt)
  show "uint (drop_bit 31 x) = (if uint (drop_bit (32 - n) x) < 2 ^ (n - 1) then 0 else 1)"
    unfolding db half using V by (auto intro: int_div_pos_eq [where r = "V - 2 ^ 31"])
qed

lemma blinn_arith:
  assumes "0 \<le> P" and "P \<le> 65025"
  shows "(P + 128 + (P + 128) div 256) div 256 = (P + 127) div (255 :: int)"
proof -
  define q r where "q = (P + 127) div 255" and "r = (P + 127) mod 255"
  have P: "P + 127 = 255 * q + r" and r: "0 \<le> r" "r < 255" by (simp_all add: q_def r_def)
  have q: "0 \<le> q" "q \<le> 255" using assms zdiv_mono1 [of "P + 127" 65152 255] by (simp_all add: q_def pos_imp_zdiv_nonneg_iff)
  show ?thesis
  proof (cases "q \<le> r + 1")
    case True
    then have d: "(P + 128) div 256 = q" using P r q by (intro int_div_pos_eq [where r = "r + 1 - q"]) auto
    have "(P + 128 + q) div 256 = q" using P r by (intro int_div_pos_eq [where r = "r + 1"]) auto
    then show ?thesis unfolding d by (simp only: q_def)
  next
    case False
    then have d: "(P + 128) div 256 = q - 1" using P r q by (intro int_div_pos_eq [where r = "r + 257 - q"]) auto
    have "(P + 128 + (q - 1)) div 256 = q" using P r by (intro int_div_pos_eq [where r = r]) auto
    then show ?thesis unfolding d by (simp only: q_def)
  qed
qed

section \<open>Properties\<close>

text \<open>The table \<open>stbi__jpeg_dezigzag\<close> is the zig-zag order of the JPEG standard: its first 64 entries walk the anti-diagonals
  of the block, every coefficient once, and the 15 entries after them, which a corrupt run can reach, point to the last coefficient.\<close>

theorem dezigzag_is_zigzag:
  "stbi__jpeg_dezigzag = zigzag @ replicate 15 63 \<and> distinct zigzag \<and> set zigzag = {0..<64}"
proof -
  have "sort zigzag = [0..<64]" by code_simp
  then have "distinct zigzag" "set zigzag = set [0..<64]" by (metis distinct_sort distinct_upt, metis set_sort)
  moreover have "stbi__jpeg_dezigzag = zigzag @ replicate 15 63" by code_simp
  ultimately show ?thesis by simp
qed

text \<open>C20. \<open>stbi__extend_receive\<close> is RECEIVE followed by EXTEND of the JPEG standard: when the buffer holds \<open>n\<close> bits, it removes the
  first \<open>n\<close> bits, by a rotation and two masks, and returns the signed value they stand for.\<close>

theorem extend_receive_extends:
  assumes "1 \<le> n" and "n \<le> 15" and "int n \<le> code_bits j"
  shows "stbi__extend_receive n j =
    (Inr (extend (uint (drop_bit (32 - n) (jcode_buffer j))) n),
     j\<lparr>jcode_buffer := push_bit n (jcode_buffer j), code_bits := code_bits j - int n\<rparr>)"
proof -
  let ?x = "jcode_buffer j"
  define v where "v = uint (drop_bit (32 - n) ?x)"
  have v: "0 \<le> v" "v < 2 ^ n" using top_bits(1) [OF assms(1,2)] by (simp_all add: v_def)
  have "(2 :: int) ^ n \<le> 2 ^ 15" using assms(2) by (intro power_increasing) simp_all
  then have small: "v < 32768" "1 - 2 ^ n \<ge> (-32767 :: int)" using v by simp_all
  have mask: "arr_get stbi__bmask (int n) = Inr (mask n)" using assms(2) bmask_mask [of n] by (simp add: stbi__bmask_def)
  have take: "take_bits n j = (Inr (drop_bit (32 - n) ?x), j\<lparr>jcode_buffer := push_bit n ?x, code_bits := code_bits j - int n\<rparr>)"
    using assms(1,2) by (simp add: take_bits_def sbind_def slift_def sget_def smodify_def sret_def Let_def mask lrot_parts)
  have val: "int_of_u32 (drop_bit (32 - n) ?x + word_of_int b) = v + b" if "-32767 \<le> b" "b \<le> 0" for b
  proof -
    have "drop_bit (32 - n) ?x + word_of_int b = word_of_int (v + b)" by (simp add: v_def)
    moreover have "sint (word_of_int (v + b) :: uint32) = v + b"
      using v(1) small(1) that by (simp only: sint_sbintrunc') (simp add: signed_take_bit_int_eq_self)
    ultimately show ?thesis by (simp only: int_of_u32_def)
  qed
  have "need_bits (int n) j = (Inr (), j)"
    using assms(3) by (simp add: need_bits_def sbind_def sget_def swhen_def sret_def)
  then show ?thesis
    using assms(3) small by (simp add: stbi__extend_receive_def sbind_def sget_def slift_def sret_def Let_def take jbias_value [OF assms(1,2)]
      top_bits(2) [OF assms(1,2)] val extend_def flip: v_def)
qed

theorem extend_receive_extends_witness:
  "stbi__extend_receive 3 ((jpeg_zero 0 (undefined :: unit stbi__context))\<lparr>jcode_buffer := 0x40000000, code_bits := 8\<rparr>) =
    (Inr (extend (uint (drop_bit (32 - 3) (0x40000000 :: uint32))) 3),
     (jpeg_zero 0 (undefined :: unit stbi__context))\<lparr>jcode_buffer := push_bit 3 0x40000000, code_bits := 8 - int 3\<rparr>)"
  using extend_receive_extends [of 3 "(jpeg_zero 0 (undefined :: unit stbi__context))\<lparr>jcode_buffer := 0x40000000, code_bits := 8\<rparr>"] by simp

text \<open>C21. The shortcut of the column pass, for columns that are zero but for the first value, computes what the general transform
  computes, so \<open>idct_column\<close> is one transform.\<close>

theorem idct_shortcut_exact:
  assumes "length d = 8"
  shows "idct_column d = idct_1d 512 10 d"
proof (cases "\<forall>v \<in> set (tl d). v = 0")
  case True
  obtain x where d: "d = x # replicate 7 0"
    using assms True by (cases d) (auto intro: replicate_eqI)
  have "(x * 4096 + 512) div 1024 = x * 4" by (intro int_div_pos_eq [where r = 512]) auto
  then show ?thesis
    using True unfolding d
    by (simp add: idct_column_def idct_1d_def idct_even_def idct_odd_def stbi__fsh_def Let_def drop_bit_int_def numeral_eq_Suc)
qed (auto simp: idct_column_def)

theorem idct_shortcut_exact_witness: "idct_column [5, 0, 0, 0, 0, 0, 0, 0] = idct_1d 512 10 [5, 0, 0, 0, 0, 0, 0, 0]"
  by (rule idct_shortcut_exact) simp

text \<open>\<open>stbi__blinn_8x8\<close> multiplies two samples as fractions of 255, rounded to the nearest, for all samples.\<close>

theorem blinn_8x8_rounds: "uint (stbi__blinn_8x8 x y) = (uint x * uint y + 127) div 255"
proof -
  have b: "0 \<le> uint x" "uint x \<le> 255" "0 \<le> uint y" "uint y \<le> 255" using uint_bounds8 [of x] uint_bounds8 [of y] by simp_all
  have le: "uint x * uint y \<le> 255 * 255" using b by (intro mult_mono) simp_all
  have "uint (stbi__blinn_8x8 x y) = (uint x * uint y + 127) div 255 mod 256"
    using blinn_arith [of "uint x * uint y"] le b
    by (simp add: stbi__blinn_8x8_def Let_def uint_BYTECAST drop_bit_int_def)
  moreover have "(uint x * uint y + 127) div 255 < 256" "0 \<le> (uint x * uint y + 127) div 255" using le b by (simp_all add: pos_imp_zdiv_nonneg_iff)
  ultimately show ?thesis by simp
qed

end
