(* ===== verification/Stbi_Tga_Safe.thy ===== *)
theory Stbi_Tga_Safe
  imports Stbi_Load_Png
begin

text \<open>
  The safety of the TGA decoder on memory and on files. The interface \<open>stored_source\<close> adds to \<open>byte_source\<close>
  that a read which fails stores no more bytes than were asked for; the decoder reads rows of raw pixels without looking whether they are there.
\<close>

section \<open>Sources that store what was asked for\<close>

locale stored_source = byte_source ok left
  for ok :: "'u stbi__context \<Rightarrow> bool" and left :: "'u stbi__context \<Rightarrow> nat" +
  assumes stored_bytes: "ok s \<Longrightarrow> length (fst (getn_stored s k)) \<le> k"
begin

lemma wp_getn_stored:
  assumes "ok s" and "\<And>bs t. after s t \<Longrightarrow> length bs \<le> k \<Longrightarrow> Q bs t"
  shows "wp (stot (\<lambda>s. getn_stored s k)) Q E s"
proof -
  have "snd (getn_stored s k) = snd (stbi__getn s k)"
    by (simp add: getn_stored_def Let_def split: prod.split option.split)
  moreover have "after s (snd (stbi__getn s k))"
    using wp_getn [OF assms(1), of k "\<lambda>_. after s"] by (simp add: wp_stot split: prod.splits)
  ultimately show ?thesis
    using stored_bytes [OF assms(1), of k] by (cases "getn_stored s k") (simp add: wp_stot assms(2))
qed

end

interpretation mem: stored_source mem_ctx "\<lambda>s. length (stream s)"
proof unfold_locales
  fix s :: "'a stbi__context" and k assume s: "mem_ctx s"
  show "length (fst (getn_stored s k)) \<le> k"
    using mem.getn_bytes [OF s, of k] s by (auto simp: getn_stored_def mem_ctx_def split: prod.splits option.splits)
qed

sublocale io_source \<subseteq> src: stored_source cb_ctx "\<lambda>s. length (cb_stream s)"
proof unfold_locales
  fix s k assume s: "cb_ctx s"
  have ok: "ok (io_user_data s)" and io: "io s = Some cb" and le: "img_buffer s \<le> img_buffer_end s" "img_buffer_end s \<le> length (buffer s)"
    using s by (auto simp: cb_ctx_def)
  show "length (fst (getn_stored s k)) \<le> k"
  proof (cases "stbi__getn s k")
    case (Pair r t)
    show ?thesis
    proof (cases r)
      case None
      then have lt: "int (img_buffer_end s) - int (img_buffer s) < int k"
        using Pair io le by (auto simp: stbi__getn_def getn_buffered_def Let_def split: prod.splits if_splits)
      then show ?thesis
        using Pair None io le read_bytes [OF ok, of "int k - (int (img_buffer_end s) - int (img_buffer s))"]
        by (simp add: getn_stored_def Let_def)
    next
      case (Some bs)
      then show ?thesis using Pair src.getn_bytes [OF s, of k bs] by (simp add: getn_stored_def)
    qed
  qed
qed

section \<open>Loops over the pixels\<close>

lemma ensures_swap_elems:
  assumes "i + n \<le> length xs" and "j + n \<le> length xs"
  shows "ensures (swap_elems i j n xs) (\<lambda>ys. length ys = length xs)"
  unfolding swap_elems_def
  by (rule ensures_efold) (use assms in \<open>auto simp: arr_get_def arr_set_def nat_add_distrib\<close>)

lemma row_fits: "i < n \<Longrightarrow> i * c + c \<le> n * (c :: nat)"
  using mult_le_mono1 [of "Suc i" n c] by simp

definition tga_ok :: "tga_header \<Rightarrow> bool" where
  "tga_ok h \<longleftrightarrow> 0 \<le> tga_width h \<and> tga_width h < 65536 \<and> 0 \<le> tga_height h \<and> tga_height h < 65536 \<and>
     0 < tga_comp h \<and> tga_comp h \<le> 4 \<and> (tga_rgb16 h \<longrightarrow> tga_comp h = 3) \<and> 0 \<le> tga_palette_len h \<and> tga_palette_len h < 65536"

definition tga_size :: "tga_header \<Rightarrow> nat" where
  "tga_size h = nat (tga_height h) * (nat (tga_width h) * tga_comp h)"

text \<open>The image that the decoder returns; a TGA file may announce a width or a height of zero.\<close>

definition tga_result_ok :: "int \<Rightarrow> loaded \<Rightarrow> bool" where
  "tga_result_ok req r \<longleftrightarrow> (\<exists>d. ld_data r = Pixels8 d \<and> length d = ld_x r * ld_y r * nat (channels_of req r)) \<and> ld_comp r \<in> {1..4}"

lemma ensures_tga_flip:
  assumes "length pix = tga_size h"
  shows "ensures (tga_flip h pix) (\<lambda>p. length p = tga_size h)"
  unfolding tga_flip_def Let_def
proof (rule ensures_efold)
  fix j and p :: "stbi_uc list" assume j: "j \<in> set [0..<(nat (tga_height h) + 1) div 2]" and p: "length p = tga_size h"
  then have "j < nat (tga_height h)" "nat (tga_height h) - 1 - j < nat (tga_height h)" by auto
  from this [THEN row_fits, of "nat (tga_width h) * tga_comp h"]
  show "ensures (swap_elems (j * (nat (tga_width h) * tga_comp h)) ((nat (tga_height h) - 1 - j) * (nat (tga_width h) * tga_comp h))
      (nat (tga_width h) * tga_comp h) p) (\<lambda>p. length p = tga_size h)"
    using ensures_swap_elems [of _ "nat (tga_width h) * tga_comp h" p] p by (simp add: tga_size_def)
qed (rule assms)

lemma ensures_tga_swap_rgb:
  assumes "length pix = tga_size h" and "3 \<le> tga_comp h"
  shows "ensures (tga_swap_rgb h pix) (\<lambda>p. length p = tga_size h)"
  unfolding tga_swap_rgb_def
proof (rule ensures_efold)
  fix i and p :: "stbi_uc list" assume i: "i \<in> set [0..<nat (tga_width h) * nat (tga_height h)]" and p: "length p = tga_size h"
  then have "i < nat (tga_width h) * nat (tga_height h)" by simp
  from row_fits [OF this, of "tga_comp h"] assms(2) p
  show "ensures (swap_elems (i * tga_comp h) (i * tga_comp h + 2) 1 p) (\<lambda>p. length p = tga_size h)"
    using ensures_swap_elems [of "i * tga_comp h" 1 p "i * tga_comp h + 2"] by (simp add: tga_size_def ac_simps)
qed (rule assms(1))

context stored_source
begin

lemma wp_rd8i: "ok s \<Longrightarrow> (\<And>v t. after s t \<Longrightarrow> 0 \<le> v \<Longrightarrow> v < 256 \<Longrightarrow> Q v t) \<Longrightarrow> wp rd8i Q E s"
  unfolding rd8i_def rd8_def by (intro wp_intros wp_get8) (auto simp: uint_bounds8)

lemma wp_rd16le: "ok s \<Longrightarrow> (\<And>v t. after s t \<Longrightarrow> 0 \<le> v \<Longrightarrow> v < 65536 \<Longrightarrow> Q v t) \<Longrightarrow> wp rd16le Q E s"
  unfolding rd16le_def by (rule wp_get16)

lemma get_comp_ok:
  "stbi__tga_get_comp b g = (c, r) \<Longrightarrow> c \<noteq> 0 \<Longrightarrow> 0 < c \<and> c \<le> 4 \<and> (r \<longrightarrow> c = 3)"
  by (auto simp: stbi__tga_get_comp_def split: if_splits)

lemma wp_tga_read_header:
  assumes "ok s"
  shows "wp tga_read_header (\<lambda>h t. ok t \<and> tga_ok h) (\<lambda>_. True) s"
proof -
  have byte: "wp (sbind rd8i f) Q E t" if "after s t" "\<And>v u. after s u \<Longrightarrow> wp (f v) Q E u" for f t E and Q :: "tga_header \<Rightarrow> _"
    by (rule wp_sbindI, rule wp_rd8i) (use that in \<open>auto dest: afterD intro: after_trans\<close>)
  have half: "wp (sbind rd16le f) Q E t"
    if "after s t" "\<And>v u. after s u \<Longrightarrow> 0 \<le> v \<Longrightarrow> v < 65536 \<Longrightarrow> wp (f v) Q E u" for f t E and Q :: "tga_header \<Rightarrow> _"
    by (rule wp_sbindI, rule wp_rd16le) (use that in \<open>auto dest: afterD intro: after_trans\<close>)
  show ?thesis
    unfolding tga_read_header_def
    apply (rule byte, simp add: assms)
    apply ((rule byte half, assumption)+)
    apply (auto simp: Let_def wp_simps tga_ok_def dest: afterD get_comp_ok split: prod.splits)
    done
qed

lemma wp_read_rgb16:
  assumes "ok s"
  shows "wp stbi__tga_read_rgb16 (\<lambda>px t. ok t \<and> length px = 3) E s"
  unfolding stbi__tga_read_rgb16_def by (intro wp_intros wp_rd16le) (use assms in \<open>auto dest: afterD\<close>)

lemma wp_tga_palette:
  assumes "ok s" and "tga_ok h"
  shows "wp (tga_palette h) (\<lambda>pal t. ok t \<and> 0 < tga_palette_len h \<and> length pal = nat (tga_palette_len h) * tga_comp h) (\<lambda>_. True) s"
proof -
  let ?n = "nat (tga_palette_len h)"
  have size: "nat (tga_palette_len h * int (tga_comp h)) = ?n * tga_comp h" using assms(2) by (simp add: tga_ok_def nat_mult_distrib)
  have fill: "wp (sfold (\<lambda>i pal. sbind stbi__tga_read_rgb16 (\<lambda>px. slift (store_from pal (int (i * tga_comp h)) px)))
      [0..<?n] (replicate (?n * tga_comp h) 0)) (\<lambda>pal t. ok t \<and> length pal = ?n * tga_comp h) (\<lambda>_. True) t"
    if "tga_comp h = 3" "ok t" for t
  proof (rule wp_sfold)
    fix i u and pal :: "stbi_uc list" assume i: "i \<in> set [0..<?n]" and u: "ok u \<and> length pal = ?n * tga_comp h"
    from row_fits [of i ?n "tga_comp h"] i
    have "ensures (store_from pal (int (i * tga_comp h)) px) (\<lambda>p. length p = length pal)" if "length px = 3" for px
      using ensures_store_from [of "int (i * tga_comp h)" px pal] that u \<open>tga_comp h = 3\<close> by (simp flip: of_nat_add of_nat_mult)
    then show "wp (sbind stbi__tga_read_rgb16 (\<lambda>px. slift (store_from pal (int (i * tga_comp h)) px)))
        (\<lambda>pal t. ok t \<and> length pal = ?n * tga_comp h) (\<lambda>_. True) u"
      by (intro wp_sbindI wp_mono [OF wp_read_rgb16] wp_slift) (use u in \<open>auto elim: ensures_mono\<close>)
  qed (use that in simp)
  have get: "wp (stot (\<lambda>s. stbi__getn s k)) (\<lambda>x. wp (case x of None \<Rightarrow> sfail (Failure ''bad palette'') | Some x \<Rightarrow> sret x)
      (\<lambda>pal t. ok t \<and> length pal = k) (\<lambda>_. True)) (\<lambda>_. True) t" if "ok t" for t k
    by (rule wp_getn) (use that in \<open>auto simp: wp_simps dest: afterD split: option.split\<close>)
  have "wp (tga_palette h) (\<lambda>pal t. ok t \<and> length pal = ?n * tga_comp h) (\<lambda>_. True) s"
    using assms fill [OF _ skip_ok [OF assms(1)]] get [OF skip_ok [OF assms(1)]]
    by (auto simp: tga_palette_def stbi__malloc_mad2_def skip_bytes_def wp_simps size tga_ok_def)
  moreover have "wp (tga_palette h) (\<lambda>_ _. tga_palette_len h \<noteq> 0) (\<lambda>_. True) s" if "wp (tga_palette h) (\<lambda>_ _. True) (\<lambda>_. True) s"
    using that by (auto simp: tga_palette_def wp_simps)
  ultimately show ?thesis
    using assms(2) by (simp add: wp_def tga_ok_def split: prod.splits sum.splits)
qed

lemma wp_tga_read_pixel:
  assumes "ok s" and "tga_ok h" and "tga_indexed h \<Longrightarrow> 0 < tga_palette_len h \<and> length pal = nat (tga_palette_len h) * tga_comp h"
  shows "wp (tga_read_pixel h pal) (\<lambda>px t. ok t \<and> length px = tga_comp h) E s"
proof -
  have index: "wp (sfold (\<lambda>j px. slift (ebind (arr_get pal ((if idx \<ge> tga_palette_len h then 0 else idx) * int (tga_comp h) + int j))
      (\<lambda>b. Inr (px @ [b])))) [0..<tga_comp h] []) (\<lambda>px t. ok t \<and> length px = tga_comp h) E t"
    if "tga_indexed h" "0 \<le> idx" "ok t" for idx t
  proof -
    define i where "i = nat (if idx \<ge> tga_palette_len h then 0 else idx)"
    have i: "(if idx \<ge> tga_palette_len h then 0 else idx) = int i" and lt: "i < nat (tga_palette_len h)"
      using that assms(3) by (auto simp: i_def)
    have get: "arr_get pal (int i * int (tga_comp h) + int j) = Inr (pal ! (i * tga_comp h + j))" if "j < tga_comp h" for j
      using row_fits [OF lt, of "tga_comp h"] assms(3) that \<open>tga_indexed h\<close>
      by (simp add: arr_get_def nat_add_distrib nat_mult_distrib flip: of_nat_mult of_nat_add)
    show ?thesis
      unfolding i by (rule wp_sfold_upt [where P = "\<lambda>j px t. ok t \<and> length px = j"]) (use that(3) get in \<open>auto simp: wp_simps\<close>)
  qed
  have raw: "wp (sfold (\<lambda>j px. sbind rd8 (\<lambda>b. sret (px @ [b]))) [0..<tga_comp h] []) (\<lambda>px t. ok t \<and> length px = tga_comp h) E s"
    by (rule wp_sfold_upt [where P = "\<lambda>j px t. ok t \<and> length px = j"])
      (use assms(1) in \<open>auto simp: rd8_def intro!: wp_sbindI wp_get8 wp_basicI dest: afterD\<close>)
  show ?thesis
  proof (cases "tga_indexed h")
    case True
    have "wp (if tga_bits_per_pixel h = 8 then rd8i else rd16le) (\<lambda>idx t. 0 \<le> idx \<and> ok t) E s"
      by (intro wp_ifI wp_rd8i wp_rd16le) (use assms(1) in \<open>auto dest: afterD\<close>)
    then show ?thesis
      unfolding tga_read_pixel_def Let_def using True by (auto intro!: wp_sbindI elim!: wp_mono intro: index)
  next
    case False
    then show ?thesis
      unfolding tga_read_pixel_def using assms(2) raw wp_mono [OF wp_read_rgb16 [OF assms(1)]] by (auto simp: tga_ok_def)
  qed
qed

lemma wp_tga_pixel_step:
  assumes "ok s" and "tga_ok h" and "tga_indexed h \<Longrightarrow> 0 < tga_palette_len h \<and> length pal = nat (tga_palette_len h) * tga_comp h"
    and "length (raw_data st) = tga_comp h" and "length pix = tga_size h" and "i < nat (tga_width h) * nat (tga_height h)"
  shows "wp (tga_pixel_step h pal i (st, pix)) (\<lambda>(st, pix) t. ok t \<and> length (raw_data st) = tga_comp h \<and> length pix = tga_size h) (\<lambda>_. True) s"
proof -
  have packet: "wp (tga_next_packet h st) (\<lambda>st t. ok t \<and> length (raw_data st) = tga_comp h) (\<lambda>_. True) s"
    unfolding tga_next_packet_def by (intro wp_ifI wp_sbindI wp_rd8i wp_basicI) (use assms(1,4) in \<open>auto intro!: wp_basicI dest: afterD\<close>)
  have pixel: "wp (if read_next_pixel st
         then sbind (tga_read_pixel h pal) (\<lambda>px. sret (st\<lparr>raw_data := px, read_next_pixel := False\<rparr>))
         else sret st) (\<lambda>st t. ok t \<and> length (raw_data st) = tga_comp h) (\<lambda>_. True) t"
    if "ok t" "length (raw_data st) = tga_comp h" for st t
    by (intro wp_ifI wp_sbindI wp_basicI wp_mono [OF wp_tga_read_pixel]) (use assms(2,3) that in \<open>auto simp: wp_basic\<close>)
  have "ensures (store_from pix (int (i * tga_comp h)) px) (\<lambda>p. length p = length pix)" if "length px = tga_comp h" for px
    using row_fits [OF assms(6), of "tga_comp h"] assms(5) that
    by (intro ensures_store_from) (simp_all add: tga_size_def ac_simps flip: of_nat_add of_nat_mult)
  then show ?thesis
    unfolding tga_pixel_step_def prod.case
    by (intro wp_sbindI wp_mono [OF packet] wp_mono [OF pixel] wp_slift)
      (use assms(5) in \<open>auto elim!: ensures_mono simp: wp_basic\<close>)
qed

lemma wp_tga_pixels:
  assumes "ok s" and "tga_ok h" and "length pix = tga_size h"
  shows "wp (tga_pixels h pix) (\<lambda>p t. length p = tga_size h) (\<lambda>_. True) s"
proof -
  let ?n = "nat (tga_width h) * tga_comp h"
  have row: "wp (tga_raw_row h i p) (\<lambda>p t. ok t \<and> length p = tga_size h) (\<lambda>_. True) t"
    if "ok t" "length p = tga_size h" "i < nat (tga_height h)" for i p t
  proof -
    define r where "r = (if tga_inverted h then nat (tga_height h) - i - 1 else i)"
    have "r < nat (tga_height h)" using that(3) by (auto simp: r_def)
    then have fits: "r * ?n + ?n \<le> tga_size h" unfolding tga_size_def by (rule row_fits)
    have "ensures (store_from p (int (r * ?n)) bs) (\<lambda>q. length q = tga_size h)" if "length bs \<le> ?n" for bs
      using ensures_store_from [of "int (r * ?n)" bs p] fits that \<open>length p = tga_size h\<close>
      by (simp flip: of_nat_add of_nat_mult)
    then show ?thesis
      unfolding tga_raw_row_def Let_def r_def [symmetric]
      by (intro wp_sbindI wp_getn_stored wp_slift) (use that(1) in \<open>auto dest: afterD elim!: ensures_mono\<close>)
  qed
  have rows: "wp (sfold (tga_raw_row h) [0..<nat (tga_height h)] pix) (\<lambda>p t. length p = tga_size h) (\<lambda>_. True) s"
    by (rule wp_mono [OF wp_sfold [where P = "\<lambda>p t. ok t \<and> length p = tga_size h"]]) (use assms row in auto)
  have pixels: "wp (sfold (tga_pixel_step h pal) [0..<nat (tga_width h) * nat (tga_height h)]
       (\<lparr>RLE_count = 0, RLE_repeating = False, read_next_pixel = True, raw_data = replicate (tga_comp h) 0\<rparr>, pix))
       (\<lambda>(st, p) t. ok t \<and> length (raw_data st) = tga_comp h \<and> length p = tga_size h) (\<lambda>_. True) t"
    if "ok t" "tga_indexed h \<Longrightarrow> 0 < tga_palette_len h \<and> length pal = nat (tga_palette_len h) * tga_comp h" for pal t
    by (rule wp_sfold) (use that assms(2,3) in \<open>auto intro!: wp_tga_pixel_step\<close>)
  have flip: "ensures (if tga_inverted h then tga_flip h p else Inr p) (\<lambda>p. length p = tga_size h)" if "length p = tga_size h" for p
    using that ensures_tga_flip by simp
  have palette: "wp (if tga_indexed h then tga_palette h else sret [])
      (\<lambda>pal t. ok t \<and> (tga_indexed h \<longrightarrow> 0 < tga_palette_len h \<and> length pal = nat (tga_palette_len h) * tga_comp h)) (\<lambda>_. True) s"
    using wp_mono [OF wp_tga_palette [OF assms(1,2)]] assms(1) by (auto simp: wp_basic)
  show ?thesis
    unfolding tga_pixels_def
    by (rule wp_ifI, rule rows, rule wp_sbindI, rule wp_mono [OF palette], rule wp_sbindI, rule wp_mono [OF pixels])
      (auto intro!: wp_slift flip)
qed

lemma wp_tga_load:
  assumes "ok s" and "req \<in> {0..4}"
  shows "wp (stbi__tga_load req) (\<lambda>r _. tga_result_ok req r) (\<lambda>_. True) s"
proof -
  have conv: "ensures (if req \<noteq> 0 \<and> req \<noteq> int (tga_comp h)
        then stbi__convert_format p (int (tga_comp h)) req (u32cast (tga_width h)) (u32cast (tga_height h)) else Inr p)
      (\<lambda>d. tga_result_ok req \<lparr>ld_data = Pixels8 d, ld_x = nat (tga_width h), ld_y = nat (tga_height h), ld_comp = int (tga_comp h)\<rparr>)"
    if "tga_ok h" "length p = tga_size h" for h p
  proof -
    define w k where "w = nat (tga_width h)" and "k = nat (tga_height h)"
    have wk: "tga_width h = int w" "tga_height h = int k" "w < 65536" "k < 65536"
      using that(1) by (auto simp: w_def k_def tga_ok_def)
    have u: "unat (u32cast (int w)) = w" "unat (u32cast (int k)) = k" using wk(3,4) by (simp_all add: u32cast_def unat_of_nat)
    from ensures_to_components [of "tga_comp h" req p "u32cast (int k)" "u32cast (int w)"] assms(2) that wk(4) show ?thesis
      unfolding wk u by (auto elim!: ensures_mono simp: tga_ok_def tga_size_def tga_result_ok_def channels_of_def wk u ac_simps)
  qed
  have swap: "ensures (if tga_comp h \<ge> 3 \<and> \<not> tga_rgb16 h then tga_swap_rgb h p else Inr p) (\<lambda>p. length p = tga_size h)"
    if "length p = tga_size h" for h p
    using that ensures_tga_swap_rgb by simp
  have size: "nat (tga_width h * tga_height h * int (tga_comp h)) = tga_size h" if "tga_ok h" for h
    using that by (simp add: tga_ok_def tga_size_def nat_mult_distrib ac_simps)
  show ?thesis
    unfolding stbi__tga_load_def
  proof (rule wp_sbindI, rule wp_mono [OF wp_tga_read_header [OF assms(1)]])
    fix h t assume ht: "ok t \<and> tga_ok h"
    have body: "wp (sbind (skip_bytes (tga_offset h)) (\<lambda>_. sbind (tga_pixels h (replicate (tga_size h) 0)) (\<lambda>pix.
         sbind (slift (if tga_comp h \<ge> 3 \<and> \<not> tga_rgb16 h then tga_swap_rgb h pix else Inr pix)) (\<lambda>pix.
         sbind (slift (if req \<noteq> 0 \<and> req \<noteq> int (tga_comp h)
             then stbi__convert_format pix (int (tga_comp h)) req (u32cast (tga_width h)) (u32cast (tga_height h)) else Inr pix)) (\<lambda>pix.
         sret \<lparr>ld_data = Pixels8 pix, ld_x = nat (tga_width h), ld_y = nat (tga_height h), ld_comp = int (tga_comp h)\<rparr>)))))
        (\<lambda>r _. tga_result_ok req r) (\<lambda>_. True) t"
      unfolding skip_bytes_def
    proof (rule wp_sbind_smodify, rule wp_sbindI, rule wp_mono [OF wp_tga_pixels])
      fix u and pix :: "stbi_uc list" assume "length pix = tga_size h"
      from swap [OF this] show "wp (sbind (slift (if tga_comp h \<ge> 3 \<and> \<not> tga_rgb16 h then tga_swap_rgb h pix else Inr pix)) (\<lambda>pix.
         sbind (slift (if req \<noteq> 0 \<and> req \<noteq> int (tga_comp h)
             then stbi__convert_format pix (int (tga_comp h)) req (u32cast (tga_width h)) (u32cast (tga_height h)) else Inr pix)) (\<lambda>pix.
         sret \<lparr>ld_data = Pixels8 pix, ld_x = nat (tga_width h), ld_y = nat (tga_height h), ld_comp = int (tga_comp h)\<rparr>)))
        (\<lambda>r _. tga_result_ok req r) (\<lambda>_. True) u"
        by (intro wp_sbindI wp_slift, elim ensures_mono, intro wp_sbindI wp_slift ensures_mono [OF conv])
          (use ht in \<open>simp_all add: wp_basic\<close>)
    qed (use ht in \<open>simp_all add: skip_ok\<close>)
    then show "wp (case stbi__malloc_mad3 (tga_width h) (tga_height h) (int (tga_comp h)) 0 of
       None \<Rightarrow> sfail (Failure ''too large'')
     | Some sz \<Rightarrow> sbind (skip_bytes (tga_offset h)) (\<lambda>_. sbind (tga_pixels h (replicate sz 0)) (\<lambda>pix.
         sbind (slift (if tga_comp h \<ge> 3 \<and> \<not> tga_rgb16 h then tga_swap_rgb h pix else Inr pix)) (\<lambda>pix.
         sbind (slift (if req \<noteq> 0 \<and> req \<noteq> int (tga_comp h)
             then stbi__convert_format pix (int (tga_comp h)) req (u32cast (tga_width h)) (u32cast (tga_height h)) else Inr pix)) (\<lambda>pix.
         sret \<lparr>ld_data = Pixels8 pix, ld_x = nat (tga_width h), ld_y = nat (tga_height h), ld_comp = int (tga_comp h)\<rparr>)))))
        (\<lambda>r _. tga_result_ok req r) (\<lambda>_. True) t"
      using ht by (simp add: stbi__malloc_mad3_def wp_basic size)
  qed
qed

end

section \<open>Properties\<close>

text \<open>C10. The TGA decoder is safe on memory: on every block of bytes \<open>stbi__tga_load\<close> returns; runs and raw packets may cross the end
  of a row and of the image, colour indices may exceed the palette, the data may end early, and still no access leaves the palette or the image. An image
  that it returns has exactly width times height times components bytes.\<close>

theorem tga_load_safe:
  assumes "req_comp \<in> {0..4}"
  shows "ensures (fst (stbi__tga_load req_comp (stbi__start_mem s data))) (tga_result_ok req_comp)"
  by (rule wp_ensures, rule mem.wp_tga_load) (use assms in simp_all)

theorem tga_load_safe_witness:
  "ensures (fst (stbi__tga_load 3 (stbi__start_mem (undefined :: unit stbi__context)
     [0, 1, 9, 0, 0, 1, 0, 24, 0, 0, 0, 0, 2, 0, 1, 0, 8, 0, 10, 20, 30, 255, 7]))) (tga_result_ok 3)"
  by (rule tga_load_safe) simp

text \<open>The same on a file that is read through the callbacks of the C library, also on one that ends early.\<close>

theorem tga_load_file_safe:
  assumes "file_ok f" and "buffer_start \<noteq> []" and "req_comp \<in> {0..4}"
  shows "ensures (fst (stbi__tga_load req_comp (stbi__start_file s f buffer_start))) (tga_result_ok req_comp)"
  using assms stdio.start_source [OF assms(1,2), of s]
  by (intro wp_ensures [OF stdio.src.wp_tga_load]) (simp_all add: stbi__start_file_def)

theorem tga_load_file_safe_witness:
  "ensures (fst (stbi__tga_load 4 (stbi__start_file undefined
     \<lparr>fbytes = [0, 0, 2, 0, 0, 0, 0, 0, 0, 0, 0, 0, 2, 0, 2, 0, 24, 0, 1, 2, 3], fpos = 0, feof = False, ferror = False\<rparr> (replicate 20 0))))
     (tga_result_ok 4)"
  by (rule tga_load_file_safe) (simp_all add: file_ok_def)

end
