(* ===== verification/Stbi_Bmp_Masks.thy ===== *)
theory Stbi_Bmp_Masks
  imports Stbi_Bmp
begin

text \<open>
  The colour masks of 16- and 32-bit bitmaps: from a mask the decoder computes the position and the width of a field with
  bit tricks, and widens the field to 8 bits with a multiplication and a shift.
\<close>

definition field_mask :: "nat \<Rightarrow> nat \<Rightarrow> uint32" where
  "field_mask p b = push_bit p (mask b)"

text \<open>The field repeated eight times, cut to its first 8 bits.\<close>

definition widen :: "nat \<Rightarrow> int \<Rightarrow> int" where
  "widen b x = x * ((2 ^ (8 * b) - 1) div (2 ^ b - 1)) div 2 ^ (8 * b - 8)"

lemma field_params_check:
  "list_all (\<lambda>b. list_all (\<lambda>p. bmp_shift (field_mask p b) = (int (p + b) - 8, int b)) [0..<33 - b]) [1..<9]"
  by (simp add: upt_rec field_mask_def mask_eq_exp_minus_1 bmp_shift_def stbi__high_bit_def stbi__bitcount_def word_le_def)

lemma bmp_shift_field:
  assumes "1 \<le> b" "b \<le> 8" "p + b \<le> 32"
  shows "bmp_shift (field_mask p b) = (int (p + b) - 8, int b)"
proof -
  have "b \<in> set [1..<9]" "p \<in> set [0..<33 - b]" using assms by auto
  with field_params_check show ?thesis unfolding list_all_iff by blast
qed

lemma widen_check:
  "list_all (\<lambda>b. list_all (\<lambda>x. drop_bit (shift_table ! b) (x * (mul_table ! b)) = widen b x) (map int [0..<2 ^ b])) [1..<9]"
  by code_simp

lemma widen_tables:
  assumes "1 \<le> b" "b \<le> 8" "0 \<le> x" "x < 2 ^ b"
  shows "drop_bit (shift_table ! b) (x * (mul_table ! b)) = widen b x"
proof -
  have "b \<in> set [1..<9]" "x \<in> set (map int [0..<2 ^ b])" using assms by (auto simp: image_iff intro!: bexI [of _ "nat x"] simp: nat_less_iff)
  with widen_check show ?thesis unfolding list_all_iff by blast
qed

text \<open>The field of a word, and the same field after the shift of \<open>stbi__shiftsigned\<close>.\<close>

definition field :: "nat \<Rightarrow> nat \<Rightarrow> uint32 \<Rightarrow> uint32" where
  "field p b v = take_bit b (drop_bit p v)"

lemma shifted_field:
  assumes "1 \<le> b" "b \<le> 8" "p + b \<le> 32"
  shows "(if int (p + b) - 8 < 0 then push_bit (nat (- (int (p + b) - 8))) (v AND field_mask p b)
          else drop_bit (nat (int (p + b) - 8)) (v AND field_mask p b)) = push_bit (8 - b) (field p b v)"
proof (cases "p + b < 8")
  case True
  then have "nat (- (int (p + b) - 8)) = 8 - b - p" by auto
  then show ?thesis using assms True
    by (intro bit_word_eqI) (auto simp: field_def field_mask_def bit_simps ac_simps)
next
  case False
  then have "nat (int (p + b) - 8) = p + b - 8" by auto
  then show ?thesis using assms False
    by (intro bit_word_eqI) (auto simp: field_def field_mask_def bit_simps ac_simps)
qed

lemma field_less: "b \<le> 8 \<Longrightarrow> uint (field p b v) < 2 ^ b"
  by (simp add: field_def unsigned_take_bit_eq)

section \<open>Properties\<close>

text \<open>C22. For a mask of up to 8 adjacent bits, at any position of a 32-bit pixel, the decoder extracts that field and widens it to
  8 bits by repeating it: \<open>stbi__high_bit\<close> and \<open>stbi__bitcount\<close> find the field, \<open>stbi__shiftsigned\<close>
  passes its assertions, and the table of multipliers repeats the field exactly.\<close>

theorem bmp_color_field:
  assumes "1 \<le> b" "b \<le> 8" "p + b \<le> 32"
  shows "bmp_color v (field_mask p b) (bmp_shift (field_mask p b)) = Inr (widen b (uint (field p b v)))"
proof -
  let ?x = "field p b v"
  have x: "uint ?x < 2 ^ b" "(0::int) \<le> uint ?x" using field_less [OF assms(2)] by simp_all
  have "(2 :: int) ^ b * 2 ^ (8 - b) = 2 ^ 8" using assms(2) by (simp flip: power_add)
  then have "uint ?x * 2 ^ (8 - b) < 2 ^ 8" using x(1) by (metis mult_strict_right_mono zero_less_numeral zero_less_power)
  then have byte: "push_bit (8 - b) ?x < 256"
    using x(2) by (simp only: word_less_def unsigned_push_bit_eq) (simp add: push_bit_eq_mult take_bit_eq_mod)
  have "drop_bit (8 - b) (push_bit (8 - b) ?x) = ?x"
    using assms(2) by (intro bit_word_eqI) (auto simp: field_def bit_simps)
  moreover have m: "0 \<le> mul_table ! b" "mul_table ! b \<le> 255" and tables: "length mul_table = 9" "length shift_table = 9"
    using less_Suc_eq_le [of b 8] assms(2) by (auto simp: mul_table_def shift_table_def less_Suc_eq numeral_eq_Suc)
  moreover have "int_of_u32 (?x * word_of_int (mul_table ! b)) = uint ?x * mul_table ! b"
  proof -
    have "(2 :: int) ^ b \<le> 2 ^ 8" using assms(2) by (intro power_increasing) simp_all
    then have "uint ?x * mul_table ! b \<le> 255 * 255" using x m by (intro mult_mono) simp_all
    moreover have "0 \<le> uint ?x * mul_table ! b" using x(2) m(1) by simp
    moreover have "?x * word_of_int (mul_table ! b) = word_of_int (uint ?x * mul_table ! b)" by simp
    ultimately show ?thesis
      unfolding int_of_u32_def by (simp only: sint_sbintrunc') (simp add: signed_take_bit_int_eq_self)
  qed
  ultimately show ?thesis
    using assms byte widen_tables [OF assms(1,2) x(2,1)]
    unfolding bmp_color_def bmp_shift_field [OF assms] stbi__shiftsigned_def Let_def fst_conv snd_conv shifted_field [OF assms]
    by (simp add: arr_get_def nat_diff_distrib)
qed

theorem bmp_color_field_witness:
  "bmp_color 0xABCD (field_mask 5 6) (bmp_shift (field_mask 5 6)) = Inr (widen 6 (uint (field 5 6 0xABCD)))"
  by (rule bmp_color_field) simp_all

end
