(* ===== verification/Stbi_Float_Exact.thy ===== *)
theory Stbi_Float_Exact
  imports Stbi_Float
begin

text \<open>
  When rounding is exact: a number with at most 24 significant bits, and an exponent in range, is a \<open>float\<close>. The exponent
  that the rounding computes is the binary logarithm.
\<close>

section \<open>Rounding keeps short significands\<close>

lemma pow2_powi: "pow2 e = 2 powi e"
  by (simp add: pow2_def power_int_def inverse_eq_divide power_one_over)

lemma pow2_add: "pow2 (a + b) = pow2 a * pow2 b"
  by (simp add: pow2_powi power_int_add)

lemma pow2_mono: "a \<le> b \<Longrightarrow> pow2 a \<le> pow2 b"
  unfolding pow2_powi by (rule power_int_increasing) simp_all

lemma log2i_bounds: "1 \<le> n \<Longrightarrow> 2 ^ nat (log2i n) \<le> n \<and> n < 2 ^ Suc (nat (log2i n))"
proof (induction n rule: log2i.induct)
  case (1 n)
  show ?case
  proof (cases "n \<le> 1")
    case True
    then show ?thesis using 1(2) by (simp add: log2i.simps [of 1])
  next
    case False
    then have "2 ^ nat (log2i (n div 2)) \<le> n div 2 \<and> n div 2 < 2 ^ Suc (nat (log2i (n div 2)))" using 1 by simp
    moreover have "nat (log2i n) = Suc (nat (log2i (n div 2)))"
      using False log2i_nonneg [of "n div 2"] by (simp add: log2i.simps [of n] nat_add_distrib)
    moreover have "2 * (n div 2) \<le> n" "n < 2 * (n div 2) + 2" by presburger+
    ultimately show ?thesis by simp
  qed
qed

lemma pow2_ilog2: "0 < q \<Longrightarrow> pow2 (ilog2 q) \<le> q"
proof -
  assume q: "0 < q"
  obtain n d where nd: "quotient_of q = (n, d)" by fastforce
  then have d: "0 < d" and qq: "q = of_int n / of_int d"
    using quotient_of_denom_pos quotient_of_div by blast+
  then have n: "1 \<le> n" using q by (simp add: zero_less_divide_iff) 
  have "pow2 (log2i n) \<le> of_int n"
    using log2i_bounds [OF n] log2i_nonneg [of n] by (simp add: pow2_def)
  moreover have "of_int d < pow2 (log2i d + 1)"
    using log2i_bounds [of d] d log2i_nonneg [of d] by (simp add: pow2_def nat_add_distrib)
      (metis of_int_less_iff of_int_mult of_int_numeral of_int_power)
  ultimately have "pow2 (log2i n - log2i d - 1) * of_int d \<le> of_int n"
  proof -
    assume a: "pow2 (log2i n) \<le> of_int n" and b: "of_int d < pow2 (log2i d + 1)"
    have "pow2 (log2i n - log2i d - 1) * of_int d \<le> pow2 (log2i n - log2i d - 1) * pow2 (log2i d + 1)"
      using b by (intro mult_left_mono) simp_all
    also have "\<dots> = pow2 (log2i n)" by (simp flip: pow2_add)
    finally show ?thesis using a by simp
  qed
  then have "pow2 (log2i n - log2i d - 1) \<le> q" using d by (simp add: qq field_simps)
  then show ?thesis by (simp add: ilog2_def nd Let_def)
qed

lemma ilog2_less:
  assumes "0 < q" and "q < pow2 a"
  shows "ilog2 q < a"
  using pow2_ilog2 [OF assms(1)] pow2_mono [of a "ilog2 q"] assms(2) by linarith

lemma round_on_grid:
  assumes "e \<le> k"
  shows "of_int (round_even (of_int m * pow2 k / pow2 e)) * pow2 e = of_int m * pow2 k"
proof -
  have "pow2 k = of_int (2 ^ nat (k - e)) * pow2 e"
    using assms pow2_add [of "k - e" e] by (simp add: pow2_def [of "k - e"])
  then have scaled: "of_int m * pow2 k / pow2 e = of_int (m * 2 ^ nat (k - e))"
    using less_imp_neq [OF pow2_pos [of e]] by (simp add: field_simps)
  show ?thesis
    unfolding scaled round_even_int using scaled pow2_pos [of e] by (auto simp: field_simps)
qed

lemma short_less: "m < 2 ^ j \<Longrightarrow> of_int m * pow2 k < pow2 (int j + k)"
proof -
  assume "m < 2 ^ j"
  then have "of_int m < (2 :: rat) ^ j" by (metis of_int_less_iff of_int_numeral of_int_power)
  then have "of_int m < pow2 (int j)" by (simp add: pow2_def)
  then show ?thesis unfolding pow2_add by (intro mult_strict_right_mono) simp_all
qed

lemma f32_round_exact:
  assumes "0 \<le> m" "m < 2 ^ j" "j \<le> 24" "-149 \<le> k" "int j + k \<le> 128"
  shows "f32_round (of_int m * pow2 k) = Fin (of_int m * pow2 k)"
proof (cases "m = 0")
  case False
  define q where "q = of_int m * pow2 k"
  have q: "0 < q" using False assms(1) by (simp add: q_def)
  have less: "q < pow2 (int j + k)" unfolding q_def using assms(2) by (rule short_less)
  have "max (-149) (ilog2 q - 23) \<le> k" using ilog2_less [OF q less] assms(3,4) by simp
  note v = round_on_grid [OF this, of m, folded q_def]
  have "q < pow2 128" using less pow2_mono [OF assms(5)] by simp
  moreover have "- pow2 128 < q" using q pow2_pos [of 128] by linarith
  ultimately show ?thesis
    using q unfolding q_def [symmetric] f32_round_def Let_def abs_of_pos [OF q] v by simp
qed (simp add: f32_round_def)

end
