(* ===== verification/Stbi_Hdr_Exact.thy ===== *)
theory Stbi_Hdr_Exact
  imports Stbi_Hdr Stbi_Psd Stbi_Float_Exact
begin

text \<open>
  Floating-point facts of the decoders: the conversion of a pixel with a shared exponent is exact, and the removal of the
  white matte of a PSD can leave the range of a byte.
\<close>

section \<open>Properties\<close>

text \<open>C23. A pixel of a Radiance picture, three mantissas with a shared exponent byte \<open>e\<close>, is converted without rounding: every
  component is its mantissa times \<open>2\<^sup>e\<^sup>-\<^sup>1\<^sup>3\<^sup>6\<close>, for all mantissas and exponents, and black when \<open>e\<close> is 0.\<close>

theorem hdr_convert_exact:
  assumes "req_comp = 3 \<or> req_comp = 4"
  shows "stbi__hdr_convert [r, g, b, e] req_comp =
    map (\<lambda>m. Fin (if e = 0 then 0 else of_int (uint m) * pow2 (uint e - 136))) [r, g, b] @ (if req_comp = 4 then [Fin 1] else [])"
proof -
  have one: "f32_of_int 1 = Fin 1" using f32_of_int_small [of 1] by simp
  have mul: "f32_mul (f32_of_int (uint m)) (Fin (pow2 (uint e - 136))) = Fin (of_int (uint m) * pow2 (uint e - 136))" for m :: stbi_uc
    using f32_of_int_small [of "uint m"] uint_bounds8 [of m] uint_bounds8 [of e] f32_round_exact [of "uint m" 8 "uint e - 136"] by simp
  show ?thesis
    using assms by (auto simp: stbi__hdr_convert_def Let_def one mul numeral_eq_Suc)
qed

theorem hdr_convert_exact_witness:
  "stbi__hdr_convert [128, 64, 255, 140] 4 =
    map (\<lambda>m. Fin (if (140 :: stbi_uc) = 0 then 0 else of_int (uint m) * pow2 (uint (140 :: stbi_uc) - 136))) [128 :: stbi_uc, 64, 255] @
      (if (4 :: int) = 4 then [Fin 1] else [])"
  by (rule hdr_convert_exact) simp

text \<open>The removal of the white matte is undefined for a PSD with a pixel whose red is 0 and whose alpha is 128: the result
  is negative and is converted to an unsigned type.\<close>

theorem psd_matte_undefined:
  "psd_matte 255 (Suc n) ([0, g, b, 128] @ rest :: stbi_uc list) = Inl Undefined"
proof -
  have "psd_unmatte 255 128 0 = Inl Undefined" by code_simp
  then show ?thesis by (simp add: psd_matte_pixel_def)
qed

end
