(* ===== verification/Stbi_Pic_Short.thy ===== *)
theory Stbi_Pic_Short
  imports Stbi_Pic
begin

text \<open>
  What the PIC decoder does when its core fails: the image is released, and the null pointer is converted all the same.
\<close>

text \<open>The context over a block of memory after \<open>k\<close> bytes were read.\<close>

definition mem_at :: "'u stbi__context \<Rightarrow> stbi_uc list \<Rightarrow> nat \<Rightarrow> 'u stbi__context" where
  "mem_at s data k = (stbi__start_mem s data)\<lparr>img_buffer := k\<rparr>"

lemma start_mem_at: "stbi__start_mem s data = mem_at s data 0"
  by (simp add: mem_at_def stbi__start_mem_def)

lemma rd8_mem_at:
  "rd8 (mem_at s data k) = (if k < length data then (Inr (data ! k), mem_at s data (Suc k)) else (Inr 0, mem_at s data k))"
  by (simp add: rd8_def stot_def stbi__get8_def mem_at_def stbi__start_mem_def)

lemma get8_mem_at:
  "stbi__get8 (mem_at s data k) = (if k < length data then (data ! k, mem_at s data (Suc k)) else (0, mem_at s data k))"
  by (simp add: stbi__get8_def mem_at_def stbi__start_mem_def)

lemma at_eof_mem_at: "stbi__at_eof (mem_at s data k) \<longleftrightarrow> length data \<le> k"
  by (simp add: stbi__at_eof_def mem_at_def stbi__start_mem_def)

lemma discard_mem_at: "k + n \<le> length data \<Longrightarrow> discard n rd8 (mem_at s data k) = (Inr (), mem_at s data (k + n))"
  by (induction n arbitrary: k) (simp_all add: sret_def sbind_def rd8_mem_at)

text \<open>C40. A PIC file of one pixel that ends after the first byte of its ratio, whatever its header holds, makes the decoder read
  through a null pointer whenever one, two or three components are asked for: \<open>stbi__pic_load_core\<close> fails, and the
  result is passed to \<open>stbi__convert_format\<close>.\<close>

theorem pic_short_file_undefined:
  assumes "length header = 92" and "req_comp \<in> {1, 2, 3}"
  shows "fst (stbi__pic_load fuel req_comp (stbi__start_mem s (header @ [0, 1, 0, 1, 0]))) = Inl Undefined"
proof -
  let ?c = "mem_at s (header @ [0, 1, 0, 1, 0])"
  have head: "discard 92 rd8 (?c 0) = (Inr (), ?c 92)" using discard_mem_at [of 0 92 "header @ [0, 1, 0, 1, 0]" s] assms(1) by simp
  have dims: "rd16be (?c 92) = (Inr 1, ?c 94)" "rd16be (?c 94) = (Inr 1, ?c 96)"
    using assms(1) by (simp_all add: rd16be_def stot_def stbi__get16be_def get8_mem_at nth_append)
  have eof: "\<not> stbi__at_eof (?c 96)" "stbi__at_eof (?c 97)" using assms(1) by (simp_all add: at_eof_mem_at)
  have rest: "rd32be (?c 96) = (Inr 0, ?c 97)" "rd16be (?c 97) = (Inr 0, ?c 97)" "rd8 (?c 97) = (Inr 0, ?c 97)"
    using assms(1) by (simp_all add: rd32be_def rd16be_def rd8_mem_at stot_def stbi__get32be_def stbi__get16be_def get8_mem_at nth_append u32cast_def)
  have "pic_packets (Failure ''bad format'') sfail (Suc 9) [] 0 (?c 97) = (Inl (Failure ''bad file''), ?c 97)"
    unfolding pic_packets.simps by (simp add: sbind_def sget_def sfail_def Let_def rest(3) eof(2))
  then have packets: "pic_packets (Failure ''bad format'') sfail 10 [] 0 (?c 97) = (Inl (Failure ''bad file''), ?c 97)" by simp
  have core: "stbi__pic_load_core fuel w h img (?c 97) = (Inr (None, Inl (Failure ''bad file'')), ?c 97)" for w h img
    by (simp add: stbi__pic_load_core_def sattempt_def sbind_def sret_def packets)
  have conv: "stbi__convert_format [] 4 req_comp (u32cast 1) (u32cast 1) = Inl Undefined"
    using assms(2) by (auto simp: stbi__convert_format_def stbi__malloc_mad3_def u32cast_def convert_rows_def row_pixels_def row_offset_def convert_pixel_def mad3sizes_valid_iff INT_MAX_def arr_get_def)
  have req: "req_comp \<noteq> 0" "req_comp \<noteq> 4" using assms(2) by auto
  show ?thesis
    unfolding stbi__pic_load_def start_mem_at
    using req
    by (simp add: sbind_def head dims rest eof core conv sget_def slift_def sret_def STBI_MAX_DIMENSIONS_def stbi__malloc_mad3_def mad3sizes_valid_iff INT_MAX_def)
qed

theorem pic_short_file_undefined_witness:
  "fst (stbi__pic_load 10 3 (stbi__start_mem (undefined :: unit stbi__context) (replicate 92 0 @ [0, 1, 0, 1, 0]))) = Inl Undefined"
  by (rule pic_short_file_undefined) simp_all

end
