(* ===== verification/Stbir_Sampler.thy ===== *)
theory Stbir_Sampler
  imports Stbi_Float "HOL-Library.Signed_Division"
begin

text \<open>
  The geometry of the resampler \<open>src/stb_image_resize2.h\<close> (lines 2890-3511, 6655-6815, 6868-6881): filter kernels and their
  supports, the treatment of pixels beyond the edges, the ranges of pixels that contribute to each other, the coefficients of
  the gather filters and the division of the output into splits. Coefficients are single-precision numbers; the rounding functions are
  those of the SSE2 build. An assertion that fails is \<open>Undefined\<close>, as is an \<open>int\<close> that overflows (\<open>cint\<close>).
\<close>

section \<open>Types\<close>

datatype stbir_edge = STBIR_EDGE_CLAMP | STBIR_EDGE_REFLECT | STBIR_EDGE_WRAP | STBIR_EDGE_ZERO

record stbir__contributors =
  n0 :: int
  n1 :: int

record stbir__span =
  sp_n0 :: int
  sp_n1 :: int
  pixel_offset_for_input :: int

record stbir__scale_info =
  input_full_size :: int
  output_sub_size :: int
  scale :: f32
  inv_scale :: f32
  pixel_shift :: f32
  scale_is_rational :: bool
  scale_numerator :: int
  scale_denominator :: int

type_synonym stbir__kernel_callback = "f32 \<Rightarrow> f32 \<Rightarrow> f32 res"
type_synonym stbir__support_callback = "f32 \<Rightarrow> f32"

datatype stbir_filter = STBIR_FILTER_DEFAULT | STBIR_FILTER_BOX | STBIR_FILTER_TRIANGLE | STBIR_FILTER_CUBICBSPLINE
  | STBIR_FILTER_CATMULLROM | STBIR_FILTER_MITCHELL | STBIR_FILTER_POINT_SAMPLE | STBIR_FILTER_OTHER

record stbir__filter_extent_info =
  lowest :: int
  highest :: int
  widest :: int

text \<open>The arrays of a sampler are lists, empty until they are allocated.\<close>

record stbir__sampler =
  contributors :: "stbir__contributors list"
  coefficients :: "f32 list"
  gather_prescatter_contributors :: "stbir__contributors list"
  gather_prescatter_coefficients :: "f32 list"
  scale_info :: stbir__scale_info
  filter_enum :: stbir_filter
  filter_kernel :: stbir__kernel_callback
  filter_support :: stbir__support_callback
  samp_edge :: stbir_edge
  coefficient_width :: int
  filter_pixel_width :: int
  filter_pixel_margin :: int
  num_contributors :: int
  contributors_size :: int
  coefficients_size :: int
  extent_info :: stbir__filter_extent_info
  is_gather :: int
  gather_prescatter_num_contributors :: int
  gather_prescatter_coefficient_width :: int
  gather_prescatter_contributors_size :: int
  gather_prescatter_coefficients_size :: int

record stbir__extents =
  conservative :: stbir__contributors
  edge_size0 :: int
  edge_size1 :: int
  span0 :: stbir__span
  span1 :: stbir__span

definition cint :: "int \<Rightarrow> int res" where
  "cint x = (if INT_MIN \<le> x \<and> x \<le> INT_MAX then Inr x else Inl Undefined)"

definition f32_le :: "f32 \<Rightarrow> f32 \<Rightarrow> bool" where
  "f32_le a b = f32_ge b a"

text \<open>\<open>stbir__small_float\<close>, and the test that kills coefficients close to zero.\<close>

definition stbir__small_float :: f32 where
  "stbir__small_float = Fin (1 / 2 ^ 120)"

definition tiny :: "f32 \<Rightarrow> bool" where
  "tiny c \<longleftrightarrow> f32_less c stbir__small_float \<and> f32_less (f32_neg stbir__small_float) c"

text \<open>Conversion with truncation; a value that does not fit gives the smallest \<open>int\<close>, as the instruction does.\<close>

definition cvttps :: "f32 \<Rightarrow> int" where
  "cvttps x = (case f32_to_int INT_MIN INT_MAX x of Inl _ \<Rightarrow> INT_MIN | Inr i \<Rightarrow> i)"

definition stbir_simd_floorf :: "f32 \<Rightarrow> f32" where
  "stbir_simd_floorf x =
     (let t = f32_of_int (cvttps x) in f32_add t (if f32_less x t then Fin (-1) else Fin 0))"

definition stbir_simd_ceilf :: "f32 \<Rightarrow> f32" where
  "stbir_simd_ceilf x =
     (let t = f32_of_int (cvttps x) in f32_add t (if f32_less t x then Fin 1 else Fin 0))"

definition to_int :: "f32 \<Rightarrow> int res" where
  "to_int x = f32_to_int INT_MIN INT_MAX x"

section \<open>Kernels and supports\<close>

definition flip_neg :: "f32 \<Rightarrow> f32" where
  "flip_neg x = (if f32_less x (Fin 0) then f32_neg x else x)"

definition stbir__filter_trapezoid :: stbir__kernel_callback where
  "stbir__filter_trapezoid x sc =
     (let halfscale = f32_div sc (Fin 2); t = f32_add (Fin (1 / 2)) halfscale in
      if \<not> f32_le sc (Fin 1) then Inl Undefined
      else
        let x = flip_neg x in
        if f32_ge x t then Inr (Fin 0)
        else
          let r = f32_sub (Fin (1 / 2)) halfscale in
          if f32_le x r then Inr (Fin 1) else Inr (f32_div (f32_sub t x) sc))"

definition stbir__support_trapezoid :: stbir__support_callback where
  "stbir__support_trapezoid sc = f32_add (Fin (1 / 2)) (f32_div sc (Fin 2))"

definition stbir__filter_triangle :: stbir__kernel_callback where
  "stbir__filter_triangle x s =
     (let x = flip_neg x in Inr (if f32_le x (Fin 1) then f32_sub (Fin 1) x else Fin 0))"

definition stbir__filter_point :: stbir__kernel_callback where
  "stbir__filter_point x s = Inr (Fin 1)"

definition stbir__filter_cubic :: stbir__kernel_callback where
  "stbir__filter_cubic x s =
     (let x = flip_neg x in
      Inr (if f32_less x (Fin 1)
           then f32_div (f32_add (Fin 4) (f32_mul (f32_mul x x) (f32_sub (f32_mul (Fin 3) x) (Fin 6)))) (Fin 6)
           else if f32_less x (Fin 2)
           then f32_div (f32_add (Fin 8) (f32_mul x (f32_add (Fin (-12)) (f32_mul x (f32_sub (Fin 6) x))))) (Fin 6)
           else Fin 0))"

definition stbir__filter_catmullrom :: stbir__kernel_callback where
  "stbir__filter_catmullrom x s =
     (let x = flip_neg x in
      Inr (if f32_less x (Fin 1)
           then f32_sub (Fin 1) (f32_mul (f32_mul x x) (f32_sub (Fin (5 / 2)) (f32_mul (Fin (3 / 2)) x)))
           else if f32_less x (Fin 2)
           then f32_sub (Fin 2) (f32_mul x (f32_add (Fin 4) (f32_mul x (f32_sub (f32_mul (Fin (1 / 2)) x) (Fin (5 / 2))))))
           else Fin 0))"

definition stbir__filter_mitchell :: stbir__kernel_callback where
  "stbir__filter_mitchell x s =
     (let x = flip_neg x in
      Inr (if f32_less x (Fin 1)
           then f32_div (f32_add (Fin 16) (f32_mul (f32_mul x x) (f32_sub (f32_mul (Fin 21) x) (Fin 36)))) (Fin 18)
           else if f32_less x (Fin 2)
           then f32_div (f32_add (Fin 32) (f32_mul x (f32_add (Fin (-60)) (f32_mul x (f32_sub (Fin 36) (f32_mul (Fin 7) x)))))) (Fin 18)
           else Fin 0))"

definition stbir__support_zeropoint5 :: stbir__support_callback where
  "stbir__support_zeropoint5 s = Fin (1 / 2)"

definition stbir__support_one :: stbir__support_callback where
  "stbir__support_one s = Fin 1"

definition stbir__support_two :: stbir__support_callback where
  "stbir__support_two s = Fin 2"

definition stbir__get_filter_pixel_width :: "stbir__support_callback \<Rightarrow> f32 \<Rightarrow> int res" where
  "stbir__get_filter_pixel_width support sc =
     (if f32_ge sc (f32_sub (Fin 1) stbir__small_float)
      then to_int (stbir_simd_ceilf (f32_mul (support (f32_div (Fin 1) sc)) (Fin 2)))
      else to_int (stbir_simd_ceilf (f32_div (f32_mul (support sc) (Fin 2)) sc)))"

definition stbir__get_coefficient_width :: "stbir__sampler \<Rightarrow> int \<Rightarrow> int res" where
  "stbir__get_coefficient_width samp gather =
     (let sc = scale (scale_info samp); support = filter_support samp in
      if gather = 1 then to_int (stbir_simd_ceilf (f32_mul (support (f32_div (Fin 1) sc)) (Fin 2)))
      else if gather = 2 then to_int (stbir_simd_ceilf (f32_div (f32_mul (support sc) (Fin 2)) sc))
      else if gather = 0 then to_int (stbir_simd_ceilf (f32_mul (support sc) (Fin 2)))
      else Inl Undefined)"

definition stbir__get_contributors :: "stbir__sampler \<Rightarrow> int \<Rightarrow> int res" where
  "stbir__get_contributors samp gather =
     (if gather \<noteq> 0 then Inr (output_sub_size (scale_info samp))
      else cint (input_full_size (scale_info samp) + filter_pixel_margin samp * 2))"

section \<open>Edges\<close>

definition stbir__edge_zero_full :: "int \<Rightarrow> int \<Rightarrow> int res" where
  "stbir__edge_zero_full n mx = Inr 0"

definition stbir__edge_clamp_full :: "int \<Rightarrow> int \<Rightarrow> int res" where
  "stbir__edge_clamp_full n mx = (if n < 0 then Inr 0 else if n \<ge> mx then Inr (mx - 1) else Inr n)"

definition stbir__edge_reflect_full :: "int \<Rightarrow> int \<Rightarrow> int res" where
  "stbir__edge_reflect_full n mx =
     (if n < 0 then if n > - mx then Inr (- n) else Inr (mx - 1)
      else if n \<ge> mx then
        ebind (cint (mx * 2)) (\<lambda>max2. if n \<ge> max2 then Inr 0 else Inr (max2 - n - 1))
      else Inr n)"

definition stbir__edge_wrap_full :: "int \<Rightarrow> int \<Rightarrow> int res" where
  "stbir__edge_wrap_full n mx =
     (if mx = 0 then Inl Undefined
      else if n \<ge> 0 then Inr (n smod mx)
      else
        ebind (cint (- n)) (\<lambda>k.
        let m = k smod mx in Inr (if m \<noteq> 0 then mx - m else m)))"

fun stbir__edge_wrap_slow :: "stbir_edge \<Rightarrow> int \<Rightarrow> int \<Rightarrow> int res" where
  "stbir__edge_wrap_slow STBIR_EDGE_CLAMP n mx = stbir__edge_clamp_full n mx"
| "stbir__edge_wrap_slow STBIR_EDGE_REFLECT n mx = stbir__edge_reflect_full n mx"
| "stbir__edge_wrap_slow STBIR_EDGE_WRAP n mx = stbir__edge_wrap_full n mx"
| "stbir__edge_wrap_slow STBIR_EDGE_ZERO n mx = stbir__edge_zero_full n mx"

definition stbir__edge_wrap :: "stbir_edge \<Rightarrow> int \<Rightarrow> int \<Rightarrow> int res" where
  "stbir__edge_wrap edge n mx = (if n \<ge> 0 \<and> n < mx then Inr n else stbir__edge_wrap_slow edge n mx)"

section \<open>Ranges of pixels\<close>

definition stbir__calculate_in_pixel_range ::
    "f32 \<Rightarrow> f32 \<Rightarrow> f32 \<Rightarrow> f32 \<Rightarrow> int \<Rightarrow> stbir_edge \<Rightarrow> (int \<times> int) res" where
  "stbir__calculate_in_pixel_range out_pixel_center out_filter_radius isc out_shift input_size edge =
     (let lo = f32_mul (f32_add (f32_sub out_pixel_center out_filter_radius) out_shift) isc;
          hi = f32_mul (f32_add (f32_add out_pixel_center out_filter_radius) out_shift) isc in
      ebind (to_int (stbir_simd_floorf (f32_add lo (Fin (1 / 2))))) (\<lambda>first.
      ebind (to_int (stbir_simd_floorf (f32_sub hi (Fin (1 / 2))))) (\<lambda>lst.
      let lst = (if lst < first then first else lst) in
      if edge = STBIR_EDGE_WRAP then
        ebind (cint (- input_size)) (\<lambda>m. ebind (cint (input_size * 2)) (\<lambda>d.
        Inr (if first < m then m else first, if lst \<ge> d then d - 1 else lst)))
      else Inr (first, lst))))"

definition stbir__calculate_out_pixel_range ::
    "f32 \<Rightarrow> f32 \<Rightarrow> f32 \<Rightarrow> f32 \<Rightarrow> int \<Rightarrow> (int \<times> int) res" where
  "stbir__calculate_out_pixel_range in_pixel_center in_pixels_radius sc out_shift out_size =
     (let lo = f32_sub (f32_mul (f32_sub in_pixel_center in_pixels_radius) sc) out_shift;
          hi = f32_sub (f32_mul (f32_add in_pixel_center in_pixels_radius) sc) out_shift in
      ebind (to_int (stbir_simd_floorf (f32_add lo (Fin (1 / 2))))) (\<lambda>first.
      ebind (to_int (stbir_simd_floorf (f32_sub hi (Fin (1 / 2))))) (\<lambda>lst.
      Inr (if first < 0 then 0 else first, if lst \<ge> out_size then out_size - 1 else lst))))"

definition pixel_center :: "int \<Rightarrow> f32" where
  "pixel_center n = f32_add (f32_of_int n) (Fin (1 / 2))"

section \<open>Coefficients of the gather filters\<close>

text \<open>A coefficient group is one array; \<open>b\<close> is the position in it that a pointer \<open>coeffs\<close> of the code points to.\<close>

definition zero_coeffs :: "int \<Rightarrow> int list \<Rightarrow> f32 list \<Rightarrow> f32 list res" where
  "zero_coeffs b js cs = efold (\<lambda>j cs. arr_set cs (b + j) (Fin 0)) js cs"

definition move_coeffs :: "int \<Rightarrow> int \<Rightarrow> int list \<Rightarrow> f32 list \<Rightarrow> f32 list res" where
  "move_coeffs b k js cs = efold (\<lambda>j cs. ebind (arr_get cs (b + j)) (\<lambda>v. arr_set cs (b + (j + k)) v)) js cs"

definition stbir__insert_coeff ::
    "stbir__contributors \<Rightarrow> f32 list \<Rightarrow> int \<Rightarrow> int \<Rightarrow> f32 \<Rightarrow> int \<Rightarrow> (stbir__contributors \<times> f32 list) res" where
  "stbir__insert_coeff contribs cs b new_pixel new_coeff max_width =
     (if n1 contribs < n0 contribs then
        ebind (arr_set cs b new_coeff) (\<lambda>cs. Inr (contribs\<lparr>n0 := new_pixel, n1 := new_pixel\<rparr>, cs))
      else if new_pixel \<le> n1 contribs then
        if new_pixel < n0 contribs then
          ebind (cint (n1 contribs - new_pixel + 1)) (\<lambda>w.
          if w \<le> max_width then
            let k = n0 contribs - new_pixel in
            ebind (move_coeffs b k (rev [0..n1 contribs - n0 contribs]) cs) (\<lambda>cs.
            ebind (zero_coeffs b [1..k - 1] cs) (\<lambda>cs.
            ebind (arr_set cs b new_coeff) (\<lambda>cs. Inr (contribs\<lparr>n0 := new_pixel\<rparr>, cs))))
          else Inr (contribs, cs))
        else
          ebind (arr_get cs (b + (new_pixel - n0 contribs))) (\<lambda>v.
          ebind (arr_set cs (b + (new_pixel - n0 contribs)) (f32_add v new_coeff)) (\<lambda>cs. Inr (contribs, cs)))
      else
        ebind (cint (new_pixel - n0 contribs + 1)) (\<lambda>w.
        if w \<le> max_width then
          let e = new_pixel - n0 contribs in
          ebind (zero_coeffs b [(n1 contribs - n0 contribs) + 1..e - 1] cs) (\<lambda>cs.
          ebind (arr_set cs (b + e) new_coeff) (\<lambda>cs. Inr (contribs\<lparr>n1 := new_pixel\<rparr>, cs)))
        else Inr (contribs, cs)))"

text \<open>The loop over the input pixels of one output pixel: coefficients close to zero at the front move \<open>in_first_pixel\<close>. The
  result is \<open>in_first_pixel\<close>, \<open>last_non_zero\<close> and the coefficients.\<close>

function up_coeffs ::
    "stbir__kernel_callback \<Rightarrow> f32 \<Rightarrow> f32 \<Rightarrow> int \<Rightarrow> int \<Rightarrow> int \<Rightarrow> int \<Rightarrow> int \<Rightarrow> f32 list \<Rightarrow> (int \<times> int \<times> f32 list) res" where
  "up_coeffs kern in_center_of_out isc b i first lst last_non_zero cs =
     (if i \<le> lst - first then
        ebind (cint (i + first)) (\<lambda>p.
        ebind (kern (f32_sub in_center_of_out (pixel_center p)) isc) (\<lambda>coeff.
        if tiny coeff then
          if i = 0 then
            if lst - first = 0 then Inl Undefined
            else up_coeffs kern in_center_of_out isc b 0 (first + 1) lst last_non_zero cs
          else
            ebind (arr_set cs (b + i) (Fin 0)) (\<lambda>cs.
            up_coeffs kern in_center_of_out isc b (i + 1) first lst last_non_zero cs)
        else
          ebind (arr_set cs (b + i) coeff) (\<lambda>cs.
          up_coeffs kern in_center_of_out isc b (i + 1) first lst i cs)))
      else Inr (first, last_non_zero, cs))"
  by pat_completeness auto
termination
  by (relation "measure (\<lambda>(_, _, _, _, i, first, lst, _). nat (lst - first - i + 1))") auto

declare up_coeffs.simps [simp del]

definition polyphase :: "stbir__scale_info \<Rightarrow> int \<Rightarrow> bool" where
  "polyphase info n \<longleftrightarrow> scale_is_rational info \<and> scale_numerator info < n"

definition up_pixel ::
    "f32 \<Rightarrow> stbir__kernel_callback \<Rightarrow> stbir__scale_info \<Rightarrow> int \<Rightarrow> stbir_edge \<Rightarrow> int \<Rightarrow>
     stbir__contributors list \<times> f32 list \<Rightarrow> (stbir__contributors list \<times> f32 list) res" where
  "up_pixel out_filter_radius kern info cw edge n st =
     (case st of (contribs, cs) \<Rightarrow>
      let center = f32_mul (f32_add (pixel_center n) (pixel_shift info)) (inv_scale info) in
      ebind (stbir__calculate_in_pixel_range (pixel_center n) out_filter_radius (inv_scale info) (pixel_shift info)
        (input_full_size info) edge) (\<lambda>(first, lst).
      ebind (cint (lst - first + 1)) (\<lambda>w.
      let lst = (if w > cw then first + cw - 1 else lst) in
      ebind (up_coeffs kern center (inv_scale info) (n * cw) 0 first lst (-1) cs) (\<lambda>(first, last_non_zero, cs).
      if \<not> last_non_zero + first \<ge> first then Inl Undefined
      else ebind (arr_set contribs n \<lparr>n0 = first, n1 = last_non_zero + first\<rparr>) (\<lambda>contribs. Inr (contribs, cs))))))"

definition stbir__calculate_coefficients_for_gather_upsample ::
    "f32 \<Rightarrow> stbir__kernel_callback \<Rightarrow> stbir__scale_info \<Rightarrow> int \<Rightarrow> stbir__contributors list \<Rightarrow> f32 list \<Rightarrow> int \<Rightarrow> stbir_edge \<Rightarrow>
     (stbir__contributors list \<times> f32 list) res" where
  "stbir__calculate_coefficients_for_gather_upsample out_filter_radius kern info num contribs cs cw edge =
     efold (up_pixel out_filter_radius kern info cw edge)
       [0..(if polyphase info num then scale_numerator info else num) - 1] (contribs, cs)"

text \<open>One coefficient of a gather downsample: output pixel \<open>out\<close> receives \<open>coeff\<close> from \<open>in_pixel\<close>. The first component of the
  state is \<open>first_out_inited\<close>.\<close>

definition down_coeff ::
    "int \<Rightarrow> int \<Rightarrow> int \<Rightarrow> f32 \<Rightarrow> int \<times> stbir__contributors list \<times> f32 list \<Rightarrow> (int \<times> stbir__contributors list \<times> f32 list) res" where
  "down_coeff cw in_pixel out coeff st =
     (case st of (inited, contribs, cs) \<Rightarrow>
      let b = out * cw in
      if out > inited then
        if out \<noteq> inited + 1 then Inl Undefined
        else
          ebind (arr_set contribs out \<lparr>n0 = in_pixel, n1 = in_pixel\<rparr>) (\<lambda>contribs.
          ebind (arr_set cs b coeff) (\<lambda>cs. Inr (out, contribs, cs)))
      else
        ebind (arr_get contribs out) (\<lambda>k.
        ebind (arr_get cs b) (\<lambda>c0.
        ebind (if c0 = Fin 0 then if in_pixel - n0 k \<noteq> 1 then Inl Undefined else Inr (k\<lparr>n0 := in_pixel\<rparr>) else Inr k) (\<lambda>k.
        if \<not> in_pixel - n0 k < cw then Inl Undefined
        else
          ebind (arr_set contribs out (k\<lparr>n1 := in_pixel\<rparr>)) (\<lambda>contribs.
          ebind (arr_set cs (b + (in_pixel - n0 k)) coeff) (\<lambda>cs. Inr (inited, contribs, cs)))))))"

text \<open>The output pixels \<open>first\<close> to \<open>lst\<close> of one input pixel.\<close>

definition down_pixel ::
    "stbir__kernel_callback \<Rightarrow> stbir__scale_info \<Rightarrow> int \<Rightarrow> int \<Rightarrow> f32 \<Rightarrow> int \<Rightarrow> int \<Rightarrow>
     int \<times> stbir__contributors list \<times> f32 list \<Rightarrow> (int \<times> stbir__contributors list \<times> f32 list) res" where
  "down_pixel kern info cw in_pixel out_center_of_in first lst st =
     efold (\<lambda>out st.
       ebind (kern (f32_sub (pixel_center out) out_center_of_in) (scale info)) (\<lambda>k.
       let coeff = f32_mul k (scale info) in
       down_coeff cw in_pixel out (if tiny coeff then Fin 0 else coeff) st)) [first..lst] st"

fun down_loop ::
    "f32 \<Rightarrow> stbir__kernel_callback \<Rightarrow> stbir__scale_info \<Rightarrow> int \<Rightarrow> int list \<Rightarrow>
     int \<times> stbir__contributors list \<times> f32 list \<Rightarrow> (int \<times> stbir__contributors list \<times> f32 list) res" where
  "down_loop in_pixels_radius kern info cw [] st = Inr st"
| "down_loop in_pixels_radius kern info cw (in_pixel # rest) st =
     (let out_center_of_in = f32_sub (f32_mul (pixel_center in_pixel) (scale info)) (pixel_shift info);
          numer = scale_numerator info; poly = polyphase info (output_sub_size info) in
      ebind (stbir__calculate_out_pixel_range (pixel_center in_pixel) in_pixels_radius (scale info) (pixel_shift info)
        (output_sub_size info)) (\<lambda>(first, lst).
      if first > lst then down_loop in_pixels_radius kern info cw rest st
      else if poly \<and> first = numer then Inr st
      else
        ebind (down_pixel kern info cw in_pixel out_center_of_in first
          (if poly \<and> lst \<ge> numer then numer - 1 else lst) st) (\<lambda>st.
        down_loop in_pixels_radius kern info cw rest st)))"

definition stbir__calculate_coefficients_for_gather_downsample ::
    "int \<Rightarrow> int \<Rightarrow> f32 \<Rightarrow> stbir__kernel_callback \<Rightarrow> stbir__scale_info \<Rightarrow> int \<Rightarrow> stbir__contributors list \<Rightarrow> f32 list \<Rightarrow>
     (stbir__contributors list \<times> f32 list) res" where
  "stbir__calculate_coefficients_for_gather_downsample start end_pixel in_pixels_radius kern info cw contribs cs =
     ebind (down_loop in_pixels_radius kern info cw [start..end_pixel - 1] (-1, contribs, cs)) (\<lambda>(_, contribs, cs).
     Inr (contribs, cs))"

end
