(* ===== verification/Stbir_Extents.thy ===== *)
theory Stbir_Extents
  imports Stbir_Sampler
begin

text \<open>
  The part of the input that a sampler reads, and the division of the output into splits that threads work on
  (\<open>src/stb_image_resize2.h\<close>, lines 3118-3291, 6655-6815 and 6868-6881).
\<close>

section \<open>Extents of a scanline\<close>

definition STBIR__MERGE_RUNS_PIXEL_THRESHOLD :: int where
  "STBIR__MERGE_RUNS_PIXEL_THRESHOLD = 16"

text \<open>The loops for the smallest \<open>n0\<close> and the largest \<open>n1\<close>; a state is the value found and \<open>stop\<close>. The bound \<open>stop\<close> never
  leaves the array, and the rounds beyond it do nothing.\<close>

definition min_step :: "stbir__sampler \<Rightarrow> int \<Rightarrow> int \<times> int \<Rightarrow> (int \<times> int) res" where
  "min_step samp j st =
     (case st of (min_n, stop) \<Rightarrow>
      if j < stop then
        ebind (arr_get (contributors samp) j) (\<lambda>k.
        if \<not> n1 k \<ge> n0 k then Inl Undefined
        else if n0 k < min_n then Inr (n0 k, min (j + filter_pixel_margin samp) (output_sub_size (scale_info samp)))
        else Inr (min_n, stop))
      else Inr (min_n, stop))"

definition max_step :: "stbir__sampler \<Rightarrow> int \<Rightarrow> int \<times> int \<Rightarrow> (int \<times> int) res" where
  "max_step samp j st =
     (case st of (max_n, stop) \<Rightarrow>
      if j \<ge> stop then
        ebind (arr_get (contributors samp) j) (\<lambda>k.
        if \<not> n1 k \<ge> n0 k then Inl Undefined
        else if n1 k > max_n then Inr (n1 k, max (j - filter_pixel_margin samp) 0)
        else Inr (max_n, stop))
      else Inr (max_n, stop))"

text \<open>The smallest and the largest pixel that the margin pixels \<open>js\<close> stand for.\<close>

definition edge_range :: "stbir_edge \<Rightarrow> int \<Rightarrow> int list \<Rightarrow> (int \<times> int) res" where
  "edge_range edge isize js =
     efold (\<lambda>j (lo, hi). ebind (stbir__edge_wrap edge j isize) (\<lambda>p. Inr (min lo p, max hi p))) js (0x7fffffff, -0x7fffffff)"

text \<open>Whether a margin region connects with the main region.\<close>

definition runs_connect :: "int \<Rightarrow> int \<Rightarrow> int \<Rightarrow> int \<Rightarrow> bool" where
  "runs_connect lo hi min_n max_n \<longleftrightarrow>
     (lo \<le> min_n \<and> hi + STBIR__MERGE_RUNS_PIXEL_THRESHOLD \<ge> min_n) \<or>
     (min_n \<le> lo \<and> max_n + STBIR__MERGE_RUNS_PIXEL_THRESHOLD \<ge> hi)"

text \<open>Merging a margin region into the main region: the state is the margin, the main region and the extents.\<close>

definition merge_margin ::
    "int \<Rightarrow> int \<Rightarrow> int \<times> int \<times> int \<times> stbir__extents \<Rightarrow> int \<times> int \<times> int \<times> stbir__extents" where
  "merge_margin lo hi st =
     (case st of (margin, min_n, max_n, ex) \<Rightarrow>
      if lo \<noteq> 0x7fffffff \<and> runs_connect lo hi min_n max_n then
        (0, min min_n lo, max max_n hi,
         ex\<lparr>span0 := \<lparr>sp_n0 = min min_n lo, sp_n1 = max max_n hi, pixel_offset_for_input = min min_n lo\<rparr>\<rparr>)
      else st)"

text \<open>The main region becomes the second span when the new region starts before it; the result says whether it did.\<close>

definition make_room :: "int \<Rightarrow> stbir__extents \<Rightarrow> bool \<times> stbir__extents" where
  "make_room lo ex =
     (if lo < sp_n0 (span0 ex)
      then (True, ex\<lparr>span1 := \<lparr>sp_n0 = sp_n0 (span0 ex), sp_n1 = sp_n1 (span0 ex), pixel_offset_for_input = sp_n0 (span0 ex)\<rparr>\<rparr>)
      else (False, ex))"

definition put_span :: "bool \<Rightarrow> stbir__span \<Rightarrow> stbir__extents \<Rightarrow> stbir__extents" where
  "put_span first sp ex = (if first then ex\<lparr>span0 := sp\<rparr> else ex\<lparr>span1 := sp\<rparr>)"

definition second_span :: "int \<Rightarrow> int \<Rightarrow> int \<Rightarrow> int \<Rightarrow> int \<Rightarrow> int \<Rightarrow> stbir__extents \<Rightarrow> stbir__extents res" where
  "second_span left_margin min_left max_left right_margin min_right max_right ex =
     (if left_margin \<noteq> 0 \<and> min_left \<noteq> 0x7fffffff then
        if right_margin \<noteq> 0 then Inl Undefined
        else
          case make_room min_left ex of (first, ex) \<Rightarrow>
          Inr ((put_span first \<lparr>sp_n0 = - left_margin, sp_n1 = (max_left - min_left) - left_margin,
             pixel_offset_for_input = min_left\<rparr> ex)\<lparr>edge_size0 := 0\<rparr>)
      else if right_margin \<noteq> 0 \<and> min_right \<noteq> 0x7fffffff then
        case make_room min_right ex of (first, ex) \<Rightarrow>
        Inr ((put_span first \<lparr>sp_n0 = sp_n1 (span1 ex) + 1, sp_n1 = sp_n1 (span1 ex) + 1 + (max_right - min_right),
           pixel_offset_for_input = min_right\<rparr> ex)\<lparr>edge_size1 := 0\<rparr>)
      else Inr ex)"

definition sort_spans :: "stbir__extents \<Rightarrow> stbir__extents" where
  "sort_spans ex =
     (if sp_n1 (span1 ex) > sp_n0 (span1 ex) \<and> sp_n0 (span0 ex) > sp_n0 (span1 ex)
      then ex\<lparr>span0 := span1 ex, span1 := span0 ex\<rparr> else ex)"

definition inside_conservative :: "int \<Rightarrow> int \<Rightarrow> stbir__extents \<Rightarrow> unit res" where
  "inside_conservative min_n max_n ex =
     (if n0 (conservative ex) \<le> min_n \<and> n1 (conservative ex) \<ge> max_n then Inr () else Inl Undefined)"

definition stbir__get_extents :: "stbir__sampler \<Rightarrow> stbir__extents \<Rightarrow> stbir__extents res" where
  "stbir__get_extents samp ex =
     (let osize = output_sub_size (scale_info samp); isize = input_full_size (scale_info samp) in
      if is_gather samp = 0 then Inl Undefined
      else
        ebind (efold (min_step samp) [0..osize - 1] (0x7fffffff, osize)) (\<lambda>(min_n, _).
        ebind (efold (max_step samp) (rev [0..osize - 1]) (-0x7fffffff, 0)) (\<lambda>(max_n, _).
        ebind (inside_conservative min_n max_n ex) (\<lambda>_.
        let left_margin = (if min_n < 0 then - min_n else 0);
            min_n = max min_n 0;
            right_margin = (if max_n \<ge> isize then max_n - isize + 1 else 0);
            max_n = (if max_n \<ge> isize then isize - 1 else max_n);
            ex = ex\<lparr>edge_size0 := left_margin, edge_size1 := right_margin,
                    span0 := \<lparr>sp_n0 = min_n, sp_n1 = max_n, pixel_offset_for_input = min_n\<rparr>,
                    span1 := \<lparr>sp_n0 = 0, sp_n1 = -1, pixel_offset_for_input = 0\<rparr>\<rparr>
        in
        if samp_edge samp = STBIR_EDGE_ZERO then Inr ex
        else
          ebind (edge_range (samp_edge samp) isize [- left_margin..-1]) (\<lambda>(min_left, max_left).
          ebind (cint (isize + right_margin)) (\<lambda>r.
          ebind (edge_range (samp_edge samp) isize [isize..r - 1]) (\<lambda>(min_right, max_right).
          case merge_margin min_left max_left (left_margin, min_n, max_n, ex) of (left_margin, min_n, max_n, ex) \<Rightarrow>
          case merge_margin min_right max_right (right_margin, min_n, max_n, ex) of (right_margin, min_n, max_n, ex) \<Rightarrow>
          ebind (inside_conservative min_n max_n ex) (\<lambda>_.
          ebind (second_span left_margin min_left max_left right_margin min_right max_right ex) (\<lambda>ex.
          Inr (sort_spans ex))))))))))"

section \<open>Conservative extents\<close>

function refine_down :: "(int \<Rightarrow> (int \<times> int) res) \<Rightarrow> int \<Rightarrow> int \<Rightarrow> int \<Rightarrow> int \<Rightarrow> int res" where
  "refine_down out_range osize stop n found =
     (if n \<ge> stop then
        ebind (out_range n) (\<lambda>(first, lst).
        if first > lst then Inr found
        else refine_down out_range osize stop (n - 1) (if first < osize \<or> lst \<ge> 0 then n else found))
      else Inr found)"
  by pat_completeness auto
termination
  by (relation "measure (\<lambda>(_, _, stop, n, _). nat (n - stop + 1))") auto

function refine_up :: "(int \<Rightarrow> (int \<times> int) res) \<Rightarrow> int \<Rightarrow> int \<Rightarrow> int \<Rightarrow> int \<Rightarrow> int res" where
  "refine_up out_range osize stop n found =
     (if n \<le> stop then
        ebind (out_range n) (\<lambda>(first, lst).
        if first > lst then Inr found
        else refine_up out_range osize stop (n + 1) (if first < osize \<or> lst \<ge> 0 then n else found))
      else Inr found)"
  by pat_completeness auto
termination
  by (relation "measure (\<lambda>(_, _, stop, n, _). nat (stop - n + 1))") auto

declare refine_down.simps [simp del] refine_up.simps [simp del]

text \<open>The range before it is adjusted to the edges; it is not set unless the sampler gathers with 1 or 2.\<close>

definition conservative_range :: "stbir__sampler \<Rightarrow> (int \<times> int) res" where
  "conservative_range samp =
     (let info = scale_info samp; osize = output_sub_size info;
          in_range = (\<lambda>center radius.
            stbir__calculate_in_pixel_range center radius (inv_scale info) (pixel_shift info) (input_full_size info) (samp_edge samp))
      in
      if is_gather samp = 1 then
        let radius = f32_mul (filter_support samp (inv_scale info)) (scale info) in
        ebind (in_range (Fin (1 / 2)) radius) (\<lambda>(first, _).
        ebind (in_range (pixel_center (osize - 1)) radius) (\<lambda>(_, lst).
        Inr (first, lst)))
      else if is_gather samp \<noteq> 2 then Inl Undefined
      else
        let radius = f32_mul (filter_support samp (scale info)) (inv_scale info);
            out_range = (\<lambda>n. stbir__calculate_out_pixel_range (pixel_center n) radius (scale info) (pixel_shift info) osize)
        in
        ebind (in_range (Fin 0) (Fin 0)) (\<lambda>(first, _).
        ebind (in_range (f32_of_int osize) (Fin 0)) (\<lambda>(_, lst).
        ebind (refine_down out_range osize (- filter_pixel_margin samp) (first + 1) first) (\<lambda>first.
        ebind (refine_up out_range osize (lst + filter_pixel_margin samp) (lst - 1) lst) (\<lambda>lst.
        Inr (first, lst))))))"

definition stbir__get_conservative_extents :: "stbir__sampler \<Rightarrow> stbir__contributors res" where
  "stbir__get_conservative_extents samp =
     (let isize = input_full_size (scale_info samp) in
      if is_gather samp = 0 then Inl Undefined
      else
        ebind (conservative_range samp) (\<lambda>(first, lst).
        if samp_edge samp = STBIR_EDGE_WRAP then
          let first = (if first > 0 \<and> lst \<ge> isize \<and> (lst - isize + 1) + STBIR__MERGE_RUNS_PIXEL_THRESHOLD \<ge> first then 0 else first);
              lst = (if first < 0 \<and> lst < isize - 1 \<and> isize - (- first) - STBIR__MERGE_RUNS_PIXEL_THRESHOLD - 1 \<le> lst
                     then isize - 1 else lst)
          in Inr \<lparr>n0 = first, n1 = lst\<rparr>
        else Inr \<lparr>n0 = max first 0, n1 = (if lst \<ge> isize then isize - 1 else lst)\<rparr>))"

section \<open>Splits\<close>

record stbir__per_split_info =
  start_output_y :: int
  end_output_y :: int
  start_input_y :: int
  end_input_y :: int

text \<open>The scan for the row, among the first ones of a split, whose samples start earliest: \<open>cur\<close> is the position in
  \<open>contribs\<close> of the first row, and the state is the smallest \<open>n0\<close> and its distance.\<close>

fun smallest_row :: "stbir__contributors list \<Rightarrow> int \<Rightarrow> int \<Rightarrow> int list \<Rightarrow> int \<times> int \<Rightarrow> int res" where
  "smallest_row contribs cur start_n0 [] st = Inr (snd st)"
| "smallest_row contribs cur start_n0 (j # js) st =
     ebind (arr_get contribs (cur + j)) (\<lambda>k.
     if n0 k > start_n0 then Inr (snd st)
     else smallest_row contribs cur start_n0 js (if n0 k < fst st then (n0 k, j) else st))"

text \<open>One round: the state is \<open>cur\<close>, \<open>left\<close> and the splits set so far.\<close>

definition split_step ::
    "int \<Rightarrow> int \<Rightarrow> int \<Rightarrow> bool \<Rightarrow> stbir__contributors list \<Rightarrow> int \<Rightarrow> int \<times> int \<times> stbir__per_split_info list \<Rightarrow>
     (int \<times> int \<times> stbir__per_split_info list) res" where
  "split_step splits margin input_full_height gather contribs i st =
     (case st of (cur, left, sp) \<Rightarrow>
      let each = left sdiv (splits - i) in
      ebind (if gather \<and> i \<noteq> 0 then
               ebind (arr_get contribs cur) (\<lambda>k. smallest_row contribs cur (n0 k) [1..min (margin * 3) each] (n0 k, 0))
             else Inr 0) (\<lambda>smallest.
      let sp = (if gather \<and> i \<noteq> 0
                then butlast sp @ [(last sp)\<lparr>end_output_y := end_output_y (last sp) + smallest\<rparr>] else sp);
          new = \<lparr>start_output_y = cur + smallest, end_output_y = cur + each, start_input_y = - margin,
                 end_input_y = input_full_height + margin\<rparr>
      in Inr (cur + each, left - each, sp @ [new])))"

definition stbir__get_split_info ::
    "int \<Rightarrow> int \<Rightarrow> int \<Rightarrow> int \<Rightarrow> bool \<Rightarrow> stbir__contributors list \<Rightarrow> stbir__per_split_info list res" where
  "stbir__get_split_info splits output_height margin input_full_height gather contribs =
     ebind (efold (split_step splits margin input_full_height gather contribs) [0..splits - 1] (0, output_height, []))
       (\<lambda>(_, _, sp). Inr sp)"

definition stbir__get_max_split :: "int \<Rightarrow> int \<Rightarrow> int" where
  "stbir__get_max_split splits height =
     fst (fold (\<lambda>i (mx, h). let each = h sdiv (splits - i) in (max mx each, h - each)) [0..splits - 1] (0, height))"

end
