(* ===== verification/Stbir_Filters.thy ===== *)
theory Stbir_Filters
  imports Stbir_Sampler
begin

text \<open>
  The choice of a filter, the clean-up of gathered coefficients and the coefficients of a sampler (\<open>src/stb_image_resize2.h\<close>,
  lines 3523-3692, 3931-4070 and 6570-6653). The weights of a row are summed and rescaled in double precision.
\<close>

section \<open>Double precision\<close>

definition f64_round :: "rat \<Rightarrow> f32" where
  "f64_round q =
     (if q = 0 then Fin 0
      else
        let e = max (-1074) (ilog2 \<bar>q\<bar> - 52);
            v = of_int (round_even (q / pow2 e)) * pow2 e
        in if v \<ge> pow2 1024 then PInf else if v \<le> - pow2 1024 then NInf else Fin v)"

text \<open>A double is written with the constructors of \<open>f32\<close>; infinities and NaN follow the same rules.\<close>

fun f64_add :: "f32 \<Rightarrow> f32 \<Rightarrow> f32" where
  "f64_add (Fin a) (Fin b) = f64_round (a + b)"
| "f64_add a b = f32_add a b"

fun f64_mul :: "f32 \<Rightarrow> f32 \<Rightarrow> f32" where
  "f64_mul (Fin a) (Fin b) = f64_round (a * b)"
| "f64_mul a b = f32_mul a b"

fun f64_div :: "f32 \<Rightarrow> f32 \<Rightarrow> f32" where
  "f64_div (Fin a) (Fin b) = (if b = 0 then f32_div (Fin a) (Fin b) else f64_round (a / b))"
| "f64_div a b = f32_div a b"

fun f32_of_f64 :: "f32 \<Rightarrow> f32" where
  "f32_of_f64 (Fin q) = f32_round q"
| "f32_of_f64 x = x"

section \<open>Clean-up of gathered coefficients\<close>

text \<open>The weights of row \<open>n\<close> are divided by their sum.\<close>

definition row_total :: "int \<Rightarrow> int \<Rightarrow> f32 list \<Rightarrow> f32 res" where
  "row_total b e cs =
     efold (\<lambda>i total. ebind (arr_get cs (b + i)) (\<lambda>c.
       if f32_ge c (Fin (-2)) \<and> f32_le c (Fin 2) then Inr (f64_add total c) else Inl Undefined)) [0..e] (Fin 0)"

definition normalize_row ::
    "int \<Rightarrow> int \<Rightarrow> stbir__contributors list \<times> f32 list \<Rightarrow> (stbir__contributors list \<times> f32 list) res" where
  "normalize_row cw n st =
     (case st of (contribs, cs) \<Rightarrow>
      let b = n * cw in
      ebind (arr_get contribs n) (\<lambda>k.
      let e = n1 k - n0 k in
      ebind (row_total b e cs) (\<lambda>total.
      if tiny total then
        ebind (arr_set contribs n (k\<lparr>n1 := n0 k\<rparr>)) (\<lambda>contribs.
        ebind (arr_set cs b (Fin 0)) (\<lambda>cs. Inr (contribs, cs)))
      else if f32_less total (f32_sub (Fin 1) stbir__small_float) \<or> f32_less (f32_add (Fin 1) stbir__small_float) total then
        let filter_scale = f64_div (Fin 1) total in
        ebind (efold (\<lambda>i cs. ebind (arr_get cs (b + i)) (\<lambda>c.
            arr_set cs (b + i) (f32_of_f64 (f64_mul c filter_scale)))) [0..e] cs) (\<lambda>cs.
        Inr (contribs, cs))
      else Inr (contribs, cs))))"

text \<open>The rows after the first \<open>numer\<close> ones repeat them, \<open>denom\<close> pixels further on.\<close>

definition repeat_rows ::
    "int \<Rightarrow> int \<Rightarrow> int \<Rightarrow> int \<Rightarrow> stbir__contributors list \<times> f32 list \<Rightarrow> (stbir__contributors list \<times> f32 list) res" where
  "repeat_rows numer denom num cw st =
     (case st of (contribs, cs) \<Rightarrow>
      ebind (efold (\<lambda>n contribs.
          ebind (arr_get contribs (n - numer)) (\<lambda>k.
          ebind (cint (n0 k + denom)) (\<lambda>a. ebind (cint (n1 k + denom)) (\<lambda>z.
          arr_set contribs n \<lparr>n0 = a, n1 = z\<rparr>)))) [numer..num - 1] contribs) (\<lambda>contribs.
      ebind (efold (\<lambda>i cs. ebind (arr_get cs i) (\<lambda>c. arr_set cs (numer * cw + i) c)) [0..(num - numer) * cw - 1] cs) (\<lambda>cs.
      Inr (contribs, cs))))"

text \<open>The weights from \<open>from\<close> on are moved to the front, \<open>m\<close> of them.\<close>

definition slide_down :: "int \<Rightarrow> int \<Rightarrow> int \<Rightarrow> f32 list \<Rightarrow> f32 list res" where
  "slide_down b from m cs = efold (\<lambda>j cs. ebind (arr_get cs (b + (j + from))) (\<lambda>c. arr_set cs (b + j) c)) [0..m - 1] cs"

definition trim_zero_edge ::
    "int \<Rightarrow> int \<Rightarrow> stbir__contributors \<times> f32 list \<Rightarrow> (stbir__contributors \<times> f32 list) res" where
  "trim_zero_edge b input_last_n1 st =
     (case st of (k, cs) \<Rightarrow>
      let k = (if n1 k > input_last_n1 then k\<lparr>n1 := input_last_n1\<rparr> else k) in
      if n0 k < 0 then
        let skips = - n0 k; k = k\<lparr>n0 := 0\<rparr> in
        ebind (slide_down b skips (n1 k - n0 k + 1) cs) (\<lambda>cs. Inr (k, cs))
      else Inr (k, cs))"

text \<open>The weights of pixels beyond the right edge are added to the pixels they stand for.\<close>

definition fold_right_edge ::
    "stbir_edge \<Rightarrow> int \<Rightarrow> int \<Rightarrow> int \<Rightarrow> stbir__contributors \<times> f32 list \<Rightarrow> (stbir__contributors \<times> f32 list) res" where
  "fold_right_edge edge input_size b cw st =
     (case st of (k, cs) \<Rightarrow>
      if n1 k > input_size - 1 then
        efold (\<lambda>i (k', cs).
          ebind (stbir__edge_wrap_slow edge i input_size) (\<lambda>p.
          ebind (arr_get cs (b + (i - n0 k))) (\<lambda>c.
          stbir__insert_coeff k' cs b p c cw))) [input_size..n1 k] (k\<lparr>n1 := input_size - 1\<rparr>, cs)
      else Inr (k, cs))"

text \<open>The same on the left; \<open>c\<close> is the position of the weight that the pointer \<open>c\<close> of the code points to. Every pixel that
  is inserted lies in the row, so \<open>n0\<close> does not change within the loop.\<close>

definition fold_left_edge ::
    "stbir_edge \<Rightarrow> int \<Rightarrow> int \<Rightarrow> int \<Rightarrow> stbir__contributors \<times> f32 list \<Rightarrow> (stbir__contributors \<times> f32 list) res" where
  "fold_left_edge edge input_size b cw st =
     (case st of (k, cs) \<Rightarrow>
      if n0 k < 0 then
        ebind (efold (\<lambda>i (k, cs, c).
            if i > n0 k then
              ebind (stbir__edge_wrap_slow edge i input_size) (\<lambda>p.
              ebind (arr_get cs c) (\<lambda>v.
              ebind (stbir__insert_coeff k cs b p v cw) (\<lambda>(k, cs). Inr (k, cs, c - 1))))
            else Inr (k, cs, c)) (rev [n0 k + 1..-1]) (k, cs, b - (n0 k + 1))) (\<lambda>(k, cs, c).
        let save_n0 = n0 k in
        ebind (arr_get cs c) (\<lambda>save_n0_coeff.
        let k = k\<lparr>n0 := 0\<rparr> in
        ebind (slide_down b (- save_n0) (n1 k + 1) cs) (\<lambda>cs.
        ebind (stbir__edge_wrap_slow edge save_n0 input_size) (\<lambda>p.
        stbir__insert_coeff k cs b p save_n0_coeff cw))))
      else Inr (k, cs))"

fun trailing_nonzero :: "int \<Rightarrow> f32 list \<Rightarrow> nat \<Rightarrow> nat res" where
  "trailing_nonzero b cs 0 = Inr 0"
| "trailing_nonzero b cs (Suc d) =
     ebind (arr_get cs (b + int d)) (\<lambda>c. if c = Fin 0 then trailing_nonzero b cs d else Inr (Suc d))"

definition fold_edges ::
    "stbir_edge \<Rightarrow> int \<Rightarrow> int \<Rightarrow> int \<Rightarrow> stbir__contributors \<times> f32 list \<Rightarrow> (stbir__contributors \<times> f32 list) res" where
  "fold_edges edge input_size b cw st =
     (if edge = STBIR_EDGE_ZERO then trim_zero_edge b (input_size - 1) st
      else if edge = STBIR_EDGE_CLAMP \<or> edge = STBIR_EDGE_REFLECT then
        ebind (fold_right_edge edge input_size b cw st) (fold_left_edge edge input_size b cw)
      else Inr st)"

text \<open>Zeros at the end of a row are dropped, and what is left of the row counts for the extents of the filter.\<close>

definition trim_row ::
    "int \<Rightarrow> int \<Rightarrow> stbir__contributors \<times> f32 list \<times> stbir__filter_extent_info \<Rightarrow>
     (stbir__contributors \<times> f32 list \<times> stbir__filter_extent_info) res" where
  "trim_row b cw st =
     (case st of (k, cs, ext) \<Rightarrow>
      if n0 k \<le> n1 k then
        ebind (trailing_nonzero b cs (nat (n1 k - n0 k + 1))) (\<lambda>diff.
        let k = k\<lparr>n1 := n0 k + int diff - 1\<rparr>;
            ext = (if n0 k \<le> n1 k
                   then \<lparr>lowest = min (lowest ext) (n0 k), highest = max (highest ext) (n1 k), widest = max (widest ext) (int diff)\<rparr>
                   else ext)
        in ebind (zero_coeffs b [int diff..cw - 1] cs) (\<lambda>cs. Inr (k, cs, ext)))
      else Inr (k, cs, ext))"

definition finish_row ::
    "stbir_edge \<Rightarrow> int \<Rightarrow> int \<Rightarrow> int \<Rightarrow> stbir__contributors list \<times> f32 list \<times> stbir__filter_extent_info \<Rightarrow>
     (stbir__contributors list \<times> f32 list \<times> stbir__filter_extent_info) res" where
  "finish_row edge input_size cw n st =
     (case st of (contribs, cs, ext) \<Rightarrow>
      ebind (arr_get contribs n) (\<lambda>k.
      ebind (fold_edges edge input_size (n * cw) cw (k, cs)) (\<lambda>(k, cs).
      ebind (trim_row (n * cw) cw (k, cs, ext)) (\<lambda>(k, cs, ext).
      ebind (arr_set contribs n k) (\<lambda>contribs. Inr (contribs, cs, ext))))))"

definition stbir__cleanup_gathered_coefficients ::
    "stbir_edge \<Rightarrow> stbir__scale_info \<Rightarrow> int \<Rightarrow> stbir__contributors list \<Rightarrow> f32 list \<Rightarrow> int \<Rightarrow>
     (stbir__contributors list \<times> f32 list \<times> stbir__filter_extent_info) res" where
  "stbir__cleanup_gathered_coefficients edge info num contribs cs cw =
     (let numer = scale_numerator info; poly = polyphase info num in
      ebind (efold (normalize_row cw) [0..(if poly then numer else num) - 1] (contribs, cs)) (\<lambda>st.
      ebind (if poly then repeat_rows numer (scale_denominator info) num cw st else Inr st) (\<lambda>(contribs, cs).
      efold (finish_row edge (input_full_size info) cw) [0..num - 1]
        (contribs, cs, \<lparr>lowest = 0x7fffffff, highest = -0x7fffffff, widest = -1\<rparr>))))"

section \<open>The coefficients of a sampler\<close>

text \<open>Scatter coefficients are the gathered ones seen from the input pixels. The state is \<open>highest_set\<close> and the arrays of the sampler.\<close>

definition clear_contributors :: "int list \<Rightarrow> stbir__contributors list \<Rightarrow> stbir__contributors list res" where
  "clear_contributors js contribs = efold (\<lambda>j contribs. arr_set contribs j \<lparr>n0 = 0, n1 = -1\<rparr>) js contribs"

definition pivot_coeff ::
    "int \<Rightarrow> int \<Rightarrow> int \<Rightarrow> int \<Rightarrow> f32 \<Rightarrow> int \<times> stbir__contributors list \<times> f32 list \<Rightarrow> (int \<times> stbir__contributors list \<times> f32 list) res" where
  "pivot_coeff margin scw n k gc st =
     (case st of (highest_set, contribs, cs) \<Rightarrow>
      if f32_ge gc stbir__small_float \<or> f32_le gc (f32_neg stbir__small_float) then
        let j = k + margin in
        ebind (if k > highest_set then Inr True else ebind (arr_get contribs j) (\<lambda>c. Inr (n0 c > n1 c))) (\<lambda>fresh.
        ebind (if fresh then
                 ebind (clear_contributors [highest_set + margin + 1..j - 1] contribs) (\<lambda>contribs.
                 ebind (arr_set contribs j \<lparr>n0 = n, n1 = n\<rparr>) (\<lambda>contribs.
                 ebind (arr_set cs (j * scw) gc) (\<lambda>cs. Inr (k, contribs, cs))))
               else
                 ebind (arr_get contribs j) (\<lambda>c.
                 ebind (stbir__insert_coeff c cs (j * scw) n gc scw) (\<lambda>(c, cs).
                 ebind (arr_set contribs j c) (\<lambda>contribs. Inr (highest_set, contribs, cs))))) (\<lambda>(highest_set, contribs, cs).
        ebind (arr_get contribs j) (\<lambda>c.
        if n1 c - n0 c + 1 \<le> scw then Inr (highest_set, contribs, cs) else Inl Undefined)))
      else Inr (highest_set, contribs, cs))"

definition pivot ::
    "int \<Rightarrow> int \<Rightarrow> int \<Rightarrow> int \<Rightarrow> stbir__contributors list \<Rightarrow> f32 list \<Rightarrow> int \<Rightarrow> stbir__contributors list \<Rightarrow> f32 list \<Rightarrow>
     (stbir__contributors list \<times> f32 list) res" where
  "pivot margin scw num gnum gcontribs gcs gcw contribs cs =
     ebind (efold (\<lambda>n st.
         ebind (arr_get gcontribs n) (\<lambda>g.
         efold (\<lambda>k st. ebind (arr_get gcs (n * gcw + (k - n0 g))) (\<lambda>gc. pivot_coeff margin scw n k gc st)) [n0 g..n1 g] st))
       [0..gnum - 1] (- margin - 1, contribs, cs)) (\<lambda>(highest_set, contribs, cs).
     ebind (clear_contributors [highest_set + margin + 1..num - 1] contribs) (\<lambda>contribs. Inr (contribs, cs)))"

definition gather_down ::
    "stbir__sampler \<Rightarrow> int \<Rightarrow> int \<Rightarrow> stbir__contributors list \<Rightarrow> f32 list \<Rightarrow>
     (stbir__contributors list \<times> f32 list \<times> stbir__filter_extent_info) res" where
  "gather_down samp gnum gcw gcontribs gcs =
     (let info = scale_info samp; margin = filter_pixel_margin samp in
      ebind (cint (input_full_size info + margin)) (\<lambda>input_end.
      ebind (stbir__calculate_coefficients_for_gather_downsample (- margin) input_end
        (f32_mul (filter_support samp (scale info)) (inv_scale info)) (filter_kernel samp) info gcw gcontribs gcs) (\<lambda>(gcontribs, gcs).
      stbir__cleanup_gathered_coefficients (samp_edge samp) info gnum gcontribs gcs gcw)))"

definition stbir__calculate_filters :: "stbir__sampler \<Rightarrow> stbir__sampler option \<Rightarrow> stbir__sampler res" where
  "stbir__calculate_filters samp other_axis =
     (let info = scale_info samp in
      if is_gather samp = 1 then
        ebind (stbir__calculate_coefficients_for_gather_upsample (f32_mul (filter_support samp (inv_scale info)) (scale info))
          (filter_kernel samp) info (num_contributors samp) (contributors samp) (coefficients samp) (coefficient_width samp) (samp_edge samp))
          (\<lambda>(contribs, cs).
        ebind (stbir__cleanup_gathered_coefficients (samp_edge samp) info (num_contributors samp) contribs cs (coefficient_width samp))
          (\<lambda>(contribs, cs, ext).
        Inr (samp\<lparr>contributors := contribs, coefficients := cs, extent_info := ext\<rparr>)))
      else if is_gather samp = 2 then
        ebind (gather_down samp (num_contributors samp) (coefficient_width samp) (contributors samp) (coefficients samp))
          (\<lambda>(contribs, cs, ext).
        Inr (samp\<lparr>contributors := contribs, coefficients := cs, extent_info := ext\<rparr>))
      else if is_gather samp = 0 then
        ebind (case other_axis of
            Some other \<Rightarrow>
              Inr (samp\<lparr>extent_info := extent_info other\<rparr>, num_contributors other, contributors other, coefficients other,
                   coefficient_width other)
          | None \<Rightarrow>
              ebind (gather_down samp (gather_prescatter_num_contributors samp) (gather_prescatter_coefficient_width samp)
                (gather_prescatter_contributors samp) (gather_prescatter_coefficients samp)) (\<lambda>(gcontribs, gcs, ext).
              Inr (samp\<lparr>gather_prescatter_contributors := gcontribs, gather_prescatter_coefficients := gcs, extent_info := ext\<rparr>,
                   gather_prescatter_num_contributors samp, gcontribs, gcs, gather_prescatter_coefficient_width samp)))
          (\<lambda>(samp, gnum, gcontribs, gcs, gcw).
        ebind (pivot (filter_pixel_margin samp) (coefficient_width samp) (num_contributors samp) gnum gcontribs gcs gcw
          (contributors samp) (coefficients samp)) (\<lambda>(contribs, cs).
        Inr (samp\<lparr>contributors := contribs, coefficients := cs\<rparr>)))
      else Inr samp)"

section \<open>The choice of a filter\<close>

definition STBIR_FORCE_GATHER_FILTER_SCANLINES_AMOUNT :: int where
  "STBIR_FORCE_GATHER_FILTER_SCANLINES_AMOUNT = 32"

definition STBIR_INPUT_CALLBACK_PADDING :: int where
  "STBIR_INPUT_CALLBACK_PADDING = 3"

definition STBIR_DEFAULT_FILTER_UPSAMPLE :: stbir_filter where
  "STBIR_DEFAULT_FILTER_UPSAMPLE = STBIR_FILTER_CATMULLROM"

definition STBIR_DEFAULT_FILTER_DOWNSAMPLE :: stbir_filter where
  "STBIR_DEFAULT_FILTER_DOWNSAMPLE = STBIR_FILTER_MITCHELL"

fun stbir__builtin_kernels :: "stbir_filter \<Rightarrow> stbir__kernel_callback option" where
  "stbir__builtin_kernels STBIR_FILTER_BOX = Some stbir__filter_trapezoid"
| "stbir__builtin_kernels STBIR_FILTER_TRIANGLE = Some stbir__filter_triangle"
| "stbir__builtin_kernels STBIR_FILTER_CUBICBSPLINE = Some stbir__filter_cubic"
| "stbir__builtin_kernels STBIR_FILTER_CATMULLROM = Some stbir__filter_catmullrom"
| "stbir__builtin_kernels STBIR_FILTER_MITCHELL = Some stbir__filter_mitchell"
| "stbir__builtin_kernels STBIR_FILTER_POINT_SAMPLE = Some stbir__filter_point"
| "stbir__builtin_kernels _ = None"

fun stbir__builtin_supports :: "stbir_filter \<Rightarrow> stbir__support_callback option" where
  "stbir__builtin_supports STBIR_FILTER_BOX = Some stbir__support_trapezoid"
| "stbir__builtin_supports STBIR_FILTER_TRIANGLE = Some stbir__support_one"
| "stbir__builtin_supports STBIR_FILTER_CUBICBSPLINE = Some stbir__support_two"
| "stbir__builtin_supports STBIR_FILTER_CATMULLROM = Some stbir__support_two"
| "stbir__builtin_supports STBIR_FILTER_MITCHELL = Some stbir__support_two"
| "stbir__builtin_supports STBIR_FILTER_POINT_SAMPLE = Some stbir__support_zeropoint5"
| "stbir__builtin_supports _ = None"

definition choose_filter :: "stbir_filter \<Rightarrow> stbir__scale_info \<Rightarrow> stbir_filter" where
  "choose_filter filt info =
     (if filt = STBIR_FILTER_DEFAULT then
        if f32_ge (scale info) (f32_sub (Fin 1) stbir__small_float) then
          if f32_le (scale info) (f32_add (Fin 1) stbir__small_float) \<and> stbir_simd_ceilf (pixel_shift info) = pixel_shift info
          then STBIR_FILTER_POINT_SAMPLE else STBIR_DEFAULT_FILTER_UPSAMPLE
        else STBIR_DEFAULT_FILTER_DOWNSAMPLE
      else filt)"

text \<open>A size computed in \<open>size_t\<close> and kept in an \<open>int\<close>.\<close>

definition size_int :: "int \<Rightarrow> int" where
  "size_int x = sint (word_of_int x :: uint32)"

definition stbir__set_sampler ::
    "stbir__sampler \<Rightarrow> stbir_filter \<Rightarrow> (stbir__kernel_callback \<times> stbir__support_callback) option \<Rightarrow> stbir_edge \<Rightarrow> bool \<Rightarrow> stbir__sampler res" where
  "stbir__set_sampler samp filt callbacks edge always_gather =
     (let info = scale_info samp; filt = choose_filter filt info in
      case (stbir__builtin_kernels filt, stbir__builtin_supports filt) of
        (Some kern, Some support) \<Rightarrow>
          let (kern, support, filt) =
                (case callbacks of Some (k, s) \<Rightarrow> (k, s, STBIR_FILTER_OTHER) | None \<Rightarrow> (kern, support, filt)) in
          ebind (stbir__get_filter_pixel_width support (scale info)) (\<lambda>width.
          let gather = (if f32_ge (scale info) (f32_sub (Fin 1) stbir__small_float) then 1
                        else if always_gather \<or> width \<le> STBIR_FORCE_GATHER_FILTER_SCANLINES_AMOUNT then 2 else 0);
              samp = samp\<lparr>filter_enum := filt, filter_kernel := kern, filter_support := support, samp_edge := edge, is_gather := gather\<rparr>
          in
          ebind (stbir__get_coefficient_width samp gather) (\<lambda>cw.
          ebind (if edge = STBIR_EDGE_WRAP then cint (input_full_size info * 3) else Inr width) (\<lambda>lim.
          let width = (if edge = STBIR_EDGE_WRAP \<and> width > lim then lim else width);
              margin = width sdiv 2;
              margin = (if edge = STBIR_EDGE_WRAP \<and> margin > input_full_size info then input_full_size info else margin);
              samp = samp\<lparr>coefficient_width := cw, filter_pixel_width := width, filter_pixel_margin := margin\<rparr>
          in
          ebind (stbir__get_contributors samp gather) (\<lambda>num.
          ebind (cint (num * cw)) (\<lambda>ncw.
          let samp = samp\<lparr>num_contributors := num, contributors_size := size_int (num * 8),
                coefficients_size := size_int (ncw * 4 + 4 * STBIR_INPUT_CALLBACK_PADDING),
                gather_prescatter_contributors := [], gather_prescatter_coefficients := []\<rparr>
          in
          if gather = 0 then
            ebind (stbir__get_contributors samp 2) (\<lambda>pnum.
            ebind (cint (pnum * width)) (\<lambda>pw.
            Inr (samp\<lparr>gather_prescatter_coefficient_width := width, gather_prescatter_num_contributors := pnum,
                  gather_prescatter_contributors_size := size_int (pnum * 8), gather_prescatter_coefficients_size := size_int (pw * 4)\<rparr>)))
          else Inr samp)))))
      | _ \<Rightarrow> Inl Undefined)"

end
