(* ===== verification/Stbir_Facts.thy ===== *)
theory Stbir_Facts
  imports Stbir_Extents Stbir_Filters Stbi_Alloc Stbi_Float_Exact
begin

text \<open>
  What the geometry of the resampler promises: every pixel beyond an edge stands for a pixel of the image, the coefficient rows
  behave as finite maps from pixels to weights, and the splits cover the output.
\<close>

section \<open>Edges\<close>

text \<open>The pixel of an image with \<open>m\<close> pixels that position \<open>n\<close> stands for.\<close>

fun edge_pixel :: "stbir_edge \<Rightarrow> int \<Rightarrow> int \<Rightarrow> int" where
  "edge_pixel STBIR_EDGE_CLAMP n m = max 0 (min n (m - 1))"
| "edge_pixel STBIR_EDGE_REFLECT n m =
     (if n \<le> - m then m - 1 else if n < 0 then - n else if n < m then n else if n < 2 * m then 2 * m - 1 - n else 0)"
| "edge_pixel STBIR_EDGE_WRAP n m = n mod m"
| "edge_pixel STBIR_EDGE_ZERO n m = (if 0 \<le> n \<and> n < m then n else 0)"

lemma smod_nonneg: "0 \<le> a \<Longrightarrow> 0 < b \<Longrightarrow> a smod b = a mod (b :: int)"
  by (cases "a = 0") (simp_all add: smod_int_alt_def)

lemma mod_minus: "0 < m \<Longrightarrow> (if (- n) mod m \<noteq> 0 then m - (- n) mod m else (- n) mod m) = n mod (m :: int)"
  using zmod_zminus1_eq_if [of "- n" m] by auto

section \<open>Rows of coefficients\<close>

lemma upto_int: "[0..int n - 1] = map int [0..<n]"
proof (induction n)
  case (Suc n)
  then show ?case using upto_rec2 [of 0 "int n"] by simp
qed simp

lemma zero_coeffs_effect:
  assumes "\<forall>j \<in> set js. 0 \<le> b + j \<and> b + j < int (length cs)"
  shows "\<exists>cs'. zero_coeffs b js cs = Inr cs' \<and> length cs' = length cs \<and>
    (\<forall>i < length cs. cs' ! i = (if int i - b \<in> set js then Fin 0 else cs ! i))"
  using assms
proof (induction js arbitrary: cs)
  case (Cons j js)
  let ?cs = "cs[nat (b + j) := Fin 0]"
  from Cons.IH [of ?cs] Cons.prems obtain cs' where cs': "zero_coeffs b js ?cs = Inr cs'" "length cs' = length cs"
      "\<forall>i < length cs. cs' ! i = (if int i - b \<in> set js then Fin 0 else ?cs ! i)" by auto
  have "zero_coeffs b (j # js) cs = Inr cs'" using cs'(1) Cons.prems by (simp add: zero_coeffs_def)
  then show ?case using cs'(2,3) Cons.prems by (auto simp: nth_list_update)
qed (simp add: zero_coeffs_def)

lemma move_coeffs_effect:
  assumes "0 \<le> b" "0 < k" "b + int n + k \<le> int (length cs)"
  shows "\<exists>cs'. move_coeffs b k (rev [0..int n - 1]) cs = Inr cs' \<and> length cs' = length cs \<and>
    (\<forall>i < length cs. cs' ! i = (if b + k \<le> int i \<and> int i < b + int n + k then cs ! nat (int i - k) else cs ! i))"
  using assms(3)
proof (induction n arbitrary: cs)
  case (Suc n)
  let ?cs = "cs[nat (b + (int n + k)) := cs ! nat (b + int n)]"
  from Suc.IH [of ?cs] Suc.prems obtain cs' where cs': "move_coeffs b k (rev [0..int n - 1]) ?cs = Inr cs'" "length cs' = length cs"
      "\<forall>i < length cs. cs' ! i = (if b + k \<le> int i \<and> int i < b + int n + k then ?cs ! nat (int i - k) else ?cs ! i)" by auto
  have "move_coeffs b k (rev [0..int (Suc n) - 1]) cs = Inr cs'"
    using cs'(1) Suc.prems assms(1,2) unfolding upto_int by (simp add: move_coeffs_def)
  moreover have "cs' ! i = (if b + k \<le> int i \<and> int i < b + int (Suc n) + k then cs ! nat (int i - k) else cs ! i)" if "i < length cs" for i
  proof -
    consider "int i = b + int n + k" | "int i \<noteq> b + int n + k" by blast
    then show ?thesis
    proof cases
      case 1
      then have "i = nat (b + (int n + k))" "nat (int i - k) = nat (b + int n)" by auto
      then show ?thesis using cs'(3) that 1 by auto
    next
      case 2
      then have ne: "i \<noteq> nat (b + (int n + k))" using assms(1,2) by auto
      have "nat (int i - k) \<noteq> nat (b + (int n + k))" if "b + k \<le> int i" "int i < b + int n + k" using that assms by auto
      then show ?thesis using cs'(3) \<open>i < length cs\<close> 2 ne by auto
    qed
  qed
  ultimately show ?case using cs'(2) by auto
qed (auto simp: move_coeffs_def)

text \<open>A row of coefficients at position \<open>b\<close> as a map from pixels to weights.\<close>

definition weight :: "stbir__contributors \<Rightarrow> f32 list \<Rightarrow> int \<Rightarrow> int \<Rightarrow> f32 option" where
  "weight k cs b p = (if n0 k \<le> p \<and> p \<le> n1 k then Some (cs ! nat (b + (p - n0 k))) else None)"

text \<open>The map after a coefficient was added: it covers everything between the old pixels and the new one, and pixels that had no weight get
  zero.\<close>

definition weight_added :: "stbir__contributors \<Rightarrow> f32 list \<Rightarrow> int \<Rightarrow> int \<Rightarrow> f32 \<Rightarrow> int \<Rightarrow> f32 option" where
  "weight_added k cs b q c p =
     (if p = q then Some (case weight k cs b q of None \<Rightarrow> c | Some v \<Rightarrow> f32_add v c)
      else if min (n0 k) q \<le> p \<and> p \<le> max (n1 k) q then Some (case weight k cs b p of None \<Rightarrow> Fin 0 | Some v \<Rightarrow> v)
      else None)"

text \<open>Room for a row of \<open>w\<close> coefficients, which \<open>k\<close> keeps to; the pixels are far from the limits of \<open>int\<close>.\<close>

definition row_ok :: "stbir__contributors \<Rightarrow> f32 list \<Rightarrow> int \<Rightarrow> int \<Rightarrow> bool" where
  "row_ok k cs b w \<longleftrightarrow> 0 \<le> b \<and> b + w \<le> int (length cs) \<and> n0 k \<le> n1 k \<and> n1 k - n0 k < w \<and> \<bar>n0 k\<bar> \<le> 2 ^ 29 \<and> \<bar>n1 k\<bar> \<le> 2 ^ 29"

lemma insert_before:
  assumes "row_ok k cs b w" and "\<bar>q\<bar> \<le> 2 ^ 29" and "q < n0 k" and "n1 k - q < w"
  shows "\<exists>cs'. stbir__insert_coeff k cs b q c w = Inr (k\<lparr>n0 := q\<rparr>, cs') \<and> length cs' = length cs \<and>
    (\<forall>p. weight (k\<lparr>n0 := q\<rparr>) cs' b p = weight_added k cs b q c p) \<and>
    (\<forall>i < length cs. int i < b \<or> b + w \<le> int i \<longrightarrow> cs' ! i = cs ! i)"
proof -
  define d m where "d = n0 k - q" and "m = nat (n1 k - n0 k + 1)"
  have k: "0 \<le> b" "b + w \<le> int (length cs)" "n0 k \<le> n1 k" using assms(1) by (simp_all add: row_ok_def)
  have dm: "0 < d" "n1 k - n0 k = int m - 1" "b + int m + d \<le> b + w" "0 < m" using assms k by (auto simp: d_def m_def)
  obtain c1 where c1: "move_coeffs b d (rev [0..int m - 1]) cs = Inr c1" "length c1 = length cs"
      "\<forall>i < length cs. c1 ! i = (if b + d \<le> int i \<and> int i < b + int m + d then cs ! nat (int i - d) else cs ! i)"
    using move_coeffs_effect [of b d m cs] k dm by auto
  obtain c2 where c2: "zero_coeffs b [1..d - 1] c1 = Inr c2" "length c2 = length cs"
      "\<forall>i < length cs. c2 ! i = (if int i - b \<in> set [1..d - 1] then Fin 0 else c1 ! i)"
    using zero_coeffs_effect [of "[1..d - 1]" b c1] k dm c1(2) by auto
  have fits: "cint (n1 k - q + 1) = Inr (n1 k - q + 1)" using assms(1-3) by (auto simp: row_ok_def cint_def c_limits)
  have run: "stbir__insert_coeff k cs b q c w = Inr (k\<lparr>n0 := q\<rparr>, c2[nat b := c])"
    using assms k dm c1(1) c2(1,2) by (simp add: stbir__insert_coeff_def fits Let_def flip: d_def)
  have "weight (k\<lparr>n0 := q\<rparr>) (c2[nat b := c]) b p = weight_added k cs b q c p" for p
  proof (cases "q < p \<and> p \<le> n1 k")
    case True
    define i where "i = nat (b + (p - q))"
    have i: "int i = b + (p - q)" "i < length cs" "i \<noteq> nat b" using True k dm(3) assms(4) by (auto simp: i_def)
    have "n0 k \<le> p \<Longrightarrow> nat (int i - d) = nat (b + (p - n0 k))" by (simp add: i(1) d_def)
    then show ?thesis
      using True assms(3) c1(3) c2(2,3) i dm(2) by (auto simp: weight_def weight_added_def d_def simp flip: i_def)
  next
    case False
    then show ?thesis using k assms(3) c2(2) dm by (auto simp: weight_def weight_added_def)
  qed
  moreover have "c2[nat b := c] ! i = cs ! i" if "i < length cs" "int i < b \<or> b + w \<le> int i" for i
    using that c1(3) c2(3) dm k by (auto simp: nth_list_update)
  moreover have "length (c2[nat b := c]) = length cs" by (simp add: c2(2))
  ultimately show ?thesis using run by blast
qed

lemma insert_after:
  assumes "row_ok k cs b w" and "\<bar>q\<bar> \<le> 2 ^ 29" and "n1 k < q" and "q - n0 k < w"
  shows "\<exists>cs'. stbir__insert_coeff k cs b q c w = Inr (k\<lparr>n1 := q\<rparr>, cs') \<and> length cs' = length cs \<and>
    (\<forall>p. weight (k\<lparr>n1 := q\<rparr>) cs' b p = weight_added k cs b q c p) \<and>
    (\<forall>i < length cs. int i < b \<or> b + w \<le> int i \<longrightarrow> cs' ! i = cs ! i)"
proof -
  define e where "e = q - n0 k"
  have k: "0 \<le> b" "b + w \<le> int (length cs)" "n0 k \<le> n1 k" using assms(1) by (simp_all add: row_ok_def)
  let ?js = "[(n1 k - n0 k) + 1..e - 1]"
  obtain c1 where c1: "zero_coeffs b ?js cs = Inr c1" "length c1 = length cs"
      "\<forall>i < length cs. c1 ! i = (if int i - b \<in> set ?js then Fin 0 else cs ! i)"
    using zero_coeffs_effect [of ?js b cs] k assms(4) by (auto simp: e_def)
  have fits: "cint (q - n0 k + 1) = Inr (q - n0 k + 1)" using assms(1-3) by (auto simp: row_ok_def cint_def c_limits)
  have run: "stbir__insert_coeff k cs b q c w = Inr (k\<lparr>n1 := q\<rparr>, c1[nat (b + e) := c])"
    using assms k c1(1,2) by (simp add: stbir__insert_coeff_def fits Let_def e_def)
  have "weight (k\<lparr>n1 := q\<rparr>) (c1[nat (b + e) := c]) b p = weight_added k cs b q c p" for p
  proof (cases "n0 k \<le> p \<and> p < q")
    case True
    define i where "i = nat (b + (p - n0 k))"
    have i: "int i = b + (p - n0 k)" "i < length cs" "i \<noteq> nat (b + e)" using True k assms(4) by (auto simp: i_def e_def)
    then show ?thesis
      using True assms(3) k c1(2,3) by (auto simp: weight_def weight_added_def e_def simp flip: i_def)
  next
    case False
    then show ?thesis using k assms(3,4) c1(2) by (auto simp: weight_def weight_added_def e_def)
  qed
  moreover have "c1[nat (b + e) := c] ! i = cs ! i" if "i < length cs" "int i < b \<or> b + w \<le> int i" for i
    using that c1(3) k assms(3,4) by (auto simp: nth_list_update e_def)
  moreover have "length (c1[nat (b + e) := c]) = length cs" by (simp add: c1(2))
  ultimately show ?thesis using run by blast
qed

lemma insert_inside:
  assumes "row_ok k cs b w" and "n0 k \<le> q" and "q \<le> n1 k"
  shows "\<exists>cs'. stbir__insert_coeff k cs b q c w = Inr (k, cs') \<and> length cs' = length cs \<and>
    (\<forall>p. weight k cs' b p = weight_added k cs b q c p) \<and> (\<forall>i < length cs. int i < b \<or> b + w \<le> int i \<longrightarrow> cs' ! i = cs ! i)"
proof -
  define i where "i = nat (b + (q - n0 k))"
  have i: "int i = b + (q - n0 k)" "i < length cs" "int i < b + w" using assms by (auto simp: i_def row_ok_def)
  have run: "stbir__insert_coeff k cs b q c w = Inr (k, cs[i := f32_add (cs ! i) c])"
    using assms i by (simp add: stbir__insert_coeff_def row_ok_def flip: i(1))
  have "nat (b + (p - n0 k)) = i \<longleftrightarrow> p = q" if "n0 k \<le> p" for p using that assms by (auto simp: i_def row_ok_def)
  then have "weight k (cs[i := f32_add (cs ! i) c]) b p = weight_added k cs b q c p" for p
    using assms i(2) by (auto simp: weight_def weight_added_def nth_list_update simp flip: i_def)
  then show ?thesis using run i assms by (auto simp: row_ok_def)
qed

section \<open>Folding the edges\<close>

lemma edge_slow_bounds:
  assumes "stbir__edge_wrap_slow edge n m = Inr p" and "edge = STBIR_EDGE_CLAMP \<or> edge = STBIR_EDGE_REFLECT" and "0 < m"
  shows "0 \<le> p \<and> p < m"
  using assms by (auto simp: stbir__edge_clamp_full_def stbir__edge_reflect_full_def ebind_eq_Inr cint_def split: if_splits)

text \<open>An insertion stays within any interval that holds the pixels of the row and the new one.\<close>

lemma insert_coeff_within:
  assumes "stbir__insert_coeff k cs b q c w = Inr (k', cs')" and "lo \<le> n0 k" "n1 k \<le> hi" "lo \<le> q" "q \<le> hi"
  shows "lo \<le> n0 k' \<and> n1 k' \<le> hi"
  using assms by (auto simp: stbir__insert_coeff_def ebind_eq_Inr Let_def split: if_splits)

lemma fold_right_within:
  assumes "fold_right_edge edge sz b cw (k, cs) = Inr (k', cs')" and "edge = STBIR_EDGE_CLAMP \<or> edge = STBIR_EDGE_REFLECT" and "0 < sz"
  shows "n1 k' < sz \<and> min (n0 k) 0 \<le> n0 k'"
proof (cases "n1 k > sz - 1")
  case True
  let ?step = "\<lambda>i (k', cs). ebind (stbir__edge_wrap_slow edge i sz) (\<lambda>p. ebind (arr_get cs (b + (i - n0 k))) (\<lambda>c. stbir__insert_coeff k' cs b p c cw))"
  have run: "efold ?step [sz..n1 k] (k\<lparr>n1 := sz - 1\<rparr>, cs) = Inr (k', cs')" using assms(1) True by (simp add: fold_right_edge_def)
  have "min (n0 k) 0 \<le> n0 (fst (k', cs')) \<and> n1 (fst (k', cs')) \<le> sz - 1"
  proof (rule efold_Inr_inv [OF run])
    fix i st st' assume step: "?step i st = Inr st'" and inv: "min (n0 k) 0 \<le> n0 (fst st) \<and> n1 (fst st) \<le> sz - 1"
    obtain p c where p: "stbir__edge_wrap_slow edge i sz = Inr p"
        and ins: "stbir__insert_coeff (fst st) (snd st) b p c cw = Inr (fst st', snd st')"
      using step by (auto simp: ebind_eq_Inr split: prod.splits)
    show "min (n0 k) 0 \<le> n0 (fst st') \<and> n1 (fst st') \<le> sz - 1"
      using insert_coeff_within [OF ins, of "min (n0 k) 0" "sz - 1"] edge_slow_bounds [OF p assms(2,3)] inv by auto
  qed simp
  then show ?thesis by simp
next
  case False
  then show ?thesis using assms(1) by (auto simp: fold_right_edge_def)
qed

lemma fold_left_within:
  assumes "fold_left_edge edge sz b cw (k, cs) = Inr (k', cs')" and "edge = STBIR_EDGE_CLAMP \<or> edge = STBIR_EDGE_REFLECT"
    and "0 < sz" and "n1 k < sz"
  shows "0 \<le> n0 k' \<and> n1 k' < sz"
proof (cases "n0 k < 0")
  case True
  let ?step = "\<lambda>i (k, cs, c). if i > n0 k then ebind (stbir__edge_wrap_slow edge i sz) (\<lambda>p. ebind (arr_get cs c) (\<lambda>v.
      ebind (stbir__insert_coeff k cs b p v cw) (\<lambda>(k, cs). Inr (k, cs, c - 1)))) else Inr (k, cs, c)"
  obtain k1 c1 c v c2 p where run: "efold ?step (rev [n0 k + 1..-1]) (k, cs, b - (n0 k + 1)) = Inr (k1, c1, c)"
      and p: "stbir__edge_wrap_slow edge (n0 k1) sz = Inr p"
      and ins: "stbir__insert_coeff (k1\<lparr>n0 := 0\<rparr>) c2 b p v cw = Inr (k', cs')"
    using assms(1) True by (auto simp: fold_left_edge_def ebind_eq_Inr Let_def)
  have "n1 (fst (k1, c1, c)) \<le> sz - 1"
  proof (rule efold_Inr_inv [OF run])
    fix i and st st' :: "stbir__contributors \<times> f32 list \<times> int" assume step: "?step i st = Inr st'" and inv: "n1 (fst st) \<le> sz - 1"
    show "n1 (fst st') \<le> sz - 1"
    proof (cases "i > n0 (fst st)")
      case True
      then obtain p v where p: "stbir__edge_wrap_slow edge i sz = Inr p"
          and ins: "stbir__insert_coeff (fst st) (fst (snd st)) b p v cw = Inr (fst st', fst (snd st'))"
        using step by (auto simp: ebind_eq_Inr split: prod.splits)
      show ?thesis
        using insert_coeff_within [OF ins, of "min (n0 (fst st)) 0" "sz - 1"] edge_slow_bounds [OF p assms(2,3)] inv by auto
    qed (use step inv in \<open>auto split: prod.splits\<close>)
  qed (use assms(4) in simp)
  then show ?thesis
    using insert_coeff_within [OF ins, of 0 "sz - 1"] edge_slow_bounds [OF p assms(2,3)] by auto
next
  case False
  then show ?thesis using assms(1,4) by (auto simp: fold_left_edge_def)
qed

lemma trailing_le: "trailing_nonzero b cs d = Inr r \<Longrightarrow> r \<le> d"
  by (induction d) (auto simp: ebind_eq_Inr split: if_splits)

lemma fold_edges_within:
  assumes "fold_edges edge sz b cw (k, cs) = Inr (k', cs')" and "edge \<noteq> STBIR_EDGE_WRAP" and "0 < sz"
  shows "0 \<le> n0 k' \<and> n1 k' < sz"
proof (cases edge)
  case STBIR_EDGE_ZERO
  then show ?thesis using assms(1) by (auto simp: fold_edges_def trim_zero_edge_def ebind_eq_Inr Let_def split: if_splits)
qed (use assms fold_right_within fold_left_within in \<open>fastforce simp: fold_edges_def ebind_eq_Inr\<close>)+

lemma trim_row_shrinks:
  assumes "trim_row b cw (k, cs, ext) = Inr (k', cs', ext')"
  shows "n0 k' = n0 k \<and> n1 k' \<le> n1 k"
  using assms by (auto simp: trim_row_def ebind_eq_Inr Let_def dest!: trailing_le split: if_splits)

lemma finish_row_within:
  assumes "finish_row edge sz cw n (contribs, cs, ext) = Inr (contribs', cs', ext')" and "edge \<noteq> STBIR_EDGE_WRAP" and "0 < sz"
  shows "\<exists>k. contribs' = contribs[nat n := k] \<and> 0 \<le> n0 k \<and> n1 k < sz"
proof -
  obtain k0 k1 c1 k2 where "fold_edges edge sz (n * cw) cw (k0, cs) = Inr (k1, c1)"
      and "trim_row (n * cw) cw (k1, c1, ext) = Inr (k2, cs', ext')" and "arr_set contribs n k2 = Inr contribs'"
    using assms(1) by (auto simp: finish_row_def ebind_eq_Inr)
  then show ?thesis
    using fold_edges_within [OF _ assms(2,3)] trim_row_shrinks by (fastforce simp: arr_set_def split: if_splits)
qed

lemma finish_rows_within:
  assumes "efold (finish_row edge sz cw) (map int [0..<n]) (contribs, cs, ext) = Inr (contribs', cs', ext')"
    and "edge \<noteq> STBIR_EDGE_WRAP" and "0 < sz" and "n \<le> length contribs"
  shows "length contribs' = length contribs \<and> (\<forall>i < n. 0 \<le> n0 (contribs' ! i) \<and> n1 (contribs' ! i) < sz)"
  using assms(1,4)
proof (induction n arbitrary: contribs' cs' ext')
  case (Suc n)
  then obtain c1 s1 e1 where "efold (finish_row edge sz cw) (map int [0..<n]) (contribs, cs, ext) = Inr (c1, s1, e1)"
      and last: "finish_row edge sz cw (int n) (c1, s1, e1) = Inr (contribs', cs', ext')"
    by (auto simp: efold_append ebind_eq_Inr)
  with Suc have IH: "length c1 = length contribs" "\<forall>i < n. 0 \<le> n0 (c1 ! i) \<and> n1 (c1 ! i) < sz" by simp_all
  from finish_row_within [OF last assms(2,3)] obtain k where "contribs' = c1[n := k]" "0 \<le> n0 k" "n1 k < sz" by auto
  then show ?case using IH Suc.prems(2) by (auto simp: nth_list_update less_Suc_eq)
qed simp

lemma normalize_row_length:
  "normalize_row cw n (contribs, cs) = Inr (contribs', cs') \<Longrightarrow> length contribs' = length contribs"
  by (auto simp: normalize_row_def ebind_eq_Inr Let_def dest: arr_set_length split: if_splits)

lemma repeat_rows_length:
  assumes "repeat_rows numer denom num cw (contribs, cs) = Inr (contribs', cs')"
  shows "length contribs' = length contribs"
proof -
  have "efold (\<lambda>n contribs. ebind (arr_get contribs (n - numer)) (\<lambda>k. ebind (cint (n0 k + denom)) (\<lambda>a. ebind (cint (n1 k + denom)) (\<lambda>z.
      arr_set contribs n \<lparr>n0 = a, n1 = z\<rparr>)))) [numer..num - 1] contribs = Inr contribs'"
    using assms by (auto simp: repeat_rows_def ebind_eq_Inr)
  then show ?thesis by (rule efold_Inr_inv) (auto simp: ebind_eq_Inr dest: arr_set_length)
qed

section \<open>Splits\<close>

lemma efold_inv_upto:
  assumes "P 0 s" and "\<And>i s. i < n \<Longrightarrow> P i s \<Longrightarrow> \<exists>t. f (int i) s = Inr t \<and> P (Suc i) t"
  shows "\<exists>t. efold f [0..int n - 1] s = Inr t \<and> P n t"
  unfolding upto_int using assms(2)
proof (induction n)
  case (Suc n)
  then obtain t where t: "efold f (map int [0..<n]) s = Inr t" "P n t" by force
  then show ?case using Suc.prems [of n t] by (auto simp: efold_append)
qed (simp add: assms(1))

lemma smallest_row_returns:
  assumes "\<forall>j \<in> set js. 0 \<le> cur + j \<and> cur + j < int (length contribs)" and "\<forall>j \<in> set js. 0 \<le> j \<and> j \<le> most"
    and "0 \<le> snd st" "snd st \<le> most"
  shows "\<exists>r. smallest_row contribs cur start_n0 js st = Inr r \<and> 0 \<le> r \<and> r \<le> most"
  using assms by (induction js arbitrary: st) auto

text \<open>The splits cover the rows from 0 to \<open>y\<close> without a gap: a split starts where the one before it ends.\<close>

definition splits_cover :: "int \<Rightarrow> stbir__per_split_info list \<Rightarrow> bool" where
  "splits_cover y sp \<longleftrightarrow> (sp \<noteq> [] \<longrightarrow> start_output_y (hd sp) = 0 \<and> end_output_y (last sp) = y) \<and>
     successively (\<lambda>a b. end_output_y a = start_output_y b) sp \<and> (\<forall>a \<in> set sp. start_output_y a \<le> end_output_y a)"

lemma splits_cover_Nil: "splits_cover 0 []"
  by (simp add: splits_cover_def)

lemma splits_cover_snoc:
  assumes "splits_cover cur sp" and "sp = [] \<Longrightarrow> cur = 0 \<and> r = 0" and "0 \<le> r" "r \<le> each"
  shows "splits_cover (cur + each) ((if sp = [] then [] else butlast sp @ [(last sp)\<lparr>end_output_y := end_output_y (last sp) + r\<rparr>]) @
    [\<lparr>start_output_y = cur + r, end_output_y = cur + each, start_input_y = a, end_input_y = b\<rparr>])"
proof (cases sp rule: rev_cases)
  case (snoc ys y)
  then show ?thesis
    using assms by (auto simp: splits_cover_def successively_append_iff hd_append split: if_splits)
qed (use assms in \<open>simp add: splits_cover_def\<close>)

text \<open>The loop over the splits. The size of the last one is the height divided by the number of splits, rounded up, because each round
  leaves that quotient as it is.\<close>

definition last_split :: "int \<Rightarrow> int \<Rightarrow> int" where
  "last_split splits height = (height + splits - 1) div splits"

lemma last_split_step:
  assumes "1 < r" and "0 \<le> left"
  shows "last_split (r - 1) (left - left div r) = last_split r left"
proof -
  define q s where "q = left div r" and "s = left mod r"
  have left: "left = q * r + s" and s: "0 \<le> s" "s < r" using assms by (simp_all add: q_def s_def)
  have up: "last_split k (a * k + b) = a + (if b = 0 then 0 else 1)" if "0 < k" "0 \<le> b" "b \<le> k" for a b k
  proof -
    have "(a * k + b + k - 1) div k = a + (b + k - 1) div k"
      using that div_mult_self1 [of k "b + k - 1" a] by (simp add: algebra_simps)
    moreover have "(b + k - 1) div k = (if b = 0 then 0 else 1)"
      using that by (cases "b = 0") (auto intro: div_pos_pos_trivial int_div_pos_eq)
    ultimately show ?thesis by (simp add: last_split_def)
  qed
  have "left - q = q * (r - 1) + s" by (simp add: left algebra_simps)
  then have "last_split (r - 1) (left - q) = q + (if s = 0 then 0 else 1)"
    using up [of "r - 1" s q] assms(1) s by simp
  moreover have "last_split r left = q + (if s = 0 then 0 else 1)"
    unfolding left using up [of r s q] assms(1) s by simp
  ultimately show ?thesis by (simp add: q_def)
qed

definition split_inv :: "int \<Rightarrow> int \<Rightarrow> nat \<Rightarrow> int \<times> int \<times> stbir__per_split_info list \<Rightarrow> bool" where
  "split_inv splits height i st \<longleftrightarrow>
     (case st of (cur, left, sp) \<Rightarrow> cur + left = height \<and> 0 \<le> left \<and> 0 \<le> cur \<and> length sp = i \<and> splits_cover cur sp \<and>
       (i = 0 \<longrightarrow> cur = 0) \<and> (int i < splits \<longrightarrow> 0 < left \<and> last_split (splits - int i) left = last_split splits height) \<and>
       (int i = splits \<longrightarrow> left = 0))"

text \<open>The scan of a round, and what the round does with its result.\<close>

definition split_scan :: "int \<Rightarrow> bool \<Rightarrow> stbir__contributors list \<Rightarrow> nat \<Rightarrow> int \<Rightarrow> int \<Rightarrow> int res" where
  "split_scan margin gather contribs i cur each =
     (if gather \<and> i \<noteq> 0 then
        ebind (arr_get contribs cur) (\<lambda>k. smallest_row contribs cur (n0 k) [1..min (margin * 3) each] (n0 k, 0))
      else Inr 0)"

lemma split_step_scan:
  assumes "split_scan margin gather contribs i cur (left sdiv (splits - int i)) = Inl err"
  shows "split_step splits margin input_full_height gather contribs (int i) (cur, left, sp) = Inl err"
  using assms by (simp add: split_scan_def split_step_def Let_def)

lemma split_step_next:
  assumes inv: "split_inv splits height i (cur, left, sp)" and i: "int i < splits"
    and r: "split_scan margin gather contribs i cur (left sdiv (splits - int i)) = Inr r"
      "0 \<le> r" "r \<le> left sdiv (splits - int i)" "\<not> gather \<or> i = 0 \<longrightarrow> r = 0"
  shows "\<exists>t. split_step splits margin input_full_height gather contribs (int i) (cur, left, sp) = Inr t \<and> split_inv splits height (Suc i) t"
proof -
  note inv = inv [unfolded split_inv_def prod.case]
  define each where "each = left sdiv (splits - int i)"
  have d: "0 < splits - int i" using i by simp
  have each: "each = left div (splits - int i)" using inv d by (simp add: each_def sdiv_pos_nonneg)
  have e: "0 \<le> each" "each \<le> left" "int (Suc i) = splits \<Longrightarrow> each = left"
    using inv d zdiv_mono2 [of left 1 "splits - int i"] by (auto simp: each pos_imp_zdiv_nonneg_iff)
  have more: "0 < left - each \<and> last_split (splits - int (Suc i)) (left - each) = last_split splits height" if "int (Suc i) < splits"
    using that inv i int_div_less_self [of left "splits - int i"] last_split_step [of "splits - int i" left]
    by (simp add: each algebra_simps)
  have sp: "(if gather \<and> int i \<noteq> 0 then butlast sp @ [(last sp)\<lparr>end_output_y := end_output_y (last sp) + r\<rparr>] else sp) =
      (if sp = [] then [] else butlast sp @ [(last sp)\<lparr>end_output_y := end_output_y (last sp) + r\<rparr>])"
    using r(4) inv by auto
  let ?sp = "if sp = [] then [] else butlast sp @ [(last sp)\<lparr>end_output_y := end_output_y (last sp) + r\<rparr>]"
  let ?new = "\<lparr>start_output_y = cur + r, end_output_y = cur + each, start_input_y = - margin, end_input_y = input_full_height + margin\<rparr>"
  have len: "length ?sp = i" using inv by (cases sp rule: rev_cases) auto
  have cover: "splits_cover (cur + each) (?sp @ [?new])"
    by (rule splits_cover_snoc) (use inv r in \<open>auto simp: each_def\<close>)
  have "split_inv splits height (Suc i) (cur + each, left - each, ?sp @ [?new])"
    unfolding split_inv_def prod.case using inv e more cover len by (simp del: butlast.simps last.simps)
  moreover have "split_step splits margin input_full_height gather contribs (int i) (cur, left, sp) = Inr (cur + each, left - each, ?sp @ [?new])"
    using r(1) unfolding split_scan_def split_step_def prod.case Let_def each_def [symmetric]
    by (simp add: sp [symmetric])
  ultimately show ?thesis by blast
qed

text \<open>The scan leaves the contributors only in the last split, after all its rows and when none of them starts
  behind the first.\<close>

lemma smallest_row_stop:
  assumes "\<forall>j \<in> set js. 0 \<le> cur + j \<and> cur + j < int (length contribs)"
    and "\<exists>j \<in> set js. n0 (contribs ! nat (cur + j)) > start"
  shows "smallest_row contribs cur start (js @ ks) st = smallest_row contribs cur start js st"
  using assms by (induction js arbitrary: st) auto

lemma smallest_row_overrun:
  assumes "\<forall>j \<in> set js. 0 \<le> cur + j \<and> cur + j < int (length contribs) \<and> n0 (contribs ! nat (cur + j)) \<le> start"
    and "int (length contribs) \<le> cur + k"
  shows "smallest_row contribs cur start (js @ [k]) st = Inl Undefined"
  using assms by (induction js arbitrary: st) (auto simp: arr_get_def)

definition scan_overruns :: "int \<Rightarrow> stbir__contributors list \<Rightarrow> int \<Rightarrow> int \<Rightarrow> bool" where
  "scan_overruns margin contribs cur each \<longleftrightarrow> each \<le> margin * 3 \<and>
     (\<forall>j \<in> {1..<each}. n0 (contribs ! nat (cur + j)) \<le> n0 (contribs ! nat cur))"

lemma last_scan:
  assumes "0 \<le> cur" "0 < each" "cur + each = int (length contribs)" "0 \<le> margin" and "gather" "i \<noteq> 0"
  shows "if scan_overruns margin contribs cur each then split_scan margin gather contribs i cur each = Inl Undefined
    else \<exists>r. split_scan margin gather contribs i cur each = Inr r \<and> 0 \<le> r \<and> r \<le> each"
proof -
  define start where "start = n0 (contribs ! nat cur)"
  have scan: "split_scan margin gather contribs i cur each = smallest_row contribs cur start [1..min (margin * 3) each] (start, 0)"
    using assms by (simp add: split_scan_def start_def)
  have rng: "\<forall>j \<in> set [1..each - 1]. 0 \<le> cur + j \<and> cur + j < int (length contribs)" using assms by auto
  have ret: "\<exists>r. smallest_row contribs cur start js (start, 0) = Inr r \<and> 0 \<le> r \<and> r \<le> each" if "set js \<subseteq> set [1..each - 1]" for js
    by (rule smallest_row_returns) (use that rng assms in auto)
  show ?thesis
  proof (cases "each \<le> margin * 3")
    case False
    then have "[1..min (margin * 3) each] = [1..margin * 3]" "set [1..margin * 3] \<subseteq> set [1..each - 1]" by auto
    then show ?thesis using ret False unfolding scan by (simp add: scan_overruns_def)
  next
    case True
    then have rows: "[1..min (margin * 3) each] = [1..each - 1] @ [each]"
      using assms(2) upto_rec2 [of 1 each] by (simp add: min_def)
    show ?thesis
    proof (cases "scan_overruns margin contribs cur each")
      case over: True
      then show ?thesis
        using smallest_row_overrun [of "[1..each - 1]" cur contribs start each "(start, 0)"] rng assms(3)
        unfolding scan rows by (auto simp: scan_overruns_def start_def)
    next
      case stops: False
      then have "\<exists>j \<in> set [1..each - 1]. n0 (contribs ! nat (cur + j)) > start"
        using True by (auto simp: scan_overruns_def start_def not_le)
      then show ?thesis
        using smallest_row_stop [OF rng, of start "[each]" "(start, 0)"] ret [of "[1..each - 1]"] stops unfolding scan rows by simp
    qed
  qed
qed

lemma inner_scan:
  assumes "0 \<le> cur" "0 \<le> each" "cur + each < int (length contribs)" "0 \<le> margin"
  shows "\<exists>r. split_scan margin gather contribs i cur each = Inr r \<and> 0 \<le> r \<and> r \<le> each \<and> (\<not> gather \<or> i = 0 \<longrightarrow> r = 0)"
proof (cases "gather \<and> i \<noteq> 0")
  case True
  have "\<exists>r. smallest_row contribs cur x [1..min (margin * 3) each] (x, 0) = Inr r \<and> 0 \<le> r \<and> r \<le> each" for x
    by (rule smallest_row_returns) (use assms in auto)
  with True assms show ?thesis by (simp add: split_scan_def)
qed (use assms in \<open>auto simp: split_scan_def\<close>)

lemma splits_before_last:
  assumes "int n < splits" "0 < height" "0 \<le> margin" and "gather \<Longrightarrow> int (length contribs) = height"
  shows "\<exists>st. efold (split_step splits margin input_full_height gather contribs) [0..int n - 1] (0, height, []) = Inr st \<and>
    split_inv splits height n st"
proof (rule efold_inv_upto)
  show "split_inv splits height 0 (0, height, [])" using assms by (simp add: split_inv_def splits_cover_Nil)
  fix i and st :: "int \<times> int \<times> stbir__per_split_info list" assume "i < n" and inv: "split_inv splits height i st"
  then have i: "int (Suc i) < splits" using assms(1) by simp
  obtain cur lft sp where st: "st = (cur, lft, sp)" by (cases st) auto
  have c: "cur + lft = height" "0 \<le> cur" "0 < lft" using inv i by (simp_all add: st split_inv_def)
  have each: "0 \<le> lft sdiv (splits - int i)" "lft sdiv (splits - int i) < lft"
    using c i int_div_less_self [of lft "splits - int i"] by (simp_all add: sdiv_pos_nonneg pos_imp_zdiv_nonneg_iff)
  have "\<exists>r. split_scan margin gather contribs i cur (lft sdiv (splits - int i)) = Inr r \<and> 0 \<le> r \<and> r \<le> lft sdiv (splits - int i) \<and>
      (\<not> gather \<or> i = 0 \<longrightarrow> r = 0)"
  proof (cases gather)
    case True
    then show ?thesis using c each assms(3,4) by (intro inner_scan) simp_all
  qed (use each(1) in \<open>simp add: split_scan_def\<close>)
  then obtain r where "split_scan margin gather contribs i cur (lft sdiv (splits - int i)) = Inr r" "0 \<le> r"
      "r \<le> lft sdiv (splits - int i)" "\<not> gather \<or> i = 0 \<longrightarrow> r = 0" by blast
  then show "\<exists>t. split_step splits margin input_full_height gather contribs (int i) st = Inr t \<and> split_inv splits height (Suc i) t"
    unfolding st using i by (intro split_step_next [OF inv [unfolded st]]) simp_all
qed

section \<open>Properties\<close>

text \<open>C28. In every edge mode a position beyond the edges of a row of up to \<open>2\<^sup>3\<^sup>0\<close> pixels stands for a pixel of the row: clamped to the edge,
  wrapped around, or reflected. Reflection keeps the edge pixel on the right and skips it on the left, where -1 stands for pixel 1.\<close>

theorem edge_wrap_correct:
  assumes "0 < m" and "m * 2 \<le> INT_MAX" and "INT_MIN < n" and "n \<le> INT_MAX"
  shows "stbir__edge_wrap edge n m = Inr (edge_pixel edge n m) \<and> 0 \<le> edge_pixel edge n m \<and> edge_pixel edge n m < m"
proof (cases edge)
  case STBIR_EDGE_WRAP
  have "(- n) smod m = (- n) mod m" if "n < 0" using that assms(1) by (intro smod_nonneg) auto
  then show ?thesis
    using STBIR_EDGE_WRAP assms mod_minus [OF assms(1), of n]
    by (auto simp: stbir__edge_wrap_def stbir__edge_wrap_full_def cint_def c_limits smod_nonneg Let_def)
qed (use assms in \<open>auto simp: stbir__edge_wrap_def stbir__edge_clamp_full_def stbir__edge_reflect_full_def stbir__edge_zero_full_def
      cint_def c_limits\<close>)

theorem edge_wrap_correct_witness:
  "stbir__edge_wrap STBIR_EDGE_REFLECT (-1) 8 = Inr (edge_pixel STBIR_EDGE_REFLECT (-1) 8) \<and>
    0 \<le> edge_pixel STBIR_EDGE_REFLECT (-1) 8 \<and> edge_pixel STBIR_EDGE_REFLECT (-1) 8 < 8"
  using edge_wrap_correct [of 8 "-1" STBIR_EDGE_REFLECT] by (simp add: c_limits)

text \<open>C27. \<open>stbir__insert_coeff\<close> adds a weight to a row of coefficients seen as a finite map: when the pixels of the row and the new one fit the
  width of a row, the new pixel gets the sum of its old weight and the coefficient, or the coefficient itself when it had none, the pixels in between get zero, every other
  weight stays, and the coefficients of other rows stay as they are; otherwise the row is left alone.\<close>

theorem insert_coeff_refines:
  assumes "row_ok k cs b w" and "\<bar>q\<bar> \<le> 2 ^ 29"
  shows "\<exists>k' cs'. stbir__insert_coeff k cs b q c w = Inr (k', cs') \<and> length cs' = length cs \<and> row_ok k' cs' b w \<and>
    (if max (n1 k) q - min (n0 k) q < w then weight k' cs' b = weight_added k cs b q c else k' = k \<and> cs' = cs) \<and>
    (\<forall>i < length cs. int i < b \<or> b + w \<le> int i \<longrightarrow> cs' ! i = cs ! i)"
proof (cases "max (n1 k) q - min (n0 k) q < w")
  case True
  consider "q < n0 k" | "n0 k \<le> q" "q \<le> n1 k" | "n1 k < q" by linarith
  then show ?thesis
  proof cases
    case 1
    then have "n1 k - q < w" using True assms(1) by (auto simp: row_ok_def)
    with insert_before [OF assms 1, of c] True 1 assms show ?thesis by (auto simp: row_ok_def fun_eq_iff)
  next
    case 2
    with insert_inside [OF assms(1) 2, of c] True assms show ?thesis by (auto simp: row_ok_def fun_eq_iff)
  next
    case 3
    then have "q - n0 k < w" using True assms(1) by (auto simp: row_ok_def)
    with insert_after [OF assms 3, of c] True 3 assms show ?thesis by (auto simp: row_ok_def fun_eq_iff)
  qed
next
  case False
  then have "stbir__insert_coeff k cs b q c w = Inr (k, cs)"
    using assms by (auto simp: stbir__insert_coeff_def row_ok_def cint_def c_limits)
  then show ?thesis using False assms by auto
qed

theorem insert_coeff_refines_witness:
  "\<exists>k' cs'. stbir__insert_coeff \<lparr>n0 = 4, n1 = 5\<rparr> (replicate 12 (Fin 1)) 4 2 (Fin (1 / 2)) 4 = Inr (k', cs') \<and>
    length cs' = length (replicate 12 (Fin 1)) \<and> row_ok k' cs' 4 4 \<and>
    (if max (n1 \<lparr>n0 = 4, n1 = 5\<rparr>) 2 - min (n0 \<lparr>n0 = 4, n1 = 5\<rparr>) 2 < 4
     then weight k' cs' 4 = weight_added \<lparr>n0 = 4, n1 = 5\<rparr> (replicate 12 (Fin 1)) 4 2 (Fin (1 / 2))
     else k' = \<lparr>n0 = 4, n1 = 5\<rparr> \<and> cs' = replicate 12 (Fin 1)) \<and>
    (\<forall>i < length (replicate 12 (Fin 1)). int i < 4 \<or> 4 + 4 \<le> int i \<longrightarrow> cs' ! i = replicate 12 (Fin 1) ! i)"
  by (rule insert_coeff_refines) (simp_all add: row_ok_def)

text \<open>C26. After the clean-up no row of a filter reaches beyond the image: in the edge modes clamp, reflect and zero, for any kernel, scale and
  coefficients, the pixels of every row that \<open>stbir__cleanup_gathered_coefficients\<close> returns lie between 0 and the last pixel, whatever weights
  were folded back from the margins.\<close>

theorem cleanup_in_image:
  assumes "stbir__cleanup_gathered_coefficients edge info (int n) contribs cs cw = Inr (contribs', cs', ext')"
    and "edge \<noteq> STBIR_EDGE_WRAP" and "0 < input_full_size info" and "n \<le> length contribs" and "i < n"
  shows "0 \<le> n0 (contribs' ! i) \<and> n1 (contribs' ! i) < input_full_size info"
proof -
  obtain c1 s1 c2 s2 where norm: "efold (normalize_row cw) [0..(if polyphase info (int n) then scale_numerator info else int n) - 1] (contribs, cs) = Inr (c1, s1)"
      and rep: "(if polyphase info (int n) then repeat_rows (scale_numerator info) (scale_denominator info) (int n) cw (c1, s1) else Inr (c1, s1)) = Inr (c2, s2)"
      and fin: "efold (finish_row edge (input_full_size info) cw) [0..int n - 1]
        (c2, s2, \<lparr>lowest = 0x7fffffff, highest = -0x7fffffff, widest = -1\<rparr>) = Inr (contribs', cs', ext')"
    using assms(1) by (auto simp: stbir__cleanup_gathered_coefficients_def ebind_eq_Inr Let_def)
  have "length (fst (c1, s1)) = length contribs"
    using norm by (rule efold_Inr_inv) (auto dest: normalize_row_length)
  then have "length c2 = length contribs" using rep by (auto dest: repeat_rows_length split: if_splits)
  then show ?thesis
    using finish_rows_within [OF fin [unfolded upto_int] assms(2,3)] assms(4,5) by simp
qed

lemma f64_round_exact:
  assumes "0 \<le> m" "m < 2 ^ j" "j \<le> 53" "-1074 \<le> k" "int j + k \<le> 1024"
  shows "f64_round (of_int m * pow2 k) = Fin (of_int m * pow2 k)"
proof (cases "m = 0")
  case False
  define q where "q = of_int m * pow2 k"
  have q: "0 < q" using False assms(1) by (simp add: q_def)
  have less: "q < pow2 (int j + k)" unfolding q_def using assms(2) by (rule short_less)
  have "max (-1074) (ilog2 q - 52) \<le> k" using ilog2_less [OF q less] assms(3,4) by simp
  note v = round_on_grid [OF this, of m, folded q_def]
  have "q < pow2 1024" using less pow2_mono [OF assms(5)] by simp
  moreover have "- pow2 1024 < q" using q pow2_pos [of 1024] by linarith
  ultimately show ?thesis
    using q unfolding q_def [symmetric] f64_round_def Let_def abs_of_pos [OF q] v by simp
qed (simp add: f64_round_def)

lemma quarters: "f64_round (1 / 4) = Fin (1 / 4)" "f64_round (1 / 2) = Fin (1 / 2)" "f64_round 2 = Fin 2" "f32_round (1 / 2) = Fin (1 / 2)"
    "f32_round 1 = Fin 1"
  using f64_round_exact [of 1 1 "-2"] f64_round_exact [of 1 1 "-1"] f64_round_exact [of 2 2 0] f32_round_exact [of 1 1 "-1"]
    f32_round_exact [of 1 1 0] by (simp_all add: pow2_def)

lemma below_one: "f32_sub (Fin 1) stbir__small_float = Fin 1"
  by code_simp

lemma cleanup_example:
  "stbir__cleanup_gathered_coefficients STBIR_EDGE_CLAMP \<lparr>input_full_size = 4, output_sub_size = 1, scale = Fin (1 / 4), inv_scale = Fin 4, pixel_shift = Fin 0,
    scale_is_rational = False, scale_numerator = 1, scale_denominator = 4\<rparr> (int 1)
     [\<lparr>n0 = -1, n1 = 0\<rparr>] [Fin (1 / 4), Fin (1 / 4)] 2 =
   Inr ([\<lparr>n0 = 0, n1 = 0\<rparr>], [Fin 1, Fin 0], \<lparr>lowest = 0, highest = 0, widest = 1\<rparr>)"
proof -
  have l: "[0..1] = [0, 1 :: int]" "[0..0] = [0 :: int]" "[1..1] = [1 :: int]" by (simp_all add: upto_rec1)
  have total: "row_total 0 1 [Fin (1 / 4), Fin (1 / 4)] = Inr (Fin (1 / 2))"
    by (simp add: row_total_def l arr_get_def f32_ge_def f32_le_def quarters)
  have not_tiny: "\<not> tiny (Fin (1 / 2))" by (simp add: tiny_def stbir__small_float_def)
  have norm: "normalize_row 2 0 ([\<lparr>n0 = -1, n1 = 0\<rparr>], [Fin (1 / 4), Fin (1 / 4)]) = Inr ([\<lparr>n0 = -1, n1 = 0\<rparr>], [Fin (1 / 2), Fin (1 / 2)])"
    by (simp add: normalize_row_def arr_get_def arr_set_def total not_tiny below_one l quarters)
  have "fold_edges STBIR_EDGE_CLAMP 4 0 2 (\<lparr>n0 = -1, n1 = 0\<rparr>, [Fin (1 / 2), Fin (1 / 2)]) = Inr (\<lparr>n0 = 0, n1 = 0\<rparr>, [Fin 1, Fin (1 / 2)])"
    by (simp add: fold_edges_def fold_right_edge_def fold_left_edge_def slide_down_def stbir__edge_clamp_full_def
        stbir__insert_coeff_def arr_get_def arr_set_def Let_def l quarters)
  then show ?thesis
    by (simp add: stbir__cleanup_gathered_coefficients_def polyphase_def Let_def l norm finish_row_def trim_row_def zero_coeffs_def
        arr_get_def arr_set_def)
qed

theorem cleanup_in_image_witness:
  "0 \<le> n0 ([\<lparr>n0 = 0, n1 = 0\<rparr>] ! 0) \<and> n1 ([\<lparr>n0 = 0, n1 = 0\<rparr>] ! 0) < input_full_size \<lparr>input_full_size = 4, output_sub_size = 1, scale = Fin (1 / 4), inv_scale = Fin 4, pixel_shift = Fin 0,
    scale_is_rational = False, scale_numerator = 1, scale_denominator = 4\<rparr>"
  by (rule cleanup_in_image [OF cleanup_example]) simp_all

text \<open>C29. The splits of the output, for as many contributors as the caller has (one per row when rows are gathered), any number of
  splits and any contributors. With one split, without gathering, or when the scan of the last split stops in time,
  \<open>stbir__get_split_info\<close> returns that many splits; the first starts at row 0, each starts where the one before
  it ends, and the last ends at the height, also when rows are moved from one split to the one before. Otherwise it reads one contributor behind the
  array. That happens exactly when there are several splits, rows are gathered, the last split (the height over the number of splits, rounded up) has
  no more rows than three times the margin, and none of its rows starts behind its first one.\<close>

theorem split_info_covers:
  assumes "0 < splits" and "0 < height" and "0 \<le> margin" and "gather \<Longrightarrow> int (length contribs) = height"
  shows "if gather \<and> 1 < splits \<and> scan_overruns margin contribs (height - last_split splits height) (last_split splits height)
    then stbir__get_split_info splits height margin input_full_height gather contribs = Inl Undefined
    else \<exists>sp. stbir__get_split_info splits height margin input_full_height gather contribs = Inr sp \<and>
      length sp = nat splits \<and> splits_cover height sp"
proof -
  let ?f = "split_step splits margin input_full_height gather contribs"
  obtain n where n: "splits = int (Suc n)" using assms(1) by (metis gr0_conv_Suc zero_less_imp_eq_int)
  obtain cur lft sp where st: "efold ?f [0..int n - 1] (0, height, []) = Inr (cur, lft, sp)"
      and inv: "split_inv splits height n (cur, lft, sp)"
    using splits_before_last [of n splits height margin gather contribs input_full_height] assms n by (metis lessI of_nat_less_iff prod_cases3)
  have rounds: "[0..splits - 1] = [0..int n - 1] @ [int n]" using upto_rec2 [of 0 "int n"] n by simp
  have run: "stbir__get_split_info splits height margin input_full_height gather contribs =
      ebind (?f (int n) (cur, lft, sp)) (\<lambda>(_, _, sp). Inr sp)"
    by (simp add: stbir__get_split_info_def rounds efold_append st) (cases "?f (int n) (cur, lft, sp)"; simp)
  have each: "lft sdiv (splits - int n) = lft" using n inv by (simp add: sdiv_pos_nonneg split_inv_def)
  have lft: "lft = last_split splits height" "0 < lft" "0 \<le> cur" "cur + lft = height"
    using inv n by (auto simp: split_inv_def last_split_def)
  have cur: "height - lft = cur" using lft(4) by simp
  have done_ok: "\<exists>sp. stbir__get_split_info splits height margin input_full_height gather contribs = Inr sp \<and> length sp = nat splits \<and> splits_cover height sp"
    if scan: "split_scan margin gather contribs n cur lft = Inr r" "0 \<le> r" "r \<le> lft" "\<not> gather \<or> n = 0 \<longrightarrow> r = 0" for r
  proof -
    obtain t where "?f (int n) (cur, lft, sp) = Inr t" "split_inv splits height (Suc n) t"
      using split_step_next [OF inv, unfolded each, OF _ scan, of input_full_height] n by auto
    then show ?thesis unfolding run using n by (cases t) (auto simp: split_inv_def)
  qed
  show ?thesis
  proof (cases "gather \<and> n \<noteq> 0")
    case True
    have "if scan_overruns margin contribs cur lft then split_scan margin gather contribs n cur lft = Inl Undefined
      else \<exists>r. split_scan margin gather contribs n cur lft = Inr r \<and> 0 \<le> r \<and> r \<le> lft"
      by (rule last_scan) (use True lft assms in auto)
    moreover have "stbir__get_split_info splits height margin input_full_height gather contribs = Inl Undefined"
      if "split_scan margin gather contribs n cur lft = Inl Undefined"
      using split_step_scan [of margin gather contribs n cur lft splits Undefined] that unfolding run each by simp
    ultimately show ?thesis
      using True n done_ok unfolding lft(1) [symmetric] cur by (auto split: if_splits)
  next
    case False
    then have "split_scan margin gather contribs n cur lft = Inr 0" by (auto simp: split_scan_def)
    from done_ok [OF this] lft(2) show ?thesis using False n by auto
  qed
qed

theorem split_info_covers_witness:
  "(\<exists>sp. stbir__get_split_info 3 10 1 20 True (map (\<lambda>i. \<lparr>n0 = int i, n1 = int i + 3\<rparr>) [0..<10]) = Inr sp \<and> length sp = nat 3 \<and> splits_cover 10 sp) \<and>
   stbir__get_split_info 2 2 1 20 True (replicate 2 \<lparr>n0 = 0, n1 = 3\<rparr>) = Inl Undefined"
proof -
  have "\<not> scan_overruns 1 (map (\<lambda>i. \<lparr>n0 = int i, n1 = int i + 3\<rparr>) [0..<10]) (10 - last_split 3 10) (last_split 3 10)"
    by (simp add: scan_overruns_def last_split_def)
  moreover have "scan_overruns 1 (replicate 2 \<lparr>n0 = 0, n1 = 3\<rparr>) (2 - last_split 2 2) (last_split 2 2)"
    by (simp add: scan_overruns_def last_split_def)
  ultimately show ?thesis
    using split_info_covers [of 3 10 1 True "map (\<lambda>i. \<lparr>n0 = int i, n1 = int i + 3\<rparr>) [0..<10]" 20]
      split_info_covers [of 2 2 1 True "replicate 2 \<lparr>n0 = 0, n1 = 3\<rparr>" 20]
    by simp
qed

end
