(* ===== verification/Yolo_Interop.thy ===== *)
theory Yolo_Interop
  imports Stbi_Load
begin

text \<open>
  The native core \<open>src/yolo26_interop.cpp\<close>: the host hands over a picture or a ready tensor, the core
  decodes and rescales the picture, runs the network and returns the boxes whose confidence reaches a
  threshold. The ONNX runtime is a parameter of type \<open>ort_model\<close>, the rescaling routine of
  \<open>src/stb_image_resize2.h\<close> is the parameter \<open>resize\<close>; a C++ exception that leaves the function
  is a \<open>Failure\<close>. \<open>int64_t\<close> and \<open>size_t\<close> have 64 bits.
\<close>

section \<open>State and environment\<close>

text \<open>The static variables. \<open>ort_session\<close> and \<open>ort_memory_info\<close> are true when the pointers are set.\<close>

record yolo_state =
  ort_env :: bool
  ort_session :: bool
  ort_memory_info :: bool
  engine_info_cache :: string
  ort_input_shape :: "int list"
  model_width :: int
  model_height :: int
  model_channels :: int
  model_proposals :: int
  model_proposal_elements :: int
  model_tensor_size :: nat
  input_tensor_values :: "f32 list"

definition yolo_start :: yolo_state where
  "yolo_start =
     \<lparr>ort_env = False, ort_session = False, ort_memory_info = False, engine_info_cache = [], ort_input_shape = [],
      model_width = 0, model_height = 0, model_channels = 0, model_proposals = 0, model_proposal_elements = 0,
      model_tensor_size = 0, input_tensor_values = []\<rparr>"

record YoloBoundingBox =
  box_x :: f32
  box_y :: f32
  box_width :: f32
  box_height :: f32
  box_confidence :: f32
  box_classId :: int

text \<open>What the runtime does with the model file: the first three say whether the session and the memory info are
  created and give the shapes of the first input and output; \<open>None\<close> is an exception. \<open>ort_run\<close> computes the
  first output from the tensor and its shape.\<close>

record ort_model =
  ort_opens :: bool
  ort_has_memory :: bool
  ort_in_shape :: "int list option"
  ort_out_shape :: "int list option"
  ort_run :: "f32 list \<Rightarrow> int list \<Rightarrow> f32 list option"
  ort_version :: string

definition Yolo26_GetEngineInfo :: "ort_model \<Rightarrow> (yolo_state, string) step" where
  "Yolo26_GetEngineInfo m =
     sbind (sget engine_info_cache) (\<lambda>c.
     if c = [] then
       let c = ''ONNX Runtime v'' @ ort_version m @ '' (CPU NativeAOT Zero-Copy)'' in
       sbind (smodify (\<lambda>g. g\<lparr>engine_info_cache := c\<rparr>)) (\<lambda>_. sret c)
     else sret c)"

section \<open>Loading the model\<close>

definition is_int64 :: "int \<Rightarrow> bool" where
  "is_int64 v \<longleftrightarrow> - (2 ^ 63) \<le> v \<and> v < 2 ^ 63"

definition size_cast :: "int \<Rightarrow> nat" where
  "size_cast v = nat (v mod 2 ^ 64)"

text \<open>The product of the four dimensions, in \<open>int64_t\<close>.\<close>

definition tensor_size :: "int \<Rightarrow> int \<Rightarrow> int \<Rightarrow> int \<Rightarrow> nat res" where
  "tensor_size n c h w =
     (if is_int64 (n * c) \<and> is_int64 (n * c * h) \<and> is_int64 (n * c * h * w) then Inr (size_cast (n * c * h * w))
      else Inl Undefined)"

definition read_input_shape :: "ort_model \<Rightarrow> (yolo_state, unit) step" where
  "read_input_shape m =
     (case ort_in_shape m of
        None \<Rightarrow> sfail (Failure ''Ort::Exception'')
      | Some shape \<Rightarrow>
          if length shape < 4 then sfail Undefined
          else
            let shape = (if shape ! 0 < 1 then shape[0 := 1] else shape); c = shape ! 1; h = shape ! 2; w = shape ! 3 in
            sbind (slift (tensor_size (shape ! 0) c h w)) (\<lambda>n.
            smodify (\<lambda>g. g\<lparr>ort_input_shape := shape, model_channels := c, model_height := h, model_width := w,
              model_tensor_size := n\<rparr>)))"

definition read_output_shape :: "ort_model \<Rightarrow> (yolo_state, unit) step" where
  "read_output_shape m =
     (case ort_out_shape m of
        None \<Rightarrow> sfail (Failure ''Ort::Exception'')
      | Some shape \<Rightarrow>
          swhen (length shape \<ge> 3) (smodify (\<lambda>g. g\<lparr>model_proposals := shape ! 1, model_proposal_elements := shape ! 2\<rparr>)))"

text \<open>The body of the \<open>try\<close> block.\<close>

definition load_model :: "ort_model \<Rightarrow> (yolo_state, unit) step" where
  "load_model m =
     sbind (sguard (ort_opens m) (Failure ''Ort::Exception'')) (\<lambda>_.
     sbind (smodify (\<lambda>g. g\<lparr>ort_session := True\<rparr>)) (\<lambda>_.
     sbind (sguard (ort_has_memory m) (Failure ''Ort::Exception'')) (\<lambda>_.
     sbind (smodify (\<lambda>g. g\<lparr>ort_memory_info := True\<rparr>)) (\<lambda>_.
     sbind (read_input_shape m) (\<lambda>_. read_output_shape m)))))"

text \<open>Lines 47-85: whether the call goes on. The environment and the session options (lines 49-53) are made outside
  the \<open>try\<close> block and read no file; making them is taken to succeed.\<close>

definition ensure_session :: "ort_model \<Rightarrow> (yolo_state, bool) step" where
  "ensure_session m =
     sbind (sget ort_env) (\<lambda>created.
     if created then sret True
     else sbind (smodify (\<lambda>g. g\<lparr>ort_env := True\<rparr>)) (\<lambda>_. stry (load_model m)))"

section \<open>The input tensor\<close>

text \<open>The value of a float given by its bits, and the floats in a block of memory.\<close>

definition f32_of_bits :: "uint32 \<Rightarrow> f32" where
  "f32_of_bits w =
     (let s = (if bit w 31 then -1 else 1 :: rat);
          e = uint (drop_bit 23 w AND 0xFF);
          f = uint (w AND 0x7FFFFF)
      in if e = 255 then (if f = 0 then (if bit w 31 then NInf else PInf) else NaN)
         else if e = 0 then Fin (s * (of_int f * pow2 (-149)))
         else Fin (s * (of_int (2 ^ 23 + f) * pow2 (e - 150))))"

fun floats_of_bytes :: "stbi_uc list \<Rightarrow> f32 list" where
  "floats_of_bytes (a # b # c # d # bs) =
     f32_of_bits (ucast a OR push_bit 8 (ucast b) OR push_bit 16 (ucast c) OR push_bit 24 (ucast d)) # floats_of_bytes bs"
| "floats_of_bytes _ = []"

text \<open>\<open>input_tensor_values.resize(n)\<close>: a \<open>std::vector<float>\<close> holds at most \<open>2 ^ 61 - 1\<close> elements.\<close>

definition vector_resize :: "nat \<Rightarrow> f32 list \<Rightarrow> f32 list res" where
  "vector_resize n v =
     (if n = length v then Inr v
      else if n > 2 ^ 61 - 1 then Inl (Failure ''std::length_error'')
      else Inr (take n v @ replicate (n - length v) (Fin 0)))"

text \<open>The loops of lines 118-125: pixel \<open>(y, x)\<close> goes to three planes of the tensor. The counters are \<open>int\<close>, so
  they overflow when a dimension is beyond \<open>INT_MAX\<close>.\<close>

definition plane_store :: "int \<Rightarrow> int \<Rightarrow> int \<Rightarrow> stbi_uc list \<Rightarrow> nat \<Rightarrow> nat \<Rightarrow> int \<Rightarrow> f32 list \<Rightarrow> f32 list res" where
  "plane_store w h c img y x k tensor =
     (let pixel_idx = intcast ((int y * w + int x) * c) in
      ebind (arr_get img (pixel_idx + k)) (\<lambda>v.
      arr_set tensor (k * h * w + int y * w + int x) (f32_div (f32_of_int (uint v)) (f32_of_int 255))))"

definition hwc_to_chw :: "int \<Rightarrow> int \<Rightarrow> int \<Rightarrow> stbi_uc list \<Rightarrow> f32 list \<Rightarrow> f32 list res" where
  "hwc_to_chw w h c img tensor =
     (if h > INT_MAX \<or> 0 < h \<and> w > INT_MAX then Inl Undefined
      else
        efold (\<lambda>y. efold (\<lambda>x tensor.
          ebind (plane_store w h c img y x 0 tensor) (\<lambda>tensor.
          ebind (plane_store w h c img y x 1 tensor) (\<lambda>tensor.
          plane_store w h c img y x 2 tensor))) [0..<nat w]) [0..<nat h] tensor)"

text \<open>\<open>stbir_resize_uint8_linear\<close> with three components: \<open>resize\<close> gives the bytes it stores, none when the call fails
  (the core does not look at its result). It reads the whole source image and stores into a block of \<open>w * h * c\<close>
  bytes; bytes it does not store are zero here, as in every new block.\<close>

definition rescale ::
    "(stbi_uc list \<Rightarrow> nat \<Rightarrow> nat \<Rightarrow> int \<Rightarrow> int \<Rightarrow> stbi_uc list) \<Rightarrow> int \<Rightarrow> int \<Rightarrow> int \<Rightarrow> stbi_uc list \<Rightarrow> nat \<Rightarrow> nat \<Rightarrow> stbi_uc list res" where
  "rescale resize w h c img iw ih =
     (if int iw = w \<and> int ih = h then Inr img
      else if w * h * c < 0 then Inl (Failure ''std::bad_array_new_length'')
      else if length img < iw * ih * 3 then Inl Undefined
      else store_from (replicate (nat (w * h * c)) 0) 0 (resize img iw ih (intcast w) (intcast h)))"

text \<open>Lines 100-134: the contents of the input tensor; \<open>None\<close> when there is no image in the data. \<open>data\<close> are the
  \<open>length\<close> bytes at \<open>tensorData\<close>.\<close>

definition prepare_image ::
    "stbi_env \<Rightarrow> 'u stbi__context \<Rightarrow> (stbi_uc list \<Rightarrow> nat \<Rightarrow> nat \<Rightarrow> int \<Rightarrow> int \<Rightarrow> stbi_uc list) \<Rightarrow> stbi_uc list \<Rightarrow> (yolo_state, bool) step" where
  "prepare_image env s resize data =
     sbind (sget id) (\<lambda>g.
     let w = model_width g; h = model_height g; c = model_channels g in
     sbind (sattempt (slift (stbi_load_from_memory env s data (intcast c)))) (\<lambda>r.
     case r of
       Inl _ \<Rightarrow> sret False
     | Inr img \<Rightarrow>
         case ld_data img of
           Pixels16 _ \<Rightarrow> sfail Undefined
         | Pixels8 d \<Rightarrow>
             sbind (slift (rescale resize w h c d (ld_x img) (ld_y img))) (\<lambda>d.
             sbind (slift (hwc_to_chw w h c d (input_tensor_values g))) (\<lambda>t.
             sbind (smodify (\<lambda>g. g\<lparr>input_tensor_values := t\<rparr>)) (\<lambda>_. sret True)))))"

definition input_tensor ::
    "stbi_env \<Rightarrow> 'u stbi__context \<Rightarrow> (stbi_uc list \<Rightarrow> nat \<Rightarrow> nat \<Rightarrow> int \<Rightarrow> int \<Rightarrow> stbi_uc list) \<Rightarrow> stbi_uc list \<Rightarrow> int \<Rightarrow>
     (yolo_state, f32 list option) step" where
  "input_tensor env s resize data len =
     sbind (sget id) (\<lambda>g.
     sbind (slift (vector_resize (model_tensor_size g) (input_tensor_values g))) (\<lambda>v.
     sbind (smodify (\<lambda>g. g\<lparr>input_tensor_values := v\<rparr>)) (\<lambda>_.
     if size_cast len < size_cast (int (model_tensor_size g) * 4) then
       sbind (prepare_image env s resize data) (\<lambda>ok.
       if ok then sbind (sget input_tensor_values) (\<lambda>t. sret (Some t)) else sret None)
     else if length data < model_tensor_size g * 4 then sfail Undefined
     else sret (Some (floats_of_bytes (take (model_tensor_size g * 4) data))))))"

section \<open>The detections\<close>

text \<open>A proposal: corner coordinates turned into centre and size, confidence and class.\<close>

record proposal =
  prop_x :: f32
  prop_y :: f32
  prop_w :: f32
  prop_h :: f32
  prop_conf :: f32
  prop_class :: int

definition corners :: "f32 \<Rightarrow> f32 \<Rightarrow> f32 \<Rightarrow> f32 \<Rightarrow> f32 \<Rightarrow> int \<Rightarrow> proposal" where
  "corners x_min y_min x_max y_max conf classId =
     (let w = f32_sub x_max x_min; h = f32_sub y_max y_min
      in \<lparr>prop_x = f32_add x_min (f32_div w (f32_of_int 2)), prop_y = f32_add y_min (f32_div h (f32_of_int 2)),
          prop_w = w, prop_h = h, prop_conf = conf, prop_class = classId\<rparr>)"

text \<open>The best class of proposal \<open>i\<close> of the transposed layout, which has one row per element.\<close>

definition best_class :: "f32 list \<Rightarrow> int \<Rightarrow> int \<Rightarrow> int \<Rightarrow> (f32 \<times> int) res" where
  "best_class output_arr num_proposals num_elements i =
     efold (\<lambda>c (conf, classId).
       ebind (arr_get output_arr (int c * num_proposals + i)) (\<lambda>class_prob.
       Inr (if f32_less conf class_prob then (class_prob, int c - 4) else (conf, classId)))) [4..<nat num_elements] (Fin 0, 0)"

definition proposal_transposed :: "f32 list \<Rightarrow> int \<Rightarrow> int \<Rightarrow> int \<Rightarrow> proposal res" where
  "proposal_transposed output_arr num_proposals num_elements i =
     ebind (arr_get output_arr i) (\<lambda>x_min.
     ebind (arr_get output_arr (num_proposals + i)) (\<lambda>y_min.
     ebind (arr_get output_arr (2 * num_proposals + i)) (\<lambda>x_max.
     ebind (arr_get output_arr (3 * num_proposals + i)) (\<lambda>y_max.
     ebind (best_class output_arr num_proposals num_elements i) (\<lambda>(conf, classId).
     Inr (corners x_min y_min x_max y_max conf classId))))))"

definition proposal_row :: "f32 list \<Rightarrow> int \<Rightarrow> int \<Rightarrow> proposal res" where
  "proposal_row output_arr num_elements i =
     (let p = i * num_elements in
      ebind (arr_get output_arr p) (\<lambda>x_min.
      ebind (arr_get output_arr (p + 1)) (\<lambda>y_min.
      ebind (arr_get output_arr (p + 2)) (\<lambda>x_max.
      ebind (arr_get output_arr (p + 3)) (\<lambda>y_max.
      ebind (arr_get output_arr (p + 4)) (\<lambda>conf.
      ebind (arr_get output_arr (p + 5)) (\<lambda>v.
      ebind (f32_to_int INT_MIN INT_MAX v) (\<lambda>classId.
      Inr (corners x_min y_min x_max y_max conf classId)))))))))"

text \<open>Lines 163-171 and 178-213. The counter \<open>i\<close> is an \<open>int\<close>: the round with \<open>i = INT_MAX\<close> ends in an overflow.\<close>

definition num_proposals :: "yolo_state \<Rightarrow> int" where
  "num_proposals g =
     (if model_proposals g < model_proposal_elements g then model_proposal_elements g else model_proposals g)"

definition read_proposal :: "yolo_state \<Rightarrow> f32 list \<Rightarrow> nat \<Rightarrow> proposal res" where
  "read_proposal g output_arr i =
     (if int i \<ge> INT_MAX then Inl Undefined
      else if model_proposals g < model_proposal_elements g
      then proposal_transposed output_arr (model_proposal_elements g) (model_proposals g) (int i)
      else proposal_row output_arr (model_proposal_elements g) (int i))"

definition box_of :: "yolo_state \<Rightarrow> proposal \<Rightarrow> YoloBoundingBox" where
  "box_of g p =
     (let w = f32_of_int (model_width g); h = f32_of_int (model_height g)
      in \<lparr>box_x = f32_div (prop_x p) w, box_y = f32_div (prop_y p) h, box_width = f32_div (prop_w p) w,
          box_height = f32_div (prop_h p) h, box_confidence = prop_conf p, box_classId = prop_class p\<rparr>)"

text \<open>The loop of lines 173-224, over the proposals \<open>is\<close> that are left.\<close>

fun detect_loop ::
    "yolo_state \<Rightarrow> f32 list \<Rightarrow> f32 \<Rightarrow> int \<Rightarrow> nat list \<Rightarrow> nat \<Rightarrow> YoloBoundingBox list \<Rightarrow> (nat \<times> YoloBoundingBox list) res" where
  "detect_loop g output_arr threshold maxDetections [] hits detections = Inr (hits, detections)"
| "detect_loop g output_arr threshold maxDetections (i # is) hits detections =
     (if \<not> int hits < maxDetections then Inr (hits, detections)
      else
        ebind (read_proposal g output_arr i) (\<lambda>p.
        if f32_ge (prop_conf p) threshold then
          ebind (arr_set detections (int hits) (box_of g p)) (\<lambda>detections.
          detect_loop g output_arr threshold maxDetections is (hits + 1) detections)
        else detect_loop g output_arr threshold maxDetections is hits detections))"

section \<open>The entry point\<close>

definition run_model :: "ort_model \<Rightarrow> f32 list \<Rightarrow> (yolo_state, f32 list) step" where
  "run_model m tensor =
     sbind (sget id) (\<lambda>g.
     if \<not> ort_memory_info g then sfail Undefined
     else case ort_run m tensor (ort_input_shape g) of
       None \<Rightarrow> sfail (Failure ''Ort::Exception'')
     | Some output_arr \<Rightarrow> sret output_arr)"

text \<open>The number of detections and the array \<open>detections\<close> afterwards.\<close>

definition Yolo26_Detect_Tensor ::
    "stbi_env \<Rightarrow> 'u stbi__context \<Rightarrow> (stbi_uc list \<Rightarrow> nat \<Rightarrow> nat \<Rightarrow> int \<Rightarrow> int \<Rightarrow> stbi_uc list) \<Rightarrow> ort_model \<Rightarrow>
     stbi_uc list \<Rightarrow> int \<Rightarrow> f32 \<Rightarrow> YoloBoundingBox list \<Rightarrow> int \<Rightarrow> (yolo_state, nat \<times> YoloBoundingBox list) step" where
  "Yolo26_Detect_Tensor env s resize m data len threshold detections maxDetections =
     sbind (ensure_session m) (\<lambda>ok.
     if \<not> ok then sret (0, detections)
     else
       sbind (sget ort_session) (\<lambda>session.
       if \<not> session then sret (0, detections)
       else if maxDetections < 1 then sret (0, detections)
       else
         sbind (input_tensor env s resize data len) (\<lambda>t.
         case t of None \<Rightarrow> sret (0, detections)
         | Some tensor \<Rightarrow>
             sbind (run_model m tensor) (\<lambda>output_arr.
             sbind (sget id) (\<lambda>g.
             slift (detect_loop g output_arr threshold maxDetections [0..<nat (num_proposals g)] 0 detections))))))"

end
