(* ===== verification/Yolo_Detect.thy ===== *)
theory Yolo_Detect
  imports Yolo_Interop Stbi_Load_Png
begin

text \<open>
  What the native core guarantees: the layout of the tensor made from a picture, the detections it
  returns, the states its static variables reach over any sequence of calls, and that a call leaves no array
  as long as the runtime keeps to the shapes of the model.
\<close>

section \<open>The tensor of a picture\<close>

lemma intcast_id: "0 \<le> v \<Longrightarrow> v \<le> INT_MAX \<Longrightarrow> intcast v = v"
  by (simp add: intcast_def INT_MAX_def sint_uint uint_word_of_int signed_take_bit_int_eq_self)

lemma dims_INT_MAX:
  assumes "0 < w" "0 < h" "0 < c" and "int (w * h * c) \<le> INT_MAX"
  shows "int w \<le> INT_MAX" "int h \<le> INT_MAX"
proof -
  have "w * 1 \<le> w * (h * c)" "h * 1 \<le> h * (w * c)" using assms(1-3) by (intro mult_le_mono2; simp)+
  then have "int w \<le> int (w * h * c)" "int h \<le> int (w * h * c)" by (simp_all only: of_nat_le_iff) (simp_all add: ac_simps)
  then show "int w \<le> INT_MAX" "int h \<le> INT_MAX" using assms(4) by simp_all
qed

definition unit_float :: "stbi_uc \<Rightarrow> f32" where
  "unit_float v = f32_div (f32_of_int (uint v)) (f32_of_int 255)"

lemma unit_float_unit: "\<exists>q. unit_float v = Fin q \<and> 0 \<le> q \<and> q \<le> 1"
proof -
  define i where "i = uint v"
  have i: "0 \<le> i" "i \<le> 255" using uint_bounds8 [of v] by (simp_all add: i_def)
  then have q: "0 \<le> (of_int i :: rat)" "of_int i \<le> (of_int 255 :: rat)" by (simp, simp only: of_int_le_iff)
  have "unit_float v = f32_round (of_int i / 255)"
    using i by (simp add: unit_float_def f32_of_int_small flip: i_def)
  moreover have "\<exists>q. f32_round (of_int i / 255) = Fin q \<and> 0 \<le> q \<and> q \<le> 1"
    using q by (intro f32_round_unit) simp_all
  ultimately show ?thesis by simp
qed

text \<open>The tensor after the first \<open>n\<close> pixels.\<close>

definition chw_after :: "nat \<Rightarrow> nat \<Rightarrow> stbi_uc list \<Rightarrow> f32 list \<Rightarrow> nat \<Rightarrow> f32 list" where
  "chw_after area c img tensor n =
     map (\<lambda>j. if j < 3 * area \<and> j mod area < n then unit_float (img ! (j mod area * c + j div area)) else tensor ! j)
       [0..<length tensor]"

lemma chw_after_0 [simp]: "chw_after area c img tensor 0 = tensor"
  by (simp add: chw_after_def map_nth)

lemma chw_after_Suc:
  assumes "n < area" and "3 * area \<le> length tensor"
  shows "(chw_after area c img tensor n)[n := unit_float (img ! (n * c)), area + n := unit_float (img ! (n * c + 1)),
      2 * area + n := unit_float (img ! (n * c + 2))] = chw_after area c img tensor (Suc n)"
proof (rule nth_equalityI)
  fix j assume "j < length ((chw_after area c img tensor n)[n := unit_float (img ! (n * c)),
      area + n := unit_float (img ! (n * c + 1)), 2 * area + n := unit_float (img ! (n * c + 2))])"
  then have j: "j < length tensor" by (simp add: chw_after_def)
  consider "j = n" | "j = area + n" | "j = 2 * area + n" | "j \<noteq> n" "j \<noteq> area + n" "j \<noteq> 2 * area + n" by blast
  then show "(chw_after area c img tensor n)[n := unit_float (img ! (n * c)), area + n := unit_float (img ! (n * c + 1)),
      2 * area + n := unit_float (img ! (n * c + 2))] ! j = chw_after area c img tensor (Suc n) ! j"
  proof cases
    case 4
    have "j mod area \<noteq> n" if "j < 3 * area"
    proof
      assume n: "j mod area = n"
      have "j div area < 3" using that by (simp add: less_mult_imp_div_less)
      then have "j div area = 0 \<or> j div area = 1 \<or> j div area = 2" by auto
      then show False using 4 div_mult_mod_eq [of j area] n by auto
    qed
    then show ?thesis using 4 j by (auto simp: chw_after_def less_Suc_eq)
  qed (use assms j in \<open>auto simp: chw_after_def\<close>)
qed (simp add: chw_after_def)

lemma plane_stores:
  assumes y: "y < h" and x: "x < w" and c: "3 \<le> c" "int (w * h * c) \<le> INT_MAX"
    and img: "w * h * c \<le> length img" and tensor: "3 * (h * w) \<le> length tensor"
  defines "n \<equiv> y * w + x"
  shows "ebind (plane_store (int w) (int h) (int c) img y x 0 (chw_after (h * w) c img tensor n)) (\<lambda>t.
      ebind (plane_store (int w) (int h) (int c) img y x 1 t) (\<lambda>t. plane_store (int w) (int h) (int c) img y x 2 t)) =
    Inr (chw_after (h * w) c img tensor (Suc n))"
proof -
  have n: "n < h * w"
  proof -
    have "n < Suc y * w" using x by (simp add: n_def)
    also have "\<dots> \<le> h * w" using y by (intro mult_le_mono1) simp
    finally show ?thesis .
  qed
  have "Suc n * c \<le> h * w * c" using n by (intro mult_le_mono1) simp
  then have nc: "n * c + 3 \<le> w * h * c" using c(1) by (simp add: mult.commute mult.left_commute)
  have nc_int: "int (n * c) \<le> INT_MAX" using nc c(2) by linarith
  have idx: "intcast ((int y * int w + int x) * int c) = int (n * c)"
    using intcast_id [of "int (n * c)"] nc_int by (simp add: n_def)
  have pos: "k * int h * int w + int y * int w + int x = int (nat k * (h * w) + n)" if "0 \<le> k" for k
    using that by (simp add: n_def)
  have get: "arr_get img (int (n * c) + int k) = Inr (img ! (n * c + k))" if "k < 3" for k
    unfolding of_nat_add [symmetric] by (rule arr_get_nat) (use that nc img in linarith)
  have upd: "plane_store (int w) (int h) (int c) img y x (int k) t = Inr (t[k * (h * w) + n := unit_float (img ! (n * c + k))])"
    if "k < 3" "length t = length tensor" for k t
  proof -
    have "k * (h * w) + n < 3 * (h * w)"
    proof -
      have "k * (h * w) + n < Suc k * (h * w)" using n by simp
      also have "\<dots> \<le> 3 * (h * w)" using that(1) by (intro mult_le_mono1) simp
      finally show ?thesis .
    qed
    then have "k * (h * w) + n < length t" using that(2) tensor by simp
    then show ?thesis
      unfolding plane_store_def idx Let_def get [OF that(1)] pos [OF of_nat_0_le_iff] nat_int
      by (simp add: unit_float_def del: of_nat_add)
  qed
  have len: "length (chw_after (h * w) c img tensor n) = length tensor" by (simp add: chw_after_def)
  show ?thesis
    using upd [of 0] upd [of 1] upd [of 2] chw_after_Suc [OF n tensor, of c img] len by simp
qed

lemma hwc_to_chw_after:
  assumes c: "3 \<le> c" "int (w * h * c) \<le> INT_MAX" and "int w \<le> INT_MAX" "int h \<le> INT_MAX"
    and img: "w * h * c \<le> length img" and tensor: "3 * (h * w) \<le> length tensor"
  shows "hwc_to_chw (int w) (int h) (int c) img tensor = Inr (chw_after (h * w) c img tensor (h * w))"
proof -
  let ?body = "\<lambda>y x tensor. ebind (plane_store (int w) (int h) (int c) img y x 0 tensor) (\<lambda>tensor.
      ebind (plane_store (int w) (int h) (int c) img y x 1 tensor) (\<lambda>tensor.
      plane_store (int w) (int h) (int c) img y x 2 tensor))"
  have row: "efold (?body y) [0..<w] (chw_after (h * w) c img tensor (y * w)) =
      Inr (chw_after (h * w) c img tensor (Suc y * w))" if "y < h" for y
    using efold_Inr_upt [of 0 w "?body y" "\<lambda>x. chw_after (h * w) c img tensor (y * w + x)"]
      plane_stores [OF that _ c img tensor] by (simp add: add.commute)
  have "efold (\<lambda>y. efold (?body y) [0..<w]) [0..<h] (chw_after (h * w) c img tensor (0 * w)) =
      Inr (chw_after (h * w) c img tensor (h * w))"
    by (rule efold_Inr_upt) (use row in auto)
  then show ?thesis using assms(3,4) by (simp add: hwc_to_chw_def)
qed

section \<open>The detections\<close>

text \<open>The boxes of the proposals whose confidence reaches the threshold, in their order.\<close>

definition confident_boxes :: "yolo_state \<Rightarrow> f32 \<Rightarrow> proposal list \<Rightarrow> YoloBoundingBox list" where
  "confident_boxes g threshold ps = map (box_of g) (filter (\<lambda>p. f32_ge (prop_conf p) threshold) ps)"

lemma detect_loop_boxes:
  assumes "\<And>i. i \<in> set is \<Longrightarrow> read_proposal g arr i = Inr (p i)"
    and "maxd \<le> int (length det)" and "int hits \<le> maxd"
  shows "detect_loop g arr thr maxd is hits det =
    (let bs = take (nat maxd - hits) (confident_boxes g thr (map p is))
     in Inr (hits + length bs, take hits det @ bs @ drop (hits + length bs) det))"
  using assms
proof (induction "is" arbitrary: hits det)
  case (Cons i "is")
  show ?case
  proof (cases "int hits < maxd")
    case True
    then have h: "hits < length det" "nat maxd - hits = Suc (nat maxd - Suc hits)" using Cons.prems(2) by linarith+
    have rd: "read_proposal g arr i = Inr (p i)" using Cons.prems(1) by simp
    show ?thesis
    proof (cases "f32_ge (prop_conf (p i)) thr")
      case ge: True
      have "detect_loop g arr thr maxd is (hits + 1) (det[hits := box_of g (p i)]) =
          (let bs = take (nat maxd - (hits + 1)) (confident_boxes g thr (map p is)) in
           Inr (hits + 1 + length bs, take (hits + 1) (det[hits := box_of g (p i)]) @ bs @
             drop (hits + 1 + length bs) (det[hits := box_of g (p i)])))"
        by (rule Cons.IH) (use Cons.prems True in auto)
      moreover have "take (hits + 1) (det[hits := box_of g (p i)]) = take hits det @ [box_of g (p i)]"
        using h(1) by (simp add: take_Suc_conv_app_nth)
      ultimately show ?thesis
        using True h rd ge by (simp add: confident_boxes_def Let_def)
    next
      case False
      then show ?thesis
        using True rd Cons by (simp add: confident_boxes_def)
    qed
  qed (use Cons.prems in \<open>simp add: confident_boxes_def\<close>)
qed (simp add: confident_boxes_def)

lemma detect_loop_inv:
  assumes "detect_loop g arr thr maxd is hits det = Inr (hits', det')"
  shows "hits \<le> hits' \<and> int hits' \<le> max (int hits) maxd \<and> length det' = length det \<and>
    (\<forall>j. hits \<le> j \<and> j < hits' \<longrightarrow> j < length det \<and> f32_ge (box_confidence (det' ! j)) thr) \<and>
    (\<forall>j. j < hits \<or> hits' \<le> j \<longrightarrow> det' ! j = det ! j)"
  using assms
proof (induction "is" arbitrary: hits det)
  case (Cons i "is")
  show ?case
  proof (cases "int hits < maxd")
    case True
    with Cons.prems obtain p where p: "read_proposal g arr i = Inr p"
      by (auto simp: ebind_eq_Inr)
    show ?thesis
    proof (cases "f32_ge (prop_conf p) thr")
      case ge: True
      then have "arr_set det (int hits) (box_of g p) \<noteq> Inl Undefined" using Cons.prems True p by auto
      then have h: "hits < length det" by (simp add: arr_set_def split: if_splits)
      then have IH: "hits + 1 \<le> hits' \<and> int hits' \<le> max (int (hits + 1)) maxd \<and>
          length det' = length (det[hits := box_of g p]) \<and>
          (\<forall>j. hits + 1 \<le> j \<and> j < hits' \<longrightarrow> j < length (det[hits := box_of g p]) \<and> f32_ge (box_confidence (det' ! j)) thr) \<and>
          (\<forall>j. j < hits + 1 \<or> hits' \<le> j \<longrightarrow> det' ! j = det[hits := box_of g p] ! j)"
        using Cons.prems True p ge by (intro Cons.IH) simp
      then have "det' ! hits = box_of g p" using h by simp
      then have "f32_ge (box_confidence (det' ! hits)) thr" using ge by (simp add: box_of_def Let_def)
      then have "j < length det \<and> f32_ge (box_confidence (det' ! j)) thr" if "hits \<le> j" "j < hits'" for j
        using that IH h by (cases "j = hits") simp_all
      moreover have "det' ! j = det ! j" if "j < hits \<or> hits' \<le> j" for j
        using that IH by auto
      ultimately show ?thesis using IH True by simp
    next
      case False
      then show ?thesis using Cons.IH [of hits det] Cons.prems True p by simp
    qed
  qed (use Cons.prems in auto)
qed auto

section \<open>Sequences of calls\<close>

text \<open>The states of the static variables after any calls, each with its own arguments.\<close>

inductive yolo_reach :: "ort_model \<Rightarrow> yolo_state \<Rightarrow> bool" for m where
  start: "yolo_reach m yolo_start"
| info: "yolo_reach m g \<Longrightarrow> yolo_reach m (snd (Yolo26_GetEngineInfo m g))"
| detect: "yolo_reach m g \<Longrightarrow>
    yolo_reach m (snd (Yolo26_Detect_Tensor env (s :: unit stbi__context) resize m data len thr det maxd g))"

text \<open>The variables other than the two caches; what the first call makes of them.\<close>

definition model_part :: "yolo_state \<Rightarrow> yolo_state" where
  "model_part g = g\<lparr>engine_info_cache := [], input_tensor_values := []\<rparr>"

definition loaded_part :: "ort_model \<Rightarrow> yolo_state" where
  "loaded_part m = snd (load_model m (yolo_start\<lparr>ort_env := True\<rparr>))"

definition yolo_inv :: "ort_model \<Rightarrow> yolo_state \<Rightarrow> bool" where
  "yolo_inv m g \<longleftrightarrow>
     model_part g = (if ort_env g then loaded_part m else yolo_start) \<and>
     (input_tensor_values g = [] \<or> length (input_tensor_values g) = model_tensor_size g)"

lemma model_part_session: "ort_session (model_part g) = ort_session g"
  by (simp add: model_part_def)

lemma model_part_load:
  "model_part (snd (load_model m g)) = snd (load_model m (model_part g))"
  by (simp add: model_part_def load_model_def read_input_shape_def read_output_shape_def sbind_def sguard_def smodify_def
      sfail_def slift_def sret_def swhen_def Let_def split: option.split sum.split prod.split)

lemma load_model_caches:
  "input_tensor_values (snd (load_model m g)) = input_tensor_values g" "ort_env (snd (load_model m g)) = ort_env g"
  by (simp_all add: load_model_def read_input_shape_def read_output_shape_def sbind_def sguard_def smodify_def
      sfail_def slift_def sret_def swhen_def Let_def split: option.split sum.split prod.split)

lemma ensure_session_inv:
  assumes "yolo_inv m g" and "ensure_session m g = (r, g')"
  shows "yolo_inv m g' \<and> ort_env g'"
proof (cases "ort_env g")
  case False
  then have g': "g' = snd (load_model m (g\<lparr>ort_env := True\<rparr>))"
    using assms(2) by (auto simp: ensure_session_def sbind_def sget_def smodify_def stry_def split: prod.splits sum.splits)
  have start: "model_part g = yolo_start" using assms(1) False by (simp add: yolo_inv_def)
  have "model_tensor_size g = 0" using arg_cong [OF start, of model_tensor_size] by (simp add: model_part_def yolo_start_def)
  then have v: "input_tensor_values g = []" using assms(1) by (auto simp: yolo_inv_def)
  have "model_part (g\<lparr>ort_env := True\<rparr>) = (model_part g)\<lparr>ort_env := True\<rparr>" by (simp add: model_part_def)
  then have "model_part g' = loaded_part m"
    unfolding g' model_part_load loaded_part_def start by simp
  then show ?thesis
    using v by (simp add: yolo_inv_def g' load_model_caches)
qed (use assms in \<open>simp add: ensure_session_def sbind_def sget_def sret_def\<close>)

lemma plane_store_length: "plane_store w h c img y x k t = Inr t' \<Longrightarrow> length t' = length t"
  by (auto simp: plane_store_def Let_def ebind_eq_Inr dest: arr_set_length)

lemma hwc_to_chw_length:
  assumes "hwc_to_chw w h c img t = Inr t'"
  shows "length t' = length t"
proof -
  have "efold (\<lambda>y. efold (\<lambda>x t. ebind (plane_store w h c img y x 0 t) (\<lambda>t.
      ebind (plane_store w h c img y x 1 t) (\<lambda>t. plane_store w h c img y x 2 t))) [0..<nat w]) [0..<nat h] t = Inr t'"
    using assms by (simp add: hwc_to_chw_def split: if_splits)
  then show ?thesis
  proof (rule efold_Inr_inv [where P = "\<lambda>u. length u = length t"])
    fix y u u' assume "efold (\<lambda>x t. ebind (plane_store w h c img y x 0 t) (\<lambda>t.
      ebind (plane_store w h c img y x 1 t) (\<lambda>t. plane_store w h c img y x 2 t))) [0..<nat w] u = Inr u'" "length u = length t"
    then show "length u' = length t"
      by (rule efold_Inr_inv) (auto simp: ebind_eq_Inr plane_store_length)
  qed simp
qed

lemma vector_resize_length: "vector_resize n v = Inr v' \<Longrightarrow> length v' = n"
  by (auto simp: vector_resize_def split: if_splits)

text \<open>A call changes nothing but the tensor, which gets the size of the model.\<close>

lemma prepare_image_frame:
  assumes "prepare_image env s resize data g = (r, g')"
  shows "\<exists>v. g' = g\<lparr>input_tensor_values := v\<rparr> \<and> length v = length (input_tensor_values g)"
  using assms
  by (auto simp: prepare_image_def Let_def sbind_def sget_def sattempt_def slift_def sret_def sfail_def smodify_def
      split: prod.splits sum.splits pixel_data.splits if_splits dest: hwc_to_chw_length intro: exI [of _ "input_tensor_values g"])

lemma input_tensor_frame:
  assumes "input_tensor env s resize data len g = (r, g')"
  shows "g' = g \<or> (\<exists>v. g' = g\<lparr>input_tensor_values := v\<rparr> \<and> length v = model_tensor_size g)"
proof (cases "vector_resize (model_tensor_size g) (input_tensor_values g)")
  case (Inr v)
  let ?g = "g\<lparr>input_tensor_values := v\<rparr>"
  have v: "length v = model_tensor_size g" using Inr by (rule vector_resize_length)
  have "g' = ?g \<or> (\<exists>r. prepare_image env s resize data ?g = (r, g'))"
    using assms Inr
    by (auto simp: input_tensor_def sbind_def sget_def slift_def sret_def sfail_def smodify_def split: prod.splits sum.splits if_splits)
  then show ?thesis using v by (auto dest!: prepare_image_frame)
qed (use assms in \<open>auto simp: input_tensor_def sbind_def sget_def slift_def\<close>)

lemma detect_frame:
  assumes "Yolo26_Detect_Tensor env s resize m data len thr det maxd g = (r, g')" and "ensure_session m g = (r1, g1)"
  shows "g' = g1 \<or> (\<exists>v. g' = g1\<lparr>input_tensor_values := v\<rparr> \<and> length v = model_tensor_size g1)"
proof -
  have "g' = g1 \<or> (\<exists>r. input_tensor env s resize data len g1 = (r, g'))"
    using assms
    by (auto simp: Yolo26_Detect_Tensor_def run_model_def sbind_def sget_def slift_def sret_def sfail_def
        split: prod.splits sum.splits if_splits option.splits)
  then show ?thesis by (auto dest!: input_tensor_frame)
qed

lemma yolo_reach_inv: "yolo_reach m g \<Longrightarrow> yolo_inv m g"
proof (induction rule: yolo_reach.induct)
  case start
  show ?case by (simp add: yolo_inv_def model_part_def yolo_start_def)
next
  case (info g)
  then show ?case
    by (simp add: yolo_inv_def model_part_def Yolo26_GetEngineInfo_def sbind_def sget_def smodify_def sret_def Let_def)
next
  case (detect g env s resize data len thr det maxd)
  obtain r1 g1 where g1: "ensure_session m g = (r1, g1)" by fastforce
  have inv: "yolo_inv m g1 \<and> ort_env g1" using ensure_session_inv [OF detect.IH g1] .
  obtain r g' where g': "Yolo26_Detect_Tensor env s resize m data len thr det maxd g = (r, g')" by fastforce
  show ?case
    using detect_frame [OF g' g1] inv unfolding g' by (auto simp: yolo_inv_def model_part_def)
qed

section \<open>Safety of a call\<close>

text \<open>What the theorems below assume of the code around the core. \<open>opens_as\<close>: the model can be opened, takes one picture of
  three planes of \<open>h * w\<close> numbers and announces an output of \<open>p * e\<close> numbers. \<open>returns_shape\<close>: the runtime
  returns as many numbers as the model announces. \<open>readable_output\<close>: what the core takes for granted of that output
  and does not check. With fewer rows than columns it reads one column per proposal, from at least four
  rows; otherwise it reads one row per proposal, of at least six numbers, the sixth of which has to be the value of an \<open>int\<close>.
  \<open>resize_ok\<close>: the picture that \<open>data\<close> holds, if any, has the size of the network's input and is not rescaled, or the rescaling
  routine stores nothing behind the target picture when it is called for it.\<close>

definition opens_as :: "ort_model \<Rightarrow> nat \<Rightarrow> nat \<Rightarrow> nat \<Rightarrow> nat \<Rightarrow> bool" where
  "opens_as m w h p e \<longleftrightarrow> ort_opens m \<and> ort_has_memory m \<and>
     ort_in_shape m = Some [1, 3, int h, int w] \<and> ort_out_shape m = Some [1, int p, int e] \<and>
     0 < w \<and> 0 < h \<and> int (w * h * 3) \<le> INT_MAX"

definition returns_shape :: "ort_model \<Rightarrow> nat \<Rightarrow> nat \<Rightarrow> bool" where
  "returns_shape m p e \<longleftrightarrow> (\<forall>t shape arr. ort_run m t shape = Some arr \<longrightarrow> length arr = p * e)"

definition readable_output :: "ort_model \<Rightarrow> nat \<Rightarrow> nat \<Rightarrow> bool" where
  "readable_output m p e \<longleftrightarrow>
     (if p < e then 4 \<le> p
      else 6 \<le> e \<and> (\<forall>t shape arr i. ort_run m t shape = Some arr \<longrightarrow> i < p \<longrightarrow>
             f32_to_int INT_MIN INT_MAX (arr ! (i * e + 5)) \<noteq> Inl Undefined))"

definition resize_ok ::
    "stbi_env \<Rightarrow> 'u stbi__context \<Rightarrow> (stbi_uc list \<Rightarrow> nat \<Rightarrow> nat \<Rightarrow> int \<Rightarrow> int \<Rightarrow> stbi_uc list) \<Rightarrow> stbi_uc list \<Rightarrow> nat \<Rightarrow> nat \<Rightarrow> bool" where
  "resize_ok env s resize data w h \<longleftrightarrow>
     (\<forall>img d. stbi_load_from_memory env s data 3 = Inr img \<longrightarrow> ld_data img = Pixels8 d \<longrightarrow>
        ld_x img = w \<and> ld_y img = h \<or> length (resize d (ld_x img) (ld_y img) (int w) (int h)) \<le> w * h * 3)"

definition model_loaded :: "nat \<Rightarrow> nat \<Rightarrow> nat \<Rightarrow> nat \<Rightarrow> yolo_state \<Rightarrow> bool" where
  "model_loaded w h p e g \<longleftrightarrow> ort_session g \<and> ort_memory_info g \<and> model_width g = int w \<and> model_height g = int h \<and>
     model_channels g = 3 \<and> model_tensor_size g = 3 * (h * w) \<and> model_proposals g = int p \<and> model_proposal_elements g = int e"

lemma tensor_size_3:
  assumes "int (w * h * 3) \<le> INT_MAX" and "0 < w"
  shows "tensor_size 1 3 (int h) (int w) = Inr (3 * (h * w))"
proof -
  define n where "n = h * w"
  have n: "3 * int n < 2 ^ 31" using assms(1) by (simp add: INT_MAX_def n_def ac_simps)
  have "h \<le> n" using assms(2) by (simp add: n_def)
  then have "3 * int h < 2 ^ 63" using n by simp
  moreover have "1 * 3 * int h * int w = 3 * int n" by (simp add: n_def)
  moreover have "(3 * int n) mod 2 ^ 64 = 3 * int n" using n by (intro mod_pos_pos_trivial) simp_all
  ultimately show ?thesis
    using n unfolding tensor_size_def size_cast_def is_int64_def by (simp add: nat_mult_distrib flip: n_def)
qed

lemma load_model_ok:
  assumes "opens_as m w h p e"
  shows "load_model m g = (Inr (), snd (load_model m g))" "model_loaded w h p e (snd (load_model m g))"
  using assms tensor_size_3 [of w h]
  by (simp_all add: opens_as_def load_model_def read_input_shape_def read_output_shape_def sbind_def sguard_def smodify_def
      slift_def swhen_def Let_def model_loaded_def)

lemma ensure_session_ok:
  assumes "yolo_reach m g" and "opens_as m w h p e"
  shows "\<exists>g1. ensure_session m g = (Inr True, g1) \<and> model_loaded w h p e g1 \<and> yolo_inv m g1"
proof (cases "ort_env g")
  case True
  have inv: "yolo_inv m g" using assms(1) by (rule yolo_reach_inv)
  then have "model_part g = loaded_part m" using True by (simp add: yolo_inv_def)
  moreover have "model_loaded w h p e (model_part g) = model_loaded w h p e g" by (simp add: model_loaded_def model_part_def)
  ultimately have "model_loaded w h p e g" using load_model_ok(2) [OF assms(2)] by (simp add: loaded_part_def)
  then show ?thesis using True inv by (simp add: ensure_session_def sbind_def sget_def sret_def)
next
  case False
  have "ensure_session m g = (Inr True, snd (load_model m (g\<lparr>ort_env := True\<rparr>)))"
    using False load_model_ok(1) [OF assms(2), of "g\<lparr>ort_env := True\<rparr>"]
    by (simp add: ensure_session_def sbind_def sget_def smodify_def stry_def) (metis (no_types, lifting) old.prod.case sum.case(2))
  then show ?thesis
    using load_model_ok(2) [OF assms(2)] ensure_session_inv [OF yolo_reach_inv [OF assms(1)]] by auto
qed

lemma read_proposal_row:
  assumes "model_loaded w h p e g" and "6 \<le> e" "e \<le> p" "int p \<le> INT_MAX" and "length arr = p * e" and "i < p"
    and "f32_to_int INT_MIN INT_MAX (arr ! (i * e + 5)) \<noteq> Inl Undefined"
  shows "\<exists>q. read_proposal g arr i = Inr q"
proof -
  have "Suc i * e \<le> p * e" using assms(6) by (intro mult_le_mono1) simp
  then have lt: "i * e + 5 < length arr" using assms(2,5) by simp
  have get: "arr_get arr (int i * int e + int k) = Inr (arr ! (i * e + k))" if "k \<le> 5" for k
    unfolding of_nat_mult [symmetric] of_nat_add [symmetric] by (rule arr_get_nat) (use that lt in linarith)
  obtain c where "f32_to_int INT_MIN INT_MAX (arr ! (i * e + 5)) = Inr c"
    using assms(7) by (cases "f32_to_int INT_MIN INT_MAX (arr ! (i * e + 5))")
      (auto simp: f32_to_int_def split: f32.splits if_splits)
  then show ?thesis
    using assms(1,3,4,6) get [of 0] get [of 1] get [of 2] get [of 3] get [of 4] get [of 5]
    by (simp add: read_proposal_def model_loaded_def proposal_row_def Let_def)
qed

lemma read_proposal_transposed:
  assumes "model_loaded w h p e g" and "4 \<le> p" "p < e" "int e \<le> INT_MAX" and "length arr = p * e" and "i < e"
  shows "\<exists>q. read_proposal g arr i = Inr q"
proof -
  have get: "arr_get arr (int c * int e + int i) = Inr (arr ! (c * e + i))" if "c < p" for c
  proof -
    have "c * e + i < Suc c * e" using assms(6) by simp
    also have "\<dots> \<le> p * e" using that by (intro mult_le_mono1) simp
    finally show ?thesis
      unfolding of_nat_mult [symmetric] of_nat_add [symmetric] using assms(5) by (intro arr_get_nat) simp
  qed
  have "\<exists>r. efold (\<lambda>c (conf, classId).
      ebind (arr_get arr (int c * int e + int i)) (\<lambda>class_prob.
      Inr (if f32_less conf class_prob then (class_prob, int c - 4) else (conf, classId)))) cs s = Inr r"
    if "set cs \<subseteq> {..<p}" for cs and s :: "f32 \<times> int"
    using that by (induction cs arbitrary: s) (auto simp: get split: prod.splits)
  from this [of "[4..<p]" "(Fin 0, 0)"] obtain r where "best_class arr (int e) (int p) (int i) = Inr r"
    by (auto simp: best_class_def subset_eq)
  then show ?thesis
    using assms(1-4,6) get [of 0] get [of 1] get [of 2] get [of 3]
    by (cases r) (simp add: read_proposal_def model_loaded_def proposal_transposed_def)
qed

lemma ensures_detect_loop:
  assumes "\<And>i. i \<in> set is \<Longrightarrow> \<exists>q. read_proposal g arr i = Inr q" and "0 \<le> maxd" "maxd \<le> int (length det)"
  shows "ensures (detect_loop g arr thr maxd is 0 det) (\<lambda>_. True)"
proof -
  have "\<exists>q. \<forall>i \<in> set is. read_proposal g arr i = Inr (q i)" using assms(1) by (intro bchoice) blast
  then obtain q where "\<And>i. i \<in> set is \<Longrightarrow> read_proposal g arr i = Inr (q i)" by blast
  from detect_loop_boxes [OF this, of "is" maxd det 0 thr] assms(2,3) show ?thesis by (simp add: Let_def)
qed

lemma ensures_rescale:
  assumes "iw = w \<and> ih = h \<or> length (resize d iw ih (int w) (int h)) \<le> w * h * 3" and "length d = iw * ih * 3"
    and "0 < w" "0 < h" and "int (w * h * 3) \<le> INT_MAX"
  shows "ensures (rescale resize (int w) (int h) 3 d iw ih) (\<lambda>d. length d = w * h * 3)"
proof -
  have cast: "intcast (int w) = int w" "intcast (int h) = int h"
    using dims_INT_MAX [OF assms(3,4) _ assms(5)] by (simp_all add: intcast_id)
  have n: "nat (int w * int h * 3) = w * h * 3" by (simp add: nat_mult_distrib)
  have "ensures (store_from (replicate (w * h * 3) 0) 0 (resize d iw ih (int w) (int h))) (\<lambda>ys. length ys = w * h * 3)"
    if "length (resize d iw ih (int w) (int h)) \<le> w * h * 3"
    using ensures_store_from [of 0 "resize d iw ih (int w) (int h)" "replicate (w * h * 3) 0"] zle_int [THEN iffD2, OF that]
    by simp
  then show ?thesis
    unfolding rescale_def cast n using assms(1,2) by (auto simp: mult_less_0_iff)
qed

definition decodes :: "stbi_env \<Rightarrow> 'u stbi__context \<Rightarrow> stbi_uc list \<Rightarrow> bool" where
  "decodes env s data \<longleftrightarrow> ensures (stbi_load_from_memory env s data 3) (pixels8_ok 3)"

lemma wp_prepare_image:
  assumes g: "model_loaded w h p e g" "length (input_tensor_values g) = model_tensor_size g"
    and wh: "0 < w" "0 < h" "int (w * h * 3) \<le> INT_MAX" and "resize_ok env s resize data w h" and "decodes env s data"
  shows "wp (prepare_image env s resize data) (\<lambda>_ g'. model_loaded w h p e g') (\<lambda>_. True) g"
proof -
  have c: "intcast 3 = 3" by (rule intcast_id) (simp_all add: INT_MAX_def)
  have dims: "int w \<le> INT_MAX" "int h \<le> INT_MAX" using dims_INT_MAX [OF wh(1,2) _ wh(3)] by simp_all
  have chw: "ensures (hwc_to_chw (int w) (int h) 3 d (input_tensor_values g)) (\<lambda>_. True)" if "length d = w * h * 3" for d
    using hwc_to_chw_after [OF _ wh(3) dims, of d "input_tensor_values g"] g that by (simp add: model_loaded_def)
  have finish: "wp (case ld_data img of Pixels16 _ \<Rightarrow> sfail Undefined
         | Pixels8 d \<Rightarrow>
             sbind (slift (rescale resize (int w) (int h) 3 d (ld_x img) (ld_y img))) (\<lambda>d.
             sbind (slift (hwc_to_chw (int w) (int h) 3 d (input_tensor_values g))) (\<lambda>t.
             sbind (smodify (\<lambda>g. g\<lparr>input_tensor_values := t\<rparr>)) (\<lambda>_. sret True))))
       (\<lambda>_ g'. model_loaded w h p e g') (\<lambda>_. True) g" if img: "pixels8_ok 3 img \<and> stbi_load_from_memory env s data 3 = Inr img" for img
  proof -
    obtain d where d: "ld_data img = Pixels8 d" "length d = ld_x img * ld_y img * 3"
      using img by (auto simp: pixels8_ok_def channels_of_def)
    have fit: "ld_x img = w \<and> ld_y img = h \<or> length (resize d (ld_x img) (ld_y img) (int w) (int h)) \<le> w * h * 3"
      using assms(6) img d(1) by (auto simp: resize_ok_def)
    have rescale: "ensures (rescale resize (int w) (int h) 3 d (ld_x img) (ld_y img)) (\<lambda>d. length d = w * h * 3)"
      by (rule ensures_rescale) (use fit d(2) wh in simp_all)
    show ?thesis
      unfolding d(1) pixel_data.case
      by (intro wp_intros wp_slift ensures_mono [OF rescale] ensures_mono [OF chw])
        (use g(1) in \<open>simp_all add: model_loaded_def\<close>)
  qed
  have img: "ensures (stbi_load_from_memory env s data 3) (\<lambda>x. pixels8_ok 3 x \<and> stbi_load_from_memory env s data 3 = Inr x)"
    using assms(7) by (auto simp: decodes_def ensures_def split: sum.splits)
  have fields: "model_width g = int w" "model_height g = int h" "model_channels g = 3"
    using g(1) by (simp_all add: model_loaded_def)
  show ?thesis
    unfolding prepare_image_def Let_def id_def
  proof (intro wp_sbindI wp_basicI wp_sattemptI wp_slift)
    show "ensures (stbi_load_from_memory env s data (intcast (model_channels g)))
       (\<lambda>x. wp (case Inr x of Inl _ \<Rightarrow> sret False
         | Inr img \<Rightarrow> case ld_data img of Pixels8 d \<Rightarrow>
             sbind (slift (rescale resize (model_width g) (model_height g) (model_channels g) d (ld_x img) (ld_y img))) (\<lambda>d.
             sbind (slift (hwc_to_chw (model_width g) (model_height g) (model_channels g) d (input_tensor_values g))) (\<lambda>t.
             sbind (smodify (\<lambda>g. g\<lparr>input_tensor_values := t\<rparr>)) (\<lambda>_. sret True)))
           | Pixels16 _ \<Rightarrow> sfail Undefined) (\<lambda>_ g'. model_loaded w h p e g') (\<lambda>_. True) g)"
      unfolding fields c sum.case
      by (rule ensures_mono [OF img]) (rule finish)
  qed (use g(1) in \<open>simp add: wp_simps\<close>)
qed

lemma size_cast_id: "0 \<le> v \<Longrightarrow> v < 2 ^ 64 \<Longrightarrow> size_cast v = nat v"
  by (simp add: size_cast_def)

lemma wp_input_tensor:
  assumes g: "model_loaded w h p e g"
    and wh: "0 < w" "0 < h" "int (w * h * 3) \<le> INT_MAX" and "resize_ok env s resize data w h"
    and "decodes env s data" and "int (length data) \<le> INT_MAX"
  shows "wp (input_tensor env s resize data (int (length data))) (\<lambda>_ g'. model_loaded w h p e g') (\<lambda>_. True) g"
proof -
  define n where "n = 3 * (h * w)"
  have size: "model_tensor_size g = n" using g by (simp add: model_loaded_def n_def)
  have n: "int n < 2 ^ 31" using wh(3) by (simp add: INT_MAX_def n_def ac_simps)
  have cast: "size_cast (int n * 4) = n * 4" "size_cast (int (length data)) = length data"
    using n assms(7) by (simp_all add: size_cast_id INT_MAX_def nat_mult_distrib)
  have vec: "ensures (vector_resize n v) (\<lambda>v. length v = n)" for v
    using n by (auto simp: vector_resize_def)
  have prep: "wp (prepare_image env s resize data) (\<lambda>_ g'. model_loaded w h p e g') (\<lambda>_. True) (g\<lparr>input_tensor_values := v\<rparr>)"
    if "length v = n" for v
    using that g size by (intro wp_prepare_image wh assms(5,6)) (simp_all add: model_loaded_def)
  show ?thesis
    unfolding input_tensor_def id_def
    apply (intro wp_sbindI wp_basicI wp_slift)
     apply (unfold size cast)
     apply (rule ensures_mono [OF vec])
     apply (intro wp_intros wp_mono [OF prep])
    using g by (simp_all add: model_loaded_def)
qed

lemma wp_detect:
  assumes "yolo_reach m g" and m: "opens_as m w h p e" "int (max p e) \<le> INT_MAX" "returns_shape m p e" "readable_output m p e"
    and "resize_ok env s resize data w h" and "decodes env s data"
    and "int (length data) \<le> INT_MAX" and "maxd \<le> int (length det)"
  shows "wp (Yolo26_Detect_Tensor env s resize m data (int (length data)) thr det maxd) (\<lambda>_ _. True) (\<lambda>_. True) g"
proof -
  obtain g1 where g1: "ensure_session m g = (Inr True, g1)" "model_loaded w h p e g1"
    using ensure_session_ok [OF assms(1,2)] by blast
  have ok: "0 < w" "0 < h" "int (w * h * 3) \<le> INT_MAX"
    using m by (simp_all add: opens_as_def)
  have loop: "ensures (detect_loop g' arr thr maxd [0..<nat (num_proposals g')] 0 det) (\<lambda>_. True)"
    if "model_loaded w h p e g'" "ort_run m t shape = Some arr" "\<not> maxd < 1" for g' arr t shape
  proof (rule ensures_detect_loop)
    fix i assume "i \<in> set [0..<nat (num_proposals g')]"
    then have i: "i < (if p < e then e else p)" using that(1) by (simp add: num_proposals_def model_loaded_def split: if_splits)
    have len: "length arr = p * e" using m(3) that(2) by (auto simp: returns_shape_def)
    show "\<exists>q. read_proposal g' arr i = Inr q"
    proof (cases "p < e")
      case True
      with i len m(2,4) show ?thesis
        by (intro read_proposal_transposed [OF that(1)]) (auto simp: readable_output_def max_def split: if_splits)
    next
      case False
      with i len m(2,4) that(2) show ?thesis
        by (intro read_proposal_row [OF that(1)]) (auto simp: readable_output_def max_def split: if_splits)
    qed
  qed (use that(3) assms(9) in simp_all)
  have run: "wp (run_model m t) (\<lambda>arr g2. g2 = g' \<and> (\<exists>shape. ort_run m t shape = Some arr)) (\<lambda>_. True) g'"
    if "model_loaded w h p e g'" for t g'
    using that by (auto simp: run_model_def wp_simps model_loaded_def split: option.split)
  have session: "Q True g1 \<Longrightarrow> wp (ensure_session m) Q E g" for Q E
    using g1(1) by (simp add: wp_def)
  show ?thesis
    unfolding Yolo26_Detect_Tensor_def id_def
    by (intro wp_sbindI wp_ifI wp_basicI wp_optionI session wp_mono [OF run]
        wp_mono [OF wp_input_tensor [OF g1(2) ok(1-3) assms(6-8)]] wp_slift)
      (use g1(2) loop in \<open>auto simp: wp_simps\<close>)
qed

text \<open>Without the six columns: the last row of an output with fewer is read beyond its end.\<close>

lemma read_proposal_errors:
  assumes "read_proposal g arr i = Inl err"
  shows "err = Undefined"
proof -
  have "err = Undefined" if "efold (\<lambda>c (conf, classId).
        ebind (arr_get arr (int c * n + k)) (\<lambda>class_prob.
        Inr (if f32_less conf class_prob then (class_prob, int c - 4) else (conf, classId)))) cs s = Inl err"
    for cs n k and s :: "f32 \<times> int"
    using that by (induction cs arbitrary: s) (auto simp: ebind_def arr_get_def split: prod.splits sum.splits if_splits)
  with assms show ?thesis
    by (auto simp: read_proposal_def proposal_row_def proposal_transposed_def best_class_def f32_to_int_def arr_get_def Let_def ebind_def
        split: if_splits sum.splits prod.splits f32.splits)
qed

lemma detect_loop_reaches:
  assumes "read_proposal g arr k = Inl Undefined" and "int (hits + length is) < maxd" and "maxd \<le> int (length det)"
  shows "detect_loop g arr thr maxd (is @ [k]) hits det = Inl Undefined"
  using assms(2,3)
proof (induction "is" arbitrary: hits det)
  case (Cons i "is")
  then show ?case
    using read_proposal_errors [of g arr i] by (cases "read_proposal g arr i") (auto simp: arr_set_def)
qed (use assms(1) in simp)

lemma short_row_undefined:
  assumes "model_loaded w h p e g" and "e < 6" "e \<le> p" "0 < p" and "length arr = p * e"
  shows "read_proposal g arr (p - 1) = Inl Undefined"
proof -
  have "(p - 1) * e + 5 \<ge> length arr"
    using assms(2,4,5) by (cases p) simp_all
  then have "int (length arr) \<le> int ((p - 1) * e + 5)" by (simp only: of_nat_le_iff)
  then have "arr_get arr (int (p - 1) * int e + 5) = Inl Undefined"
    using assms(4) by (simp add: arr_get_def)
  then have "proposal_row arr (int e) (int (p - 1)) = Inl Undefined"
    by (auto simp: proposal_row_def Let_def ebind_def arr_get_def split: sum.splits)
  then show ?thesis
    using assms(1,3) by (auto simp: read_proposal_def model_loaded_def)
qed

section \<open>Properties\<close>

text \<open>C35. The tensor of a picture: the three nested stores of the native core put sample \<open>k\<close> of pixel \<open>(y, x)\<close> of an
  interleaved picture with at least three components at position \<open>(k, y, x)\<close> of the planar tensor, scaled to a float
  between 0 and 1, and change nothing behind the three planes; nothing out of bounds is read or written.\<close>

theorem hwc_to_chw_planes:
  assumes "0 < w" "0 < h" "3 \<le> c" and "int (w * h * c) \<le> INT_MAX" and "w * h * c \<le> length img"
    and "3 * (h * w) \<le> length tensor"
  shows "\<exists>t. hwc_to_chw (int w) (int h) (int c) img tensor = Inr t \<and> length t = length tensor \<and>
    (\<forall>k y x. k < 3 \<and> y < h \<and> x < w \<longrightarrow>
       t ! (k * (h * w) + (y * w + x)) = f32_div (f32_of_int (uint (img ! ((y * w + x) * c + k)))) (f32_of_int 255) \<and>
       (\<exists>q. t ! (k * (h * w) + (y * w + x)) = Fin q \<and> 0 \<le> q \<and> q \<le> 1)) \<and>
    (\<forall>j. 3 * (h * w) \<le> j \<longrightarrow> j < length tensor \<longrightarrow> t ! j = tensor ! j)"
proof -
  have wh: "int w \<le> INT_MAX" "int h \<le> INT_MAX"
    using dims_INT_MAX [OF assms(1,2) _ assms(4)] assms(3) by simp_all
  note t = hwc_to_chw_after [OF assms(3,4) wh assms(5,6)]
  have "chw_after (h * w) c img tensor (h * w) ! (k * (h * w) + (y * w + x)) = unit_float (img ! ((y * w + x) * c + k))"
    if "k < 3" "y < h" "x < w" for k y x
  proof -
    have r: "y * w + x < h * w"
      using less_le_trans [of "y * w + x" "Suc y * w" "h * w"] mult_le_mono1 [of "Suc y" h w] that(2,3) by simp
    define a b where "a = h * w" and "b = y * w + x"
    have "k * a + b < Suc k * a" using r by (simp add: a_def b_def)
    also have "\<dots> \<le> 3 * a" using that(1) by (intro mult_le_mono1) simp
    finally show ?thesis using r assms(6) unfolding a_def [symmetric] b_def [symmetric] by (simp add: chw_after_def)
  qed
  with t unit_float_unit show ?thesis
    by (auto simp: unit_float_def chw_after_def)
qed

theorem hwc_to_chw_planes_witness:
  "\<exists>t. hwc_to_chw 2 1 3 [255, 0, 51, 0, 255, 102] (replicate 6 (Fin 0)) = Inr t \<and>
    t ! 3 = f32_div (f32_of_int 255) (f32_of_int 255)"
proof -
  let ?img = "[255, 0, 51, 0, 255, 102] :: stbi_uc list"
  obtain t where t: "hwc_to_chw (int 2) (int 1) (int 3) ?img (replicate 6 (Fin 0)) = Inr t"
    and px: "\<forall>k y x. k < 3 \<and> y < 1 \<and> x < 2 \<longrightarrow>
      t ! (k * (1 * 2) + (y * 2 + x)) = f32_div (f32_of_int (uint (?img ! ((y * 2 + x) * 3 + k)))) (f32_of_int 255) \<and>
      (\<exists>q. t ! (k * (1 * 2) + (y * 2 + x)) = Fin q \<and> 0 \<le> q \<and> q \<le> 1)"
    using hwc_to_chw_planes [of 2 1 3 ?img "replicate 6 (Fin 0)"] by (force simp: INT_MAX_def simp del: One_nat_def)
  show ?thesis using t px [rule_format, of 1 0 1] by simp
qed

text \<open>C34. The detections: when the output of the network can be read, the loop over the proposals writes the boxes of the
  proposals whose confidence reaches the threshold, in their order and up to the number the caller has room for, to the
  front of the caller's array, leaves the rest of it alone, and returns their number.\<close>

theorem detect_loop_selects:
  assumes "\<And>i. i < n \<Longrightarrow> read_proposal g output_arr i = Inr (p i)"
    and "0 \<le> maxDetections" and "maxDetections \<le> int (length detections)"
  shows "detect_loop g output_arr threshold maxDetections [0..<n] 0 detections =
    (let bs = take (nat maxDetections)
       (map (box_of g) (filter (\<lambda>p. f32_ge (prop_conf p) threshold) (map p [0..<n])))
     in Inr (length bs, bs @ drop (length bs) detections))"
  using detect_loop_boxes [of "[0..<n]" g output_arr p maxDetections detections 0 threshold] assms
  by (simp add: confident_boxes_def Let_def)

definition example_box :: YoloBoundingBox where
  "example_box = \<lparr>box_x = Fin 0, box_y = Fin 0, box_width = Fin 0, box_height = Fin 0, box_confidence = Fin 0, box_classId = 0\<rparr>"

definition example_output :: "f32 list" where
  "example_output = [Fin 0, Fin 0, Fin 1, Fin 1, Fin 1, Fin 7]"

definition example_model :: ort_model where
  "example_model = \<lparr>ort_opens = True, ort_has_memory = True, ort_in_shape = Some [1, 1, 1, 1], ort_out_shape = Some [1, 6, 6],
     ort_run = (\<lambda>t shape. Some example_output), ort_version = ''1''\<rparr>"

definition example_env :: stbi_env where
  "example_env = \<lparr>env_cfg = stbi__config_start, env_h2l = hdr_settings_start, l2h_gamma = Fin 2, l2h_scale = Fin 1,
     env_pow = (\<lambda>x y. x), env_fuel = 10\<rparr>"

definition example_context :: "unit stbi__context" where
  "example_context = \<lparr>img_x = 0, img_y = 0, img_n = 0, img_out_n = 0, io = None, io_user_data = (), read_from_callbacks = False,
     buflen = 0, callback_already_read = 0, buffer = [], img_buffer = 0, img_buffer_end = 0, img_buffer_original = 0,
     img_buffer_original_end = 0\<rparr>"

definition example_resize :: "stbi_uc list \<Rightarrow> nat \<Rightarrow> nat \<Rightarrow> int \<Rightarrow> int \<Rightarrow> stbi_uc list" where
  "example_resize img iw ih w h = replicate (nat w * nat h * 3) 0"

lemma example_read:
  "read_proposal (loaded_part example_model) example_output 0 = Inr (corners (Fin 0) (Fin 0) (Fin 1) (Fin 1) (Fin 1) 7)"
  by code_simp

theorem detect_loop_selects_witness:
  "detect_loop (loaded_part example_model) example_output (Fin 0) 1 [0..<1] 0 [example_box] =
    Inr (1, [box_of (loaded_part example_model) (corners (Fin 0) (Fin 0) (Fin 1) (Fin 1) (Fin 1) 7)])"
proof -
  have "read_proposal (loaded_part example_model) example_output i = Inr (corners (Fin 0) (Fin 0) (Fin 1) (Fin 1) (Fin 1) 7)" if "i < 1" for i
    using that example_read by simp
  then show ?thesis
    using detect_loop_selects [of 1 "loaded_part example_model" example_output
        "\<lambda>_. corners (Fin 0) (Fin 0) (Fin 1) (Fin 1) (Fin 1) 7" 1 "[example_box]" "Fin 0"]
    by (simp add: corners_def f32_ge_def Let_def)
qed

text \<open>C33. What the host may rely on, for every model, input, picture and state: when \<open>Yolo26_Detect_Tensor\<close> returns, it reports at most
  \<open>maxDetections\<close> hits, the array keeps its size, every reported entry has a confidence that reaches the
  threshold, and the other entries are as the host left them.\<close>

theorem detect_tensor_hits:
  assumes "Yolo26_Detect_Tensor env s resize m data len threshold detections maxDetections g = (Inr (hits, detections'), g')"
  shows "int hits \<le> max 0 maxDetections \<and> length detections' = length detections \<and>
    (\<forall>j < hits. j < length detections' \<and> f32_ge (box_confidence (detections' ! j)) threshold) \<and>
    (\<forall>j. hits \<le> j \<longrightarrow> detections' ! j = detections ! j)"
proof -
  have "hits = 0 \<and> detections' = detections \<or>
      (\<exists>h arr is. detect_loop h arr threshold maxDetections is 0 detections = Inr (hits, detections'))"
    using assms
    by (auto simp: Yolo26_Detect_Tensor_def sbind_def sget_def slift_def sret_def
        split: prod.splits sum.splits if_splits option.splits)
  then show ?thesis by (auto dest!: detect_loop_inv)
qed

lemma example_call:
  "\<exists>d. fst (Yolo26_Detect_Tensor example_env example_context example_resize example_model [0, 0, 0, 0] 4 (Fin 0) [example_box] 1 yolo_start) =
    Inr (1, d)"
proof -
  have load: "ensure_session example_model yolo_start = (Inr True, loaded_part example_model)"
    "loaded_part example_model = yolo_start\<lparr>ort_env := True, ort_session := True, ort_memory_info := True,
       ort_input_shape := [1, 1, 1, 1], model_channels := 1, model_height := 1, model_width := 1, model_tensor_size := 1,
       model_proposals := 6, model_proposal_elements := 6\<rparr>"
    by (simp_all add: loaded_part_def ensure_session_def load_model_def read_input_shape_def read_output_shape_def tensor_size_def
        is_int64_def size_cast_def example_model_def yolo_start_def sbind_def sguard_def sget_def smodify_def slift_def swhen_def
        stry_def Let_def)
  have "[0..<6] = [0, 1, 2, 3, 4, 5 :: nat]" by (simp add: upt_rec)
  then show ?thesis
    unfolding Yolo26_Detect_Tensor_def sbind_def load(1) prod.case sum.case load(2)
    by (simp add: input_tensor_def run_model_def vector_resize_def size_cast_def sbind_def sget_def
        smodify_def slift_def sret_def num_proposals_def yolo_start_def example_model_def example_output_def read_proposal_def
        proposal_row_def f32_to_int_def trunc_def c_limits corners_def f32_ge_def Let_def)
qed

theorem detect_tensor_hits_witness:
  "\<exists>d g. Yolo26_Detect_Tensor example_env example_context example_resize example_model [0, 0, 0, 0] 4 (Fin 0) [example_box] 1 yolo_start =
      (Inr (1, d), g) \<and> length d = 1 \<and> f32_ge (box_confidence (d ! 0)) (Fin 0)"
proof -
  obtain d g where "Yolo26_Detect_Tensor example_env example_context example_resize example_model [0, 0, 0, 0] 4 (Fin 0) [example_box] 1
      yolo_start = (Inr (1, d), g)"
    using example_call by (metis eq_fst_iff)
  from detect_tensor_hits [OF this] this show ?thesis by auto
qed

text \<open>C36. Invariant of the static variables over every sequence of calls: the model is read once, by the first call of
  \<open>Yolo26_Detect_Tensor\<close>, and the variables that describe it never change afterwards; the tensor buffer is empty or has the size of the model.\<close>

theorem yolo_state_invariant:
  assumes "yolo_reach m g"
  shows "g\<lparr>engine_info_cache := [], input_tensor_values := []\<rparr> =
      (if ort_env g then snd (load_model m (yolo_start\<lparr>ort_env := True\<rparr>)) else yolo_start) \<and>
    (input_tensor_values g = [] \<or> length (input_tensor_values g) = model_tensor_size g)"
  using yolo_reach_inv [OF assms] by (simp add: yolo_inv_def model_part_def loaded_part_def)

theorem yolo_state_invariant_witness:
  "let g = snd (Yolo26_Detect_Tensor example_env (undefined :: unit stbi__context) (\<lambda>d w h u v. d) example_model
       [0, 0, 0, 0] 4 (Fin 0) [example_box] 1 yolo_start)
   in g\<lparr>engine_info_cache := [], input_tensor_values := []\<rparr> =
      (if ort_env g then snd (load_model example_model (yolo_start\<lparr>ort_env := True\<rparr>)) else yolo_start) \<and>
    (input_tensor_values g = [] \<or> length (input_tensor_values g) = model_tensor_size g)"
  unfolding Let_def by (rule yolo_state_invariant, rule yolo_reach.detect, rule yolo_reach.start)

text \<open>C1. Memory safety from the compressed picture to the boxes, for a network that takes pictures of three planes (at most
  \<open>INT_MAX\<close> numbers) and returns an output of the announced size that has the layout the core expects: with fewer rows
  than columns at least four rows; otherwise at least six columns, the sixth holding values of an \<open>int\<close>. In every state
  the core can reach, a call with a PNG picture returns without reading or writing out of bounds and
  without running forever, whatever follows the signature. The theorem takes from the rescaling routine that it stores nothing behind the target
  picture when the picture does not have the size of the network's input and it is called, from the host that its array has room for \<open>maxDetections\<close> boxes, and leaves out the pictures
  that \<open>png_wraps\<close> describes.\<close>

theorem detect_png_safe:
  fixes s :: "unit stbi__context"
  assumes "yolo_reach m g" and "opens_as m w h p e" and "int (max p e) \<le> INT_MAX"
    and "returns_shape m p e" and "readable_output m p e" and "resize_ok env s resize data w h"
    and "take 8 data = png_sig" and "length data < env_fuel env" and "int (length data) \<le> INT_MAX"
    and "\<not> png_wraps (env_fuel env) (env_cfg env) 3 (stbi__start_mem s data)"
    and "maxDetections \<le> int (length detections)"
  shows "fst (Yolo26_Detect_Tensor env s resize m data (int (length data)) threshold detections maxDetections g)
    \<notin> {Inl Undefined, Inl NoReturn}"
proof -
  have "decodes env s data"
    unfolding decodes_def using load_from_memory_png_cases [OF assms(7,8), of 3 s] assms(10)
    by (auto simp: ensures_def regular_def split: sum.splits)
  from wp_ensures [OF wp_detect [OF assms(1-6) this assms(9,11)]] show ?thesis
    by (auto simp: ensures_iff)
qed

text \<open>A network for pictures of one pixel with \<open>p * e\<close> zeros as output.\<close>

definition rgb_model :: "nat \<Rightarrow> nat \<Rightarrow> ort_model" where
  "rgb_model p e = example_model\<lparr>ort_in_shape := Some [1, 3, 1, 1], ort_out_shape := Some [1, int p, int e],
     ort_run := (\<lambda>t shape. Some (replicate (p * e) (Fin 0)))\<rparr>"

lemma rgb_model_opens: "opens_as (rgb_model p e) 1 1 p e"
  by (simp add: opens_as_def rgb_model_def example_model_def INT_MAX_def)

lemma rgb_model_shape: "returns_shape (rgb_model p e) p e"
  by (simp add: returns_shape_def rgb_model_def)

lemma rgb_model_readable:
  assumes "if p < e then 4 \<le> p else 6 \<le> e"
  shows "readable_output (rgb_model p e) p e"
proof (cases "p < e")
  case False
  have "i * e + 5 < p * e" if "i < p" for i
  proof -
    have "Suc i * e \<le> p * e" using that by (intro mult_le_mono1) simp
    then show ?thesis using assms False by simp
  qed
  then show ?thesis
    using assms False by (auto simp: readable_output_def rgb_model_def f32_to_int_def trunc_def c_limits)
qed (use assms in \<open>simp add: readable_output_def\<close>)

theorem detect_png_safe_witness:
  "fst (Yolo26_Detect_Tensor example_env example_context example_resize (rgb_model 300 6) png_sig 8 (Fin 0) [example_box] 1 yolo_start)
    \<notin> {Inl Undefined, Inl NoReturn} \<and>
   fst (Yolo26_Detect_Tensor example_env example_context example_resize (rgb_model 84 8400) png_sig 8 (Fin 0) [example_box] 1 yolo_start)
    \<notin> {Inl Undefined, Inl NoReturn}"
proof -
  have "\<not> png_wraps (env_fuel example_env) (env_cfg example_env) 3 (stbi__start_mem example_context png_sig)"
    by code_simp
  moreover have "resize_ok example_env example_context example_resize png_sig 1 1"
    by (simp add: resize_ok_def example_resize_def)
  ultimately show ?thesis
    using detect_png_safe [OF yolo_reach.start rgb_model_opens _ rgb_model_shape rgb_model_readable, of 300 6
        example_env example_context example_resize png_sig 1 "[example_box]" "Fin 0"]
      detect_png_safe [OF yolo_reach.start rgb_model_opens _ rgb_model_shape rgb_model_readable, of 84 8400
        example_env example_context example_resize png_sig 1 "[example_box]" "Fin 0"]
    by (simp add: example_env_def INT_MAX_def)
qed

text \<open>C39. The layout of the output is not checked: when the network returns rows of fewer than six numbers (and no fewer rows than
  that), a call with a ready tensor and room for all proposals reads behind the output.\<close>

theorem detect_short_rows:
  assumes "yolo_reach m g" and "opens_as m w h p e" and "e < 6" "e \<le> p" "0 < p"
    and "\<And>t shape. \<exists>arr. ort_run m t shape = Some arr \<and> length arr = p * e"
    and "length data = 4 * (3 * (h * w))" and "int (length data) \<le> INT_MAX"
    and "int p \<le> maxDetections" and "maxDetections \<le> int (length detections)"
  shows "fst (Yolo26_Detect_Tensor env s resize m data (int (length data)) threshold detections maxDetections g) = Inl Undefined"
proof -
  obtain g1 where g1: "ensure_session m g = (Inr True, g1)" "model_loaded w h p e g1"
    using ensure_session_ok [OF assms(1,2)] by blast
  define n where "n = 3 * (h * w)"
  have n: "model_tensor_size g1 = n" "length data = 4 * n" using g1(2) assms(7) by (simp_all add: model_loaded_def n_def)
  have "size_cast (int n * 4) = 4 * n" "size_cast (int (length data)) = 4 * n"
    using assms(8) n(2) by (simp_all add: size_cast_id INT_MAX_def nat_mult_distrib)
  moreover obtain v where "vector_resize n (input_tensor_values g1) = Inr v"
    using assms(8) n(2) unfolding vector_resize_def INT_MAX_def by (cases "n = length (input_tensor_values g1)") auto
  ultimately have tensor: "input_tensor env s resize data (int (length data)) g1 =
      (Inr (Some (floats_of_bytes (take (n * 4) data))), g1\<lparr>input_tensor_values := v\<rparr>)"
    using n by (simp add: input_tensor_def sbind_def sget_def slift_def smodify_def sret_def)
  let ?g = "g1\<lparr>input_tensor_values := v\<rparr>"
  obtain arr where arr: "ort_run m (floats_of_bytes (take (n * 4) data)) (ort_input_shape g1) = Some arr" "length arr = p * e"
    using assms(6) by blast
  have loaded: "model_loaded w h p e ?g" using g1(2) by (simp add: model_loaded_def)
  have "nat (num_proposals ?g) = p"
    using loaded assms(4) by (simp add: num_proposals_def model_loaded_def)
  moreover have "[0..<p] = [0..<p - 1] @ [p - 1]" using assms(5) by (cases p) simp_all
  moreover have "detect_loop ?g arr threshold maxDetections ([0..<p - 1] @ [p - 1]) 0 detections = Inl Undefined"
    by (rule detect_loop_reaches [OF short_row_undefined [OF loaded assms(3-5) arr(2)]]) (use assms(5,9,10) in simp_all)
  ultimately have "detect_loop ?g arr threshold maxDetections [0..<nat (num_proposals ?g)] 0 detections = Inl Undefined"
    by simp
  then show ?thesis
    using g1 tensor arr assms(5,9)
    by (simp add: Yolo26_Detect_Tensor_def run_model_def sbind_def sget_def slift_def sret_def model_loaded_def)
qed

theorem detect_short_rows_witness:
  "fst (Yolo26_Detect_Tensor example_env example_context example_resize (rgb_model 300 5) (replicate 12 0) 12 (Fin 1)
    (replicate 300 example_box) 300 yolo_start) = Inl Undefined"
  using detect_short_rows [OF yolo_reach.start rgb_model_opens, of 5 300 "replicate 12 0" 300 "replicate 300 example_box"
      example_env example_context example_resize "Fin 1"]
  by (simp add: rgb_model_def INT_MAX_def)

text \<open>C37. A model that cannot be opened: every call, the first and all later ones, reports no detection and leaves the host's array
  alone; in particular the core does not run a session that was never made.\<close>

theorem detect_without_model:
  assumes "\<not> ort_opens m" and "yolo_reach m g"
  shows "fst (Yolo26_Detect_Tensor env s resize m data len threshold detections maxDetections g) = Inr (0, detections)"
proof (cases "ort_env g")
  case True
  then have "model_part g = loaded_part m" using yolo_reach_inv [OF assms(2)] by (simp add: yolo_inv_def)
  moreover have "\<not> ort_session (loaded_part m)"
    using assms(1) by (simp add: loaded_part_def load_model_def sbind_def sguard_def yolo_start_def)
  ultimately have "\<not> ort_session g" by (metis model_part_session)
  then show ?thesis
    using True by (simp add: Yolo26_Detect_Tensor_def ensure_session_def sbind_def sget_def sret_def)
next
  case False
  then show ?thesis
    using assms(1)
    by (simp add: Yolo26_Detect_Tensor_def ensure_session_def load_model_def stry_def sbind_def sguard_def sget_def smodify_def sret_def)
qed

theorem detect_without_model_witness:
  "fst (Yolo26_Detect_Tensor example_env example_context example_resize (example_model\<lparr>ort_opens := False\<rparr>) [0, 0, 0, 0] 4 (Fin 0)
    [example_box] 1 yolo_start) = Inr (0, [example_box])"
  by (rule detect_without_model [OF _ yolo_reach.start]) (simp add: example_model_def)

text \<open>C38. A flaw in the error handling: when the session has been made and an exception comes after that, the first call
  reports no detection, but the session and the environment stay set, so that the next call with the same arguments does
  not try again. When the memory description could not be made, it dereferences a null pointer. When the shape of
  the input could not be read, it runs the network on an empty tensor of empty shape, and reports no detection
  or fails with the exception of the runtime.\<close>

theorem detect_after_failed_load:
  assumes "ort_opens m" and "\<not> ort_has_memory m \<or> ort_in_shape m = None" and "1 \<le> maxDetections"
  shows "(case Yolo26_Detect_Tensor env s resize m data len threshold detections maxDetections yolo_start of (r, g) \<Rightarrow>
    r = Inr (0, detections) \<and> ort_session g \<and>
    fst (Yolo26_Detect_Tensor env s resize m data len threshold detections maxDetections g) =
      (if \<not> ort_has_memory m then Inl Undefined
       else case ort_run m [] [] of None \<Rightarrow> Inl (Failure ''Ort::Exception'') | Some _ \<Rightarrow> Inr (0, detections)))"
  using assms
  by (auto simp: Yolo26_Detect_Tensor_def ensure_session_def load_model_def read_input_shape_def stry_def sbind_def sguard_def sget_def
      smodify_def sret_def input_tensor_def run_model_def vector_resize_def size_cast_def slift_def sfail_def yolo_start_def
      num_proposals_def split: option.split)

theorem detect_after_failed_load_witness:
  "(case Yolo26_Detect_Tensor example_env example_context example_resize (example_model\<lparr>ort_has_memory := False\<rparr>) [] 0 (Fin 0)
      [example_box] 1 yolo_start of (r, g) \<Rightarrow>
    r = Inr (0, [example_box]) \<and>
    fst (Yolo26_Detect_Tensor example_env example_context example_resize (example_model\<lparr>ort_has_memory := False\<rparr>) [] 0 (Fin 0)
      [example_box] 1 g) = Inl Undefined) \<and>
   (case Yolo26_Detect_Tensor example_env example_context example_resize (example_model\<lparr>ort_in_shape := None\<rparr>) [] 0 (Fin 0)
      [example_box] 1 yolo_start of (r, g) \<Rightarrow>
    r = Inr (0, [example_box]) \<and>
    fst (Yolo26_Detect_Tensor example_env example_context example_resize (example_model\<lparr>ort_in_shape := None\<rparr>) [] 0 (Fin 0)
      [example_box] 1 g) = Inr (0, [example_box]))"
  using detect_after_failed_load [where m = "example_model\<lparr>ort_has_memory := False\<rparr>" and maxDetections = 1 and env = example_env and s = example_context
      and resize = example_resize and data = "[]" and len = 0 and threshold = "Fin 0" and detections = "[example_box]"]
    detect_after_failed_load [where m = "example_model\<lparr>ort_in_shape := None\<rparr>" and maxDetections = 1 and env = example_env and s = example_context
      and resize = example_resize and data = "[]" and len = 0 and threshold = "Fin 0" and detections = "[example_box]"]
  by (simp add: example_model_def split: prod.splits)

end
