(* ===== verification/Spec2Isabelle.thy ===== *)
theory Spec2Isabelle
  imports Stbi_Stdio Stbi_Convert Stbi_Png_Roundtrip Stbi_Pnm_Load Stbi_Gif_Safe Stbi_Jpeg_Facts
    Stbi_Tga_Safe Stbi_Bmp_Masks Stbi_Hdr_Exact Stbi_Pic_Short Stbir_Facts Yolo_Detect
begin

text \<open>
  A verification development for the native image decoder of the repository.

  \<^bold>\<open>The program.\<close> The native side of the repository is a shared library for object
  detection: the host application hands an encoded picture to \<open>src/yolo26_interop.cpp\<close>, which decodes
  it with \<open>src/stb_image.h\<close> and rescales it with \<open>src/stb_image_resize2.h\<close>. The bytes come from cameras and files that nobody
  vouches for, so the decoder is the part that has to be right: it must not leave its buffers, must return, and must
  give back the picture that was encoded. This development models the decoder, the
  filters of the resampler and the interop layer above them.

  \<^bold>\<open>Conventions.\<close> (\<open>Stbi_Prelude\<close>) A C \<open>int\<close> is an \<open>int\<close>; bytes, \<open>stbi__uint16\<close> and
  \<open>stbi__uint32\<close> are words. An array is a list; every access through \<open>arr_get\<close> and \<open>arr_set\<close> is checked, and
  one out of bounds is the value \<open>Undefined\<close>, as is a shift by the width or more, a division by zero and a failed
  \<open>STBI_ASSERT\<close>. A routine that can fail returns \<open>failure + 'a\<close>: \<open>Failure reason\<close> is
  \<open>stbi__err(reason, \<dots>)\<close>. A loop without a bound in the source has fuel and returns \<open>NoReturn\<close> when
  it is used up. A safety theorem states that neither \<open>Undefined\<close> nor \<open>NoReturn\<close> is returned. Memory from
  \<open>malloc\<close> reads as zeros, and a request that passes the size checks succeeds.

  \<^bold>\<open>Parts and theories.\<close>
  \<^item> \<open>Stbi_Alloc\<close>: the size checks \<open>stbi__mad3sizes_valid\<close> and their siblings, and the allocation
    helpers (lines 991-1086). They decide exactly whether the size fits.
  \<^item> \<open>Stbi_Context\<close>, \<open>Stbi_Stdio\<close>, \<open>Stbi_Source\<close>: \<open>stbi__context\<close> and the reading
    routines (805-899, 1597-1730) over memory and callbacks, and the callbacks over \<open>FILE\<close>. The contract of
    callbacks is the locale \<open>io_source\<close>, that of anything a decoder reads from is the locale \<open>byte_source\<close>;
    both are interpreted on the contexts of the source, as are its extensions \<open>whole_source\<close> and \<open>stored_source\<close>.
  \<^item> \<open>Stbi_Config\<close>: the global and per-thread flags.
  \<^item> \<open>Stbi_Convert\<close>: changes of the number of components and of the sample width, and the vertical flip
    (1190-1257, 1746-1855). The offsets of the scanlines are 32-bit products, as in the source.
  \<^item> \<open>Stbi_Zlib\<close> (4088-4604): Huffman tables, bit buffer, blocks, output buffer, entry points.
    \<open>Stbi_Zlib_Huffman\<close> and \<open>Stbi_Zlib_Bits\<close> show that the tables decode the canonical code and that the bit
    reader delivers the input bit by bit; \<open>Stbi_Zlib_Safe\<close> shows that the decoder is safe and returns on all
    input; \<open>Stbi_Zlib_Store\<close> shows the round trip of stored blocks and that a match is the copy of LZ77.
  \<^item> \<open>Stbi_State\<close>: state-passing steps for the decoders and their weakest preconditions.
  \<^item> \<open>Stbi_Png_Image\<close> (4631-5076): rows, filters, bit depths, interlacing, transparency, palettes.
    \<open>Stbi_Png_Rows\<close> shows that the row loop inverts the filters of the specification and succeeds on nothing but
    filtered scanlines, \<open>Stbi_Png_Adam7\<close> that de-interlacing puts every pixel in its place.
  \<^item> \<open>Stbi_Png\<close> (4606-5341): the chunk handlers, the loop over the chunks and the entry points.
    \<open>Stbi_Png_Safe\<close> and \<open>Stbi_Png_Load\<close> show that every handler keeps an invariant of the decoder state, and with
    it the safety of the whole decoder on memory and on files.
  \<^item> \<open>Stbi_Jpeg_Huff\<close>, \<open>Stbi_Jpeg_Block\<close>, \<open>Stbi_Jpeg\<close>, \<open>Stbi_Jpeg_Output\<close> (1938-4078): the
    JPEG decoder, baseline and progressive, with the scalar transform, upsampling and colour conversion.
    \<open>Stbi_Jpeg_Facts\<close> compares its tables and its arithmetic with the standard.
  \<^item> \<open>Stbi_Bmp\<close> (5343-5732), \<open>Stbi_Tga\<close> (5734-6074), \<open>Stbi_Pnm\<close> (7481-7629), \<open>Stbi_Psd\<close>
    (6077-6329, 7357-7419), \<open>Stbi_Pic\<close> (6331-6546, 7422-7478), \<open>Stbi_Gif\<close> (6549-7080), \<open>Stbi_Hdr\<close>
    (7083-7332, 1881-1910) with single-precision numbers in \<open>Stbi_Float\<close>: the other formats.
    \<open>Stbi_Pnm_Load\<close> shows the safety of the PNM decoder and its round trip through the public entry point;
    \<open>Stbi_Gif_Safe\<close> the safety and termination of the GIF decoder for sizes at which the row position of an interlaced
    image cannot overflow, and the overflow at another size; \<open>Stbi_Tga_Safe\<close> the safety of the TGA decoder on memory
    and on files; \<open>Stbi_Bmp_Masks\<close> that the colour masks of a bitmap select and widen the fields they stand for;
    \<open>Stbi_Hdr_Exact\<close> that Radiance pixels are converted exactly and where the PSD matte is undefined;
    \<open>Stbi_Pic_Short\<close> what a PIC file that is cut short leads to.
  \<^item> \<open>Stbi_Load\<close> (1137-1188, 1259-1570, 7632-7760): the dispatcher, the work on the decoded image and every
    entry point on memory, callbacks and files. \<open>Stbi_Load_Png\<close> follows a PNG picture through them, and
    \<open>Stbi_Png_Roundtrip\<close> shows that a picture written as a PNG file comes back unchanged.
  \<^item> \<open>Stbir_Sampler\<close>, \<open>Stbir_Filters\<close>, \<open>Stbir_Extents\<close> (\<open>src/stb_image_resize2.h\<close>, 2890-3692, 3931-4070,
    6570-6881): the filters of the resampler, their coefficients, the treatment of edges and the splits.
    \<open>Stbir_Facts\<close> shows that the filters stay inside the image, that rows of coefficients are maps from pixels to weights, and that the splits
    cover the output, or exactly when their computation reads past the contributors. \<open>Stbi_Float_Exact\<close> has the lemmas on exact rounding.
  \<^item> \<open>Yolo_Interop\<close>: \<open>src/yolo26_interop.cpp\<close>, its global state and its two entry points.
    \<open>Yolo_Detect\<close> shows the safety of a call from the compressed picture to the detections, the selection of the
    detections, the layout of the tensor and an invariant over all sequences of calls.

  \<^bold>\<open>Parameters.\<close> The C library's \<open>pow\<close> and the result of \<open>fopen\<close>; the ONNX runtime; and the routine that
  rescales a picture, because the pixel loops of \<open>src/stb_image_resize2.h\<close> are not modelled. The safety theorem of \<open>Yolo_Detect\<close> assumes of them, by name:
  that the model opens with a three-plane input (\<open>opens_as\<close>), that the runtime returns as many numbers as the model announces
  (\<open>returns_shape\<close>), that this output has the layout the core takes for granted (\<open>readable_output\<close>: at least four rows when there are fewer rows than
  columns, else at least six columns with a class number that converts to an \<open>int\<close> in the sixth), and that the rescaling routine stores nothing behind
  the target picture if it is called for the picture at hand (\<open>resize_ok\<close>). What happens with fewer columns is a theorem of its own. Creating the environment of the runtime and
  the session options, outside the \<open>try\<close> block, is taken to succeed.

  \<^bold>\<open>Fuel.\<close> The loop over PNG chunks gets as many rounds as there are bytes and one more: a round either consumes a
  byte or ends the loop; so do the loops of the PNM header. The loops of the GIF decoder
  get 2304 rounds for each byte, which covers the codes in a byte and the sub-blocks that it announces. The zlib loops over blocks and symbols need no fuel: they
  terminate because each round consumes input or sets the end-of-input flag.

  \<^bold>\<open>Not modelled.\<close> The SSE2 and NEON kernels, which replace the scalar ones modelled here;
  the scanlines of \<open>src/stb_image_resize2.h\<close> (decoding, horizontal and vertical passes, encoding) and its memory layout, whose code is written with
  vector intrinsics; the ONNX runtime, of which the repository has only the headers; the C# host.
\<close>

end
